(* ===== verification/Gateway_Prelude.thy ===== *)
theory Gateway_Prelude
  imports Main "HOL-Library.Word"
begin

text \<open>
  Shared vocabulary of the development: the machine integer types of the firmware as words, the
  big-endian byte encodings both codecs write, C strings in fixed-size \<open>char\<close> arrays, the
  build-time constants of \<open>include/build_config.hpp\<close>, and the short-circuit chain
  (\<open>a && b && c\<close> over calls with side effects) in which the firmware writes its codecs.
  Signed integers are kept as words of their width and read with \<open>sint\<close>; a
  \<open>float\<close> is kept as its 32-bit pattern, which is what the firmware stores and compares.
\<close>

unbundle bit_operations_syntax

type_synonym byte = "8 word"
type_synonym u8 = "8 word"
type_synonym u16 = "16 word"
type_synonym u32 = "32 word"
type_synonym u64 = "64 word"

named_theorems bytes_simps "lengths and round trips of the byte encodings"
named_theorems cstr_simps "C strings and fixed-size character arrays"
named_theorems chain_simps "stepping through short-circuit chains of reads and writes"


section \<open>Build-time constants\<close>

definition kNodeIdCapacity :: nat where "kNodeIdCapacity = 25"
definition kGatewayIdCapacity :: nat where "kGatewayIdCapacity = 49"
definition kRadioPacketCapacity :: nat where "kRadioPacketCapacity = 96"
definition kRecentDedupCapacity :: nat where "kRecentDedupCapacity = 64"
definition kQueueRecordVersion :: u16 where "kQueueRecordVersion = 1"
definition kQueueMagic :: u32 where "kQueueMagic = 0x47545131"
definition kBackendMaximumBatchSize :: nat where "kBackendMaximumBatchSize = 50"
definition kDefaultHeartbeatIntervalSeconds :: u32 where "kDefaultHeartbeatIntervalSeconds = 60"
definition kMinimumHeartbeatIntervalSeconds :: u32 where "kMinimumHeartbeatIntervalSeconds = 15"
definition kMaximumHeartbeatIntervalSeconds :: u32 where "kMaximumHeartbeatIntervalSeconds = 3600"
definition UINT32_MAX :: u32 where "UINT32_MAX = 0xFFFFFFFF"

lemmas capacity_defs =
  kNodeIdCapacity_def kGatewayIdCapacity_def kRadioPacketCapacity_def kRecentDedupCapacity_def
  kBackendMaximumBatchSize_def


section \<open>Words\<close>

lemma unat_of_nat_less: "n < 2 ^ LENGTH('a::len) \<Longrightarrow> unat (of_nat n :: 'a word) = n"
  by (simp add: unat_of_nat)


lemma ucast_byte_inj: "(ucast a :: u32) = ucast b \<longleftrightarrow> a = (b :: byte)"
proof
  assume "(ucast a :: u32) = ucast b"
  then have eq: "bit (ucast a :: u32) n = bit (ucast b :: u32) n" for n by simp
  have "bit a n = bit b n" if "n < 8" for n using eq[of n] that by (simp add: bit_simps)
  then show "a = b" by (intro bit_word_eqI) simp
qed simp


section \<open>Big-endian encodings\<close>

definition be16 :: "u16 \<Rightarrow> byte list" where
  "be16 v = [ucast (drop_bit 8 v), ucast v]"

definition be32 :: "u32 \<Rightarrow> byte list" where
  "be32 v = [ucast (drop_bit 24 v), ucast (drop_bit 16 v), ucast (drop_bit 8 v), ucast v]"

definition be64 :: "u64 \<Rightarrow> byte list" where
  "be64 v = be32 (ucast (drop_bit 32 v)) @ be32 (ucast v)"

definition join16 :: "byte \<Rightarrow> byte \<Rightarrow> u16" where
  "join16 hi lo = push_bit 8 (ucast hi) OR ucast lo"

definition join32 :: "byte \<Rightarrow> byte \<Rightarrow> byte \<Rightarrow> byte \<Rightarrow> u32" where
  "join32 b0 b1 b2 b3 =
     push_bit 24 (ucast b0) OR push_bit 16 (ucast b1) OR push_bit 8 (ucast b2) OR ucast b3"

definition join64 :: "u32 \<Rightarrow> u32 \<Rightarrow> u64" where
  "join64 hi lo = push_bit 32 (ucast hi) OR ucast lo"

lemma length_be [bytes_simps, simp]:
  "length (be16 v) = 2" "length (be32 w) = 4" "length (be64 x) = 8"
  by (simp_all add: be16_def be32_def be64_def)

lemma be_neq_Nil [simp]: "be16 v \<noteq> []" "be32 w \<noteq> []" "be64 x \<noteq> []"
  by (simp_all add: be16_def be32_def be64_def)

lemma join16_be16 [bytes_simps]: "join16 (ucast (drop_bit 8 v)) (ucast v) = v"
proof (rule bit_word_eqI)
  fix n assume "n < LENGTH(16)"
  then show "bit (join16 (ucast (drop_bit 8 v)) (ucast v)) n = bit v n"
    by (cases "n < 8") (auto simp: join16_def bit_simps)
qed

lemma join32_be32 [bytes_simps]:
  "join32 (ucast (drop_bit 24 v)) (ucast (drop_bit 16 v)) (ucast (drop_bit 8 v)) (ucast v) = v"
proof (rule bit_word_eqI)
  fix n assume "n < LENGTH(32)"
  then consider "n < 8" | "8 \<le> n" "n < 16" | "16 \<le> n" "n < 24" | "24 \<le> n" "n < 32" by force
  then show "bit (join32 (ucast (drop_bit 24 v)) (ucast (drop_bit 16 v)) (ucast (drop_bit 8 v))
               (ucast v)) n = bit v n"
    by cases (auto simp: join32_def bit_simps)
qed

lemma join64_be64 [bytes_simps]: "join64 (ucast (drop_bit 32 v)) (ucast v) = v"
proof (rule bit_word_eqI)
  fix n assume "n < LENGTH(64)"
  then show "bit (join64 (ucast (drop_bit 32 v)) (ucast v)) n = bit v n"
    by (cases "n < 32") (auto simp: join64_def bit_simps)
qed

lemma be16_join16 [bytes_simps]: "be16 (join16 a b) = [a, b]"
  unfolding join16_def be16_def
  by (simp; intro conjI; rule bit_word_eqI)
     (auto simp: bit_simps dest: bit_imp_le_length)

lemma be32_join32 [bytes_simps]: "be32 (join32 a b c d) = [a, b, c, d]"
  unfolding join32_def be32_def
  by (simp; intro conjI; rule bit_word_eqI)
     (auto simp: bit_simps dest: bit_imp_le_length)

lemma be64_join64 [bytes_simps]: "be64 (join64 hi lo) = be32 hi @ be32 lo"
proof -
  have "ucast (drop_bit 32 (join64 hi lo)) = hi" "ucast (join64 hi lo) = lo"
    unfolding join64_def
    by (rule bit_word_eqI, auto simp: bit_simps dest: bit_imp_le_length)+
  then show ?thesis by (simp add: be64_def)
qed

text \<open>Any list with enough bytes starts with an encoded field: how a parsed prefix is named.\<close>

lemma be16_split:
  assumes "2 \<le> length bs" shows "\<exists>v rest. bs = be16 v @ rest"
proof -
  obtain a b rest where "bs = a # b # rest"
    using assms by (auto simp: numeral_eq_Suc Suc_le_length_iff)
  then have "bs = be16 (join16 a b) @ rest" by (simp add: be16_join16)
  then show ?thesis by blast
qed

lemma be32_split:
  assumes "4 \<le> length bs" shows "\<exists>v rest. bs = be32 v @ rest"
proof -
  obtain a b c d rest where "bs = a # b # c # d # rest"
    using assms by (auto simp: numeral_eq_Suc Suc_le_length_iff)
  then have "bs = be32 (join32 a b c d) @ rest" by (simp add: be32_join32)
  then show ?thesis by blast
qed

lemma be64_split:
  assumes "8 \<le> length bs" shows "\<exists>v rest. bs = be64 v @ rest"
proof -
  obtain hi rest where hi: "bs = be32 hi @ rest" using be32_split[of bs] assms by auto
  with assms obtain lo rest' where "rest = be32 lo @ rest'" using be32_split[of rest] by auto
  with hi have "bs = be64 (join64 hi lo) @ rest'" by (simp add: be64_join64)
  then show ?thesis by blast
qed

lemma u8_split: "1 \<le> length bs \<Longrightarrow> \<exists>v rest. bs = v # rest"
  by (cases bs) auto

lemma be16_inj [simp]: "be16 v = be16 w \<longleftrightarrow> v = w"
proof
  assume "be16 v = be16 w"
  then have "join16 (ucast (drop_bit 8 v)) (ucast v) = join16 (ucast (drop_bit 8 w)) (ucast w)"
    by (simp add: be16_def)
  then show "v = w" by (simp only: join16_be16)
qed simp

lemma be32_inj [simp]: "be32 v = be32 w \<longleftrightarrow> v = w"
proof
  assume "be32 v = be32 w"
  then have "join32 (ucast (drop_bit 24 v)) (ucast (drop_bit 16 v)) (ucast (drop_bit 8 v)) (ucast v)
      = join32 (ucast (drop_bit 24 w)) (ucast (drop_bit 16 w)) (ucast (drop_bit 8 w)) (ucast w)"
    by (simp add: be32_def)
  then show "v = w" by (simp only: join32_be32)
qed simp

lemma be64_inj [simp]: "be64 v = be64 w \<longleftrightarrow> v = w"
proof
  assume "be64 v = be64 w"
  then have "ucast (drop_bit 32 v) = (ucast (drop_bit 32 w) :: u32)"
       and "ucast v = (ucast w :: u32)" by (simp_all add: be64_def)
  then have "join64 (ucast (drop_bit 32 v)) (ucast v) = join64 (ucast (drop_bit 32 w)) (ucast w)"
    by simp
  then show "v = w" by (simp only: join64_be64)
qed simp


section \<open>Little-endian memory images\<close>

text \<open>How the ESP32 lays integers out in memory: what a struct written to flash byte by byte holds.\<close>

definition le16 :: "u16 \<Rightarrow> byte list" where "le16 v = rev (be16 v)"
definition le32 :: "u32 \<Rightarrow> byte list" where "le32 v = rev (be32 v)"
definition le64 :: "u64 \<Rightarrow> byte list" where "le64 v = rev (be64 v)"

definition le16_at :: "byte list \<Rightarrow> nat \<Rightarrow> u16" where
  "le16_at bs i = join16 (bs ! (i + 1)) (bs ! i)"
definition le32_at :: "byte list \<Rightarrow> nat \<Rightarrow> u32" where
  "le32_at bs i = join32 (bs ! (i + 3)) (bs ! (i + 2)) (bs ! (i + 1)) (bs ! i)"
definition le64_at :: "byte list \<Rightarrow> nat \<Rightarrow> u64" where
  "le64_at bs i = join64 (le32_at bs (i + 4)) (le32_at bs i)"

lemma length_le [bytes_simps, simp]:
  "length (le16 v) = 2" "length (le32 w) = 4" "length (le64 x) = 8"
  by (simp_all add: le16_def le32_def le64_def)

lemma le16_at_image: "length pre = i \<Longrightarrow> le16_at (pre @ le16 v @ rest) i = v"
  by (auto simp: le16_at_def le16_def be16_def nth_append join16_be16)

lemma le32_at_image: "length pre = i \<Longrightarrow> le32_at (pre @ le32 v @ rest) i = v"
  by (auto simp: le32_at_def le32_def be32_def nth_append join32_be32)

lemma le64_at_image: "length pre = i \<Longrightarrow> le64_at (pre @ le64 v @ rest) i = v"
proof -
  assume pre: "length pre = i"
  have le: "le64 v = le32 (ucast v) @ le32 (ucast (drop_bit 32 v))"
    by (simp add: le64_def le32_def be64_def)
  have "le32_at (pre @ le64 v @ rest) i = ucast v"
    using le32_at_image[OF pre, of "ucast v" "le32 (ucast (drop_bit 32 v)) @ rest"] by (simp add: le)
  moreover have "le32_at (pre @ le64 v @ rest) (i + 4) = ucast (drop_bit 32 v)"
    using le32_at_image[of "pre @ le32 (ucast v)" "i + 4" "ucast (drop_bit 32 v)" rest] pre by (simp add: le)
  ultimately show ?thesis by (simp add: le64_at_def join64_be64)
qed


section \<open>C strings in fixed-size arrays\<close>

text \<open>
  A \<open>char\<close> array is the list of its bytes; the C string it holds ends at the first NUL. A
  \<open>const char*\<close> argument that may be null is an \<open>option\<close>; the end of its list counts as the
  terminator, as for the buffer of a \<open>String\<close>.
\<close>

definition cstr :: "byte list \<Rightarrow> byte list" where
  "cstr a = takeWhile (\<lambda>c. c \<noteq> 0) a"

definition strnlen :: "byte list \<Rightarrow> nat \<Rightarrow> nat" where
  "strnlen a n = length (cstr (take n a))"

definition strncpy :: "byte list \<Rightarrow> byte list \<Rightarrow> nat \<Rightarrow> byte list" where
  "strncpy dst src n = take n (cstr src @ replicate n 0) @ drop n dst"

definition strncmp_eq :: "byte list \<Rightarrow> byte list \<Rightarrow> nat \<Rightarrow> bool" where
  "strncmp_eq a b n = (cstr (take n a) = cstr (take n b))"

definition memcpy :: "byte list \<Rightarrow> byte list \<Rightarrow> nat \<Rightarrow> byte list" where
  "memcpy dst src n = take n src @ drop n dst"

text \<open>The bytes of a string literal.\<close>

definition ascii :: "string \<Rightarrow> byte list" where "ascii s = map of_char s"

text \<open>The array of size \<open>n\<close> that holds string \<open>s\<close>, zero-padded: what \<open>strncpy\<close> into a
  zero-initialised array leaves.\<close>

definition char_array :: "nat \<Rightarrow> byte list \<Rightarrow> byte list" where
  "char_array n s = s @ replicate (n - length s) 0"

lemma cstr_no_nul [cstr_simps]: "0 \<notin> set s \<Longrightarrow> cstr s = s"
  unfolding cstr_def takeWhile_eq_all_conv by metis

lemma nul_notin_cstr [simp]: "0 \<notin> set (cstr a)"
  by (auto simp: cstr_def dest: set_takeWhileD)

lemma length_cstr_le [simp]: "length (cstr a) \<le> length a"
  by (simp add: cstr_def length_takeWhile_le)

lemma cstr_append_nul [cstr_simps]: "0 \<notin> set s \<Longrightarrow> cstr (s @ 0 # t) = s"
  using cstr_no_nul[of s] by (simp only: cstr_def takeWhile_tail simp_thms)

lemma cstr_char_array [cstr_simps]: "0 \<notin> set s \<Longrightarrow> cstr (char_array n s) = s"
  by (cases "n - length s") (simp_all add: char_array_def cstr_no_nul cstr_append_nul)

lemma length_char_array [cstr_simps]: "length s \<le> n \<Longrightarrow> length (char_array n s) = n"
  by (simp add: char_array_def)

lemma length_strncpy [simp]: "length dst = m \<Longrightarrow> n \<le> m \<Longrightarrow> length (strncpy dst src n) = m"
  by (simp add: strncpy_def)

lemma take_replicate_append:
  "length s \<le> n \<Longrightarrow> take n (s @ replicate n x) = s @ replicate (n - length s) x"
  by simp

lemma replicate_update_same [simp]: "(replicate n x)[i := x] = replicate n x"
  by (induction n arbitrary: i) (auto split: nat.splits)

lemma strncpy_zeros [cstr_simps]:
  assumes "length (cstr src) < m"
  shows "strncpy (replicate m 0) src (m - 1) = char_array m (cstr src)"
proof -
  have "strncpy (replicate m 0) src (m - 1)
      = cstr src @ replicate (m - 1 - length (cstr src)) 0 @ replicate 1 (0::byte)"
    using assms by (simp add: strncpy_def)
  also have "\<dots> = cstr src @ replicate (m - 1 - length (cstr src) + 1) 0"
    by (simp only: replicate_add)
  also have "m - 1 - length (cstr src) + 1 = m - length (cstr src)" using assms by simp
  also have "cstr src @ replicate (m - length (cstr src)) 0 = char_array m (cstr src)"
    by (simp add: char_array_def)
  finally show ?thesis .
qed

lemma cstr_take_array [cstr_simps]:
  "length a = n \<Longrightarrow> cstr (take n a) = cstr a"
  by simp

lemma strnlen_char_array [cstr_simps]:
  "0 \<notin> set s \<Longrightarrow> length s \<le> n \<Longrightarrow> strnlen (char_array n s) n = length s"
  by (simp add: strnlen_def cstr_simps)

lemma char_array_inj [cstr_simps]:
  assumes "0 \<notin> set s" "0 \<notin> set t"
  shows "char_array n s = char_array n t \<longleftrightarrow> s = t"
  by (metis assms cstr_char_array)


section \<open>Short-circuit chains\<close>

text \<open>
  \<open>!a() || !b() || !c()\<close> runs the calls in order and stops at the first that returns false,
  keeping what the calls before it changed.
\<close>

fun all_ok :: "('s \<Rightarrow> bool \<times> 's) list \<Rightarrow> 's \<Rightarrow> bool \<times> 's" where
  "all_ok [] s = (True, s)"
| "all_ok (a # as) s = (case a s of (True, s') \<Rightarrow> all_ok as s' | (False, s') \<Rightarrow> (False, s'))"

lemma all_ok_append:
  "all_ok (as @ bs) s = (case all_ok as s of (True, s') \<Rightarrow> all_ok bs s' | (False, s') \<Rightarrow> (False, s'))"
  by (induction as arbitrary: s) (auto split: prod.splits bool.splits)

lemma all_ok_step_True [chain_simps]: "a s = (True, s') \<Longrightarrow> all_ok (a # as) s = all_ok as s'"
  by simp

lemma all_ok_step_False [chain_simps]: "a s = (False, s') \<Longrightarrow> all_ok (a # as) s = (False, s')"
  by simp

end
