(* ===== verification/Byte_Cursor.thy ===== *)
theory Byte_Cursor
  imports Gateway_Prelude
begin

text \<open>
  The bounds-checked cursors of the codecs: the \<open>Reader\<close> and \<open>Writer\<close> of
  \<open>lib/protocol/protocol.cpp\<close> (the \<open>Reader\<close> of \<open>lib/queue/queue_record.cpp\<close> is the same
  class with one more operation, \<open>u64\<close>). A cursor holds the whole buffer, its bound and the
  position, as the classes do. The lemmas then describe every call by the bytes before and after
  the position only (\<open>rd_at\<close>, \<open>wr_at\<close>): the result of a call never depends on bytes outside
  the bound, and a call that would cross it fails.
\<close>

section \<open>Reader\<close>

record Reader =
  r_data :: "byte list"
  r_length :: nat
  r_position :: nat

definition Reader_init :: "byte list \<Rightarrow> nat \<Rightarrow> Reader" where
  "Reader_init input len = \<lparr>r_data = input, r_length = len, r_position = 0\<rparr>"

definition reader_u8 :: "Reader \<Rightarrow> byte option \<times> Reader" where
  "reader_u8 r =
     (if r_length r \<le> r_position r then (None, r)
      else (Some (r_data r ! r_position r), r\<lparr>r_position := r_position r + 1\<rparr>))"

definition reader_u16 :: "Reader \<Rightarrow> u16 option \<times> Reader" where
  "reader_u16 r =
     (case reader_u8 r of (None, r1) \<Rightarrow> (None, r1) | (Some hi, r1) \<Rightarrow>
      (case reader_u8 r1 of (None, r2) \<Rightarrow> (None, r2) | (Some lo, r2) \<Rightarrow>
        (Some (join16 hi lo), r2)))"

definition reader_u32 :: "Reader \<Rightarrow> u32 option \<times> Reader" where
  "reader_u32 r =
     (case reader_u8 r of (None, r1) \<Rightarrow> (None, r1) | (Some b0, r1) \<Rightarrow>
      (case reader_u8 r1 of (None, r2) \<Rightarrow> (None, r2) | (Some b1, r2) \<Rightarrow>
      (case reader_u8 r2 of (None, r3) \<Rightarrow> (None, r3) | (Some b2, r3) \<Rightarrow>
      (case reader_u8 r3 of (None, r4) \<Rightarrow> (None, r4) | (Some b3, r4) \<Rightarrow>
        (Some (join32 b0 b1 b2 b3), r4)))))"

definition reader_u64 :: "Reader \<Rightarrow> u64 option \<times> Reader" where
  "reader_u64 r =
     (case reader_u32 r of (None, r1) \<Rightarrow> (None, r1) | (Some hi, r1) \<Rightarrow>
      (case reader_u32 r1 of (None, r2) \<Rightarrow> (None, r2) | (Some lo, r2) \<Rightarrow>
        (Some (join64 hi lo), r2)))"

definition reader_bytes :: "nat \<Rightarrow> Reader \<Rightarrow> byte list option \<times> Reader" where
  "reader_bytes len r =
     (if r_length r < r_position r + len then (None, r)
      else (Some (take len (drop (r_position r) (r_data r))),
            r\<lparr>r_position := r_position r + len\<rparr>))"

definition remaining :: "Reader \<Rightarrow> nat" where
  "remaining r = r_length r - r_position r"

text \<open>A call with an output reference, \<open>reader.u32(p.field)\<close>: on success the field is set.\<close>

definition into ::
  "(Reader \<Rightarrow> 'v option \<times> Reader) \<Rightarrow> ('v \<Rightarrow> 's \<Rightarrow> 's) \<Rightarrow> Reader \<times> 's \<Rightarrow> bool \<times> Reader \<times> 's" where
  "into rd upd = (\<lambda>(r, s). case rd r of (None, r') \<Rightarrow> (False, r', s) | (Some v, r') \<Rightarrow> (True, r', upd v s))"


section \<open>Writer\<close>

record Writer =
  w_data :: "byte list"
  w_capacity :: nat
  w_position :: nat

definition Writer_init :: "byte list \<Rightarrow> nat \<Rightarrow> Writer" where
  "Writer_init output capacity = \<lparr>w_data = output, w_capacity = capacity, w_position = 0\<rparr>"

definition writer_u8 :: "u8 \<Rightarrow> Writer \<Rightarrow> bool \<times> Writer" where
  "writer_u8 v w =
     (if w_capacity w \<le> w_position w then (False, w)
      else (True, w\<lparr>w_data := (w_data w)[w_position w := v], w_position := w_position w + 1\<rparr>))"

definition writer_u16 :: "u16 \<Rightarrow> Writer \<Rightarrow> bool \<times> Writer" where
  "writer_u16 v = all_ok [writer_u8 (ucast (drop_bit 8 v)), writer_u8 (ucast v)]"

definition writer_u32 :: "u32 \<Rightarrow> Writer \<Rightarrow> bool \<times> Writer" where
  "writer_u32 v = all_ok [writer_u8 (ucast (drop_bit 24 v)), writer_u8 (ucast (drop_bit 16 v)),
     writer_u8 (ucast (drop_bit 8 v)), writer_u8 (ucast v)]"

definition writer_bytes :: "byte list \<Rightarrow> nat \<Rightarrow> Writer \<Rightarrow> bool \<times> Writer" where
  "writer_bytes src len w =
     (if w_capacity w < w_position w + len then (False, w)
      else (True, w\<lparr>w_data := take (w_position w) (w_data w) @ take len src
                              @ drop (w_position w + len) (w_data w),
                    w_position := w_position w + len\<rparr>))"


section \<open>What a read depends on\<close>

text \<open>\<open>rd_at beyond consumed unread\<close>: the cursor with \<open>unread\<close> bytes left inside its bound.\<close>

definition rd_at :: "byte list \<Rightarrow> byte list \<Rightarrow> byte list \<Rightarrow> Reader" where
  "rd_at j pre rest = \<lparr>r_data = pre @ rest @ j, r_length = length pre + length rest,
                       r_position = length pre\<rparr>"

lemma Reader_init_rd_at:
  "len \<le> length input \<Longrightarrow> Reader_init input len = rd_at (drop len input) [] (take len input)"
  by (simp add: Reader_init_def rd_at_def)

lemma remaining_rd_at [chain_simps]: "remaining (rd_at j pre rest) = length rest"
  by (simp add: remaining_def rd_at_def)

lemma reader_u8_Cons [chain_simps]:
  "reader_u8 (rd_at j pre (v # rest)) = (Some v, rd_at j (pre @ [v]) rest)"
  by (simp add: reader_u8_def rd_at_def nth_append)

lemma reader_u8_Nil [chain_simps]: "reader_u8 (rd_at j pre []) = (None, rd_at j pre [])"
  by (simp add: reader_u8_def rd_at_def)

lemma reader_u16_be16 [chain_simps]:
  "reader_u16 (rd_at j pre (be16 v @ rest)) = (Some v, rd_at j (pre @ be16 v) rest)"
  by (simp add: be16_def reader_u16_def chain_simps bytes_simps)

lemma reader_u32_be32 [chain_simps]:
  "reader_u32 (rd_at j pre (be32 v @ rest)) = (Some v, rd_at j (pre @ be32 v) rest)"
  by (simp add: be32_def reader_u32_def chain_simps bytes_simps)

lemma reader_u64_be64 [chain_simps]:
  "reader_u64 (rd_at j pre (be64 v @ rest)) = (Some v, rd_at j (pre @ be64 v) rest)"
  by (simp add: be64_def reader_u64_def chain_simps bytes_simps)

lemma reader_bytes_append [chain_simps]:
  "length s = n \<Longrightarrow>
   reader_bytes n (rd_at j pre (s @ rest)) = (Some s, rd_at j (pre @ s) rest)"
  by (simp add: reader_bytes_def rd_at_def)

lemma reader_bytes_short [chain_simps]:
  "length rest < n \<Longrightarrow> reader_bytes n (rd_at j pre rest) = (None, rd_at j pre rest)"
  by (simp add: reader_bytes_def rd_at_def)

lemma into_Some [chain_simps]: "rd r = (Some v, r') \<Longrightarrow> into rd upd (r, s) = (True, r', upd v s)"
  by (simp add: into_def)

lemma into_None [chain_simps]: "rd r = (None, r') \<Longrightarrow> into rd upd (r, s) = (False, r', s)"
  by (simp add: into_def)

text \<open>
  \<open>takes n a\<close>: the step consumes exactly \<open>n\<close> bytes when they are there, and fails otherwise.
\<close>

definition takes :: "nat \<Rightarrow> (Reader \<times> 's \<Rightarrow> bool \<times> Reader \<times> 's) \<Rightarrow> bool" where
  "takes n a \<longleftrightarrow> (\<forall>j pre rest s.
     (n \<le> length rest \<longrightarrow>
        (\<exists>s'. a (rd_at j pre rest, s) = (True, rd_at j (pre @ take n rest) (drop n rest), s'))) \<and>
     (length rest < n \<longrightarrow> \<not> fst (a (rd_at j pre rest, s))))"

lemma takesD:
  "takes n a \<Longrightarrow> n \<le> length rest \<Longrightarrow>
   \<exists>s'. a (rd_at j pre rest, s) = (True, rd_at j (pre @ take n rest) (drop n rest), s')"
  by (simp add: takes_def)

lemma takes_short: "takes n a \<Longrightarrow> length rest < n \<Longrightarrow> \<not> fst (a (rd_at j pre rest, s))"
  by (simp add: takes_def)

lemma reader_u8_short: "length rest < 1 \<Longrightarrow> fst (reader_u8 (rd_at j pre rest)) = None"
  by (simp add: chain_simps)

lemma reader_u16_short: "length rest < 2 \<Longrightarrow> fst (reader_u16 (rd_at j pre rest)) = None"
  by (cases rest) (auto simp: reader_u16_def chain_simps)

lemma reader_u32_short:
  assumes "length rest < 4" shows "fst (reader_u32 (rd_at j pre rest)) = None"
proof -
  consider "rest = []" | a where "rest = [a]" | a b where "rest = [a, b]"
    | a b c where "rest = [a, b, c]"
    using assms by (auto simp: numeral_eq_Suc less_Suc_eq length_Suc_conv)
  then show ?thesis by cases (simp_all add: reader_u32_def chain_simps)
qed

lemma takes_into:
  assumes short: "\<And>j pre rest. length rest < n \<Longrightarrow> fst (rd (rd_at j pre rest)) = None"
    and step: "\<And>j pre s rest. length s = n \<Longrightarrow>
      \<exists>v. rd (rd_at j pre (s @ rest)) = (Some v, rd_at j (pre @ s) rest)"
  shows "takes n (into rd upd)"
proof -
  have "\<exists>s'. into rd upd (rd_at j pre rest, s)
      = (True, rd_at j (pre @ take n rest) (drop n rest), s')" if "n \<le> length rest" for j pre rest s
    using step[of "take n rest" j pre "drop n rest"] that by (auto simp: into_def)
  moreover have "\<not> fst (into rd upd (rd_at j pre rest, s))" if "length rest < n" for j pre rest s
    using short[OF that, of j pre] by (auto simp: into_def split: prod.splits)
  ultimately show ?thesis by (simp add: takes_def)
qed

lemma takes_u8 [intro!]: "takes (Suc 0) (into reader_u8 upd)"
  by (rule takes_into) (auto simp: chain_simps length_Suc_conv)

lemma takes_u16 [intro!]: "takes 2 (into reader_u16 upd)"
proof (rule takes_into)
  fix s rest j pre assume "length (s :: byte list) = 2"
  then obtain v where "s = be16 v" using be16_split[of s] by auto
  then show "\<exists>v. reader_u16 (rd_at j pre (s @ rest)) = (Some v, rd_at j (pre @ s) rest)"
    by (auto simp: chain_simps)
qed (rule reader_u16_short)

lemma takes_u32 [intro!]: "takes 4 (into reader_u32 upd)"
proof (rule takes_into)
  fix s rest j pre assume "length (s :: byte list) = 4"
  then obtain v where "s = be32 v" using be32_split[of s] by auto
  then show "\<exists>v. reader_u32 (rd_at j pre (s @ rest)) = (Some v, rd_at j (pre @ s) rest)"
    by (auto simp: chain_simps)
qed (rule reader_u32_short)

lemma reader_u64_short:
  assumes "length rest < 8" shows "fst (reader_u64 (rd_at j pre rest)) = None"
proof (cases "length rest < 4")
  case True
  then show ?thesis using reader_u32_short[OF True, of j pre]
    by (auto simp: reader_u64_def split: prod.splits)
next
  case False
  then obtain v rest' where v: "rest = be32 v @ rest'" using be32_split[of rest] by auto
  with assms have "fst (reader_u32 (rd_at j (pre @ be32 v) rest')) = None"
    by (intro reader_u32_short) simp
  with v show ?thesis by (auto simp: reader_u64_def chain_simps split: prod.splits)
qed

lemma takes_u64 [intro!]: "takes 8 (into reader_u64 upd)"
proof (rule takes_into)
  fix s rest j pre assume "length (s :: byte list) = 8"
  then obtain v where "s = be64 v" using be64_split[of s] by auto
  then show "\<exists>v. reader_u64 (rd_at j pre (s @ rest)) = (Some v, rd_at j (pre @ s) rest)"
    by (auto simp: chain_simps)
qed (rule reader_u64_short)

text \<open>A chain of reads fails exactly when fewer bytes are left than it needs in total.\<close>

lemma takes_chain:
  assumes "list_all2 takes ns as"
  shows "takes (sum_list ns) (all_ok as)"
  using assms
proof (induction rule: list_all2_induct)
  case Nil
  show ?case by (simp add: takes_def)
next
  case (Cons n ns a as)
  show ?case unfolding takes_def
  proof (intro allI conjI impI)
    fix j pre rest :: "byte list" and s :: 'a
    assume "sum_list (n # ns) \<le> length rest"
    then obtain s' where "a (rd_at j pre rest, s) = (True, rd_at j (pre @ take n rest) (drop n rest), s')"
        and "sum_list ns \<le> length (drop n rest)"
      using Cons.hyps by (fastforce simp: takes_def)
    moreover from this(2) obtain s'' where "all_ok as (rd_at j (pre @ take n rest) (drop n rest), s')
        = (True, rd_at j (pre @ take n rest @ take (sum_list ns) (drop n rest))
             (drop (sum_list ns) (drop n rest)), s'')"
      using takesD[OF Cons.IH, of "drop n rest" j "pre @ take n rest" s'] by auto
    ultimately show "\<exists>s'. all_ok (a # as) (rd_at j pre rest, s)
        = (True, rd_at j (pre @ take (sum_list (n # ns)) rest) (drop (sum_list (n # ns)) rest), s')"
      by (simp add: take_add drop_drop add.commute)
  next
    fix j pre rest :: "byte list" and s :: 'a
    assume short: "length rest < sum_list (n # ns)"
    show "\<not> fst (all_ok (a # as) (rd_at j pre rest, s))"
    proof (cases "n \<le> length rest")
      case True
      then obtain s' where "a (rd_at j pre rest, s) = (True, rd_at j (pre @ take n rest) (drop n rest), s')"
        using Cons.hyps by (fastforce simp: takes_def)
      moreover have "\<not> fst (all_ok as (rd_at j (pre @ take n rest) (drop n rest), s'))"
        using Cons.IH short True by (simp add: takes_def)
      ultimately show ?thesis by simp
    next
      case False
      then have "\<not> fst (a (rd_at j pre rest, s))" using Cons.hyps by (simp add: takes_def)
      then show ?thesis by (auto split: prod.splits bool.splits)
    qed
  qed
qed



section \<open>What a write produces\<close>

text \<open>\<open>wr_at beyond written room\<close>: the cursor that has \<open>written\<close> and can overwrite \<open>room\<close>.\<close>

definition wr_at :: "byte list \<Rightarrow> byte list \<Rightarrow> byte list \<Rightarrow> Writer" where
  "wr_at j pre room = \<lparr>w_data = pre @ room @ j, w_capacity = length pre + length room,
                       w_position = length pre\<rparr>"

lemma Writer_init_wr_at:
  "cap \<le> length output \<Longrightarrow> Writer_init output cap = wr_at (drop cap output) [] (take cap output)"
  by (simp add: Writer_init_def wr_at_def)

text \<open>\<open>emits bs a\<close>: the step appends exactly \<open>bs\<close> when there is room, and fails otherwise.\<close>

definition emits :: "byte list \<Rightarrow> (Writer \<Rightarrow> bool \<times> Writer) \<Rightarrow> bool" where
  "emits bs a \<longleftrightarrow> (\<forall>j pre room.
     (length bs \<le> length room \<longrightarrow>
        a (wr_at j pre room) = (True, wr_at j (pre @ bs) (drop (length bs) room))) \<and>
     (length room < length bs \<longrightarrow> \<not> fst (a (wr_at j pre room))))"

lemma emitsD:
  "emits bs a \<Longrightarrow> length bs \<le> length room \<Longrightarrow>
   a (wr_at j pre room) = (True, wr_at j (pre @ bs) (drop (length bs) room))"
  by (simp add: emits_def)

lemma emits_short: "emits bs a \<Longrightarrow> length room < length bs \<Longrightarrow> \<not> fst (a (wr_at j pre room))"
  by (simp add: emits_def)

lemma emits_init:
  "emits bs a \<Longrightarrow> length bs \<le> cap \<Longrightarrow> cap \<le> length out \<Longrightarrow>
   a (Writer_init out cap)
     = (True, \<lparr>w_data = bs @ drop (length bs) out, w_capacity = cap, w_position = length bs\<rparr>)"
  by (simp add: Writer_init_wr_at emitsD)
     (simp add: wr_at_def drop_take, metis append_take_drop_id drop_drop le_add_diff_inverse2)

lemma emits_init_short:
  "emits bs a \<Longrightarrow> cap < length bs \<Longrightarrow> cap \<le> length out \<Longrightarrow> \<not> fst (a (Writer_init out cap))"
  by (simp add: Writer_init_wr_at emits_short)

lemma emits_u8 [intro!]: "emits [v] (writer_u8 v)"
  by (auto simp: emits_def writer_u8_def wr_at_def Suc_le_length_iff list_update_append)

lemma emits_bytes [intro!]: "length src = len \<Longrightarrow> emits src (writer_bytes src len)"
  by (auto simp: emits_def writer_bytes_def wr_at_def)

lemma emits_Nil [intro!]: "emits [] (all_ok [])"
  by (simp add: emits_def)

lemma emits_Cons:
  assumes "emits b a" "emits bs (all_ok as)"
  shows "emits (b @ bs) (all_ok (a # as))"
  unfolding emits_def
proof (intro allI conjI impI)
  fix j pre room :: "byte list" assume "length (b @ bs) \<le> length room"
  then show "all_ok (a # as) (wr_at j pre room)
      = (True, wr_at j (pre @ b @ bs) (drop (length (b @ bs)) room))"
    using emitsD[OF assms(1), of room j pre] emitsD[OF assms(2), of "drop (length b) room" j "pre @ b"]
    by (simp add: drop_drop add.commute)
next
  fix j pre room :: "byte list" assume short: "length room < length (b @ bs)"
  show "\<not> fst (all_ok (a # as) (wr_at j pre room))"
  proof (cases "length b \<le> length room")
    case True
    then show ?thesis
      using short emitsD[OF assms(1) True, of j pre]
        emits_short[OF assms(2), of "drop (length b) room" j "pre @ b"] by simp
  next
    case False
    then have "\<not> fst (a (wr_at j pre room))" using emits_short[OF assms(1)] by simp
    then show ?thesis by (auto split: prod.splits bool.splits)
  qed
qed

lemma emits_chain: "list_all2 emits bss as \<Longrightarrow> emits (concat bss) (all_ok as)"
  by (induction rule: list_all2_induct) (auto intro: emits_Cons simp del: all_ok.simps)

lemma emits_u16 [intro!]: "emits (be16 v) (writer_u16 v)"
  unfolding writer_u16_def be16_def
  by (rule emits_chain[where bss = "[[_], [_]]", simplified concat.simps append.simps]) auto

lemma emits_u32 [intro!]: "emits (be32 v) (writer_u32 v)"
  unfolding writer_u32_def be32_def
  by (rule emits_chain[where bss = "[[_], [_], [_], [_]]", simplified concat.simps append.simps]) auto

end
