(* ===== verification/Protocol.thy ===== *)
theory Protocol
  imports Byte_Cursor
begin

text \<open>
  LoRa Protocol 3 (\<open>lib/protocol/protocol.hpp\<close>, \<open>protocol.cpp\<close>): the packet structs, the
  message header, and the three encoders and decoders, each call of the source's short-circuit
  chains kept in order. A decoder returns its status together with the packet it was filling, as
  the output reference of the source is left on every path. The lemmas show that each decoder
  accepts exactly the encodings of well-formed packets.
\<close>

section \<open>Message types and enumerations\<close>

definition kMagic0 :: u8 where "kMagic0 = 0x47"
definition kMagic1 :: u8 where "kMagic1 = 0x54"
definition kVersion :: u8 where "kVersion = 3"
definition kAckTimeValid :: u8 where "kAckTimeValid = push_bit 0 1"
definition kDistanceUnavailable :: u32 where "kDistanceUnavailable = UINT32_MAX"
definition kTemperatureUnavailable :: u16 where "kTemperatureUnavailable = 0x8000"
definition kHumidityUnavailable :: u16 where "kHumidityUnavailable = 0xFFFF"
definition kCommonHeaderFixedBytes :: nat where "kCommonHeaderFixedBytes = 5"
definition kReferenceDistancePayloadOffset :: nat where "kReferenceDistancePayloadOffset = 53"
definition kReferenceDistanceBytes :: nat where "kReferenceDistanceBytes = 4"
definition kTelemetryPayloadBytes :: nat where
  "kTelemetryPayloadBytes = kReferenceDistancePayloadOffset + kReferenceDistanceBytes"
definition kAckCommandFixedPayloadBytes :: nat where "kAckCommandFixedPayloadBytes = 19"
definition kCommandResultPayloadBytes :: nat where "kCommandResultPayloadBytes = 15"
definition kMaximumTelemetryPacketBytes :: nat where
  "kMaximumTelemetryPacketBytes =
     kCommonHeaderFixedBytes + (kNodeIdCapacity - 1) + kTelemetryPayloadBytes"

lemmas protocol_size_defs =
  kCommonHeaderFixedBytes_def kReferenceDistancePayloadOffset_def kReferenceDistanceBytes_def
  kTelemetryPayloadBytes_def kAckCommandFixedPayloadBytes_def kCommandResultPayloadBytes_def
  kMaximumTelemetryPacketBytes_def

datatype MessageType = MessageType_kTelemetry | MessageType_kAckCommand | MessageType_kCommandResult

fun MessageType_u8 :: "MessageType \<Rightarrow> u8" where
  "MessageType_u8 MessageType_kTelemetry = 1"
| "MessageType_u8 MessageType_kAckCommand = 2"
| "MessageType_u8 MessageType_kCommandResult = 3"

datatype FilterState = FilterState_kStable | FilterState_kAccepted | FilterState_kVerifyRise
  | FilterState_kVerifyFall | FilterState_kTransientRejected | FilterState_kChangeConfirmed
  | FilterState_kUncertain | FilterState_kInvalid

fun FilterState_u8 :: "FilterState \<Rightarrow> u8" where
  "FilterState_u8 FilterState_kStable = 0"
| "FilterState_u8 FilterState_kAccepted = 1"
| "FilterState_u8 FilterState_kVerifyRise = 2"
| "FilterState_u8 FilterState_kVerifyFall = 3"
| "FilterState_u8 FilterState_kTransientRejected = 4"
| "FilterState_u8 FilterState_kChangeConfirmed = 5"
| "FilterState_u8 FilterState_kUncertain = 6"
| "FilterState_u8 FilterState_kInvalid = 7"

datatype BootReason = BootReason_kRtcTimer | BootReason_kRtcScheduledMaintenance
  | BootReason_kManualButton | BootReason_kMaintenanceReboot | BootReason_kOtaReboot
  | BootReason_kUnknown

fun BootReason_u8 :: "BootReason \<Rightarrow> u8" where
  "BootReason_u8 BootReason_kRtcTimer = 0"
| "BootReason_u8 BootReason_kRtcScheduledMaintenance = 1"
| "BootReason_u8 BootReason_kManualButton = 2"
| "BootReason_u8 BootReason_kMaintenanceReboot = 3"
| "BootReason_u8 BootReason_kOtaReboot = 4"
| "BootReason_u8 BootReason_kUnknown = 5"

datatype RtcState = RtcState_kValid | RtcState_kInvalidVl | RtcState_kUninitialized
  | RtcState_kI2cError

fun RtcState_u8 :: "RtcState \<Rightarrow> u8" where
  "RtcState_u8 RtcState_kValid = 0"
| "RtcState_u8 RtcState_kInvalidVl = 1"
| "RtcState_u8 RtcState_kUninitialized = 2"
| "RtcState_u8 RtcState_kI2cError = 3"

datatype ScheduleState = ScheduleState_kNone | ScheduleState_kPending | ScheduleState_kCompleted
  | ScheduleState_kFailed

fun ScheduleState_u8 :: "ScheduleState \<Rightarrow> u8" where
  "ScheduleState_u8 ScheduleState_kNone = 0"
| "ScheduleState_u8 ScheduleState_kPending = 1"
| "ScheduleState_u8 ScheduleState_kCompleted = 2"
| "ScheduleState_u8 ScheduleState_kFailed = 3"

datatype CommandType = CommandType_kNone | CommandType_kEnterMaintenanceNow
  | CommandType_kScheduleMaintenanceAt | CommandType_kSetPollIntervalMinutes

fun CommandType_u8 :: "CommandType \<Rightarrow> u8" where
  "CommandType_u8 CommandType_kNone = 0"
| "CommandType_u8 CommandType_kEnterMaintenanceNow = 1"
| "CommandType_u8 CommandType_kScheduleMaintenanceAt = 2"
| "CommandType_u8 CommandType_kSetPollIntervalMinutes = 3"

datatype CommandResultCode = CommandResultCode_kApplied | CommandResultCode_kAlreadyApplied
  | CommandResultCode_kInvalidArgument | CommandResultCode_kRtcUnavailable
  | CommandResultCode_kRtcTimeUntrusted | CommandResultCode_kScheduleUnrepresentable
  | CommandResultCode_kStorageError | CommandResultCode_kInternalError | CommandResultCode_kNone

fun CommandResultCode_u8 :: "CommandResultCode \<Rightarrow> u8" where
  "CommandResultCode_u8 CommandResultCode_kApplied = 0"
| "CommandResultCode_u8 CommandResultCode_kAlreadyApplied = 1"
| "CommandResultCode_u8 CommandResultCode_kInvalidArgument = 2"
| "CommandResultCode_u8 CommandResultCode_kRtcUnavailable = 3"
| "CommandResultCode_u8 CommandResultCode_kRtcTimeUntrusted = 4"
| "CommandResultCode_u8 CommandResultCode_kScheduleUnrepresentable = 5"
| "CommandResultCode_u8 CommandResultCode_kStorageError = 6"
| "CommandResultCode_u8 CommandResultCode_kInternalError = 7"
| "CommandResultCode_u8 CommandResultCode_kNone = 0xFF"

datatype DecodeStatus = DecodeStatus_kOk | DecodeStatus_kBufferTooSmall | DecodeStatus_kBadMagic
  | DecodeStatus_kUnsupportedVersion | DecodeStatus_kWrongType | DecodeStatus_kInvalidNodeId
  | DecodeStatus_kInvalidEnum | DecodeStatus_kInvalidFlags | DecodeStatus_kInvalidCommand
  | DecodeStatus_kTrailingData

text \<open>
  \<open>static_cast<E>(v)\<close> of a byte: the enumerator with that code. The source casts only codes it
  has range-checked; for any other byte these functions return the last enumerator of the list.
\<close>

definition enum_cast :: "('e \<Rightarrow> u8) \<Rightarrow> 'e list \<Rightarrow> u8 \<Rightarrow> 'e" where
  "enum_cast code es v = (case filter (\<lambda>e. code e = v) es of e # _ \<Rightarrow> e | [] \<Rightarrow> last es)"

definition FilterState_cast :: "u8 \<Rightarrow> FilterState" where
  "FilterState_cast = enum_cast FilterState_u8
     [FilterState_kStable, FilterState_kAccepted, FilterState_kVerifyRise, FilterState_kVerifyFall,
      FilterState_kTransientRejected, FilterState_kChangeConfirmed, FilterState_kUncertain,
      FilterState_kInvalid]"

definition BootReason_cast :: "u8 \<Rightarrow> BootReason" where
  "BootReason_cast = enum_cast BootReason_u8
     [BootReason_kRtcTimer, BootReason_kRtcScheduledMaintenance, BootReason_kManualButton,
      BootReason_kMaintenanceReboot, BootReason_kOtaReboot, BootReason_kUnknown]"

definition RtcState_cast :: "u8 \<Rightarrow> RtcState" where
  "RtcState_cast = enum_cast RtcState_u8
     [RtcState_kValid, RtcState_kInvalidVl, RtcState_kUninitialized, RtcState_kI2cError]"

definition ScheduleState_cast :: "u8 \<Rightarrow> ScheduleState" where
  "ScheduleState_cast = enum_cast ScheduleState_u8
     [ScheduleState_kNone, ScheduleState_kPending, ScheduleState_kCompleted, ScheduleState_kFailed]"

definition CommandType_cast :: "u8 \<Rightarrow> CommandType" where
  "CommandType_cast = enum_cast CommandType_u8
     [CommandType_kNone, CommandType_kEnterMaintenanceNow, CommandType_kScheduleMaintenanceAt,
      CommandType_kSetPollIntervalMinutes]"

definition CommandResultCode_cast :: "u8 \<Rightarrow> CommandResultCode" where
  "CommandResultCode_cast = enum_cast CommandResultCode_u8
     [CommandResultCode_kApplied, CommandResultCode_kAlreadyApplied,
      CommandResultCode_kInvalidArgument, CommandResultCode_kRtcUnavailable,
      CommandResultCode_kRtcTimeUntrusted, CommandResultCode_kScheduleUnrepresentable,
      CommandResultCode_kStorageError, CommandResultCode_kInternalError, CommandResultCode_kNone]"

lemmas enum_cast_defs =
  enum_cast_def FilterState_cast_def BootReason_cast_def RtcState_cast_def ScheduleState_cast_def
  CommandType_cast_def CommandResultCode_cast_def


section \<open>Packets\<close>

record TelemetryPacket =
  t_nodeId :: "byte list"
  t_persistentSessionId :: u32
  t_sequence :: u32
  t_medianEchoUs :: u32
  t_rawDistanceMm :: u32
  t_acceptedDistanceMm :: u32
  t_madMm :: u16
  t_temperatureCentiC :: u16
  t_humidityCentiPercent :: u16
  t_batteryMv :: u16
  t_validSamples :: u8
  t_totalSamples :: u8
  t_filterState :: FilterState
  t_qualityFlags :: u16
  t_healthFlags :: u16
  t_bootReason :: BootReason
  t_rtcState :: RtcState
  t_rtcUnixTime :: u32
  t_pollIntervalMinutes :: u8
  t_scheduleState :: ScheduleState
  t_scheduledMaintenanceUnix :: u32
  t_lastCommandId :: u32
  t_lastCommandType :: CommandType
  t_lastCommandResult :: CommandResultCode
  t_referenceDistanceMm :: u32

definition TelemetryPacket_init :: TelemetryPacket where
  "TelemetryPacket_init =
    \<lparr>t_nodeId = replicate kNodeIdCapacity 0, t_persistentSessionId = 0, t_sequence = 0,
     t_medianEchoUs = 0, t_rawDistanceMm = kDistanceUnavailable,
     t_acceptedDistanceMm = kDistanceUnavailable, t_madMm = 0,
     t_temperatureCentiC = kTemperatureUnavailable,
     t_humidityCentiPercent = kHumidityUnavailable, t_batteryMv = 0, t_validSamples = 0,
     t_totalSamples = 0, t_filterState = FilterState_kInvalid, t_qualityFlags = 0,
     t_healthFlags = 0, t_bootReason = BootReason_kUnknown,
     t_rtcState = RtcState_kUninitialized, t_rtcUnixTime = 0, t_pollIntervalMinutes = 10,
     t_scheduleState = ScheduleState_kNone, t_scheduledMaintenanceUnix = 0, t_lastCommandId = 0,
     t_lastCommandType = CommandType_kNone, t_lastCommandResult = CommandResultCode_kNone,
     t_referenceDistanceMm = 0\<rparr>"

record AckCommandPacket =
  a_nodeId :: "byte list"
  a_persistentSessionId :: u32
  a_sequence :: u32
  a_gatewayUnixTime :: u32
  a_timeValid :: bool
  a_commandId :: u32
  a_commandType :: CommandType
  a_pollIntervalMinutes :: u8
  a_scheduledMaintenanceUnix :: u32

definition AckCommandPacket_init :: AckCommandPacket where
  "AckCommandPacket_init =
    \<lparr>a_nodeId = replicate kNodeIdCapacity 0, a_persistentSessionId = 0, a_sequence = 0,
     a_gatewayUnixTime = 0, a_timeValid = False, a_commandId = 0,
     a_commandType = CommandType_kNone, a_pollIntervalMinutes = 0,
     a_scheduledMaintenanceUnix = 0\<rparr>"

record CommandResultPacket =
  c_nodeId :: "byte list"
  c_persistentSessionId :: u32
  c_commandId :: u32
  c_commandType :: CommandType
  c_resultCode :: CommandResultCode
  c_effectivePollIntervalMinutes :: u8
  c_scheduledMaintenanceUnix :: u32

definition CommandResultPacket_init :: CommandResultPacket where
  "CommandResultPacket_init =
    \<lparr>c_nodeId = replicate kNodeIdCapacity 0, c_persistentSessionId = 0, c_commandId = 0,
     c_commandType = CommandType_kNone, c_resultCode = CommandResultCode_kInternalError,
     c_effectivePollIntervalMinutes = 0, c_scheduledMaintenanceUnix = 0\<rparr>"


section \<open>Header and validity checks\<close>

definition validNodeByte :: "u8 \<Rightarrow> bool" where
  "validNodeByte v \<longleftrightarrow> (65 \<le> v \<and> v \<le> 90) \<or> (97 \<le> v \<and> v \<le> 122) \<or> (48 \<le> v \<and> v \<le> 57) \<or> v = 45 \<or> v = 95"

definition nodeIdValid :: "byte list option \<Rightarrow> bool" where
  "nodeIdValid nodeId =
     (case nodeId of None \<Rightarrow> False
      | Some s \<Rightarrow>
         let len = strnlen s kNodeIdCapacity in
         if len = 0 \<or> kNodeIdCapacity \<le> len then False
         else list_all validNodeByte (take len s))"

definition writeHeader :: "MessageType \<Rightarrow> byte list \<Rightarrow> Writer \<Rightarrow> bool \<times> Writer" where
  "writeHeader type nodeId w =
     (if \<not> nodeIdValid (Some nodeId) then (False, w)
      else let len = strnlen nodeId kNodeIdCapacity in
        all_ok [writer_u8 kMagic0, writer_u8 kMagic1, writer_u8 kVersion,
          writer_u8 (MessageType_u8 type), writer_u8 (of_nat len), writer_bytes nodeId len] w)"

record HeaderLocals =
  h_m0 :: u8
  h_m1 :: u8
  h_version :: u8
  h_type :: u8
  h_length :: u8

definition headerReads :: "(Reader \<times> HeaderLocals \<Rightarrow> bool \<times> Reader \<times> HeaderLocals) list" where
  "headerReads =
     [into reader_u8 (\<lambda>v. h_m0_update (\<lambda>_. v)), into reader_u8 (\<lambda>v. h_m1_update (\<lambda>_. v)),
     into reader_u8 (\<lambda>v. h_version_update (\<lambda>_. v)), into reader_u8 (\<lambda>v. h_type_update (\<lambda>_. v)),
     into reader_u8 (\<lambda>v. h_length_update (\<lambda>_. v))]"

definition readHeader ::
  "MessageType \<Rightarrow> Reader \<times> byte list \<Rightarrow> DecodeStatus \<times> Reader \<times> byte list" where
  "readHeader expected = (\<lambda>(r, nodeId).
     case all_ok headerReads (r, \<lparr>h_m0 = 0, h_m1 = 0, h_version = 0, h_type = 0, h_length = 0\<rparr>) of
       (False, r1, _) \<Rightarrow> (DecodeStatus_kBufferTooSmall, r1, nodeId)
     | (True, r1, h) \<Rightarrow>
        if h_m0 h \<noteq> kMagic0 \<or> h_m1 h \<noteq> kMagic1 then (DecodeStatus_kBadMagic, r1, nodeId)
        else if h_version h \<noteq> kVersion then (DecodeStatus_kUnsupportedVersion, r1, nodeId)
        else if h_type h \<noteq> MessageType_u8 expected then (DecodeStatus_kWrongType, r1, nodeId)
        else let len = unat (h_length h) in
          if len = 0 \<or> kNodeIdCapacity \<le> len \<or> remaining r1 < len
          then (DecodeStatus_kInvalidNodeId, r1, nodeId)
          else (case into (reader_bytes len) (\<lambda>bs dst. memcpy dst bs len) (r1, nodeId) of
              (False, r2, nodeId') \<Rightarrow> (DecodeStatus_kInvalidNodeId, r2, nodeId')
            | (True, r2, nodeId') \<Rightarrow>
               let nodeId'' = nodeId'[len := 0] in
               if list_all validNodeByte (take len nodeId'') then (DecodeStatus_kOk, r2, nodeId'')
               else (DecodeStatus_kInvalidNodeId, r2, nodeId'')))"

definition validBoot :: "u8 \<Rightarrow> bool" where
  "validBoot v \<longleftrightarrow> v \<le> BootReason_u8 BootReason_kUnknown"
definition validRtc :: "u8 \<Rightarrow> bool" where
  "validRtc v \<longleftrightarrow> v \<le> RtcState_u8 RtcState_kI2cError"
definition validSchedule :: "u8 \<Rightarrow> bool" where
  "validSchedule v \<longleftrightarrow> v \<le> ScheduleState_u8 ScheduleState_kFailed"
definition validCommand :: "u8 \<Rightarrow> bool" where
  "validCommand v \<longleftrightarrow> v \<le> CommandType_u8 CommandType_kSetPollIntervalMinutes"
definition validResult :: "u8 \<Rightarrow> bool \<Rightarrow> bool" where
  "validResult v allowNone \<longleftrightarrow> v \<le> CommandResultCode_u8 CommandResultCode_kInternalError \<or>
     (allowNone \<and> v = CommandResultCode_u8 CommandResultCode_kNone)"

fun commandPayloadLength :: "CommandType \<Rightarrow> u8" where
  "commandPayloadLength CommandType_kNone = 0"
| "commandPayloadLength CommandType_kEnterMaintenanceNow = 0"
| "commandPayloadLength CommandType_kSetPollIntervalMinutes = 1"
| "commandPayloadLength CommandType_kScheduleMaintenanceAt = 4"

definition ackValid :: "AckCommandPacket \<Rightarrow> bool" where
  "ackValid p =
     (if \<not> a_timeValid p \<and> a_gatewayUnixTime p \<noteq> 0 then False
      else if a_commandType p = CommandType_kNone then a_commandId p = 0
      else if a_commandId p = 0 then False
      else if a_commandType p = CommandType_kSetPollIntervalMinutes then 1 \<le> a_pollIntervalMinutes p
      else if a_commandType p = CommandType_kScheduleMaintenanceAt
           then a_scheduledMaintenanceUnix p \<noteq> 0
      else a_commandType p = CommandType_kEnterMaintenanceNow)"


section \<open>Encoders and decoders\<close>

text \<open>An encoder returns its verdict, the output buffer (\<open>None\<close> for a null pointer) and
  \<open>written\<close>; a failing encoder may leave a partial prefix in the buffer.\<close>

definition telemetryWrites :: "TelemetryPacket \<Rightarrow> (Writer \<Rightarrow> bool \<times> Writer) list" where
  "telemetryWrites p =
     [writeHeader MessageType_kTelemetry (t_nodeId p),
     writer_u32 (t_persistentSessionId p), writer_u32 (t_sequence p),
     writer_u32 (t_medianEchoUs p), writer_u32 (t_rawDistanceMm p),
     writer_u32 (t_acceptedDistanceMm p), writer_u16 (t_madMm p),
     writer_u16 (t_temperatureCentiC p),
     writer_u16 (t_humidityCentiPercent p), writer_u16 (t_batteryMv p),
     writer_u8 (t_validSamples p), writer_u8 (t_totalSamples p),
     writer_u8 (FilterState_u8 (t_filterState p)),
     writer_u16 (t_qualityFlags p), writer_u16 (t_healthFlags p),
     writer_u8 (BootReason_u8 (t_bootReason p)),
     writer_u8 (RtcState_u8 (t_rtcState p)), writer_u32 (t_rtcUnixTime p),
     writer_u8 (t_pollIntervalMinutes p),
     writer_u8 (ScheduleState_u8 (t_scheduleState p)),
     writer_u32 (t_scheduledMaintenanceUnix p), writer_u32 (t_lastCommandId p),
     writer_u8 (CommandType_u8 (t_lastCommandType p)),
     writer_u8 (CommandResultCode_u8 (t_lastCommandResult p)),
     writer_u32 (t_referenceDistanceMm p)]"

definition encodeTelemetry ::
  "TelemetryPacket \<Rightarrow> byte list option \<Rightarrow> nat \<Rightarrow> bool \<times> byte list option \<times> nat" where
  "encodeTelemetry p output capacity =
    (case output of None \<Rightarrow> (False, None, 0) | Some out \<Rightarrow>
      if t_pollIntervalMinutes p = 0 then (False, Some out, 0)
      else case all_ok (telemetryWrites p) (Writer_init out capacity) of
          (False, w) \<Rightarrow> (False, Some (w_data w), 0)
        | (True, w) \<Rightarrow> (True, Some (w_data w), w_position w))"

record TelemetryDecode =
  d_packet :: TelemetryPacket
  d_temperature :: u16
  d_filter :: u8
  d_boot :: u8
  d_rtc :: u8
  d_schedule :: u8
  d_command :: u8
  d_result :: u8

definition telemetryReads :: "(Reader \<times> TelemetryDecode \<Rightarrow> bool \<times> Reader \<times> TelemetryDecode) list" where
  "telemetryReads =
     [into reader_u32 (\<lambda>v. d_packet_update (t_persistentSessionId_update (\<lambda>_. v))),
     into reader_u32 (\<lambda>v. d_packet_update (t_sequence_update (\<lambda>_. v))),
     into reader_u32 (\<lambda>v. d_packet_update (t_medianEchoUs_update (\<lambda>_. v))),
     into reader_u32 (\<lambda>v. d_packet_update (t_rawDistanceMm_update (\<lambda>_. v))),
     into reader_u32 (\<lambda>v. d_packet_update (t_acceptedDistanceMm_update (\<lambda>_. v))),
     into reader_u16 (\<lambda>v. d_packet_update (t_madMm_update (\<lambda>_. v))),
     into reader_u16 (\<lambda>v. d_temperature_update (\<lambda>_. v)),
     into reader_u16 (\<lambda>v. d_packet_update (t_humidityCentiPercent_update (\<lambda>_. v))),
     into reader_u16 (\<lambda>v. d_packet_update (t_batteryMv_update (\<lambda>_. v))),
     into reader_u8 (\<lambda>v. d_packet_update (t_validSamples_update (\<lambda>_. v))),
     into reader_u8 (\<lambda>v. d_packet_update (t_totalSamples_update (\<lambda>_. v))),
     into reader_u8 (\<lambda>v. d_filter_update (\<lambda>_. v)),
     into reader_u16 (\<lambda>v. d_packet_update (t_qualityFlags_update (\<lambda>_. v))),
     into reader_u16 (\<lambda>v. d_packet_update (t_healthFlags_update (\<lambda>_. v))),
     into reader_u8 (\<lambda>v. d_boot_update (\<lambda>_. v)),
     into reader_u8 (\<lambda>v. d_rtc_update (\<lambda>_. v)),
     into reader_u32 (\<lambda>v. d_packet_update (t_rtcUnixTime_update (\<lambda>_. v))),
     into reader_u8 (\<lambda>v. d_packet_update (t_pollIntervalMinutes_update (\<lambda>_. v))),
     into reader_u8 (\<lambda>v. d_schedule_update (\<lambda>_. v)),
     into reader_u32 (\<lambda>v. d_packet_update (t_scheduledMaintenanceUnix_update (\<lambda>_. v))),
     into reader_u32 (\<lambda>v. d_packet_update (t_lastCommandId_update (\<lambda>_. v))),
     into reader_u8 (\<lambda>v. d_command_update (\<lambda>_. v)),
     into reader_u8 (\<lambda>v. d_result_update (\<lambda>_. v)),
     into reader_u32 (\<lambda>v. d_packet_update (t_referenceDistanceMm_update (\<lambda>_. v)))]"

definition decodeTelemetry ::
  "byte list option \<Rightarrow> nat \<Rightarrow> TelemetryPacket \<Rightarrow> DecodeStatus \<times> TelemetryPacket" where
  "decodeTelemetry input len p0 =
    (case input of None \<Rightarrow> (DecodeStatus_kBufferTooSmall, p0) | Some bytes \<Rightarrow>
      let p = TelemetryPacket_init in
      case readHeader MessageType_kTelemetry (Reader_init bytes len, t_nodeId p) of (status, r, nodeId) \<Rightarrow>
      let p = p\<lparr>t_nodeId := nodeId\<rparr> in
      if status \<noteq> DecodeStatus_kOk then (status, p)
      else case all_ok telemetryReads (r, \<lparr>d_packet = p, d_temperature = 0, d_filter = 0, d_boot = 0, d_rtc = 0, d_schedule = 0,
             d_command = 0, d_result = 0\<rparr>) of
          (False, _, d) \<Rightarrow> (DecodeStatus_kBufferTooSmall, d_packet d)
        | (True, r, d) \<Rightarrow>
           let p = d_packet d in
           if FilterState_u8 FilterState_kInvalid < d_filter d \<or> \<not> validBoot (d_boot d) \<or>
              \<not> validRtc (d_rtc d) \<or> \<not> validSchedule (d_schedule d) \<or> \<not> validCommand (d_command d) \<or>
              \<not> validResult (d_result d) True \<or> t_pollIntervalMinutes p = 0
           then (DecodeStatus_kInvalidEnum, p)
           else if (d_rtc d \<noteq> RtcState_u8 RtcState_kValid \<and> t_rtcUnixTime p \<noteq> 0) \<or>
                   (d_schedule d = ScheduleState_u8 ScheduleState_kNone \<and>
                      t_scheduledMaintenanceUnix p \<noteq> 0) \<or>
                   (d_command d = CommandType_u8 CommandType_kNone \<and> t_lastCommandId p \<noteq> 0)
           then (DecodeStatus_kInvalidFlags, p)
           else let p = p\<lparr>t_temperatureCentiC := d_temperature d,
                          t_filterState := FilterState_cast (d_filter d),
                          t_bootReason := BootReason_cast (d_boot d),
                          t_rtcState := RtcState_cast (d_rtc d),
                          t_scheduleState := ScheduleState_cast (d_schedule d),
                          t_lastCommandType := CommandType_cast (d_command d),
                          t_lastCommandResult := CommandResultCode_cast (d_result d)\<rparr> in
             (if remaining r = 0 then DecodeStatus_kOk else DecodeStatus_kTrailingData, p))"

definition ackWrites :: "AckCommandPacket \<Rightarrow> (Writer \<Rightarrow> bool \<times> Writer) list" where
  "ackWrites p =
     [writeHeader MessageType_kAckCommand (a_nodeId p),
     writer_u32 (a_persistentSessionId p), writer_u32 (a_sequence p),
     writer_u32 (a_gatewayUnixTime p), writer_u8 (if a_timeValid p then kAckTimeValid else 0),
     writer_u32 (a_commandId p), writer_u8 (CommandType_u8 (a_commandType p)),
     writer_u8 (commandPayloadLength (a_commandType p))]
     @ (if a_commandType p = CommandType_kSetPollIntervalMinutes
     then [writer_u8 (a_pollIntervalMinutes p)] else [])
     @ (if a_commandType p = CommandType_kScheduleMaintenanceAt
     then [writer_u32 (a_scheduledMaintenanceUnix p)] else [])"

definition encodeAckCommand ::
  "AckCommandPacket \<Rightarrow> byte list option \<Rightarrow> nat \<Rightarrow> bool \<times> byte list option \<times> nat" where
  "encodeAckCommand p output capacity =
    (case output of None \<Rightarrow> (False, None, 0) | Some out \<Rightarrow>
      if \<not> ackValid p then (False, Some out, 0)
      else case all_ok (ackWrites p) (Writer_init out capacity) of
          (False, w) \<Rightarrow> (False, Some (w_data w), 0)
        | (True, w) \<Rightarrow> (True, Some (w_data w), w_position w))"

record AckDecode =
  k_packet :: AckCommandPacket
  k_flags :: u8
  k_command :: u8
  k_payloadLength :: u8

definition ackReads :: "(Reader \<times> AckDecode \<Rightarrow> bool \<times> Reader \<times> AckDecode) list" where
  "ackReads =
     [into reader_u32 (\<lambda>v. k_packet_update (a_persistentSessionId_update (\<lambda>_. v))),
     into reader_u32 (\<lambda>v. k_packet_update (a_sequence_update (\<lambda>_. v))),
     into reader_u32 (\<lambda>v. k_packet_update (a_gatewayUnixTime_update (\<lambda>_. v))),
     into reader_u8 (\<lambda>v. k_flags_update (\<lambda>_. v)),
     into reader_u32 (\<lambda>v. k_packet_update (a_commandId_update (\<lambda>_. v))),
     into reader_u8 (\<lambda>v. k_command_update (\<lambda>_. v)),
     into reader_u8 (\<lambda>v. k_payloadLength_update (\<lambda>_. v))]"

definition decodeAckCommand ::
  "byte list option \<Rightarrow> nat \<Rightarrow> AckCommandPacket \<Rightarrow> DecodeStatus \<times> AckCommandPacket" where
  "decodeAckCommand input len p0 =
    (case input of None \<Rightarrow> (DecodeStatus_kBufferTooSmall, p0) | Some bytes \<Rightarrow>
      let p = AckCommandPacket_init in
      case readHeader MessageType_kAckCommand (Reader_init bytes len, a_nodeId p) of (status, r, nodeId) \<Rightarrow>
      let p = p\<lparr>a_nodeId := nodeId\<rparr> in
      if status \<noteq> DecodeStatus_kOk then (status, p)
      else case all_ok ackReads (r, \<lparr>k_packet = p, k_flags = 0, k_command = 0, k_payloadLength = 0\<rparr>) of
          (False, _, d) \<Rightarrow> (DecodeStatus_kBufferTooSmall, k_packet d)
        | (True, r, d) \<Rightarrow>
           if k_flags d AND NOT kAckTimeValid \<noteq> 0 then (DecodeStatus_kInvalidFlags, k_packet d)
           else if \<not> validCommand (k_command d) then (DecodeStatus_kInvalidCommand, k_packet d)
           else let p = (k_packet d)\<lparr>a_timeValid := (k_flags d AND kAckTimeValid \<noteq> 0),
                                     a_commandType := CommandType_cast (k_command d)\<rparr> in
           if k_payloadLength d \<noteq> commandPayloadLength (a_commandType p)
           then (DecodeStatus_kInvalidCommand, p)
           else case (if a_commandType p = CommandType_kSetPollIntervalMinutes
                      then into reader_u8 (\<lambda>v. a_pollIntervalMinutes_update (\<lambda>_. v)) (r, p)
                      else (True, r, p)) of
               (False, _, p) \<Rightarrow> (DecodeStatus_kBufferTooSmall, p)
             | (True, r, p) \<Rightarrow>
           (case (if a_commandType p = CommandType_kScheduleMaintenanceAt
                  then into reader_u32 (\<lambda>v. a_scheduledMaintenanceUnix_update (\<lambda>_. v)) (r, p)
                  else (True, r, p)) of
               (False, _, p) \<Rightarrow> (DecodeStatus_kBufferTooSmall, p)
             | (True, r, p) \<Rightarrow>
               if \<not> ackValid p then (DecodeStatus_kInvalidCommand, p)
               else (if remaining r = 0 then DecodeStatus_kOk else DecodeStatus_kTrailingData, p)))"

definition commandResultWrites :: "CommandResultPacket \<Rightarrow> (Writer \<Rightarrow> bool \<times> Writer) list" where
  "commandResultWrites p =
     [writeHeader MessageType_kCommandResult (c_nodeId p),
     writer_u32 (c_persistentSessionId p), writer_u32 (c_commandId p),
     writer_u8 (CommandType_u8 (c_commandType p)),
     writer_u8 (CommandResultCode_u8 (c_resultCode p)),
     writer_u8 (c_effectivePollIntervalMinutes p),
     writer_u32 (c_scheduledMaintenanceUnix p)]"

definition encodeCommandResult ::
  "CommandResultPacket \<Rightarrow> byte list option \<Rightarrow> nat \<Rightarrow> bool \<times> byte list option \<times> nat" where
  "encodeCommandResult p output capacity =
    (case output of None \<Rightarrow> (False, None, 0) | Some out \<Rightarrow>
      if c_commandId p = 0 \<or> c_commandType p = CommandType_kNone \<or>
         \<not> validResult (CommandResultCode_u8 (c_resultCode p)) False then (False, Some out, 0)
      else case all_ok (commandResultWrites p) (Writer_init out capacity) of
          (False, w) \<Rightarrow> (False, Some (w_data w), 0)
        | (True, w) \<Rightarrow> (True, Some (w_data w), w_position w))"

record CommandResultDecode =
  m_packet :: CommandResultPacket
  m_command :: u8
  m_result :: u8

definition commandResultReads :: "(Reader \<times> CommandResultDecode \<Rightarrow> bool \<times> Reader \<times> CommandResultDecode) list" where
  "commandResultReads =
     [into reader_u32 (\<lambda>v. m_packet_update (c_persistentSessionId_update (\<lambda>_. v))),
     into reader_u32 (\<lambda>v. m_packet_update (c_commandId_update (\<lambda>_. v))),
     into reader_u8 (\<lambda>v. m_command_update (\<lambda>_. v)),
     into reader_u8 (\<lambda>v. m_result_update (\<lambda>_. v)),
     into reader_u8 (\<lambda>v. m_packet_update (c_effectivePollIntervalMinutes_update (\<lambda>_. v))),
     into reader_u32 (\<lambda>v. m_packet_update (c_scheduledMaintenanceUnix_update (\<lambda>_. v)))]"

definition decodeCommandResult ::
  "byte list option \<Rightarrow> nat \<Rightarrow> CommandResultPacket \<Rightarrow> DecodeStatus \<times> CommandResultPacket" where
  "decodeCommandResult input len p0 =
    (case input of None \<Rightarrow> (DecodeStatus_kBufferTooSmall, p0) | Some bytes \<Rightarrow>
      let p = CommandResultPacket_init in
      case readHeader MessageType_kCommandResult (Reader_init bytes len, c_nodeId p) of (status, r, nodeId) \<Rightarrow>
      let p = p\<lparr>c_nodeId := nodeId\<rparr> in
      if status \<noteq> DecodeStatus_kOk then (status, p)
      else case all_ok commandResultReads (r, \<lparr>m_packet = p, m_command = 0, m_result = 0\<rparr>) of
          (False, _, d) \<Rightarrow> (DecodeStatus_kBufferTooSmall, m_packet d)
        | (True, r, d) \<Rightarrow>
           let p = m_packet d in
           if \<not> validCommand (m_command d) \<or> m_command d = 0 \<or> \<not> validResult (m_result d) False \<or>
              c_commandId p = 0
           then (DecodeStatus_kInvalidCommand, p)
           else let p = p\<lparr>c_commandType := CommandType_cast (m_command d),
                          c_resultCode := CommandResultCode_cast (m_result d)\<rparr> in
             (if remaining r = 0 then DecodeStatus_kOk else DecodeStatus_kTrailingData, p))"

definition makeAck :: "TelemetryPacket \<Rightarrow> u32 \<Rightarrow> bool \<Rightarrow> AckCommandPacket" where
  "makeAck telemetry gatewayUnix timeValid =
     AckCommandPacket_init
      \<lparr>a_nodeId := strncpy (a_nodeId AckCommandPacket_init) (t_nodeId telemetry) (kNodeIdCapacity - 1),
       a_persistentSessionId := t_persistentSessionId telemetry,
       a_sequence := t_sequence telemetry,
       a_gatewayUnixTime := (if timeValid then gatewayUnix else 0),
       a_timeValid := timeValid\<rparr>"

definition ackMatches :: "AckCommandPacket \<Rightarrow> TelemetryPacket \<Rightarrow> bool" where
  "ackMatches ack telemetry \<longleftrightarrow>
     strncmp_eq (a_nodeId ack) (t_nodeId telemetry) kNodeIdCapacity \<and>
     a_persistentSessionId ack = t_persistentSessionId telemetry \<and>
     a_sequence ack = t_sequence telemetry"

section \<open>Names\<close>

text \<open>The names under which logs, the dashboard and the backend see the enumerations.\<close>

fun decodeStatusName :: "DecodeStatus \<Rightarrow> string" where
  "decodeStatusName DecodeStatus_kOk = ''OK''"
| "decodeStatusName DecodeStatus_kBufferTooSmall = ''BUFFER_TOO_SMALL''"
| "decodeStatusName DecodeStatus_kBadMagic = ''BAD_MAGIC''"
| "decodeStatusName DecodeStatus_kUnsupportedVersion = ''UNSUPPORTED_VERSION''"
| "decodeStatusName DecodeStatus_kWrongType = ''WRONG_TYPE''"
| "decodeStatusName DecodeStatus_kInvalidNodeId = ''INVALID_NODE_ID''"
| "decodeStatusName DecodeStatus_kInvalidEnum = ''INVALID_ENUM''"
| "decodeStatusName DecodeStatus_kInvalidFlags = ''INVALID_FLAGS''"
| "decodeStatusName DecodeStatus_kInvalidCommand = ''INVALID_COMMAND''"
| "decodeStatusName DecodeStatus_kTrailingData = ''TRAILING_DATA''"

fun filterStateName :: "FilterState \<Rightarrow> string" where
  "filterStateName FilterState_kStable = ''STABLE''"
| "filterStateName FilterState_kAccepted = ''ACCEPTED''"
| "filterStateName FilterState_kVerifyRise = ''VERIFY_RISE''"
| "filterStateName FilterState_kVerifyFall = ''VERIFY_FALL''"
| "filterStateName FilterState_kTransientRejected = ''TRANSIENT_REJECTED''"
| "filterStateName FilterState_kChangeConfirmed = ''CHANGE_CONFIRMED''"
| "filterStateName FilterState_kUncertain = ''UNCERTAIN''"
| "filterStateName FilterState_kInvalid = ''INVALID''"

fun bootReasonName :: "BootReason \<Rightarrow> string" where
  "bootReasonName BootReason_kRtcTimer = ''RTC_TIMER''"
| "bootReasonName BootReason_kRtcScheduledMaintenance = ''RTC_SCHEDULED_MAINTENANCE''"
| "bootReasonName BootReason_kManualButton = ''MANUAL_BUTTON''"
| "bootReasonName BootReason_kMaintenanceReboot = ''MAINTENANCE_REBOOT''"
| "bootReasonName BootReason_kOtaReboot = ''OTA_REBOOT''"
| "bootReasonName BootReason_kUnknown = ''UNKNOWN''"

fun rtcStateName :: "RtcState \<Rightarrow> string" where
  "rtcStateName RtcState_kValid = ''VALID''"
| "rtcStateName RtcState_kInvalidVl = ''INVALID_VL''"
| "rtcStateName RtcState_kUninitialized = ''UNINITIALIZED''"
| "rtcStateName RtcState_kI2cError = ''I2C_ERROR''"

fun scheduleStateName :: "ScheduleState \<Rightarrow> string" where
  "scheduleStateName ScheduleState_kNone = ''NONE''"
| "scheduleStateName ScheduleState_kPending = ''PENDING''"
| "scheduleStateName ScheduleState_kCompleted = ''COMPLETED''"
| "scheduleStateName ScheduleState_kFailed = ''FAILED''"

fun commandTypeName :: "CommandType \<Rightarrow> string" where
  "commandTypeName CommandType_kNone = ''NONE''"
| "commandTypeName CommandType_kEnterMaintenanceNow = ''ENTER_MAINTENANCE_NOW''"
| "commandTypeName CommandType_kScheduleMaintenanceAt = ''SCHEDULE_MAINTENANCE_AT''"
| "commandTypeName CommandType_kSetPollIntervalMinutes = ''SET_POLL_INTERVAL_MINUTES''"

fun commandResultName :: "CommandResultCode \<Rightarrow> string" where
  "commandResultName CommandResultCode_kApplied = ''APPLIED''"
| "commandResultName CommandResultCode_kAlreadyApplied = ''ALREADY_APPLIED''"
| "commandResultName CommandResultCode_kInvalidArgument = ''INVALID_ARGUMENT''"
| "commandResultName CommandResultCode_kRtcUnavailable = ''RTC_UNAVAILABLE''"
| "commandResultName CommandResultCode_kRtcTimeUntrusted = ''RTC_TIME_UNTRUSTED''"
| "commandResultName CommandResultCode_kScheduleUnrepresentable = ''SCHEDULE_UNREPRESENTABLE''"
| "commandResultName CommandResultCode_kStorageError = ''STORAGE_ERROR''"
| "commandResultName CommandResultCode_kInternalError = ''INTERNAL_ERROR''"
| "commandResultName CommandResultCode_kNone = ''NONE''"

end
