(* ===== verification/Protocol_Telemetry.thy ===== *)
theory Protocol_Telemetry
  imports Protocol
begin

text \<open>
  Correctness of the header and of the telemetry codec of \<open>lib/protocol/protocol.cpp\<close>. The
  canonical encoding of a packet (\<open>telemetry_bytes\<close>) and the predicate on packets the decoder can
  return (\<open>telemetry_wf\<close>) are the specification; the lemmas show that the encoder produces the
  canonical encoding and that the decoder accepts nothing else.
\<close>

section \<open>Lemmas on enumerations and node identifiers\<close>

lemma byte_le_cases:
  fixes v :: u8
  shows "v \<le> 3 \<Longrightarrow> v = 0 \<or> v = 1 \<or> v = 2 \<or> v = 3"
    and "v \<le> 5 \<Longrightarrow> v = 0 \<or> v = 1 \<or> v = 2 \<or> v = 3 \<or> v = 4 \<or> v = 5"
    and "v \<le> 7 \<Longrightarrow> v = 0 \<or> v = 1 \<or> v = 2 \<or> v = 3 \<or> v = 4 \<or> v = 5 \<or> v = 6 \<or> v = 7"
  by (unat_arith; auto simp: unat_arith_simps)+

lemma enum_codes:
  "\<not> 7 < FilterState_u8 x" "validBoot (BootReason_u8 b)" "validRtc (RtcState_u8 r)"
  "validSchedule (ScheduleState_u8 s)" "validCommand (CommandType_u8 c)"
  "validResult (CommandResultCode_u8 k) True"
  "validResult (CommandResultCode_u8 k) False \<longleftrightarrow> k \<noteq> CommandResultCode_kNone"
  subgoal by (cases x) simp_all
  subgoal by (cases b) (simp_all add: validBoot_def)
  subgoal by (cases r) (simp_all add: validRtc_def)
  subgoal by (cases s) (simp_all add: validSchedule_def)
  subgoal by (cases c) (simp_all add: validCommand_def)
  subgoal by (cases k) (simp_all add: validResult_def)
  subgoal by (cases k) (simp_all add: validResult_def)
  done

lemma enum_cast_code [simp]:
  "FilterState_cast (FilterState_u8 x) = x" "BootReason_cast (BootReason_u8 b) = b"
  "RtcState_cast (RtcState_u8 r) = r" "ScheduleState_cast (ScheduleState_u8 s) = s"
  "CommandType_cast (CommandType_u8 c) = c" "CommandResultCode_cast (CommandResultCode_u8 k) = k"
  subgoal by (cases x) (simp_all add: enum_cast_defs)
  subgoal by (cases b) (simp_all add: enum_cast_defs)
  subgoal by (cases r) (simp_all add: enum_cast_defs)
  subgoal by (cases s) (simp_all add: enum_cast_defs)
  subgoal by (cases c) (simp_all add: enum_cast_defs)
  subgoal by (cases k) (simp_all add: enum_cast_defs)
  done

lemma enum_code_cast [simp]:
  "v \<le> 7 \<Longrightarrow> FilterState_u8 (FilterState_cast v) = v"
  "validBoot v \<Longrightarrow> BootReason_u8 (BootReason_cast v) = v"
  "validRtc v \<Longrightarrow> RtcState_u8 (RtcState_cast v) = v"
  "validSchedule v \<Longrightarrow> ScheduleState_u8 (ScheduleState_cast v) = v"
  "validCommand v \<Longrightarrow> CommandType_u8 (CommandType_cast v) = v"
  "validResult v b \<Longrightarrow> CommandResultCode_u8 (CommandResultCode_cast v) = v"
  by (auto simp: enum_cast_defs validBoot_def validRtc_def validSchedule_def validCommand_def
        validResult_def dest!: byte_le_cases)

lemma enum_code_eq [simp]:
  "RtcState_u8 r = 0 \<longleftrightarrow> r = RtcState_kValid"
  "ScheduleState_u8 s = 0 \<longleftrightarrow> s = ScheduleState_kNone"
  "CommandType_u8 c = 0 \<longleftrightarrow> c = CommandType_kNone"
  subgoal by (cases r) simp_all
  subgoal by (cases s) simp_all
  subgoal by (cases c) simp_all
  done

text \<open>A node identifier: 1 to 24 bytes of \<open>[A-Za-z0-9_-]\<close>.\<close>

definition node_name :: "byte list \<Rightarrow> bool" where
  "node_name s \<longleftrightarrow> s \<noteq> [] \<and> length s < kNodeIdCapacity \<and> list_all validNodeByte s"

lemma validNodeByte_nul [simp]: "\<not> validNodeByte 0"
  by (simp add: validNodeByte_def)

lemma node_name_nul: "node_name s \<Longrightarrow> 0 \<notin> set s"
  by (auto simp: node_name_def list_all_iff)

lemma take_strnlen: "take (strnlen a n) a = cstr (take n a)"
proof -
  have "cstr (take n a) = take (length (cstr (take n a))) (take n a)"
    unfolding cstr_def by (metis takeWhile_eq_take)
  moreover have "length (cstr (take n a)) \<le> n"
    using length_cstr_le[of "take n a"] by simp
  ultimately show ?thesis by (simp add: strnlen_def min_absorb2)
qed

lemma nodeIdValid_iff: "nodeIdValid (Some a) \<longleftrightarrow> node_name (cstr (take kNodeIdCapacity a))"
  unfolding nodeIdValid_def node_name_def
  by (auto simp: take_strnlen Let_def) (auto simp: strnlen_def)

lemma nodeIdValid_char_array [simp]:
  "node_name s \<Longrightarrow> nodeIdValid (Some (char_array kNodeIdCapacity s))"
  using node_name_nul[of s]
  by (simp add: nodeIdValid_iff node_name_def cstr_simps)

section \<open>The header\<close>

definition header_bytes :: "MessageType \<Rightarrow> byte list \<Rightarrow> byte list" where
  "header_bytes type name =
     [kMagic0, kMagic1, kVersion, MessageType_u8 type, of_nat (length name)] @ name"

lemma length_header [simp]: "length (header_bytes type name) = 5 + length name"
  by (simp add: header_bytes_def)

lemma emits_writeHeader:
  assumes "nodeIdValid (Some a)"
  shows "emits (header_bytes type (cstr (take kNodeIdCapacity a))) (writeHeader type a)"
proof -
  let ?n = "strnlen a kNodeIdCapacity"
  have bytes: "emits (take ?n a) (writer_bytes a ?n)"
  proof -
    have "writer_bytes a ?n = writer_bytes (take ?n a) ?n" by (rule ext) (simp add: writer_bytes_def)
    moreover have "length (take ?n a) = ?n" unfolding take_strnlen by (simp add: strnlen_def)
    ultimately show ?thesis by (auto simp del: length_take)
  qed
  have "emits (concat [[kMagic0], [kMagic1], [kVersion], [MessageType_u8 type], [of_nat ?n], take ?n a])
          (all_ok [writer_u8 kMagic0, writer_u8 kMagic1, writer_u8 kVersion,
             writer_u8 (MessageType_u8 type), writer_u8 (of_nat ?n), writer_bytes a ?n])"
    by (rule emits_chain) (auto intro: bytes)
  moreover have "writeHeader type a = all_ok [writer_u8 kMagic0, writer_u8 kMagic1,
      writer_u8 kVersion, writer_u8 (MessageType_u8 type), writer_u8 (of_nat ?n), writer_bytes a ?n]"
    using assms by (simp add: fun_eq_iff writeHeader_def Let_def)
  ultimately show ?thesis
    by (simp add: header_bytes_def take_strnlen del: all_ok.simps) (simp add: strnlen_def)
qed

lemma readHeader_accepts:
  assumes "node_name name"
  shows "readHeader type (rd_at j pre (header_bytes type name @ rest), replicate kNodeIdCapacity 0)
       = (DecodeStatus_kOk, rd_at j (pre @ header_bytes type name) rest, char_array kNodeIdCapacity name)"
proof -
  have len: "unat (of_nat (length name) :: u8) = length name"
    using assms by (simp add: node_name_def unat_of_nat capacity_defs)
  have arr: "(memcpy (replicate kNodeIdCapacity 0) name (length name))[length name := 0]
      = char_array kNodeIdCapacity name"
    using assms by (simp add: memcpy_def char_array_def node_name_def list_update_append)
  have nm: "name \<noteq> []" "length name < kNodeIdCapacity" "list_all validNodeByte name"
    using assms by (simp_all add: node_name_def)
  then have ok: "list_all validNodeByte (take (length name) (char_array kNodeIdCapacity name))"
    by (simp add: char_array_def)
  show ?thesis using nm
    by (simp add: readHeader_def headerReads_def header_bytes_def chain_simps len arr ok Let_def) (simp add: memcpy_def)
qed

text \<open>Conversely, an accepted header is the encoding of the node identifier it returns.\<close>

lemma readHeader_sound:
  assumes "readHeader type (rd_at j pre bs, replicate kNodeIdCapacity 0) = (DecodeStatus_kOk, r, a)"
  obtains name rest where "node_name name" "bs = header_bytes type name @ rest"
    "r = rd_at j (pre @ header_bytes type name) rest" "a = char_array kNodeIdCapacity name"
proof -
  have "5 \<le> length bs"
  proof (rule ccontr)
    assume "\<not> 5 \<le> length bs"
    then have "\<not> fst (all_ok headerReads
        (rd_at j pre bs, \<lparr>h_m0 = 0, h_m1 = 0, h_version = 0, h_type = 0, h_length = 0\<rparr>))"
      unfolding headerReads_def
      by (intro takes_short[OF takes_chain[where ns = "[1, 1, 1, 1, 1]"]]) auto
    with assms show False
      by (auto simp: readHeader_def simp del: all_ok.simps split: prod.splits bool.splits)
  qed
  then obtain m0 m1 v ty n tail where bs: "bs = m0 # m1 # v # ty # n # tail"
    by (auto simp: numeral_eq_Suc Suc_le_length_iff)
  let ?n = "unat n"
  have hdr: "m0 = kMagic0" "m1 = kMagic1" "v = kVersion" "ty = MessageType_u8 type"
      "?n \<noteq> 0" "?n < kNodeIdCapacity" "?n \<le> length tail"
    using assms by (auto simp: readHeader_def headerReads_def bs chain_simps Let_def split: if_splits)
  define name rest where "name = take ?n tail" and "rest = drop ?n tail"
  have tail: "tail = name @ rest" and len: "length name = ?n"
    using hdr by (simp_all add: name_def rest_def)
  have "list_all validNodeByte (take ?n ((memcpy (replicate kNodeIdCapacity 0) name ?n)[?n := 0]))"
    using assms hdr by (auto simp: readHeader_def headerReads_def bs tail chain_simps Let_def len split: if_splits)
  then have "list_all validNodeByte name" using hdr len by (simp add: memcpy_def list_update_append)
  with hdr len have nm: "node_name name" by (auto simp: node_name_def)
  moreover have "bs = header_bytes type name @ rest"
    unfolding header_bytes_def len using hdr(1-4) by (simp add: bs tail)
  ultimately show ?thesis using assms that readHeader_accepts[OF nm, of type j pre rest] by auto
qed


section \<open>Telemetry\<close>

definition telemetry_payload :: "TelemetryPacket \<Rightarrow> byte list" where
  "telemetry_payload p =
     be32 (t_persistentSessionId p) @ be32 (t_sequence p) @ be32 (t_medianEchoUs p) @
     be32 (t_rawDistanceMm p) @ be32 (t_acceptedDistanceMm p) @ be16 (t_madMm p) @
     be16 (t_temperatureCentiC p) @ be16 (t_humidityCentiPercent p) @ be16 (t_batteryMv p) @
     [t_validSamples p, t_totalSamples p, FilterState_u8 (t_filterState p)] @
     be16 (t_qualityFlags p) @ be16 (t_healthFlags p) @
     [BootReason_u8 (t_bootReason p), RtcState_u8 (t_rtcState p)] @ be32 (t_rtcUnixTime p) @
     [t_pollIntervalMinutes p, ScheduleState_u8 (t_scheduleState p)] @
     be32 (t_scheduledMaintenanceUnix p) @ be32 (t_lastCommandId p) @
     [CommandType_u8 (t_lastCommandType p), CommandResultCode_u8 (t_lastCommandResult p)] @
     be32 (t_referenceDistanceMm p)"

definition telemetry_bytes :: "TelemetryPacket \<Rightarrow> byte list" where
  "telemetry_bytes p = header_bytes MessageType_kTelemetry (cstr (t_nodeId p)) @ telemetry_payload p"

text \<open>What the decoder guarantees of a packet it accepts.\<close>

definition telemetry_wf :: "TelemetryPacket \<Rightarrow> bool" where
  "telemetry_wf p \<longleftrightarrow>
     node_name (cstr (t_nodeId p)) \<and> t_nodeId p = char_array kNodeIdCapacity (cstr (t_nodeId p)) \<and>
     t_pollIntervalMinutes p \<noteq> 0 \<and>
     (t_rtcState p = RtcState_kValid \<or> t_rtcUnixTime p = 0) \<and>
     (t_scheduleState p = ScheduleState_kNone \<longrightarrow> t_scheduledMaintenanceUnix p = 0) \<and>
     (t_lastCommandType p = CommandType_kNone \<longrightarrow> t_lastCommandId p = 0)"

lemma length_telemetry_payload [simp]: "length (telemetry_payload p) = 57"
  by (simp add: telemetry_payload_def)

lemma length_telemetry_bytes: "length (telemetry_bytes p) = 62 + length (cstr (t_nodeId p))"
  by (simp add: telemetry_bytes_def)

lemma telemetry_reads_need: "takes 57 (all_ok telemetryReads)"
proof -
  have "takes (sum_list [4,4,4,4,4,2,2,2,2,1,1,1,2,2,1,1,4,1,1,4,4,1,1,4]) (all_ok telemetryReads)"
    unfolding telemetryReads_def by (rule takes_chain) auto
  then show ?thesis by simp
qed

lemma telemetry_payload_surj:
  assumes "57 \<le> length bs"
  obtains ses seq med raw acc mad tmp hum bat vs ts fil qf hf boot rtc rtcu poll sch schu lid lct
    lcr ref rest where "bs = be32 ses @ be32 seq @ be32 med @ be32 raw @ be32 acc @ be16 mad @ be16 tmp @ be16 hum @
      be16 bat @ vs # ts # fil # (be16 qf @ be16 hf @ boot # rtc # (be32 rtcu @ poll # sch #
      (be32 schu @ be32 lid @ lct # lcr # (be32 ref @ rest))))"
proof -
  obtain ses b1 where 1: "bs = be32 ses @ b1" using be32_split[of bs] assms by auto
  obtain seq b2 where 2: "b1 = be32 seq @ b2" using be32_split[of b1] assms 1 by auto
  obtain med b3 where 3: "b2 = be32 med @ b3" using be32_split[of b2] assms 1 2 by auto
  obtain raw b4 where 4: "b3 = be32 raw @ b4" using be32_split[of b3] assms 1 2 3 by auto
  obtain acc b5 where 5: "b4 = be32 acc @ b5" using be32_split[of b4] assms 1 2 3 4 by auto
  note l5 = assms[unfolded 1 2 3 4 5, simplified]
  obtain mad b6 where 6: "b5 = be16 mad @ b6" using be16_split[of b5] l5 by auto
  obtain tmp b7 where 7: "b6 = be16 tmp @ b7" using be16_split[of b6] l5 6 by auto
  obtain hum b8 where 8: "b7 = be16 hum @ b8" using be16_split[of b7] l5 6 7 by auto
  obtain bat b9 where 9: "b8 = be16 bat @ b9" using be16_split[of b8] l5 6 7 8 by auto
  note l9 = l5[unfolded 6 7 8 9, simplified]
  obtain vs ts fil b10 where 10: "b9 = vs # ts # fil # b10"
    using l9 by (auto simp: numeral_eq_Suc Suc_le_length_iff)
  obtain qf b11 where 11: "b10 = be16 qf @ b11" using be16_split[of b10] l9 10 by auto
  obtain hf b12 where 12: "b11 = be16 hf @ b12" using be16_split[of b11] l9 10 11 by auto
  obtain boot rtc b13 where 13: "b12 = boot # rtc # b13"
    using l9[unfolded 10 11 12] by (auto simp: numeral_eq_Suc Suc_le_length_iff)
  note l13 = l9[unfolded 10 11 12 13, simplified]
  obtain rtcu b14 where 14: "b13 = be32 rtcu @ b14" using be32_split[of b13] l13 by auto
  obtain poll sch b15 where 15: "b14 = poll # sch # b15"
    using l13[unfolded 14] by (auto simp: numeral_eq_Suc Suc_le_length_iff)
  note l15 = l13[unfolded 14 15, simplified]
  obtain schu b16 where 16: "b15 = be32 schu @ b16" using be32_split[of b15] l15 by auto
  obtain lid b17 where 17: "b16 = be32 lid @ b17" using be32_split[of b16] l15 16 by auto
  obtain lct lcr b18 where 18: "b17 = lct # lcr # b18"
    using l15[unfolded 16 17] by (auto simp: numeral_eq_Suc Suc_le_length_iff)
  obtain ref rest where 19: "b18 = be32 ref @ rest"
    using be32_split[of b18] l15[unfolded 16 17 18] by auto
  show ?thesis
    by (rule that) (simp only: 1 2 3 4 5 6 7 8 9 10 11 12 13 14 15 16 17 18 19)
qed

text \<open>The decoder on a header followed by the 24 payload fields and any further bytes.\<close>

lemma decodeTelemetry_fields:
  assumes "node_name name" "len \<le> length input"
    and "take len input = header_bytes MessageType_kTelemetry name @
      be32 ses @ be32 seq @ be32 med @ be32 raw @ be32 acc @ be16 mad @ be16 tmp @ be16 hum @
      be16 bat @ vs # ts # fil # (be16 qf @ be16 hf @ boot # rtc # (be32 rtcu @ poll # sch #
      (be32 schu @ be32 lid @ lct # lcr # (be32 ref @ rest))))"
  shows "decodeTelemetry (Some input) len p0 =
     (let p = TelemetryPacket_init\<lparr>t_nodeId := char_array kNodeIdCapacity name,
            t_persistentSessionId := ses, t_sequence := seq, t_medianEchoUs := med,
            t_rawDistanceMm := raw, t_acceptedDistanceMm := acc, t_madMm := mad,
            t_humidityCentiPercent := hum, t_batteryMv := bat, t_validSamples := vs,
            t_totalSamples := ts, t_qualityFlags := qf, t_healthFlags := hf, t_rtcUnixTime := rtcu,
            t_pollIntervalMinutes := poll, t_scheduledMaintenanceUnix := schu,
            t_lastCommandId := lid, t_referenceDistanceMm := ref\<rparr> in
      if 7 < fil \<or> \<not> validBoot boot \<or> \<not> validRtc rtc \<or> \<not> validSchedule sch \<or>
         \<not> validCommand lct \<or> \<not> validResult lcr True \<or> poll = 0
      then (DecodeStatus_kInvalidEnum, p)
      else if (rtc \<noteq> 0 \<and> rtcu \<noteq> 0) \<or> (sch = 0 \<and> schu \<noteq> 0) \<or> (lct = 0 \<and> lid \<noteq> 0)
      then (DecodeStatus_kInvalidFlags, p)
      else (if rest = [] then DecodeStatus_kOk else DecodeStatus_kTrailingData,
            p\<lparr>t_temperatureCentiC := tmp, t_filterState := FilterState_cast fil,
              t_bootReason := BootReason_cast boot, t_rtcState := RtcState_cast rtc,
              t_scheduleState := ScheduleState_cast sch, t_lastCommandType := CommandType_cast lct,
              t_lastCommandResult := CommandResultCode_cast lcr\<rparr>))"
  using assms(2) readHeader_accepts[OF assms(1), of MessageType_kTelemetry "drop len input" "[]"]
  by (simp add: decodeTelemetry_def Reader_init_rd_at assms(3) TelemetryPacket_init_def
        telemetryReads_def chain_simps Let_def)

lemma decodeTelemetry_accepts:
  assumes "telemetry_wf p" "len \<le> length input" "take len input = telemetry_bytes p"
  shows "decodeTelemetry (Some input) len p0 = (DecodeStatus_kOk, p)"
  using decodeTelemetry_fields[of "cstr (t_nodeId p)" len input, where rest = "[]"] assms
  by (cases p) (auto simp: telemetry_wf_def telemetry_bytes_def telemetry_payload_def
      TelemetryPacket_init_def Let_def enum_codes)

lemma decodeTelemetry_sound:
  assumes "decodeTelemetry (Some input) len p0 = (DecodeStatus_kOk, p)" "len \<le> length input"
  shows "telemetry_wf p \<and> take len input = telemetry_bytes p"
proof -
  obtain r a where rd: "readHeader MessageType_kTelemetry
      (rd_at (drop len input) [] (take len input), replicate kNodeIdCapacity 0) = (DecodeStatus_kOk, r, a)"
    using assms by (auto simp: decodeTelemetry_def Reader_init_rd_at TelemetryPacket_init_def Let_def
        split: prod.splits if_splits)
  then obtain name bs where hdr: "node_name name"
      "take len input = header_bytes MessageType_kTelemetry name @ bs"
      "r = rd_at (drop len input) (header_bytes MessageType_kTelemetry name) bs"
    by (rule readHeader_sound) auto
  have "57 \<le> length bs"
  proof (rule ccontr)
    assume "\<not> 57 \<le> length bs"
    then have "\<not> fst (all_ok telemetryReads (r, d))" for d
      unfolding hdr using takes_short[OF telemetry_reads_need] by simp
    with assms rd show False
      by (auto simp: decodeTelemetry_def Reader_init_rd_at TelemetryPacket_init_def Let_def
          split: prod.splits bool.splits) (metis fst_conv)
  qed
  then obtain ses seq med raw acc mad tmp hum bat vs ts fil qf hf boot rtc rtcu poll sch schu lid lct
    lcr ref rest where bs: "bs = be32 ses @ be32 seq @ be32 med @ be32 raw @ be32 acc @ be16 mad @
      be16 tmp @ be16 hum @ be16 bat @ vs # ts # fil # (be16 qf @ be16 hf @ boot # rtc # (be32 rtcu @
      poll # sch # (be32 schu @ be32 lid @ lct # lcr # (be32 ref @ rest))))"
    by (rule telemetry_payload_surj)
  note dec = decodeTelemetry_fields[OF hdr(1) assms(2) hdr(2)[unfolded bs], of p0]
  have nm: "cstr (char_array kNodeIdCapacity name) = name"
    by (rule cstr_char_array) (rule node_name_nul[OF hdr(1)])
  from assms(1)[unfolded dec Let_def]
  have ok: "fil \<le> 7" "validBoot boot" "validRtc rtc" "validSchedule sch" "validCommand lct"
      "validResult lcr True" "poll \<noteq> 0" "rtc = 0 \<or> rtcu = 0" "sch = 0 \<longrightarrow> schu = 0"
      "lct = 0 \<longrightarrow> lid = 0" "rest = []"
    by (simp_all add: not_less split: if_splits)
  then have p: "p = TelemetryPacket_init\<lparr>t_nodeId := char_array kNodeIdCapacity name,
            t_persistentSessionId := ses, t_sequence := seq, t_medianEchoUs := med,
            t_rawDistanceMm := raw, t_acceptedDistanceMm := acc, t_madMm := mad,
            t_humidityCentiPercent := hum, t_batteryMv := bat, t_validSamples := vs,
            t_totalSamples := ts, t_qualityFlags := qf, t_healthFlags := hf, t_rtcUnixTime := rtcu,
            t_pollIntervalMinutes := poll, t_scheduledMaintenanceUnix := schu,
            t_lastCommandId := lid, t_referenceDistanceMm := ref,
            t_temperatureCentiC := tmp, t_filterState := FilterState_cast fil,
            t_bootReason := BootReason_cast boot, t_rtcState := RtcState_cast rtc,
            t_scheduleState := ScheduleState_cast sch, t_lastCommandType := CommandType_cast lct,
            t_lastCommandResult := CommandResultCode_cast lcr\<rparr>"
    using assms(1)[unfolded dec Let_def] by (simp add: not_less split: if_splits)
  have codes: "RtcState_cast rtc = RtcState_kValid \<longleftrightarrow> rtc = 0"
      "ScheduleState_cast sch = ScheduleState_kNone \<longleftrightarrow> sch = 0"
      "CommandType_cast lct = CommandType_kNone \<longleftrightarrow> lct = 0"
    using ok(3-5) enum_code_eq(1)[of "RtcState_cast rtc"] enum_code_eq(2)[of "ScheduleState_cast sch"]
      enum_code_eq(3)[of "CommandType_cast lct"]
    by simp_all
  show ?thesis
    unfolding telemetry_wf_def telemetry_bytes_def telemetry_payload_def hdr(2) bs p
    using ok hdr(1) by (simp add: nm codes)
qed

lemma emits_telemetry:
  assumes "nodeIdValid (Some (t_nodeId p))"
  shows "emits (header_bytes MessageType_kTelemetry (cstr (take kNodeIdCapacity (t_nodeId p))) @
      telemetry_payload p) (all_ok (telemetryWrites p))"
proof -
  have "emits (concat
     [header_bytes MessageType_kTelemetry (cstr (take kNodeIdCapacity (t_nodeId p))),
      be32 (t_persistentSessionId p), be32 (t_sequence p), be32 (t_medianEchoUs p),
      be32 (t_rawDistanceMm p), be32 (t_acceptedDistanceMm p), be16 (t_madMm p),
      be16 (t_temperatureCentiC p), be16 (t_humidityCentiPercent p), be16 (t_batteryMv p),
      [t_validSamples p], [t_totalSamples p], [FilterState_u8 (t_filterState p)],
      be16 (t_qualityFlags p), be16 (t_healthFlags p), [BootReason_u8 (t_bootReason p)],
      [RtcState_u8 (t_rtcState p)], be32 (t_rtcUnixTime p), [t_pollIntervalMinutes p],
      [ScheduleState_u8 (t_scheduleState p)], be32 (t_scheduledMaintenanceUnix p),
      be32 (t_lastCommandId p), [CommandType_u8 (t_lastCommandType p)],
      [CommandResultCode_u8 (t_lastCommandResult p)], be32 (t_referenceDistanceMm p)])
    (all_ok (telemetryWrites p))"
    unfolding telemetryWrites_def
    by (rule emits_chain) (auto intro: emits_writeHeader[OF assms])
  then show ?thesis by (simp add: telemetry_payload_def)
qed

lemma encodeTelemetry_ok:
  assumes "telemetry_wf p" "length (telemetry_bytes p) \<le> cap" "cap \<le> length out"
  shows "encodeTelemetry p (Some out) cap =
    (True, Some (telemetry_bytes p @ drop (length (telemetry_bytes p)) out), length (telemetry_bytes p))"
proof -
  let ?s = "cstr (t_nodeId p)"
  have node: "cstr (take kNodeIdCapacity (t_nodeId p)) = ?s" "nodeIdValid (Some (t_nodeId p))"
    using assms(1) length_char_array[of ?s kNodeIdCapacity]
    by (auto simp: telemetry_wf_def nodeIdValid_iff node_name_def)
  have "emits (telemetry_bytes p) (all_ok (telemetryWrites p))"
    using emits_telemetry[OF node(2)] by (simp add: node(1) telemetry_bytes_def)
  from emits_init[OF this assms(2,3)] show ?thesis
    using assms(1) by (simp add: encodeTelemetry_def telemetry_wf_def del: all_ok.simps)
qed




lemma encodeTelemetry_no_room:
  assumes "telemetry_wf p" "cap < length (telemetry_bytes p)" "cap \<le> length out"
  shows "fst (encodeTelemetry p (Some out) cap) = False \<and> snd (snd (encodeTelemetry p (Some out) cap)) = 0"
proof -
  let ?s = "cstr (t_nodeId p)"
  have node: "cstr (take kNodeIdCapacity (t_nodeId p)) = ?s" "nodeIdValid (Some (t_nodeId p))"
    using assms(1) length_char_array[of ?s kNodeIdCapacity]
    by (auto simp: telemetry_wf_def nodeIdValid_iff node_name_def)
  have "emits (telemetry_bytes p) (all_ok (telemetryWrites p))"
    using emits_telemetry[OF node(2)] by (simp add: node(1) telemetry_bytes_def)
  from emits_init_short[OF this assms(2,3)] show ?thesis
    by (simp add: encodeTelemetry_def prod.case_eq_if del: all_ok.simps)
qed

text \<open>The header reader on a frame cut inside the header.\<close>

lemma readHeader_cut:
  assumes "node_name name" "k < 5 + length name"
  shows "fst (readHeader type (rd_at j [] (take k (header_bytes type name)), a))
       = (if k < 5 then DecodeStatus_kBufferTooSmall else DecodeStatus_kInvalidNodeId)"
proof (cases "k < 5")
  case True
  then have "\<not> fst (all_ok headerReads
      (rd_at j [] (take k (header_bytes type name)), \<lparr>h_m0 = 0, h_m1 = 0, h_version = 0, h_type = 0, h_length = 0\<rparr>))"
    unfolding headerReads_def
    by (intro takes_short[OF takes_chain[where ns = "[1, 1, 1, 1, 1]"]]) auto
  then show ?thesis using True
    by (auto simp: readHeader_def simp del: all_ok.simps split: prod.splits bool.splits)
next
  case False
  define m where "m = k - 5"
  with False have m: "k = Suc (Suc (Suc (Suc (Suc m))))" by simp
  have len: "unat (of_nat (length name) :: u8) = length name"
    using assms by (simp add: node_name_def unat_of_nat capacity_defs)
  show ?thesis using assms False
    by (simp add: readHeader_def headerReads_def header_bytes_def m chain_simps len Let_def node_name_def)
qed

lemma telemetry_cut:
  assumes "telemetry_wf p" and k: "k < length (telemetry_bytes p)"
  shows "fst (decodeTelemetry (Some (telemetry_bytes p)) k p0) =
      (if 5 \<le> k \<and> k < 5 + length (cstr (t_nodeId p)) then DecodeStatus_kInvalidNodeId
       else DecodeStatus_kBufferTooSmall)"
proof -
  let ?s = "cstr (t_nodeId p)"
  have nm: "node_name ?s" using assms(1) by (simp add: telemetry_wf_def)
  show ?thesis
  proof (cases "k < 5 + length ?s")
    case True
    have "take k (telemetry_bytes p) = take k (header_bytes MessageType_kTelemetry ?s)"
      using True by (simp add: telemetry_bytes_def)
    then show ?thesis using readHeader_cut[OF nm True, of MessageType_kTelemetry "drop k (telemetry_bytes p)"] k True
      by (simp add: decodeTelemetry_def Reader_init_rd_at TelemetryPacket_init_def Let_def
          prod.case_eq_if split: if_splits)
  next
    case False
    let ?rest = "take (k - (5 + length ?s)) (telemetry_payload p)"
    have "\<not> fst (all_ok telemetryReads (rd_at j pre ?rest, d))" for j pre d
      using k False by (intro takes_short[OF telemetry_reads_need]) (simp add: length_telemetry_bytes)
    moreover have "take k (telemetry_bytes p) = header_bytes MessageType_kTelemetry ?s @ ?rest"
      using False by (simp add: telemetry_bytes_def)
    ultimately show ?thesis
      using readHeader_accepts[OF nm, of MessageType_kTelemetry "drop k (telemetry_bytes p)" "[]" ?rest] k False
      by (simp add: decodeTelemetry_def Reader_init_rd_at TelemetryPacket_init_def Let_def prod.case_eq_if)
  qed
qed

lemma telemetry_extended:
  assumes "telemetry_wf p" "junk \<noteq> []"
  shows "decodeTelemetry (Some (telemetry_bytes p @ junk)) (length (telemetry_bytes p @ junk)) p0
      = (DecodeStatus_kTrailingData, p)"
  using decodeTelemetry_fields[of "cstr (t_nodeId p)" "length (telemetry_bytes p @ junk)"
        "telemetry_bytes p @ junk", where rest = junk] assms
  by (cases p) (auto simp: telemetry_wf_def telemetry_bytes_def telemetry_payload_def
        TelemetryPacket_init_def Let_def enum_codes)



section \<open>Properties of the telemetry codec\<close>

definition example_telemetry :: TelemetryPacket where
  "example_telemetry = TelemetryPacket_init
     \<lparr>t_nodeId := char_array kNodeIdCapacity [78, 49], t_sequence := 7, t_rtcState := RtcState_kValid,
      t_rtcUnixTime := 1700000000\<rparr>"

lemma example_telemetry_wf: "telemetry_wf example_telemetry"
  by (simp add: telemetry_wf_def example_telemetry_def TelemetryPacket_init_def node_name_def
      validNodeByte_def capacity_defs cstr_simps char_array_def cstr_def)

lemma cstr_example_telemetry: "cstr (t_nodeId example_telemetry) = [78, 49]"
  by (simp add: example_telemetry_def cstr_simps)

text \<open>C7: The telemetry decoder accepts exactly the canonical encodings: whatever buffer it is
  given, it reports \<open>kOk\<close> with packet \<open>p\<close> if and only if \<open>p\<close> is well formed and the bytes inside
  the length are the header and the 57 payload bytes of \<open>p\<close>. Bytes beyond the length never matter.\<close>

theorem decodeTelemetry_iff:
  assumes "len \<le> length input"
  shows "decodeTelemetry (Some input) len p0 = (DecodeStatus_kOk, p) \<longleftrightarrow>
         telemetry_wf p \<and> take len input = telemetry_bytes p"
  using assms decodeTelemetry_accepts decodeTelemetry_sound by blast

theorem decodeTelemetry_iff_witness:
  "decodeTelemetry (Some (telemetry_bytes example_telemetry @ [1, 2])) 64 TelemetryPacket_init
     = (DecodeStatus_kOk, example_telemetry)"
  by (subst decodeTelemetry_iff)
     (simp_all add: example_telemetry_wf length_telemetry_bytes cstr_example_telemetry)

text \<open>C8: Encoding a well-formed telemetry packet into a radio buffer of 96 bytes always succeeds,
  writes 62 bytes plus the node identifier (at most the 86 bytes of
  \<open>kMaximumTelemetryPacketBytes\<close>), leaves the rest of the buffer alone, and decoding what was
  written returns the same packet.\<close>

theorem telemetry_roundtrip:
  assumes "telemetry_wf p" "length out = kRadioPacketCapacity"
  shows "\<exists>out' n. encodeTelemetry p (Some out) kRadioPacketCapacity = (True, Some out', n) \<and>
           n = 62 + length (cstr (t_nodeId p)) \<and> n \<le> kMaximumTelemetryPacketBytes \<and>
           length out' = kRadioPacketCapacity \<and> drop n out' = drop n out \<and>
           decodeTelemetry (Some out') n p0 = (DecodeStatus_kOk, p)"
proof -
  have len: "length (telemetry_bytes p) = 62 + length (cstr (t_nodeId p))"
       and le: "62 + length (cstr (t_nodeId p)) \<le> kMaximumTelemetryPacketBytes"
               "kMaximumTelemetryPacketBytes \<le> kRadioPacketCapacity"
    using assms(1)
    by (simp_all add: length_telemetry_bytes telemetry_wf_def node_name_def protocol_size_defs capacity_defs)
  let ?out = "telemetry_bytes p @ drop (length (telemetry_bytes p)) out"
  have "decodeTelemetry (Some ?out) (length (telemetry_bytes p)) p0 = (DecodeStatus_kOk, p)"
    using assms len le by (intro decodeTelemetry_accepts) auto
  then show ?thesis
    using encodeTelemetry_ok[OF assms(1), of kRadioPacketCapacity out] assms(2) len le by auto
qed

theorem telemetry_roundtrip_witness:
  "\<exists>out' n. encodeTelemetry example_telemetry (Some (replicate kRadioPacketCapacity 0)) kRadioPacketCapacity
       = (True, Some out', n) \<and> n = 64 \<and>
     decodeTelemetry (Some out') n TelemetryPacket_init = (DecodeStatus_kOk, example_telemetry)"
  using telemetry_roundtrip[OF example_telemetry_wf, of "replicate kRadioPacketCapacity 0" TelemetryPacket_init]
  by (auto simp: cstr_example_telemetry)

text \<open>A telemetry frame of the wrong length is never accepted, and the status tells why: cut
  inside the fixed header or the payload it is \<open>kBufferTooSmall\<close>, cut inside the node identifier
  it is \<open>kInvalidNodeId\<close>, and with extra bytes it is \<open>kTrailingData\<close>.\<close>

theorem telemetry_wrong_length:
  assumes "telemetry_wf p"
  shows "(k < length (telemetry_bytes p) \<longrightarrow> fst (decodeTelemetry (Some (telemetry_bytes p)) k p0) =
      (if 5 \<le> k \<and> k < 5 + length (cstr (t_nodeId p)) then DecodeStatus_kInvalidNodeId
       else DecodeStatus_kBufferTooSmall)) \<and>
    (junk \<noteq> [] \<longrightarrow> decodeTelemetry (Some (telemetry_bytes p @ junk))
      (length (telemetry_bytes p @ junk)) p0 = (DecodeStatus_kTrailingData, p))"
  using telemetry_cut[OF assms] telemetry_extended[OF assms] by blast

theorem telemetry_wrong_length_witness:
  "fst (decodeTelemetry (Some (telemetry_bytes example_telemetry)) 6 TelemetryPacket_init)
     = DecodeStatus_kInvalidNodeId \<and>
   fst (decodeTelemetry (Some (telemetry_bytes example_telemetry)) 63 TelemetryPacket_init)
     = DecodeStatus_kBufferTooSmall \<and>
   fst (decodeTelemetry (Some (telemetry_bytes example_telemetry @ [0])) 65 TelemetryPacket_init)
     = DecodeStatus_kTrailingData"
  using telemetry_wrong_length[OF example_telemetry_wf, of 6 TelemetryPacket_init]
    telemetry_wrong_length[OF example_telemetry_wf, of 63 TelemetryPacket_init "[0]"]
  by (simp add: length_telemetry_bytes cstr_example_telemetry)

end
