(* ===== verification/Protocol_Commands.thy ===== *)
theory Protocol_Commands
  imports Protocol_Telemetry
begin

text \<open>
  Correctness of the ACK and command-result codecs of \<open>lib/protocol/protocol.cpp\<close>: as for
  telemetry, the canonical encodings (\<open>ack_bytes\<close>, \<open>result_bytes\<close>) and the packets a decoder can
  return (\<open>ack_wf\<close>, \<open>result_wf\<close>), that the encoders produce exactly those bytes and the decoders
  accept nothing else, and what \<open>makeAck\<close> and \<open>ackMatches\<close> promise each other.
\<close>


section \<open>Acknowledgements\<close>

definition ack_tail :: "AckCommandPacket \<Rightarrow> byte list" where
  "ack_tail p = (case a_commandType p of
       CommandType_kSetPollIntervalMinutes \<Rightarrow> [a_pollIntervalMinutes p]
     | CommandType_kScheduleMaintenanceAt \<Rightarrow> be32 (a_scheduledMaintenanceUnix p)
     | _ \<Rightarrow> [])"

definition ack_payload :: "AckCommandPacket \<Rightarrow> byte list" where
  "ack_payload p =
     be32 (a_persistentSessionId p) @ be32 (a_sequence p) @ be32 (a_gatewayUnixTime p) @
     [if a_timeValid p then kAckTimeValid else 0] @ be32 (a_commandId p) @
     [CommandType_u8 (a_commandType p), commandPayloadLength (a_commandType p)] @ ack_tail p"

definition ack_bytes :: "AckCommandPacket \<Rightarrow> byte list" where
  "ack_bytes p = header_bytes MessageType_kAckCommand (cstr (a_nodeId p)) @ ack_payload p"

text \<open>A packet the decoder can return: valid, and without payload fields its command does not carry.\<close>

definition ack_wf :: "AckCommandPacket \<Rightarrow> bool" where
  "ack_wf p \<longleftrightarrow>
     node_name (cstr (a_nodeId p)) \<and> a_nodeId p = char_array kNodeIdCapacity (cstr (a_nodeId p)) \<and>
     ackValid p \<and>
     (a_commandType p \<noteq> CommandType_kSetPollIntervalMinutes \<longrightarrow> a_pollIntervalMinutes p = 0) \<and>
     (a_commandType p \<noteq> CommandType_kScheduleMaintenanceAt \<longrightarrow> a_scheduledMaintenanceUnix p = 0)"

lemma length_ack_bytes:
  "length (ack_bytes p) = 24 + length (cstr (a_nodeId p)) + unat (commandPayloadLength (a_commandType p))"
  by (cases "a_commandType p") (simp_all add: ack_bytes_def ack_payload_def ack_tail_def)

lemma emits_ack:
  assumes "nodeIdValid (Some (a_nodeId p))"
  shows "emits (header_bytes MessageType_kAckCommand (cstr (take kNodeIdCapacity (a_nodeId p))) @
      ack_payload p) (all_ok (ackWrites p))"
proof -
  let ?fixed = "[header_bytes MessageType_kAckCommand (cstr (take kNodeIdCapacity (a_nodeId p))),
      be32 (a_persistentSessionId p), be32 (a_sequence p), be32 (a_gatewayUnixTime p),
      [if a_timeValid p then kAckTimeValid else 0], be32 (a_commandId p),
      [CommandType_u8 (a_commandType p)], [commandPayloadLength (a_commandType p)]]"
  have "emits (concat (?fixed @ (if ack_tail p = [] then [] else [ack_tail p]))) (all_ok (ackWrites p))"
    unfolding ackWrites_def
    by (rule emits_chain, cases "a_commandType p")
       (auto intro: emits_writeHeader[OF assms] simp: ack_tail_def)
  then show ?thesis by (simp add: ack_payload_def split: if_splits)
qed

lemma encodeAckCommand_ok:
  assumes "node_name (cstr (a_nodeId p))" "a_nodeId p = char_array kNodeIdCapacity (cstr (a_nodeId p))"
    "ackValid p" "length (ack_bytes p) \<le> cap" "cap \<le> length out"
  shows "encodeAckCommand p (Some out) cap =
    (True, Some (ack_bytes p @ drop (length (ack_bytes p)) out), length (ack_bytes p))"
proof -
  let ?s = "cstr (a_nodeId p)"
  have node: "cstr (take kNodeIdCapacity (a_nodeId p)) = ?s" "nodeIdValid (Some (a_nodeId p))"
    using assms(1,2) length_char_array[of ?s kNodeIdCapacity]
    by (auto simp: nodeIdValid_iff node_name_def)
  have "emits (ack_bytes p) (all_ok (ackWrites p))"
    using emits_ack[OF node(2)] by (simp add: node(1) ack_bytes_def)
  from emits_init[OF this assms(4,5)] show ?thesis
    using assms(3) by (simp add: encodeAckCommand_def del: all_ok.simps)
qed

lemma decodeAckCommand_fields:
  assumes "node_name name" "len \<le> length input"
    and "take len input = header_bytes MessageType_kAckCommand name @
      be32 ses @ be32 seq @ be32 gut @ fl # (be32 cid @ ct # pl # rest)"
    and "fl AND NOT 1 = 0" "validCommand ct" "pl = commandPayloadLength (CommandType_cast ct)"
  shows "decodeAckCommand (Some input) len p0 =
     (let p = AckCommandPacket_init\<lparr>a_nodeId := char_array kNodeIdCapacity name,
            a_persistentSessionId := ses, a_sequence := seq, a_gatewayUnixTime := gut,
            a_timeValid := (fl AND 1 \<noteq> 0), a_commandId := cid,
            a_commandType := CommandType_cast ct\<rparr>;
          r = rd_at (drop len input) (header_bytes MessageType_kAckCommand name @
            be32 ses @ be32 seq @ be32 gut @ fl # (be32 cid @ [ct, pl])) rest in
      case CommandType_cast ct of
        CommandType_kSetPollIntervalMinutes \<Rightarrow>
         (case rest of [] \<Rightarrow> (DecodeStatus_kBufferTooSmall, p)
          | v # rest \<Rightarrow> let p = p\<lparr>a_pollIntervalMinutes := v\<rparr> in
             (if \<not> ackValid p then DecodeStatus_kInvalidCommand
              else if rest = [] then DecodeStatus_kOk else DecodeStatus_kTrailingData, p))
      | CommandType_kScheduleMaintenanceAt \<Rightarrow>
         (case into reader_u32 (\<lambda>v. a_scheduledMaintenanceUnix_update (\<lambda>_. v)) (r, p) of
            (False, _, p) \<Rightarrow> (DecodeStatus_kBufferTooSmall, p)
          | (True, r, p) \<Rightarrow>
             (if \<not> ackValid p then DecodeStatus_kInvalidCommand
              else if remaining r = 0 then DecodeStatus_kOk else DecodeStatus_kTrailingData, p))
      | _ \<Rightarrow> (if \<not> ackValid p then DecodeStatus_kInvalidCommand
              else if rest = [] then DecodeStatus_kOk else DecodeStatus_kTrailingData, p))"
  using assms(2,4,5,6) readHeader_accepts[OF assms(1), of MessageType_kAckCommand "drop len input" "[]"]
  by (cases "CommandType_cast ct"; cases rest)
     (simp_all add: decodeAckCommand_def Reader_init_rd_at assms(3) AckCommandPacket_init_def
        ackReads_def chain_simps Let_def kAckTimeValid_def split: prod.splits bool.splits)

lemma decodeAckCommand_accepts:
  assumes "ack_wf p" "len \<le> length input" "take len input = ack_bytes p"
  shows "decodeAckCommand (Some input) len p0 = (DecodeStatus_kOk, p)"
proof -
  have flags: "(if a_timeValid p then kAckTimeValid else 0) AND NOT 1 = (0::u8)"
      "((if a_timeValid p then kAckTimeValid else 0) AND 1 \<noteq> (0::u8)) = a_timeValid p"
    by (simp_all add: kAckTimeValid_def)
  note dec = decodeAckCommand_fields[OF _ assms(2), where rest = "ack_tail p", OF _ _ flags(1) enum_codes(5),
      of "cstr (a_nodeId p)" "a_persistentSessionId p" "a_sequence p" "a_gatewayUnixTime p" "a_commandId p"
         "a_commandType p" "commandPayloadLength (a_commandType p)"]
  have p: "AckCommandPacket_init\<lparr>a_nodeId := char_array kNodeIdCapacity (cstr (a_nodeId p)),
      a_persistentSessionId := a_persistentSessionId p, a_sequence := a_sequence p,
      a_gatewayUnixTime := a_gatewayUnixTime p, a_timeValid := a_timeValid p,
      a_commandId := a_commandId p, a_commandType := a_commandType p\<rparr>
      = p\<lparr>a_pollIntervalMinutes := 0, a_scheduledMaintenanceUnix := 0\<rparr>"
    using assms(1) by (cases p) (simp add: ack_wf_def AckCommandPacket_init_def)
  have nm: "node_name (cstr (a_nodeId p))" and valid: "ackValid p"
    and poll: "a_commandType p \<noteq> CommandType_kSetPollIntervalMinutes \<Longrightarrow> a_pollIntervalMinutes p = 0"
    and sched: "a_commandType p \<noteq> CommandType_kScheduleMaintenanceAt \<Longrightarrow> a_scheduledMaintenanceUnix p = 0"
    using assms(1) by (simp_all add: ack_wf_def)
  have bytes: "take len input = header_bytes MessageType_kAckCommand (cstr (a_nodeId p)) @
      be32 (a_persistentSessionId p) @ be32 (a_sequence p) @ be32 (a_gatewayUnixTime p) @
      (if a_timeValid p then kAckTimeValid else 0) # (be32 (a_commandId p) @
      CommandType_u8 (a_commandType p) # commandPayloadLength (a_commandType p) # ack_tail p)"
    by (simp add: assms(3) ack_bytes_def ack_payload_def)
  note dec' = dec[OF nm bytes, simplified enum_cast_code, OF refl, of p0,
      unfolded flags p ack_tail_def Let_def]
  show ?thesis
  proof (cases "a_commandType p")
    case CommandType_kSetPollIntervalMinutes
    moreover from this have "p\<lparr>a_scheduledMaintenanceUnix := 0\<rparr> = p" using sched by (cases p) simp
    ultimately show ?thesis using valid by (simp add: dec')
  next
    case CommandType_kScheduleMaintenanceAt
    moreover from this have "p\<lparr>a_pollIntervalMinutes := 0\<rparr> = p" using poll by (cases p) simp
    ultimately show ?thesis
      using valid reader_u32_be32[where rest = "[]"] by (simp add: dec' into_def chain_simps)
  next
    case CommandType_kNone
    moreover from this have "p\<lparr>a_pollIntervalMinutes := 0, a_scheduledMaintenanceUnix := 0\<rparr> = p"
      using poll sched by (cases p) simp
    ultimately show ?thesis using valid by (simp add: dec')
  next
    case CommandType_kEnterMaintenanceNow
    moreover from this have "p\<lparr>a_pollIntervalMinutes := 0, a_scheduledMaintenanceUnix := 0\<rparr> = p"
      using poll sched by (cases p) simp
    ultimately show ?thesis using valid by (simp add: dec')
  qed
qed

lemma flags_cases: "fl AND NOT 1 = (0::u8) \<Longrightarrow> fl = 0 \<or> fl = 1"
proof -
  assume "fl AND NOT 1 = 0"
  then have "\<not> bit (fl AND NOT 1) n" for n by simp
  then have "n \<noteq> 0 \<Longrightarrow> \<not> bit fl n" for n
    using bit_imp_le_length[of fl n] by (auto simp: bit_simps)
  then have only0: "bit fl n \<Longrightarrow> n = 0" for n by blast
  show ?thesis
  proof (cases "bit fl 0")
    case True
    have "fl = 1" by (rule bit_word_eqI) (use True only0 in \<open>auto simp: bit_1_iff\<close>)
    then show ?thesis ..
  next
    case False
    have "fl = 0" by (rule bit_word_eqI) (use False only0 in auto)
    then show ?thesis ..
  qed
qed

lemma ack_reads_need: "takes 19 (all_ok ackReads)"
proof -
  have "takes (sum_list [4,4,4,1,4,1,1]) (all_ok ackReads)"
    unfolding ackReads_def by (rule takes_chain) auto
  then show ?thesis by simp
qed

lemma ack_payload_surj:
  assumes "19 \<le> length bs"
  obtains ses seq gut fl cid ct pl rest where
    "bs = be32 ses @ be32 seq @ be32 gut @ fl # (be32 cid @ ct # pl # rest)"
proof -
  obtain ses b1 where 1: "bs = be32 ses @ b1" using be32_split[of bs] assms by auto
  obtain seq b2 where 2: "b1 = be32 seq @ b2" using be32_split[of b1] assms 1 by auto
  obtain gut b3 where 3: "b2 = be32 gut @ b3" using be32_split[of b2] assms 1 2 by auto
  obtain fl b4 where 4: "b3 = fl # b4" using u8_split[of b3] assms 1 2 3 by auto
  obtain cid b5 where 5: "b4 = be32 cid @ b5" using be32_split[of b4] assms 1 2 3 4 by auto
  obtain ct pl rest where 6: "b5 = ct # pl # rest"
    using assms[unfolded 1 2 3 4 5] by (auto simp: numeral_eq_Suc Suc_le_length_iff)
  show ?thesis by (rule that) (simp only: 1 2 3 4 5 6)
qed

text \<open>Fields that pass the checks of the decoder are those of the canonical encoding.\<close>

lemma ack_fields_canonical:
  assumes "node_name name" "fl AND NOT 1 = 0" "validCommand ct"
    "pl = commandPayloadLength (CommandType_cast ct)"
    "p = \<lparr>a_nodeId = char_array kNodeIdCapacity name, a_persistentSessionId = ses, a_sequence = seq,
          a_gatewayUnixTime = gut, a_timeValid = (fl AND 1 \<noteq> 0), a_commandId = cid,
          a_commandType = CommandType_cast ct, a_pollIntervalMinutes = poll,
          a_scheduledMaintenanceUnix = sched\<rparr>"
    "ackValid p" "rest = ack_tail p"
    "CommandType_cast ct \<noteq> CommandType_kSetPollIntervalMinutes \<longrightarrow> poll = 0"
    "CommandType_cast ct \<noteq> CommandType_kScheduleMaintenanceAt \<longrightarrow> sched = 0"
  shows "ack_wf p \<and> header_bytes MessageType_kAckCommand name @ be32 ses @ be32 seq @ be32 gut @ fl #
      (be32 cid @ ct # pl # rest) = ack_bytes p"
proof -
  have nm: "cstr (char_array kNodeIdCapacity name) = name"
    by (rule cstr_char_array) (rule node_name_nul[OF assms(1)])
  have "(if fl AND 1 \<noteq> 0 then kAckTimeValid else 0) = fl"
    using flags_cases[OF assms(2)] by (auto simp: kAckTimeValid_def)
  then show ?thesis
    unfolding ack_wf_def ack_bytes_def ack_payload_def using assms by (simp add: nm)
qed

lemma decodeAckCommand_sound:
  assumes "decodeAckCommand (Some input) len p0 = (DecodeStatus_kOk, p)" "len \<le> length input"
  shows "ack_wf p \<and> take len input = ack_bytes p"
proof -
  obtain r a where rd: "readHeader MessageType_kAckCommand
      (rd_at (drop len input) [] (take len input), replicate kNodeIdCapacity 0) = (DecodeStatus_kOk, r, a)"
    using assms by (auto simp: decodeAckCommand_def Reader_init_rd_at AckCommandPacket_init_def Let_def
        split: prod.splits if_splits)
  then obtain name bs where hdr: "node_name name"
      "take len input = header_bytes MessageType_kAckCommand name @ bs"
      "r = rd_at (drop len input) (header_bytes MessageType_kAckCommand name) bs"
      "a = char_array kNodeIdCapacity name"
    by (rule readHeader_sound) auto
  have "19 \<le> length bs"
  proof (rule ccontr)
    assume "\<not> 19 \<le> length bs"
    then have short: "\<not> fst (all_ok ackReads (r, d))" for d
      unfolding hdr using takes_short[OF ack_reads_need] by simp
    have "fst (decodeAckCommand (Some input) len p0) = DecodeStatus_kBufferTooSmall"
      using short rd assms(2)
      by (simp add: decodeAckCommand_def Reader_init_rd_at AckCommandPacket_init_def Let_def
          prod.case_eq_if)
    with assms(1) show False by simp
  qed
  then obtain ses seq gut fl cid ct pl rest where
    bs: "bs = be32 ses @ be32 seq @ be32 gut @ fl # (be32 cid @ ct # pl # rest)"
    by (rule ack_payload_surj)
  have fl: "fl AND NOT 1 = 0" and ct: "validCommand ct"
    and pl: "pl = commandPayloadLength (CommandType_cast ct)"
    using assms rd hdr
    by (auto simp: decodeAckCommand_def Reader_init_rd_at AckCommandPacket_init_def Let_def bs
        ackReads_def chain_simps kAckTimeValid_def split: if_splits)
  note dec = decodeAckCommand_fields[OF hdr(1) assms(2) hdr(2)[unfolded bs] fl ct pl, of p0]
  let ?p = "\<lambda>poll sched. \<lparr>a_nodeId = char_array kNodeIdCapacity name,
            a_persistentSessionId = ses, a_sequence = seq, a_gatewayUnixTime = gut,
            a_timeValid = (fl AND 1 \<noteq> 0), a_commandId = cid, a_commandType = CommandType_cast ct,
            a_pollIntervalMinutes = poll, a_scheduledMaintenanceUnix = sched\<rparr>"
  have p0: "AckCommandPacket_init\<lparr>a_nodeId := char_array kNodeIdCapacity name,
            a_persistentSessionId := ses, a_sequence := seq, a_gatewayUnixTime := gut,
            a_timeValid := (fl AND 1 \<noteq> 0), a_commandId := cid, a_commandType := CommandType_cast ct\<rparr>
        = ?p 0 0"
    by (simp add: AckCommandPacket_init_def)
  have done_if: ?thesis if "p = ?p poll sched" "ackValid p" "rest = ack_tail p"
    "CommandType_cast ct \<noteq> CommandType_kSetPollIntervalMinutes \<longrightarrow> poll = 0"
    "CommandType_cast ct \<noteq> CommandType_kScheduleMaintenanceAt \<longrightarrow> sched = 0" for poll sched
    using ack_fields_canonical[OF hdr(1) fl ct pl that] by (simp add: hdr(2) bs)
  show ?thesis
  proof (cases "CommandType_cast ct")
    case CommandType_kSetPollIntervalMinutes
    then obtain v where "rest = [v]" "p = ?p v 0" "ackValid p"
      using assms(1)[unfolded dec Let_def p0] by (auto split: list.splits if_splits)
    with CommandType_kSetPollIntervalMinutes show ?thesis
      by (intro done_if) (simp_all add: ack_tail_def)
  next
    case CommandType_kScheduleMaintenanceAt
    have "4 \<le> length rest"
    proof (rule ccontr)
      assume "\<not> 4 \<le> length rest"
      then have "fst (reader_u32 (rd_at j pre rest)) = None" for j pre
        by (intro reader_u32_short) simp
      then have "\<not> fst (into reader_u32 upd (rd_at j pre rest, q))" for j pre q and upd :: "u32 \<Rightarrow> AckCommandPacket \<Rightarrow> AckCommandPacket"
        by (auto simp: into_def split: prod.splits option.splits) (metis fst_conv option.distinct(1))
      then show False using assms(1)[unfolded dec Let_def] CommandType_kScheduleMaintenanceAt
        by (auto split: prod.splits bool.splits) (metis fst_conv)
    qed
    then obtain s rest' where s: "rest = be32 s @ rest'" using be32_split by blast
    then have "rest' = []" "p = ?p 0 s" "ackValid p"
      using assms(1)[unfolded dec Let_def p0] CommandType_kScheduleMaintenanceAt
      by (simp_all add: chain_simps AckCommandPacket_init_def split: if_splits)
    with s CommandType_kScheduleMaintenanceAt show ?thesis
      by (intro done_if) (simp_all add: ack_tail_def)
  next
    case CommandType_kNone
    then have "rest = []" "p = ?p 0 0" "ackValid p"
      using assms(1)[unfolded dec Let_def p0] by (simp_all split: if_splits)
    with CommandType_kNone show ?thesis by (intro done_if) (simp_all add: ack_tail_def)
  next
    case CommandType_kEnterMaintenanceNow
    then have "rest = []" "p = ?p 0 0" "ackValid p"
      using assms(1)[unfolded dec Let_def p0] by (simp_all split: if_splits)
    with CommandType_kEnterMaintenanceNow show ?thesis by (intro done_if) (simp_all add: ack_tail_def)
  qed
qed


section \<open>Command results\<close>

definition result_payload :: "CommandResultPacket \<Rightarrow> byte list" where
  "result_payload p =
     be32 (c_persistentSessionId p) @ be32 (c_commandId p) @
     [CommandType_u8 (c_commandType p), CommandResultCode_u8 (c_resultCode p),
      c_effectivePollIntervalMinutes p] @ be32 (c_scheduledMaintenanceUnix p)"

definition result_bytes :: "CommandResultPacket \<Rightarrow> byte list" where
  "result_bytes p = header_bytes MessageType_kCommandResult (cstr (c_nodeId p)) @ result_payload p"

definition result_wf :: "CommandResultPacket \<Rightarrow> bool" where
  "result_wf p \<longleftrightarrow>
     node_name (cstr (c_nodeId p)) \<and> c_nodeId p = char_array kNodeIdCapacity (cstr (c_nodeId p)) \<and>
     c_commandId p \<noteq> 0 \<and> c_commandType p \<noteq> CommandType_kNone \<and>
     c_resultCode p \<noteq> CommandResultCode_kNone"

lemma length_result_bytes: "length (result_bytes p) = 20 + length (cstr (c_nodeId p))"
  by (simp add: result_bytes_def result_payload_def)

lemma result_reads_need: "takes 15 (all_ok commandResultReads)"
proof -
  have "takes (sum_list [4,4,1,1,1,4]) (all_ok commandResultReads)"
    unfolding commandResultReads_def by (rule takes_chain) auto
  then show ?thesis by simp
qed

lemma result_payload_surj:
  assumes "15 \<le> length bs"
  obtains ses cid ct rc poll sch rest where
    "bs = be32 ses @ be32 cid @ ct # rc # poll # (be32 sch @ rest)"
proof -
  obtain ses b1 where 1: "bs = be32 ses @ b1" using be32_split[of bs] assms by auto
  obtain cid b2 where 2: "b1 = be32 cid @ b2" using be32_split[of b1] assms 1 by auto
  obtain ct rc poll b3 where 3: "b2 = ct # rc # poll # b3"
    using assms[unfolded 1 2] by (auto simp: numeral_eq_Suc Suc_le_length_iff)
  obtain sch rest where 4: "b3 = be32 sch @ rest" using be32_split[of b3] assms[unfolded 1 2 3] by auto
  show ?thesis by (rule that) (simp only: 1 2 3 4)
qed

lemma decodeCommandResult_fields:
  assumes "node_name name" "len \<le> length input"
    and "take len input = header_bytes MessageType_kCommandResult name @
      be32 ses @ be32 cid @ ct # rc # poll # (be32 sch @ rest)"
  shows "decodeCommandResult (Some input) len p0 =
     (let p = CommandResultPacket_init\<lparr>c_nodeId := char_array kNodeIdCapacity name,
            c_persistentSessionId := ses, c_commandId := cid,
            c_effectivePollIntervalMinutes := poll, c_scheduledMaintenanceUnix := sch\<rparr> in
      if \<not> validCommand ct \<or> ct = 0 \<or> \<not> validResult rc False \<or> cid = 0
      then (DecodeStatus_kInvalidCommand, p)
      else (if rest = [] then DecodeStatus_kOk else DecodeStatus_kTrailingData,
            p\<lparr>c_commandType := CommandType_cast ct, c_resultCode := CommandResultCode_cast rc\<rparr>))"
  using assms(2) readHeader_accepts[OF assms(1), of MessageType_kCommandResult "drop len input" "[]"]
  by (simp add: decodeCommandResult_def Reader_init_rd_at assms(3) CommandResultPacket_init_def
        commandResultReads_def chain_simps Let_def)

lemma decodeCommandResult_accepts:
  assumes "result_wf p" "len \<le> length input" "take len input = result_bytes p"
  shows "decodeCommandResult (Some input) len p0 = (DecodeStatus_kOk, p)"
  using decodeCommandResult_fields[of "cstr (c_nodeId p)" len input, where rest = "[]"] assms
  by (cases p) (auto simp: result_wf_def result_bytes_def result_payload_def
      CommandResultPacket_init_def Let_def enum_codes)

lemma decodeCommandResult_sound:
  assumes "decodeCommandResult (Some input) len p0 = (DecodeStatus_kOk, p)" "len \<le> length input"
  shows "result_wf p \<and> take len input = result_bytes p"
proof -
  obtain r a where rd: "readHeader MessageType_kCommandResult
      (rd_at (drop len input) [] (take len input), replicate kNodeIdCapacity 0) = (DecodeStatus_kOk, r, a)"
    using assms by (auto simp: decodeCommandResult_def Reader_init_rd_at CommandResultPacket_init_def
        Let_def split: prod.splits if_splits)
  then obtain name bs where hdr: "node_name name"
      "take len input = header_bytes MessageType_kCommandResult name @ bs"
      "r = rd_at (drop len input) (header_bytes MessageType_kCommandResult name) bs"
    by (rule readHeader_sound) auto
  have "15 \<le> length bs"
  proof (rule ccontr)
    assume "\<not> 15 \<le> length bs"
    then have short: "\<not> fst (all_ok commandResultReads (r, d))" for d
      unfolding hdr using takes_short[OF result_reads_need] by simp
    have "fst (decodeCommandResult (Some input) len p0) = DecodeStatus_kBufferTooSmall"
      using short rd assms(2)
      by (simp add: decodeCommandResult_def Reader_init_rd_at CommandResultPacket_init_def Let_def
          prod.case_eq_if)
    with assms(1) show False by simp
  qed
  then obtain ses cid ct rc poll sch rest where
    bs: "bs = be32 ses @ be32 cid @ ct # rc # poll # (be32 sch @ rest)"
    by (rule result_payload_surj)
  note dec = decodeCommandResult_fields[OF hdr(1) assms(2) hdr(2)[unfolded bs], of p0]
  have nm: "cstr (char_array kNodeIdCapacity name) = name"
    by (rule cstr_char_array) (rule node_name_nul[OF hdr(1)])
  from assms(1)[unfolded dec Let_def]
  have ok: "validCommand ct" "ct \<noteq> 0" "validResult rc False" "cid \<noteq> 0" "rest = []"
    by (simp_all split: if_splits)
  then have p: "p = CommandResultPacket_init\<lparr>c_nodeId := char_array kNodeIdCapacity name,
            c_persistentSessionId := ses, c_commandId := cid,
            c_effectivePollIntervalMinutes := poll, c_scheduledMaintenanceUnix := sch,
            c_commandType := CommandType_cast ct, c_resultCode := CommandResultCode_cast rc\<rparr>"
    using assms(1)[unfolded dec Let_def] by (simp split: if_splits)
  have "CommandType_cast ct \<noteq> CommandType_kNone"
    using ok(1,2) enum_code_eq(3)[of "CommandType_cast ct"] by simp
  moreover have "CommandResultCode_cast rc \<noteq> CommandResultCode_kNone"
    using ok(3) enum_codes(7)[of "CommandResultCode_cast rc"] by simp
  ultimately show ?thesis
    unfolding result_wf_def result_bytes_def result_payload_def hdr(2) bs p
    using ok hdr(1) by (simp add: nm)
qed

lemma encodeCommandResult_ok:
  assumes "result_wf p" "length (result_bytes p) \<le> cap" "cap \<le> length out"
  shows "encodeCommandResult p (Some out) cap =
    (True, Some (result_bytes p @ drop (length (result_bytes p)) out), length (result_bytes p))"
proof -
  let ?s = "cstr (c_nodeId p)"
  have node: "cstr (take kNodeIdCapacity (c_nodeId p)) = ?s" "nodeIdValid (Some (c_nodeId p))"
    using assms(1) length_char_array[of ?s kNodeIdCapacity]
    by (auto simp: result_wf_def nodeIdValid_iff node_name_def)
  have "emits (concat
     [header_bytes MessageType_kCommandResult (cstr (take kNodeIdCapacity (c_nodeId p))),
      be32 (c_persistentSessionId p), be32 (c_commandId p), [CommandType_u8 (c_commandType p)],
      [CommandResultCode_u8 (c_resultCode p)], [c_effectivePollIntervalMinutes p],
      be32 (c_scheduledMaintenanceUnix p)]) (all_ok (commandResultWrites p))"
    unfolding commandResultWrites_def
    by (rule emits_chain) (auto intro: emits_writeHeader[OF node(2)])
  then have "emits (result_bytes p) (all_ok (commandResultWrites p))"
    by (simp add: node(1) result_bytes_def result_payload_def)
  from emits_init[OF this assms(2,3)] show ?thesis
    using assms(1) by (simp add: encodeCommandResult_def result_wf_def enum_codes del: all_ok.simps)
qed



section \<open>Properties of the command codecs\<close>

lemma ack_fits: "ack_wf p \<Longrightarrow> length (ack_bytes p) \<le> 52"
  by (cases "a_commandType p") (simp_all add: length_ack_bytes ack_wf_def node_name_def capacity_defs)

lemma encode_decode_ack:
  assumes "ack_wf p" "length out = kRadioPacketCapacity"
  shows "\<exists>out' n. encodeAckCommand p (Some out) kRadioPacketCapacity = (True, Some out', n) \<and>
           n = length (ack_bytes p) \<and> take n out' = ack_bytes p \<and> n \<le> length out' \<and>
           length out' = kRadioPacketCapacity \<and>
           decodeAckCommand (Some out') n p0 = (DecodeStatus_kOk, p)"
proof -
  let ?out = "ack_bytes p @ drop (length (ack_bytes p)) out"
  have le: "length (ack_bytes p) \<le> kRadioPacketCapacity"
    using ack_fits[OF assms(1)] by (simp add: capacity_defs)
  have "decodeAckCommand (Some ?out) (length (ack_bytes p)) p0 = (DecodeStatus_kOk, p)"
    using assms by (intro decodeAckCommand_accepts) auto
  then show ?thesis
    using encodeAckCommand_ok[of p kRadioPacketCapacity out] assms le by (auto simp: ack_wf_def)
qed

lemma makeAck_wf:
  assumes "telemetry_wf t"
  shows "ack_wf (makeAck t u v)"
proof -
  let ?s = "cstr (t_nodeId t)"
  have nm: "node_name ?s" "length ?s < kNodeIdCapacity" using assms by (simp_all add: telemetry_wf_def node_name_def)
  then have node: "strncpy (replicate kNodeIdCapacity 0) (t_nodeId t) (kNodeIdCapacity - 1)
      = char_array kNodeIdCapacity ?s"
    by (intro strncpy_zeros)
  show ?thesis
    using nm by (simp add: makeAck_def ack_wf_def AckCommandPacket_init_def node[simplified] cstr_simps ackValid_def)
qed

lemma makeAck_node:
  "telemetry_wf t \<Longrightarrow> a_nodeId (makeAck t u v) = t_nodeId t"
  using strncpy_zeros[of "t_nodeId t" kNodeIdCapacity]
  by (simp add: makeAck_def AckCommandPacket_init_def telemetry_wf_def node_name_def)

definition example_ack :: AckCommandPacket where
  "example_ack = AckCommandPacket_init
     \<lparr>a_nodeId := char_array kNodeIdCapacity [78, 49], a_sequence := 7, a_gatewayUnixTime := 1700000000,
      a_timeValid := True, a_commandId := 3, a_commandType := CommandType_kSetPollIntervalMinutes,
      a_pollIntervalMinutes := 15\<rparr>"

definition example_result :: CommandResultPacket where
  "example_result = CommandResultPacket_init
     \<lparr>c_nodeId := char_array kNodeIdCapacity [78, 49], c_commandId := 3,
      c_commandType := CommandType_kSetPollIntervalMinutes,
      c_resultCode := CommandResultCode_kApplied, c_effectivePollIntervalMinutes := 15\<rparr>"

lemma example_packets_wf: "ack_wf example_ack" "result_wf example_result"
  by (simp_all add: ack_wf_def result_wf_def example_ack_def example_result_def AckCommandPacket_init_def
      CommandResultPacket_init_def ackValid_def node_name_def validNodeByte_def capacity_defs cstr_simps)

text \<open>The decoder of ACK commands accepts exactly the canonical encodings of valid ACKs: time
  only when it is marked valid, a command only with a non-zero id, its payload present exactly when
  the command carries one and in range, and nothing after it.\<close>

theorem decodeAckCommand_iff:
  assumes "len \<le> length input"
  shows "decodeAckCommand (Some input) len p0 = (DecodeStatus_kOk, p) \<longleftrightarrow>
         ack_wf p \<and> take len input = ack_bytes p"
  using assms decodeAckCommand_accepts decodeAckCommand_sound by blast

theorem decodeAckCommand_iff_witness:
  "decodeAckCommand (Some (ack_bytes example_ack @ [1, 2])) (length (ack_bytes example_ack))
     AckCommandPacket_init = (DecodeStatus_kOk, example_ack)"
  by (subst decodeAckCommand_iff) (simp_all add: example_packets_wf)

text \<open>The ACK the gateway builds for a telemetry packet it accepted always fits the radio
  buffer, decodes on the node to the same ACK, answers that packet (\<open>ackMatches\<close>) and a second
  well-formed packet only if it has the same node, session and sequence number, and carries the
  gateway's time only when that time is valid.\<close>

theorem makeAck_correct:
  assumes "telemetry_wf t" "telemetry_wf t'" "length out = kRadioPacketCapacity"
  shows "let ack = makeAck t gatewayUnix timeValid in
         (\<exists>out' n. encodeAckCommand ack (Some out) kRadioPacketCapacity = (True, Some out', n) \<and>
            n = 24 + length (cstr (t_nodeId t)) \<and>
            decodeAckCommand (Some out') n AckCommandPacket_init = (DecodeStatus_kOk, ack)) \<and>
         ackMatches ack t \<and>
         (ackMatches ack t' \<longleftrightarrow> t_nodeId t' = t_nodeId t \<and> t_sequence t' = t_sequence t \<and>
            t_persistentSessionId t' = t_persistentSessionId t) \<and>
         a_gatewayUnixTime ack = (if timeValid then gatewayUnix else 0)"
proof -
  let ?ack = "makeAck t gatewayUnix timeValid"
  have len: "length (ack_bytes ?ack) = 24 + length (cstr (t_nodeId t))"
    using makeAck_node[OF assms(1)] by (simp add: length_ack_bytes) (simp add: makeAck_def AckCommandPacket_init_def)
  have arr: "length (t_nodeId x) = kNodeIdCapacity" if "telemetry_wf x" for x
    using that length_char_array[of "cstr (t_nodeId x)" kNodeIdCapacity]
    by (simp add: telemetry_wf_def node_name_def)
  have inj: "cstr (t_nodeId t) = cstr (t_nodeId t') \<longleftrightarrow> t_nodeId t' = t_nodeId t"
    using assms(1,2) unfolding telemetry_wf_def by metis
  have fields: "a_persistentSessionId ?ack = t_persistentSessionId t" "a_sequence ?ack = t_sequence t"
      "a_gatewayUnixTime ?ack = (if timeValid then gatewayUnix else 0)"
    by (simp_all add: makeAck_def AckCommandPacket_init_def)
  have "ackMatches ?ack x \<longleftrightarrow> cstr (t_nodeId t) = cstr (t_nodeId x) \<and>
      t_persistentSessionId t = t_persistentSessionId x \<and> t_sequence t = t_sequence x"
    if "telemetry_wf x" for x
    using arr[OF that] arr[OF assms(1)]
    by (simp add: ackMatches_def strncmp_eq_def makeAck_node[OF assms(1)] fields)
  then show ?thesis
    using encode_decode_ack[OF makeAck_wf[OF assms(1)] assms(3)] len assms(1,2) inj fields(3)
    unfolding Let_def by metis
qed

theorem makeAck_correct_witness:
  "ackMatches (makeAck example_telemetry 5 True) example_telemetry \<and>
   \<not> ackMatches (makeAck example_telemetry 5 True) (example_telemetry\<lparr>t_sequence := 8\<rparr>)"
proof -
  have "telemetry_wf (example_telemetry\<lparr>t_sequence := 8\<rparr>)"
    using example_telemetry_wf by (simp add: telemetry_wf_def)
  from makeAck_correct[OF example_telemetry_wf this, of "replicate kRadioPacketCapacity 0" 5 True]
  show ?thesis by (simp add: Let_def) (simp add: example_telemetry_def TelemetryPacket_init_def)
qed

text \<open>C9: Every ACK command and every command result the protocol allows survives the radio: encoded
  into a radio buffer it takes at most 52 (44) bytes and decodes to the same packet; and the decoder
  of command results accepts nothing but such encodings, so a result always names a command, its id
  and a real outcome.\<close>

theorem command_roundtrips:
  assumes "ack_wf a" "result_wf c" "length out = kRadioPacketCapacity" "len \<le> length input"
  shows "(\<exists>out' n. encodeAckCommand a (Some out) kRadioPacketCapacity = (True, Some out', n) \<and>
            n \<le> 52 \<and> decodeAckCommand (Some out') n a0 = (DecodeStatus_kOk, a)) \<and>
         (\<exists>out' n. encodeCommandResult c (Some out) kRadioPacketCapacity = (True, Some out', n) \<and>
            n \<le> 44 \<and> decodeCommandResult (Some out') n c0 = (DecodeStatus_kOk, c)) \<and>
         (decodeCommandResult (Some input) len c0 = (DecodeStatus_kOk, c') \<longleftrightarrow>
            result_wf c' \<and> take len input = result_bytes c')"
proof -
  have len: "length (result_bytes c) \<le> 44" "length (result_bytes c) \<le> kRadioPacketCapacity"
    using assms(2) by (simp_all add: length_result_bytes result_wf_def node_name_def capacity_defs)
  let ?out = "result_bytes c @ drop (length (result_bytes c)) out"
  have "decodeCommandResult (Some ?out) (length (result_bytes c)) c0 = (DecodeStatus_kOk, c)"
    using assms(2) by (intro decodeCommandResult_accepts) auto
  then have "\<exists>out' n. encodeCommandResult c (Some out) kRadioPacketCapacity = (True, Some out', n) \<and>
            n \<le> 44 \<and> decodeCommandResult (Some out') n c0 = (DecodeStatus_kOk, c)"
    using encodeCommandResult_ok[OF assms(2) len(2), of out] assms(3) len(1) by auto
  moreover have "decodeCommandResult (Some input) len c0 = (DecodeStatus_kOk, c') \<longleftrightarrow>
      result_wf c' \<and> take len input = result_bytes c'"
    using assms(4) decodeCommandResult_accepts decodeCommandResult_sound by blast
  ultimately show ?thesis
    using encode_decode_ack[OF assms(1,3), of a0] ack_fits[OF assms(1)] by fast
qed

theorem command_roundtrips_witness:
  "(\<exists>out' n. encodeCommandResult example_result (Some (replicate kRadioPacketCapacity 0)) kRadioPacketCapacity
      = (True, Some out', n) \<and> decodeCommandResult (Some out') n CommandResultPacket_init
      = (DecodeStatus_kOk, example_result)) \<and>
   decodeCommandResult (Some (result_bytes example_result)) (length (result_bytes example_result))
     CommandResultPacket_init = (DecodeStatus_kOk, example_result)"
  using command_roundtrips[OF example_packets_wf, of "replicate kRadioPacketCapacity 0"
      "length (result_bytes example_result)" "result_bytes example_result" AckCommandPacket_init CommandResultPacket_init example_result]
    example_packets_wf(2) by auto

end
