(* ===== verification/Pairing_Manager.thy ===== *)
theory Pairing_Manager
  imports Protocol_Telemetry
begin

text \<open>
  Pairing with the one node a gateway serves (\<open>lib/pairing/pairing_manager.cpp\<close>): the record of the
  manager, its operations, and the step relation of the calls made on it by the application, the
  radio task and the dashboard. The invariant of the reachable states says when a node can become the
  paired one.
\<close>

section \<open>State and operations\<close>

record PairingCandidate =
  pc_available :: bool
  pc_nodeId :: "byte list"
  pc_persistentSessionId :: u32
  pc_sequence :: u32
  pc_rssiDbm :: u32
  pc_snrDb :: u32
  pc_observedUptimeMs :: u64

definition PairingCandidate_init :: PairingCandidate where
  "PairingCandidate_init = \<lparr>pc_available = False, pc_nodeId = replicate kNodeIdCapacity 0,
     pc_persistentSessionId = 0, pc_sequence = 0, pc_rssiDbm = 0, pc_snrDb = 0, pc_observedUptimeMs = 0\<rparr>"

record PairingManager =
  pm_pairedNodeId :: "byte list"
  pm_pairingMode :: bool
  pm_candidate :: PairingCandidate

definition PairingManager_init :: PairingManager where
  "PairingManager_init = \<lparr>pm_pairedNodeId = replicate kNodeIdCapacity 0, pm_pairingMode = False,
     pm_candidate = PairingCandidate_init\<rparr>"

definition paired :: "PairingManager \<Rightarrow> bool" where
  "paired m \<longleftrightarrow> pm_pairedNodeId m ! 0 \<noteq> 0"

definition pairing_begin :: "byte list option \<Rightarrow> PairingManager \<Rightarrow> PairingManager" where
  "pairing_begin persistedNodeId m =
     (let m = m\<lparr>pm_pairedNodeId := (pm_pairedNodeId m)[0 := 0]\<rparr>;
          m = (case persistedNodeId of
                 Some s \<Rightarrow> if nodeIdValid (Some s)
                   then m\<lparr>pm_pairedNodeId := strncpy (pm_pairedNodeId m) s (kNodeIdCapacity - 1)\<rparr> else m
               | None \<Rightarrow> m)
      in m\<lparr>pm_pairingMode := False, pm_candidate := PairingCandidate_init\<rparr>)"

definition pairing_start :: "PairingManager \<Rightarrow> bool \<times> PairingManager" where
  "pairing_start m =
     (if paired m then (False, m)
      else (True, m\<lparr>pm_pairingMode := True, pm_candidate := PairingCandidate_init\<rparr>))"

definition pairing_cancel :: "PairingManager \<Rightarrow> PairingManager" where
  "pairing_cancel m = m\<lparr>pm_pairingMode := False, pm_candidate := PairingCandidate_init\<rparr>"

definition observe :: "TelemetryPacket \<Rightarrow> u32 \<Rightarrow> u32 \<Rightarrow> u64 \<Rightarrow> PairingManager \<Rightarrow> PairingManager" where
  "observe packet rssiDbm snrDb uptimeMs m =
     (if \<not> pm_pairingMode m then m
      else m\<lparr>pm_candidate := PairingCandidate_init
               \<lparr>pc_available := True,
                pc_nodeId := strncpy (pc_nodeId PairingCandidate_init) (t_nodeId packet) (kNodeIdCapacity - 1),
                pc_persistentSessionId := t_persistentSessionId packet,
                pc_sequence := t_sequence packet, pc_rssiDbm := rssiDbm, pc_snrDb := snrDb,
                pc_observedUptimeMs := uptimeMs\<rparr>\<rparr>)"

definition confirmCandidate :: "PairingManager \<Rightarrow> bool \<times> PairingManager" where
  "confirmCandidate m =
     (if \<not> pm_pairingMode m \<or> \<not> pc_available (pm_candidate m) \<or>
         \<not> nodeIdValid (Some (pc_nodeId (pm_candidate m))) then (False, m)
      else (True, m\<lparr>pm_pairedNodeId :=
                      (strncpy (pm_pairedNodeId m) (pc_nodeId (pm_candidate m)) (kNodeIdCapacity - 1))
                        [kNodeIdCapacity - 1 := 0],
                    pm_pairingMode := False\<rparr>))"

definition pairManual :: "byte list option \<Rightarrow> PairingManager \<Rightarrow> bool \<times> PairingManager" where
  "pairManual nodeId m =
     (case nodeId of None \<Rightarrow> (False, m)
      | Some s \<Rightarrow>
        if \<not> nodeIdValid (Some s) then (False, m)
        else (True, m\<lparr>pm_pairedNodeId := (strncpy (pm_pairedNodeId m) s (kNodeIdCapacity - 1))
                                            [kNodeIdCapacity - 1 := 0],
                      pm_pairingMode := False, pm_candidate := PairingCandidate_init\<rparr>))"

definition unpair :: "PairingManager \<Rightarrow> PairingManager" where
  "unpair m = m\<lparr>pm_pairedNodeId := (pm_pairedNodeId m)[0 := 0], pm_pairingMode := False,
                pm_candidate := PairingCandidate_init\<rparr>"

definition pairing_matches :: "PairingManager \<Rightarrow> byte list option \<Rightarrow> bool" where
  "pairing_matches m nodeId \<longleftrightarrow> paired m \<and>
     (case nodeId of None \<Rightarrow> False | Some s \<Rightarrow> strncmp_eq (pm_pairedNodeId m) s kNodeIdCapacity)"


section \<open>Calls as steps\<close>

text \<open>
  The calls made on the manager. Packets reach \<open>observe\<close> only after the decoder accepted them, so
  they are well formed.
\<close>

datatype pairing_call =
    Begin "byte list option"
  | Start
  | Cancel
  | Observe TelemetryPacket u32 u32 u64
  | Confirm
  | Manual "byte list option"
  | Unpair

inductive pairing_step :: "PairingManager \<Rightarrow> pairing_call \<Rightarrow> PairingManager \<Rightarrow> bool" where
  step_Begin: "pairing_step m (Begin s) (pairing_begin s m)"
| step_Start: "pairing_step m Start (snd (pairing_start m))"
| step_Cancel: "pairing_step m Cancel (pairing_cancel m)"
| step_Observe: "telemetry_wf p \<Longrightarrow> pairing_step m (Observe p rssi snr t) (observe p rssi snr t m)"
| step_Confirm: "pairing_step m Confirm (snd (confirmCandidate m))"
| step_Manual: "pairing_step m (Manual s) (snd (pairManual s m))"
| step_Unpair: "pairing_step m Unpair (unpair m)"

inductive pairing_run :: "PairingManager \<Rightarrow> pairing_call list \<Rightarrow> PairingManager \<Rightarrow> bool" where
  run_Nil: "pairing_run m [] m"
| run_Cons: "pairing_step m c m' \<Longrightarrow> pairing_run m' cs m'' \<Longrightarrow> pairing_run m (c # cs) m''"

inductive_cases run_NilE: "pairing_run m [] m'"
inductive_cases run_ConsE: "pairing_run m (c # cs) m'"
inductive_simps run_simps: "pairing_run m [] m'" "pairing_run m (c # cs) m'"
inductive_simps step_simps:
  "pairing_step m (Begin s) m'" "pairing_step m Start m'" "pairing_step m Cancel m'"
  "pairing_step m (Observe p rssi snr t) m'" "pairing_step m Confirm m'" "pairing_step m (Manual s) m'"
  "pairing_step m Unpair m'"

text \<open>The name in the paired array, empty when unpaired.\<close>

definition paired_name :: "PairingManager \<Rightarrow> byte list" where
  "paired_name m = cstr (pm_pairedNodeId m)"

definition pairing_inv :: "PairingManager \<Rightarrow> bool" where
  "pairing_inv m \<longleftrightarrow> length (pm_pairedNodeId m) = kNodeIdCapacity \<and>
     (pm_pairedNodeId m) ! (kNodeIdCapacity - 1) = 0 \<and>
     (paired_name m \<noteq> [] \<longrightarrow> node_name (paired_name m)) \<and>
     (pm_pairingMode m \<longrightarrow> paired_name m = []) \<and>
     (pc_available (pm_candidate m) \<longrightarrow> node_name (cstr (pc_nodeId (pm_candidate m))) \<and>
        pc_nodeId (pm_candidate m) = char_array kNodeIdCapacity (cstr (pc_nodeId (pm_candidate m))))"

lemma paired_iff:
  assumes "length (pm_pairedNodeId m) = kNodeIdCapacity"
  shows "paired m \<longleftrightarrow> paired_name m \<noteq> []"
  using assms by (cases "pm_pairedNodeId m") (simp_all add: paired_def paired_name_def cstr_def capacity_defs)

lemma node_prefix_name:
  assumes "nodeIdValid (Some s)"
  shows "cstr (take kNodeIdCapacity s) = cstr s \<and> node_name (cstr s)"
proof -
  have nm: "node_name (cstr (take kNodeIdCapacity s))" using assms by (simp add: nodeIdValid_iff)
  then have "length (cstr (take kNodeIdCapacity s)) < kNodeIdCapacity" by (simp add: node_name_def)
  moreover have "cstr s = cstr (take kNodeIdCapacity s)"
    if "length (cstr (take kNodeIdCapacity s)) < kNodeIdCapacity"
  proof (cases "length s \<le> kNodeIdCapacity")
    case False
    have "\<not> (\<forall>c\<in>set (take kNodeIdCapacity s). c \<noteq> 0)"
    proof
      assume "\<forall>c\<in>set (take kNodeIdCapacity s). c \<noteq> 0"
      then have "cstr (take kNodeIdCapacity s) = take kNodeIdCapacity s"
        by (auto simp: cstr_def takeWhile_eq_all_conv)
      with that False show False by simp
    qed
    then have "takeWhile (\<lambda>c. c \<noteq> 0) (take kNodeIdCapacity s @ drop kNodeIdCapacity s)
        = takeWhile (\<lambda>c. c \<noteq> 0) (take kNodeIdCapacity s)"
      by (intro takeWhile_append1) auto
    then show ?thesis by (simp only: append_take_drop_id cstr_def)
  qed simp
  ultimately show ?thesis using nm by simp
qed

text \<open>Copying a valid identifier into the array: name, length and terminator.\<close>

lemma copy_name:
  assumes "nodeIdValid (Some s)" "length dst = kNodeIdCapacity" "dst ! (kNodeIdCapacity - 1) = 0"
  shows "strncpy dst s (kNodeIdCapacity - 1) = char_array kNodeIdCapacity (cstr s)"
proof -
  have "node_name (cstr s)" using node_prefix_name[OF assms(1)] by simp
  then have "length (cstr s) < 25" by (simp add: node_name_def capacity_defs)
  moreover have "drop 24 dst = [0]"
    using assms(2,3) Cons_nth_drop_Suc[of 24 dst] by (simp add: capacity_defs)
  moreover have "replicate (24 - n) 0 @ [0::byte] = replicate (25 - n) 0" if "n < 25" for n
  proof -
    have "25 - n = Suc (24 - n)" using that by simp
    then show ?thesis by (simp add: replicate_append_same)
  qed
  ultimately show ?thesis
    by (simp add: strncpy_def char_array_def capacity_defs)
qed

lemma char_array_name:
  assumes "node_name s"
  shows "length (char_array kNodeIdCapacity s) = kNodeIdCapacity"
    "char_array kNodeIdCapacity s ! (kNodeIdCapacity - 1) = 0" "cstr (char_array kNodeIdCapacity s) = s"
    "(char_array kNodeIdCapacity s)[kNodeIdCapacity - 1 := 0] = char_array kNodeIdCapacity s"
proof -
  have s: "length s < kNodeIdCapacity" using assms by (simp add: node_name_def)
  then show 1: "length (char_array kNodeIdCapacity s) = kNodeIdCapacity" by (simp add: length_char_array)
  show 2: "char_array kNodeIdCapacity s ! (kNodeIdCapacity - 1) = 0"
    using s by (simp add: char_array_def nth_append less_diff_conv2)
  show "cstr (char_array kNodeIdCapacity s) = s" using node_name_nul[OF assms] by (rule cstr_char_array)
  show "(char_array kNodeIdCapacity s)[kNodeIdCapacity - 1 := 0] = char_array kNodeIdCapacity s"
    using list_update_id[of "char_array kNodeIdCapacity s" "kNodeIdCapacity - 1"] unfolding 2 .
qed


section \<open>The invariant\<close>

lemma cstr_clear: "a \<noteq> [] \<Longrightarrow> cstr (a[0 := 0]) = []"
  by (cases a) (simp_all add: cstr_def)

lemma clear_paired:
  assumes "length (pm_pairedNodeId m) = kNodeIdCapacity" "(pm_pairedNodeId m) ! (kNodeIdCapacity - 1) = 0"
  shows "cstr ((pm_pairedNodeId m)[0 := 0]) = []" "length ((pm_pairedNodeId m)[0 := 0]) = kNodeIdCapacity"
    "((pm_pairedNodeId m)[0 := 0]) ! (kNodeIdCapacity - 1) = 0"
  subgoal using assms by (intro cstr_clear) (auto simp: capacity_defs)
  subgoal using assms by simp
  subgoal using assms by (simp add: nth_list_update capacity_defs)
  done

lemma pairing_inv_init: "pairing_inv PairingManager_init"
  by (simp add: pairing_inv_def PairingManager_init_def PairingCandidate_init_def paired_name_def
      capacity_defs cstr_def)

lemma pairing_begin_inv: "pairing_inv m \<Longrightarrow> pairing_inv (pairing_begin s m)"
  using clear_paired[of m]
  by (auto simp: pairing_inv_def pairing_begin_def Let_def paired_name_def PairingCandidate_init_def
      copy_name[simplified] char_array_name[simplified] node_prefix_name split: option.splits)

lemma pairing_start_inv: "pairing_inv m \<Longrightarrow> pairing_inv (snd (pairing_start m))"
  using paired_iff[of m]
  by (auto simp: pairing_inv_def pairing_start_def paired_name_def PairingCandidate_init_def)

lemma pairing_cancel_inv: "pairing_inv m \<Longrightarrow> pairing_inv (pairing_cancel m)"
  by (auto simp: pairing_inv_def pairing_cancel_def paired_name_def PairingCandidate_init_def)

lemma observed_candidate:
  "telemetry_wf p \<Longrightarrow> strncpy (replicate kNodeIdCapacity 0) (t_nodeId p) (kNodeIdCapacity - 1) = t_nodeId p"
  using strncpy_zeros[of "t_nodeId p" kNodeIdCapacity] by (simp add: telemetry_wf_def node_name_def)

lemma observe_inv: "pairing_inv m \<Longrightarrow> telemetry_wf p \<Longrightarrow> pairing_inv (observe p rssi snr t m)"
  using observed_candidate[of p]
  by (auto simp: pairing_inv_def observe_def paired_name_def PairingCandidate_init_def telemetry_wf_def)

lemma confirm_result:
  assumes "pairing_inv m" "pm_pairingMode m" "pc_available (pm_candidate m)"
  shows "confirmCandidate m =
    (True, m\<lparr>pm_pairedNodeId := pc_nodeId (pm_candidate m), pm_pairingMode := False\<rparr>)"
proof -
  let ?c = "pc_nodeId (pm_candidate m)"
  have c: "node_name (cstr ?c)" "?c = char_array kNodeIdCapacity (cstr ?c)"
    using assms(1,3) by (simp_all add: pairing_inv_def)
  then have valid: "nodeIdValid (Some ?c)" using nodeIdValid_char_array[of "cstr ?c"] by simp
  have "strncpy (pm_pairedNodeId m) ?c (kNodeIdCapacity - 1) = ?c"
    using copy_name[OF valid, of "pm_pairedNodeId m"] assms(1) c(2) by (simp add: pairing_inv_def)
  then show ?thesis
    using assms(2,3) valid char_array_name(4)[OF c(1)] c(2) by (simp add: confirmCandidate_def)
qed

lemma confirm_inv: "pairing_inv m \<Longrightarrow> pairing_inv (snd (confirmCandidate m))"
proof (cases "pm_pairingMode m \<and> pc_available (pm_candidate m)")
  case True
  assume inv: "pairing_inv m"
  let ?c = "pc_nodeId (pm_candidate m)"
  have c: "node_name (cstr ?c)" "?c = char_array kNodeIdCapacity (cstr ?c)"
    using inv True by (simp_all add: pairing_inv_def)
  show ?thesis
    using confirm_result[OF inv] True inv char_array_name(1,2)[OF c(1)] c
    by (simp add: pairing_inv_def paired_name_def)
qed (auto simp: confirmCandidate_def)

lemma pairManual_inv: "pairing_inv m \<Longrightarrow> pairing_inv (snd (pairManual s m))"
  by (auto simp: pairing_inv_def pairManual_def paired_name_def PairingCandidate_init_def
      copy_name[simplified] char_array_name[simplified] node_prefix_name split: option.splits)

lemma unpair_inv: "pairing_inv m \<Longrightarrow> pairing_inv (unpair m)"
  using clear_paired[of m]
  by (auto simp: pairing_inv_def unpair_def paired_name_def PairingCandidate_init_def)

lemmas pairing_inv_ops = pairing_begin_inv pairing_start_inv pairing_cancel_inv observe_inv confirm_inv
  pairManual_inv unpair_inv

lemma pairing_step_inv: "pairing_step m c m' \<Longrightarrow> pairing_inv m \<Longrightarrow> pairing_inv m'"
  by (induction rule: pairing_step.induct) (auto intro: pairing_inv_ops)

lemma pairing_run_inv: "pairing_run m cs m' \<Longrightarrow> pairing_inv m \<Longrightarrow> pairing_inv m'"
  by (induction rule: pairing_run.induct) (auto intro: pairing_step_inv)

lemma matches_iff:
  assumes "pairing_inv m"
  shows "pairing_matches m (Some s) \<longleftrightarrow> paired_name m \<noteq> [] \<and> cstr (take kNodeIdCapacity s) = paired_name m"
proof -
  have len: "length (pm_pairedNodeId m) = kNodeIdCapacity" using assms by (simp add: pairing_inv_def)
  show ?thesis using paired_iff[OF len] len
    by (auto simp: pairing_matches_def strncmp_eq_def paired_name_def)
qed

text \<open>Calls that come from the operator, as opposed to the radio.\<close>

fun from_radio :: "pairing_call \<Rightarrow> bool" where
  "from_radio (Observe _ _ _ _) = True"
| "from_radio _ = False"

lemma radio_run_keeps_name:
  "pairing_run m cs m' \<Longrightarrow> list_all from_radio cs \<Longrightarrow>
     paired_name m' = paired_name m \<and> pm_pairingMode m' = pm_pairingMode m"
proof (induction rule: pairing_run.induct)
  case (run_Cons m c m' cs m'')
  then show ?case
    by (cases c) (auto simp: step_simps observe_def paired_name_def)
qed simp


section \<open>Properties of pairing\<close>

text \<open>C20: In every state that any sequence of calls can reach, pairing mode is off while a node is
  paired, the paired identifier is a valid one, and \<open>matches\<close> answers true for exactly the frames
  whose identifier is the paired one (never when nothing is paired).\<close>

theorem pairing_invariant:
  assumes "pairing_run PairingManager_init cs m"
  shows "(pm_pairingMode m \<longrightarrow> \<not> paired m) \<and> (paired m \<longrightarrow> nodeIdValid (Some (pm_pairedNodeId m))) \<and>
         (pairing_matches m (Some s) \<longleftrightarrow>
            paired m \<and> cstr (take kNodeIdCapacity s) = cstr (pm_pairedNodeId m))"
proof -
  have inv: "pairing_inv m" using pairing_run_inv[OF assms pairing_inv_init] .
  then have "length (pm_pairedNodeId m) = kNodeIdCapacity" by (simp add: pairing_inv_def)
  with inv matches_iff[OF inv, of s] show ?thesis
    by (auto simp: paired_iff pairing_inv_def nodeIdValid_iff paired_name_def)
qed

theorem pairing_invariant_witness:
  "let m = snd (pairManual (Some [78, 49]) PairingManager_init) in
   paired m \<and> pairing_matches m (Some (char_array kNodeIdCapacity [78, 49])) \<and> \<not> pm_pairingMode m"
proof -
  have "pairing_run PairingManager_init [Manual (Some [78, 49])]
      (snd (pairManual (Some [78, 49]) PairingManager_init))"
    by (simp add: run_simps step_simps)
  note * = pairing_invariant[OF this, of "char_array kNodeIdCapacity [78, 49]"]
  have "nodeIdValid (Some [78, 49])"
    by (simp add: nodeIdValid_def strnlen_def cstr_def capacity_defs validNodeByte_def Let_def)
  with * show ?thesis
    by (simp add: Let_def pairManual_def PairingManager_init_def paired_def strncpy_def capacity_defs
        cstr_def char_array_def list_update_append replicate_append_same)
qed

text \<open>C21: Radio traffic alone never pairs, unpairs or re-pairs the gateway: any number of received
  packets leaves the paired node and the pairing mode as they were. A packet only becomes the
  candidate, and only in pairing mode; confirming pairs with exactly the last observed node, and is
  refused when no packet was observed since pairing was started.\<close>

theorem pairing_needs_operator:
  assumes "pairing_run PairingManager_init before m" "pairing_run m during m'"
    "list_all from_radio during" "telemetry_wf p"
  shows "cstr (pm_pairedNodeId m') = cstr (pm_pairedNodeId m) \<and> pm_pairingMode m' = pm_pairingMode m \<and>
         (fst (confirmCandidate (observe p rssi snr t m)) \<longleftrightarrow> pm_pairingMode m) \<and>
         (pm_pairingMode m \<longrightarrow>
            pm_pairedNodeId (snd (confirmCandidate (observe p rssi snr t m))) = t_nodeId p) \<and>
         \<not> fst (confirmCandidate (snd (pairing_start m)))"
proof -
  have inv: "pairing_inv m" using pairing_run_inv[OF assms(1) pairing_inv_init] .
  have mode: "pm_pairingMode m" if "fst (confirmCandidate m')" "m' = observe p rssi snr t m" for m'
    using that by (auto simp: confirmCandidate_def observe_def split: if_splits)
  have conf: "fst (confirmCandidate (observe p rssi snr t m)) \<and>
      pm_pairedNodeId (snd (confirmCandidate (observe p rssi snr t m))) = t_nodeId p" if "pm_pairingMode m"
    using confirm_result[OF observe_inv[OF inv assms(4)], of rssi snr t] that observed_candidate[OF assms(4)]
    by (simp add: observe_def PairingCandidate_init_def)
  have "\<not> fst (confirmCandidate (snd (pairing_start m)))"
    using inv paired_iff[of m]
    by (auto simp: pairing_start_def confirmCandidate_def PairingCandidate_init_def pairing_inv_def)
  with mode conf show ?thesis
    using radio_run_keeps_name[OF assms(2,3)] by (auto simp: paired_name_def)
qed

theorem pairing_needs_operator_witness:
  "let m = snd (pairing_start PairingManager_init) in
   pm_pairedNodeId (snd (confirmCandidate (observe example_telemetry 0 0 1 m))) = t_nodeId example_telemetry"
proof -
  have "pairing_run PairingManager_init [Start] (snd (pairing_start PairingManager_init))"
    by (simp add: run_simps step_simps)
  from pairing_needs_operator[OF this run_Nil _ example_telemetry_wf, of 0 0 1] show ?thesis
    by (simp add: Let_def pairing_start_def PairingManager_init_def paired_def capacity_defs)
qed

end
