(* ===== verification/Running_Statistics.thy ===== *)
theory Running_Statistics
  imports Gateway_Prelude Complex_Main
begin

text \<open>
  The constant-memory statistics of \<open>lib/metrics/running_statistics.cpp\<close>. Minimum, maximum and count
  are exact; the mean is kept in a \<open>double\<close>, whose arithmetic is a parameter (\<open>double_ops\<close>) of the
  definitions. The incremental formula for the mean is then shown correct for exact arithmetic, and
  the integer fields for every arithmetic.
\<close>

section \<open>State and operations\<close>

record 'd double_ops =
  d_of_u64 :: "u64 \<Rightarrow> 'd"
  d_zero :: 'd
  d_add :: "'d \<Rightarrow> 'd \<Rightarrow> 'd"
  d_sub :: "'d \<Rightarrow> 'd \<Rightarrow> 'd"
  d_div :: "'d \<Rightarrow> 'd \<Rightarrow> 'd"

record 'd RunningStatistics =
  rs_count :: u64
  rs_minimum :: u64
  rs_maximum :: u64
  rs_average :: 'd

definition RunningStatistics_init :: "'d double_ops \<Rightarrow> 'd RunningStatistics" where
  "RunningStatistics_init D = \<lparr>rs_count = 0, rs_minimum = 0, rs_maximum = 0, rs_average = d_zero D\<rparr>"

definition rs_record :: "'d double_ops \<Rightarrow> u64 \<Rightarrow> 'd RunningStatistics \<Rightarrow> 'd RunningStatistics" where
  "rs_record D sample s =
     (let s = s\<lparr>rs_count := rs_count s + 1\<rparr> in
      if rs_count s = 1
      then s\<lparr>rs_minimum := sample, rs_maximum := sample, rs_average := d_of_u64 D sample\<rparr>
      else let s = (if sample < rs_minimum s then s\<lparr>rs_minimum := sample\<rparr> else s);
               s = (if rs_maximum s < sample then s\<lparr>rs_maximum := sample\<rparr> else s)
           in s\<lparr>rs_average := d_add D (rs_average s)
                  (d_div D (d_sub D (d_of_u64 D sample) (rs_average s)) (d_of_u64 D (rs_count s)))\<rparr>)"

record 'd AckLatencyStatistics =
  al_rxToStart :: "'d RunningStatistics"
  al_rxToComplete :: "'d RunningStatistics"
  al_txDuration :: "'d RunningStatistics"

definition AckLatencyStatistics_init :: "'d double_ops \<Rightarrow> 'd AckLatencyStatistics" where
  "AckLatencyStatistics_init D = \<lparr>al_rxToStart = RunningStatistics_init D,
     al_rxToComplete = RunningStatistics_init D, al_txDuration = RunningStatistics_init D\<rparr>"

definition al_record ::
  "'d double_ops \<Rightarrow> u64 \<Rightarrow> u64 \<Rightarrow> 'd AckLatencyStatistics \<Rightarrow> 'd AckLatencyStatistics" where
  "al_record D rxToStartUs rxToCompleteUs s =
     (if rxToCompleteUs < rxToStartUs then s
      else s\<lparr>al_rxToStart := rs_record D rxToStartUs (al_rxToStart s),
             al_rxToComplete := rs_record D rxToCompleteUs (al_rxToComplete s),
             al_txDuration := rs_record D (rxToCompleteUs - rxToStartUs) (al_txDuration s)\<rparr>)"


section \<open>What the fields hold\<close>

text \<open>Exact arithmetic on the reals, the instance in which the mean is the mean.\<close>

definition real_ops :: "real double_ops" where
  "real_ops = \<lparr>d_of_u64 = (\<lambda>v. real (unat v)), d_zero = 0, d_add = (+), d_sub = (-), d_div = (/)\<rparr>"

definition rs_records :: "'d double_ops \<Rightarrow> u64 list \<Rightarrow> 'd RunningStatistics" where
  "rs_records D xs = fold (rs_record D) xs (RunningStatistics_init D)"

lemma rs_records_snoc: "rs_records D (xs @ [x]) = rs_record D x (rs_records D xs)"
  by (simp add: rs_records_def)

lemma rs_count_records: "rs_count (rs_records D xs) = of_nat (length xs)"
  by (induction xs rule: rev_induct)
     (simp_all add: rs_records_snoc rs_record_def Let_def, simp add: rs_records_def RunningStatistics_init_def)

lemma first_sample:
  assumes "length xs + 1 < 2 ^ 64"
  shows "(of_nat (length xs) + 1 :: u64) = 1 \<longleftrightarrow> xs = []"
proof -
  have "unat (of_nat (length xs + 1) :: u64) = length xs + 1"
    using assms by (intro unat_of_nat_less) simp
  then have "(of_nat (length xs + 1) :: u64) = of_nat 1 \<longleftrightarrow> length xs + 1 = 1"
    by (metis unat_1 of_nat_1)
  then show ?thesis by (simp add: add.commute)
qed

lemma rs_record_later:
  assumes "rs_count s + 1 \<noteq> 1"
  shows "rs_minimum (rs_record D x s) = min x (rs_minimum s)" "rs_maximum (rs_record D x s) = max x (rs_maximum s)"
  using assms by (auto simp: rs_record_def Let_def min_def max_def)

lemma rs_minmax_records:
  assumes "xs \<noteq> []" "length xs < 2 ^ 64"
  shows "rs_minimum (rs_records D xs) = Min (set xs) \<and> rs_maximum (rs_records D xs) = Max (set xs)"
  using assms
proof (induction xs rule: rev_induct)
  case (snoc x xs)
  show ?case
  proof (cases "xs = []")
    case True
    then show ?thesis
      by (simp add: rs_records_def rs_record_def RunningStatistics_init_def)
  next
    case False
    then have "(of_nat (length xs) + 1 :: u64) \<noteq> 1"
      using first_sample[of xs] snoc.prems by simp
    moreover have "rs_minimum (rs_records D xs) = Min (set xs)" "rs_maximum (rs_records D xs) = Max (set xs)"
      using snoc False by simp_all
    ultimately show ?thesis using False rs_record_later[of "rs_records D xs" D x]
      by (simp add: rs_records_snoc rs_count_records)
  qed
qed simp

lemma incremental_mean:
  fixes s n x :: real
  assumes "0 < n"
  shows "s / n + (x - s / n) / (n + 1) = (s + x) / (n + 1)"
proof -
  have "s / n * n + s / n = s / n * (n + 1)" by (simp only: distrib_left mult_1_right)
  then have "s / n = (s / n * n + s / n) / (n + 1)"
    using assms nonzero_mult_div_cancel_right[of "n + 1" "s / n"] by simp
  then have "s / n + (x - s / n) / (n + 1) = (s / n * n + s / n) / (n + 1) + (x - s / n) / (n + 1)" by simp
  also have "\<dots> = (s + x) / (n + 1)" using assms by (simp flip: add_divide_distrib)
  finally show ?thesis .
qed

lemma rs_average_records:
  assumes "xs \<noteq> []" "length xs < 2 ^ 64"
  shows "rs_average (rs_records real_ops xs) = (\<Sum>x\<leftarrow>xs. real (unat x)) / real (length xs)"
  using assms
proof (induction xs rule: rev_induct)
  case (snoc x xs)
  show ?case
  proof (cases "xs = []")
    case True
    then show ?thesis
      by (simp add: rs_records_def rs_record_def RunningStatistics_init_def real_ops_def)
  next
    case False
    let ?n = "real (length xs)" and ?s = "\<Sum>x\<leftarrow>xs. real (unat x)"
    have n: "(of_nat (length xs) + 1 :: u64) \<noteq> 1"
      using first_sample[of xs] snoc.prems False by simp
    have "unat (of_nat (length xs + 1) :: u64) = length xs + 1"
      by (rule unat_of_nat_less) (use snoc.prems in simp)
    then have "unat (of_nat (length xs) + 1 :: u64) = length xs + 1" by (simp only: of_nat_add of_nat_1)
    then have cnt: "real (unat (of_nat (length xs) + 1 :: u64)) = ?n + 1" by simp
    have avg: "rs_average (rs_records real_ops xs) = ?s / ?n" using snoc False by simp
    have "rs_average (rs_records real_ops (xs @ [x])) = ?s / ?n + (real (unat x) - ?s / ?n) / (?n + 1)"
      using n cnt avg
      by (simp add: rs_records_snoc rs_record_def Let_def rs_count_records real_ops_def)
    also have "\<dots> = (?s + real (unat x)) / (?n + 1)"
      by (rule incremental_mean) (use False in simp)
    finally show ?thesis by (simp add: add.commute)
  qed
qed simp


section \<open>Properties of the statistics\<close>

text \<open>After any non-empty sequence of fewer than 2^64 samples the statistics hold their number,
  their exact minimum and maximum, whatever the rounding of the mean; and with exact arithmetic the
  incrementally updated mean is the mean of the samples.\<close>

theorem running_statistics_exact:
  assumes "xs \<noteq> []" "length xs < 2 ^ 64"
  shows "let s = rs_records D xs in
         unat (rs_count s) = length xs \<and> rs_minimum s = Min (set xs) \<and> rs_maximum s = Max (set xs) \<and>
         rs_average (rs_records real_ops xs) = (\<Sum>x\<leftarrow>xs. real (unat x)) / real (length xs)"
  using assms rs_minmax_records[OF assms] rs_average_records[OF assms] unat_of_nat_less[of "length xs", where ?'a = 64]
  by (simp add: Let_def rs_count_records)

theorem running_statistics_exact_witness:
  "rs_average (rs_records real_ops [10, 20, 60]) = 30"
  using running_statistics_exact[of "[10, 20, 60]" real_ops] by (simp add: Let_def)

end
