(* ===== verification/Queue_Record.thy ===== *)
theory Queue_Record
  imports Byte_Cursor
begin

text \<open>
  The record format of the durable queue (\<open>lib/queue/queue_record.cpp\<close>): a received frame with its
  reception metadata, as the bytes of one file, closed by a CRC-32. The specification is the canonical
  encoding \<open>record_encoding\<close> and the records that have one, \<open>record_wf\<close>.
\<close>

section \<open>Records\<close>

record ReceptionMetadata =
  rm_gatewayReceivedUnixMs :: u64
  rm_gatewayTimeTrusted :: bool
  rm_gatewayUptimeMs :: u64
  rm_gatewayBootSessionId :: u32
  rm_rssiDbm :: u32
  rm_snrDb :: u32
  rm_frequencyErrorHz :: u32
  rm_packetLength :: u16

definition ReceptionMetadata_init :: ReceptionMetadata where
  "ReceptionMetadata_init = \<lparr>rm_gatewayReceivedUnixMs = -1, rm_gatewayTimeTrusted = False,
     rm_gatewayUptimeMs = 0, rm_gatewayBootSessionId = 0, rm_rssiDbm = 0, rm_snrDb = 0,
     rm_frequencyErrorHz = 0, rm_packetLength = 0\<rparr>"

record QueueRecord =
  q_recordId :: u64
  q_reception :: ReceptionMetadata
  q_payloadLength :: u8
  q_rawPayload :: "byte list"

definition QueueRecord_init :: QueueRecord where
  "QueueRecord_init = \<lparr>q_recordId = 0, q_reception = ReceptionMetadata_init, q_payloadLength = 0,
     q_rawPayload = replicate kRadioPacketCapacity 0\<rparr>"

definition kFixedBytesWithoutPayload :: nat where "kFixedBytesWithoutPayload = 56"
definition kMaximumEncodedBytes :: nat where
  "kMaximumEncodedBytes = kFixedBytesWithoutPayload + kRadioPacketCapacity"

lemmas record_size_defs = kFixedBytesWithoutPayload_def kMaximumEncodedBytes_def kRadioPacketCapacity_def


section \<open>Checksum\<close>

definition crc_bit :: "u32 \<Rightarrow> u32" where
  "crc_bit crc = (let mask = - (crc AND 1) in drop_bit 1 crc XOR (0xEDB88320 AND mask))"

definition crc_byte :: "byte \<Rightarrow> u32 \<Rightarrow> u32" where
  "crc_byte b crc = (crc_bit ^^ 8) (crc XOR ucast b)"

definition crc32 :: "byte list \<Rightarrow> u32" where
  "crc32 input = NOT (fold crc_byte input 0xFFFFFFFF)"


section \<open>Codec\<close>

text \<open>The \<open>Writer\<close> of this file appends to a vector.\<close>

definition vec_u8 :: "u8 \<Rightarrow> byte list \<Rightarrow> byte list" where
  "vec_u8 v output = output @ [v]"

definition vec_u16 :: "u16 \<Rightarrow> byte list \<Rightarrow> byte list" where
  "vec_u16 v output = vec_u8 (ucast v) (vec_u8 (ucast (drop_bit 8 v)) output)"

definition vec_u32 :: "u32 \<Rightarrow> byte list \<Rightarrow> byte list" where
  "vec_u32 v output = vec_u8 (ucast v) (vec_u8 (ucast (drop_bit 8 v))
     (vec_u8 (ucast (drop_bit 16 v)) (vec_u8 (ucast (drop_bit 24 v)) output)))"

definition vec_u64 :: "u64 \<Rightarrow> byte list \<Rightarrow> byte list" where
  "vec_u64 v output = vec_u32 (ucast v) (vec_u32 (ucast (drop_bit 32 v)) output)"

definition vec_bytes :: "byte list \<Rightarrow> nat \<Rightarrow> byte list \<Rightarrow> byte list" where
  "vec_bytes input len output = output @ take len input"

text \<open>\<open>None\<close> stands for a call that returns false.\<close>

definition time_consistent :: "ReceptionMetadata \<Rightarrow> bool" where
  "time_consistent m \<longleftrightarrow>
     \<not> ((rm_gatewayTimeTrusted m \<and> sint (rm_gatewayReceivedUnixMs m) < 0) \<or>
        (\<not> rm_gatewayTimeTrusted m \<and> sint (rm_gatewayReceivedUnixMs m) \<noteq> -1))"

definition encodeRecord :: "QueueRecord \<Rightarrow> byte list option" where
  "encodeRecord r =
     (let m = q_reception r; n = unat (q_payloadLength r) in
      if q_recordId r = 0 \<or> q_payloadLength r = 0 \<or> kRadioPacketCapacity < n \<or>
         unat (rm_packetLength m) \<noteq> n \<or> \<not> time_consistent m then None
      else let output = [];
               output = vec_u32 kQueueMagic output;
               output = vec_u16 kQueueRecordVersion output;
               output = vec_u16 (of_nat (kFixedBytesWithoutPayload + n)) output;
               output = vec_u64 (q_recordId r) output;
               output = vec_u8 (if rm_gatewayTimeTrusted m then 1 else 0) output;
               output = vec_u8 (q_payloadLength r) output;
               output = vec_u16 (rm_packetLength m) output;
               output = vec_u32 (rm_gatewayBootSessionId m) output;
               output = vec_u64 (rm_gatewayReceivedUnixMs m) output;
               output = vec_u64 (rm_gatewayUptimeMs m) output;
               output = vec_u32 (rm_rssiDbm m) output;
               output = vec_u32 (rm_snrDb m) output;
               output = vec_u32 (rm_frequencyErrorHz m) output;
               output = vec_bytes (q_rawPayload r) n output;
               output = vec_u32 (crc32 output) output
           in if length output = kFixedBytesWithoutPayload + n then Some output else None)"

record RecordDecode =
  e_record :: QueueRecord
  e_magic :: u32
  e_boot :: u32
  e_rssi :: u32
  e_snr :: u32
  e_frequencyError :: u32
  e_version :: u16
  e_encodedLength :: u16
  e_packetLength :: u16
  e_flags :: u8
  e_payloadLength :: u8
  e_receivedAtBits :: u64

definition recordReads :: "(Reader \<times> RecordDecode \<Rightarrow> bool \<times> Reader \<times> RecordDecode) list" where
  "recordReads =
     [into reader_u32 (\<lambda>v. e_magic_update (\<lambda>_. v)), into reader_u16 (\<lambda>v. e_version_update (\<lambda>_. v)),
      into reader_u16 (\<lambda>v. e_encodedLength_update (\<lambda>_. v)),
      into reader_u64 (\<lambda>v. e_record_update (q_recordId_update (\<lambda>_. v))),
      into reader_u8 (\<lambda>v. e_flags_update (\<lambda>_. v)), into reader_u8 (\<lambda>v. e_payloadLength_update (\<lambda>_. v)),
      into reader_u16 (\<lambda>v. e_packetLength_update (\<lambda>_. v)), into reader_u32 (\<lambda>v. e_boot_update (\<lambda>_. v)),
      into reader_u64 (\<lambda>v. e_receivedAtBits_update (\<lambda>_. v)),
      into reader_u64 (\<lambda>v. e_record_update (q_reception_update (rm_gatewayUptimeMs_update (\<lambda>_. v)))),
      into reader_u32 (\<lambda>v. e_rssi_update (\<lambda>_. v)), into reader_u32 (\<lambda>v. e_snr_update (\<lambda>_. v)),
      into reader_u32 (\<lambda>v. e_frequencyError_update (\<lambda>_. v))]"

definition RecordDecode_init :: RecordDecode where
  "RecordDecode_init = \<lparr>e_record = QueueRecord_init, e_magic = 0, e_boot = 0, e_rssi = 0, e_snr = 0,
     e_frequencyError = 0, e_version = 0, e_encodedLength = 0, e_packetLength = 0, e_flags = 0,
     e_payloadLength = 0, e_receivedAtBits = 0\<rparr>"

definition decodeRecord :: "byte list option \<Rightarrow> nat \<Rightarrow> bool \<times> QueueRecord" where
  "decodeRecord input len =
     (case input of None \<Rightarrow> (False, QueueRecord_init) | Some bytes \<Rightarrow>
      if len < kFixedBytesWithoutPayload \<or> kMaximumEncodedBytes < len then (False, QueueRecord_init)
      else let storedCrc = join32 (bytes ! (len - 4)) (bytes ! (len - 3)) (bytes ! (len - 2)) (bytes ! (len - 1)) in
      if storedCrc \<noteq> crc32 (take (len - 4) bytes) then (False, QueueRecord_init)
      else case all_ok recordReads (Reader_init bytes (len - 4), RecordDecode_init) of
          (False, _, d) \<Rightarrow> (False, e_record d)
        | (True, r, d) \<Rightarrow>
           let n = unat (e_payloadLength d) in
           if e_magic d \<noteq> kQueueMagic \<or> e_version d \<noteq> kQueueRecordVersion \<or> unat (e_encodedLength d) \<noteq> len \<or>
              q_recordId (e_record d) = 0 \<or> 1 < e_flags d \<or> e_payloadLength d = 0 \<or> kRadioPacketCapacity < n \<or>
              unat (e_packetLength d) \<noteq> n \<or> remaining r \<noteq> n
           then (False, e_record d)
           else let m = (q_reception (e_record d))
                      \<lparr>rm_packetLength := e_packetLength d, rm_gatewayBootSessionId := e_boot d,
                       rm_gatewayTimeTrusted := (e_flags d = 1),
                       rm_gatewayReceivedUnixMs := e_receivedAtBits d, rm_rssiDbm := e_rssi d,
                       rm_snrDb := e_snr d, rm_frequencyErrorHz := e_frequencyError d\<rparr>;
                    q = (e_record d)\<lparr>q_payloadLength := e_payloadLength d, q_reception := m\<rparr>
                in if \<not> time_consistent m then (False, q)
                   else case into (reader_bytes n) (\<lambda>bs. q_rawPayload_update (\<lambda>dst. memcpy dst bs n)) (r, q) of
                          (ok, r', q') \<Rightarrow> (ok \<and> remaining r' = 0, q'))"


section \<open>The canonical encoding\<close>

definition record_body :: "QueueRecord \<Rightarrow> byte list" where
  "record_body r = (let m = q_reception r; n = unat (q_payloadLength r) in
     be32 kQueueMagic @ be16 kQueueRecordVersion @ be16 (of_nat (kFixedBytesWithoutPayload + n)) @
     be64 (q_recordId r) @ [if rm_gatewayTimeTrusted m then 1 else 0, q_payloadLength r] @
     be16 (rm_packetLength m) @ be32 (rm_gatewayBootSessionId m) @ be64 (rm_gatewayReceivedUnixMs m) @
     be64 (rm_gatewayUptimeMs m) @ be32 (rm_rssiDbm m) @ be32 (rm_snrDb m) @
     be32 (rm_frequencyErrorHz m) @ take n (q_rawPayload r))"

definition record_encoding :: "QueueRecord \<Rightarrow> byte list" where
  "record_encoding r = record_body r @ be32 (crc32 (record_body r))"

text \<open>What the encoder demands, and the array a decoder leaves: the payload, then zeros.\<close>

definition record_ok :: "QueueRecord \<Rightarrow> bool" where
  "record_ok r \<longleftrightarrow> q_recordId r \<noteq> 0 \<and> q_payloadLength r \<noteq> 0 \<and> unat (q_payloadLength r) \<le> kRadioPacketCapacity \<and>
     unat (rm_packetLength (q_reception r)) = unat (q_payloadLength r) \<and> time_consistent (q_reception r) \<and>
     length (q_rawPayload r) = kRadioPacketCapacity"

definition record_wf :: "QueueRecord \<Rightarrow> bool" where
  "record_wf r \<longleftrightarrow> record_ok r \<and>
     q_rawPayload r = char_array kRadioPacketCapacity (take (unat (q_payloadLength r)) (q_rawPayload r))"

lemma vec_be [bytes_simps]:
  "vec_u16 v16 out = out @ be16 v16" "vec_u32 v32 out = out @ be32 v32" "vec_u64 v64 out = out @ be64 v64"
  by (simp_all add: vec_u16_def vec_u32_def vec_u64_def vec_u8_def be16_def be32_def be64_def)

lemma length_record_body:
  "record_ok r \<Longrightarrow> length (record_body r) = 52 + unat (q_payloadLength r)"
  by (simp add: record_body_def record_ok_def Let_def)

lemma length_record_encoding:
  "record_ok r \<Longrightarrow> length (record_encoding r) = 56 + unat (q_payloadLength r)"
  by (simp add: record_encoding_def length_record_body)

lemma encodeRecord_iff:
  assumes "length (q_rawPayload r) = kRadioPacketCapacity"
  shows "encodeRecord r = (if record_ok r then Some (record_encoding r) else None)"
proof (cases "record_ok r")
  case True
  then have "vec_bytes (q_rawPayload r) n (out :: byte list) = out @ take n (q_rawPayload r)" for n out
    by (simp add: vec_bytes_def)
  with True length_record_encoding[OF True] show ?thesis
    by (simp add: encodeRecord_def record_ok_def Let_def bytes_simps vec_u8_def record_encoding_def
        record_body_def not_less[symmetric] record_size_defs)
next
  case False
  then show ?thesis using assms by (auto simp: encodeRecord_def record_ok_def Let_def not_less)
qed


section \<open>Decoding\<close>

lemma record_reads_need: "takes 52 (all_ok recordReads)"
proof -
  have "takes (sum_list [4,2,2,8,1,1,2,4,8,8,4,4,4]) (all_ok recordReads)"
    unfolding recordReads_def by (rule takes_chain) auto
  then show ?thesis by simp
qed

lemma record_body_surj:
  assumes "52 \<le> length bs"
  obtains mg ver el rid fl pl pk boot rcv up rssi snr fe rest where
    "bs = be32 mg @ be16 ver @ be16 el @ be64 rid @ fl # pl # (be16 pk @ be32 boot @ be64 rcv @
       be64 up @ be32 rssi @ be32 snr @ be32 fe @ rest)"
proof -
  obtain mg b1 where 1: "bs = be32 mg @ b1" using be32_split[of bs] assms by auto
  obtain ver b2 where 2: "b1 = be16 ver @ b2" using be16_split[of b1] assms 1 by auto
  obtain el b3 where 3: "b2 = be16 el @ b3" using be16_split[of b2] assms 1 2 by auto
  obtain rid b4 where 4: "b3 = be64 rid @ b4" using be64_split[of b3] assms 1 2 3 by auto
  note l4 = assms[unfolded 1 2 3 4, simplified]
  obtain fl pl b5 where 5: "b4 = fl # pl # b5" using l4 by (auto simp: numeral_eq_Suc Suc_le_length_iff)
  obtain pk b6 where 6: "b5 = be16 pk @ b6" using be16_split[of b5] l4 5 by auto
  obtain boot b7 where 7: "b6 = be32 boot @ b7" using be32_split[of b6] l4 5 6 by auto
  obtain rcv b8 where 8: "b7 = be64 rcv @ b8" using be64_split[of b7] l4 5 6 7 by auto
  note l8 = l4[unfolded 5 6 7 8, simplified]
  obtain up b9 where 9: "b8 = be64 up @ b9" using be64_split[of b8] l8 by auto
  obtain rssi b10 where 10: "b9 = be32 rssi @ b10" using be32_split[of b9] l8 9 by auto
  obtain snr b11 where 11: "b10 = be32 snr @ b11" using be32_split[of b10] l8 9 10 by auto
  obtain fe rest where 12: "b11 = be32 fe @ rest" using be32_split[of b11] l8 9 10 11 by auto
  show ?thesis by (rule that) (simp only: 1 2 3 4 5 6 7 8 9 10 11 12)
qed

text \<open>The decoder on a body of the fixed fields and any payload bytes, with the right checksum.\<close>

lemma decodeRecord_fields:
  assumes len: "len \<le> length bytes" "56 \<le> len" "len \<le> 152"
    and crc: "take 4 (drop (len - 4) bytes) = be32 (crc32 (take (len - 4) bytes))"
    and body: "take (len - 4) bytes = be32 mg @ be16 ver @ be16 el @ be64 rid @ fl # pl # (be16 pk @
       be32 boot @ be64 rcv @ be64 up @ be32 rssi @ be32 snr @ be32 fe @ rest)"
  shows "fst (decodeRecord (Some bytes) len) \<longleftrightarrow>
      mg = kQueueMagic \<and> ver = kQueueRecordVersion \<and> unat el = len \<and> rid \<noteq> 0 \<and> fl \<le> 1 \<and> pl \<noteq> 0 \<and>
      unat pl \<le> kRadioPacketCapacity \<and> unat pk = unat pl \<and> length rest = unat pl \<and>
      \<not> (fl = 1 \<and> sint rcv < 0) \<and> \<not> (fl \<noteq> 1 \<and> sint rcv \<noteq> -1)" (is "_ \<longleftrightarrow> ?ok")
    and "fst (decodeRecord (Some bytes) len) \<Longrightarrow> snd (decodeRecord (Some bytes) len) =
      \<lparr>q_recordId = rid, q_reception = \<lparr>rm_gatewayReceivedUnixMs = rcv, rm_gatewayTimeTrusted = (fl = 1),
         rm_gatewayUptimeMs = up, rm_gatewayBootSessionId = boot, rm_rssiDbm = rssi, rm_snrDb = snr,
         rm_frequencyErrorHz = fe, rm_packetLength = pk\<rparr>,
       q_payloadLength = pl, q_rawPayload = char_array kRadioPacketCapacity rest\<rparr>"
proof -
  let ?s = "join32 (bytes ! (len - 4)) (bytes ! (len - 3)) (bytes ! (len - 2)) (bytes ! (len - 1))"
  have "take 4 (drop (len - 4) bytes) = [bytes ! (len - 4), bytes ! (len - 3), bytes ! (len - 2), bytes ! (len - 1)]"
    using len by (auto simp: list_eq_iff_nth_eq less_Suc_eq numeral_eq_Suc)
  then have stored: "?s = crc32 (take (len - 4) bytes)"
    using crc be32_join32 be32_inj by metis
  have init: "Reader_init bytes (len - 4) = rd_at (drop (len - 4) bytes) [] (take (len - 4) bytes)"
    using len by (intro Reader_init_rd_at) simp
  have arr: "memcpy (replicate kRadioPacketCapacity 0) rest (length rest) = char_array kRadioPacketCapacity rest"
    if "length rest \<le> kRadioPacketCapacity" using that by (simp add: memcpy_def char_array_def)
  have gate: "\<not> (len < kFixedBytesWithoutPayload \<or> kMaximumEncodedBytes < len)"
    using len by (simp add: record_size_defs)
  have reads: "all_ok recordReads (Reader_init bytes (len - 4), RecordDecode_init) =
     (True, rd_at (drop (len - 4) bytes) (be32 mg @ be16 ver @ be16 el @ be64 rid @ fl # pl # (be16 pk @
       be32 boot @ be64 rcv @ be64 up @ be32 rssi @ be32 snr @ be32 fe)) rest,
      \<lparr>e_record = QueueRecord_init\<lparr>q_recordId := rid, q_reception := ReceptionMetadata_init\<lparr>rm_gatewayUptimeMs := up\<rparr>\<rparr>,
       e_magic = mg, e_boot = boot, e_rssi = rssi, e_snr = snr, e_frequencyError = fe, e_version = ver,
       e_encodedLength = el, e_packetLength = pk, e_flags = fl, e_payloadLength = pl, e_receivedAtBits = rcv\<rparr>)"
    by (simp add: init body recordReads_def RecordDecode_init_def QueueRecord_init_def chain_simps)
  show "fst (decodeRecord (Some bytes) len) \<longleftrightarrow> ?ok"
    using gate stored arr
    by (auto simp: decodeRecord_def reads Let_def chain_simps time_consistent_def not_less
        reader_bytes_append[where rest = "[]", simplified])
  show "snd (decodeRecord (Some bytes) len) = \<lparr>q_recordId = rid, q_reception = \<lparr>rm_gatewayReceivedUnixMs = rcv,
         rm_gatewayTimeTrusted = (fl = 1), rm_gatewayUptimeMs = up, rm_gatewayBootSessionId = boot,
         rm_rssiDbm = rssi, rm_snrDb = snr, rm_frequencyErrorHz = fe, rm_packetLength = pk\<rparr>,
       q_payloadLength = pl, q_rawPayload = char_array kRadioPacketCapacity rest\<rparr>"
    if "fst (decodeRecord (Some bytes) len)"
    using that gate stored arr
    by (auto simp: decodeRecord_def reads Let_def chain_simps time_consistent_def not_less QueueRecord_init_def
        ReceptionMetadata_init_def reader_bytes_append[where rest = "[]", simplified] split: if_splits)
qed


lemma flag_byte: "fl \<le> (1::u8) \<Longrightarrow> (if fl = 1 then 1 else 0) = fl"
proof -
  assume "fl \<le> 1"
  then have "fl = 0 \<or> fl = 1" by unat_arith
  then show ?thesis by auto
qed

lemma u16_len: "n \<le> 96 \<Longrightarrow> unat (of_nat (56 + n) :: u16) = 56 + n"
  by (rule unat_of_nat_less) simp

lemma decodeRecord_accepts:
  assumes "record_wf r" "len \<le> length input" "take len input = record_encoding r"
  shows "decodeRecord (Some input) len = (True, r)"
proof -
  let ?n = "unat (q_payloadLength r)"
  have ok: "record_ok r" and raw: "q_rawPayload r = char_array kRadioPacketCapacity (take ?n (q_rawPayload r))"
    using assms(1) by (auto simp: record_wf_def)
  have n: "?n \<le> 96" "length (q_rawPayload r) = 96" using ok by (simp_all add: record_ok_def capacity_defs)
  have len: "len = 56 + ?n"
    using assms(2,3) length_record_encoding[OF ok] by (metis length_take min.absorb2)
  have "take (len - 4) input = take (len - 4) (take len input)" by simp
  also have "\<dots> = record_body r"
    unfolding assms(3) using length_record_body[OF ok] by (simp add: record_encoding_def len)
  finally have body: "take (len - 4) input = record_body r" .
  have "take 4 (drop (len - 4) input) = drop (len - 4) (take len input)" using len by (simp add: drop_take)
  also have "\<dots> = be32 (crc32 (record_body r))"
    unfolding assms(3) using length_record_body[OF ok] by (simp add: record_encoding_def len)
  finally have crc: "take 4 (drop (len - 4) input) = be32 (crc32 (take (len - 4) input))"
    by (simp only: body)
  note dec = decodeRecord_fields[OF assms(2) _ _ crc, where rest = "take ?n (q_rawPayload r)",
      unfolded body record_body_def Let_def append.simps append_assoc, OF _ _ refl]
  have "unat (56 + ucast (q_payloadLength r) :: u16) = 56 + ?n" using u16_len[OF n(1)] by simp
  then have fst: "fst (decodeRecord (Some input) len)"
    by (subst dec(1)) (use ok n len in \<open>auto simp: record_ok_def record_size_defs u16_len time_consistent_def\<close>)
  show ?thesis
    using dec(2)[OF _ _ fst] fst raw len n
    by (cases r; cases "q_reception r"; cases "decodeRecord (Some input) len") auto
qed

lemma decodeRecord_sound:
  assumes "decodeRecord (Some input) len = (True, r)" "len \<le> length input"
  shows "record_wf r \<and> take len input = record_encoding r"
proof -
  have len: "56 \<le> len" "len \<le> 152"
    and sum: "join32 (input ! (len - 4)) (input ! (len - 3)) (input ! (len - 2)) (input ! (len - 1)) = crc32 (take (len - 4) input)"
    using assms(1) by (auto simp: decodeRecord_def record_size_defs Let_def split: if_splits)
  have tl: "take 4 (drop (len - 4) input) = [input ! (len - 4), input ! (len - 3), input ! (len - 2), input ! (len - 1)]"
    using len assms(2) by (auto simp: list_eq_iff_nth_eq less_Suc_eq numeral_eq_Suc)
  have crc: "take 4 (drop (len - 4) input) = be32 (crc32 (take (len - 4) input))"
    using sum be32_join32 unfolding tl by metis
  obtain mg ver el rid fl pl pk boot rcv up rssi snr fe rest where body: "take (len - 4) input =
      be32 mg @ be16 ver @ be16 el @ be64 rid @ fl # pl # (be16 pk @
       be32 boot @ be64 rcv @ be64 up @ be32 rssi @ be32 snr @ be32 fe @ rest)"
  proof (rule record_body_surj)
    show "52 \<le> length (take (len - 4) input)" using len assms(2) by simp
  qed
  note dec = decodeRecord_fields[OF assms(2) len crc body]
  have ok: "mg = kQueueMagic" "ver = kQueueRecordVersion" "unat el = len" "rid \<noteq> 0" "fl \<le> 1" "pl \<noteq> 0"
      "unat pl \<le> kRadioPacketCapacity" "unat pk = unat pl" "length rest = unat pl"
      "\<not> (fl = 1 \<and> sint rcv < 0)" "\<not> (fl \<noteq> 1 \<and> sint rcv \<noteq> -1)"
    using dec(1) assms(1) by auto
  have r: "r = \<lparr>q_recordId = rid, q_reception = \<lparr>rm_gatewayReceivedUnixMs = rcv, rm_gatewayTimeTrusted = (fl = 1),
         rm_gatewayUptimeMs = up, rm_gatewayBootSessionId = boot, rm_rssiDbm = rssi, rm_snrDb = snr,
         rm_frequencyErrorHz = fe, rm_packetLength = pk\<rparr>,
       q_payloadLength = pl, q_rawPayload = char_array kRadioPacketCapacity rest\<rparr>"
    using dec(2) assms(1) by simp
  have raw: "take (unat pl) (char_array kRadioPacketCapacity rest) = rest"
    using ok by (simp add: char_array_def)
  have wf: "record_wf r"
    using ok raw length_char_array[of rest kRadioPacketCapacity]
    by (auto simp: record_wf_def record_ok_def r time_consistent_def)
  have "length (take (len - 4) input) = 52 + unat pl" unfolding body using ok(9) by simp
  then have "len = 56 + unat pl" using len assms(2) by simp
  then have "unat (of_nat (56 + unat pl) :: u16) = unat el"
    using u16_len[of "unat pl"] ok(3,7) by (simp only: kRadioPacketCapacity_def)
  then have "of_nat (56 + unat pl) = el" by (simp only: word_unat_eq_iff)
  then have "take (len - 4) input = record_body r"
    unfolding body record_body_def Let_def r using ok raw flag_byte[OF ok(5)]
    by (simp add: kFixedBytesWithoutPayload_def)
  moreover have "take len input = take (len - 4) input @ take 4 (drop (len - 4) input)"
    using len by (simp flip: take_add)
  ultimately show ?thesis using wf crc by (simp add: record_encoding_def)
qed

section \<open>Damage\<close>

lemma lsb_mask: "c AND 1 = (if bit c 0 then 1 else (0::u32))"
  by (simp add: and_one_eq mod_2_eq_odd bit_0)

lemma crc_bit_alt: "crc_bit c = drop_bit 1 c XOR (if bit c 0 then 0xEDB88320 else 0)"
  by (simp add: crc_bit_def lsb_mask)

lemma crc_bit_top: "bit (crc_bit c) 31 = bit c 0"
  using bit_imp_le_length[of c 32] by (auto simp: crc_bit_alt bit_simps)

lemma crc_bit_inj: "crc_bit c = crc_bit d \<longleftrightarrow> c = d"
proof
  assume eq: "crc_bit c = crc_bit d"
  then have low: "bit c 0 = bit d 0" by (metis crc_bit_top)
  have "(drop_bit 1 c XOR m) XOR m = (drop_bit 1 d XOR m) XOR m" if "m = (if bit c 0 then 0xEDB88320 else 0)" for m
    using eq low that by (simp add: crc_bit_alt split: if_splits)
  then have "drop_bit 1 c = drop_bit 1 d" by (simp add: xor.assoc)
  then have high: "bit (drop_bit 1 c) n = bit (drop_bit 1 d) n" for n by simp
  show "c = d"
  proof (rule bit_word_eqI)
    fix n show "bit c n = bit d n"
      using low high[of "n - 1"] by (cases n) (simp_all add: bit_simps)
  qed
qed simp

lemma crc_bits_inj: "(crc_bit ^^ n) c = (crc_bit ^^ n) d \<longleftrightarrow> c = d"
  by (induction n) (simp_all add: crc_bit_inj)

lemma crc_byte_inj: "crc_byte b c = crc_byte b d \<longleftrightarrow> c = d"
proof -
  have "c XOR x = d XOR x \<longleftrightarrow> c = d" for x :: u32
    by (metis xor.assoc xor.right_neutral xor_self_eq)
  then show ?thesis by (simp add: crc_byte_def crc_bits_inj)
qed

lemma crc_byte_byte: "crc_byte a c = crc_byte b c \<longleftrightarrow> a = b"
proof -
  have "c XOR x = c XOR y \<longleftrightarrow> x = y" for x y :: u32
    by (metis xor.assoc xor.left_neutral xor_self_eq)
  then show ?thesis by (simp add: crc_byte_def crc_bits_inj ucast_byte_inj)
qed

lemma crc_fold_inj: "fold crc_byte bs c = fold crc_byte bs d \<longleftrightarrow> c = d"
  by (induction bs arbitrary: c d) (simp_all add: crc_byte_inj)

lemma crc32_detects_one_byte:
  assumes "i < length bs" "bs ! i \<noteq> b"
  shows "crc32 (bs[i := b]) \<noteq> crc32 bs"
proof -
  have bs: "bs = take i bs @ bs ! i # drop (Suc i) bs" using assms(1) by (rule id_take_nth_drop)
  have upd: "bs[i := b] = take i bs @ b # drop (Suc i) bs"
    using assms(1) by (rule upd_conv_take_nth_drop)
  show ?thesis
    unfolding crc32_def upd
    by (subst (2) bs) (simp add: crc_fold_inj crc_byte_byte assms(2)[symmetric])
qed


section \<open>Properties of the record codec\<close>

definition example_record :: QueueRecord where
  "example_record = QueueRecord_init\<lparr>q_recordId := 7,
     q_reception := ReceptionMetadata_init\<lparr>rm_packetLength := 3, rm_rssiDbm := 0xC2B40000\<rparr>,
     q_payloadLength := 3, q_rawPayload := char_array kRadioPacketCapacity [1, 2, 3]\<rparr>"

lemma example_record_wf: "record_wf example_record"
  by (simp add: record_wf_def record_ok_def example_record_def QueueRecord_init_def
      ReceptionMetadata_init_def time_consistent_def capacity_defs char_array_def)

text \<open>C23: A queue record survives its file: every record the encoder accepts becomes a file of 56 bytes
  plus the payload, at most 152, and decoding those bytes returns it, metadata and frame; conversely the
  decoder accepts exactly such files, so what it returns always has a non-zero id, a frame of 1 to 96
  bytes, the matching packet length, and a receive time exactly when the clock was trusted.\<close>

theorem queue_record_roundtrip:
  assumes "record_wf r" "len \<le> length input"
  shows "encodeRecord r = Some (record_encoding r) \<and>
         length (record_encoding r) = kFixedBytesWithoutPayload + unat (q_payloadLength r) \<and>
         length (record_encoding r) \<le> kMaximumEncodedBytes \<and>
         decodeRecord (Some (record_encoding r)) (length (record_encoding r)) = (True, r) \<and>
         (decodeRecord (Some input) len = (True, r') \<longleftrightarrow> record_wf r' \<and> take len input = record_encoding r')"
proof -
  have ok: "record_ok r" "length (q_rawPayload r) = kRadioPacketCapacity"
    using assms(1) by (simp_all add: record_wf_def record_ok_def)
  have "decodeRecord (Some (record_encoding r)) (length (record_encoding r)) = (True, r)"
    using assms(1) by (intro decodeRecord_accepts) simp_all
  moreover have "decodeRecord (Some input) len = (True, r') \<longleftrightarrow> record_wf r' \<and> take len input = record_encoding r'"
    using assms(2) decodeRecord_accepts decodeRecord_sound by blast
  moreover have "unat (q_payloadLength r) \<le> kRadioPacketCapacity" using ok by (simp add: record_ok_def)
  ultimately show ?thesis
    using ok by (simp add: encodeRecord_iff length_record_encoding record_size_defs)
qed

theorem queue_record_roundtrip_witness:
  "length (record_encoding example_record) = 59 \<and>
   decodeRecord (Some (record_encoding example_record)) 59 = (True, example_record)"
proof -
  have "unat (q_payloadLength example_record) = 3" by (simp add: example_record_def)
  then show ?thesis
    using queue_record_roundtrip[OF example_record_wf, of 0 "[]" example_record]
    by (auto simp: record_size_defs)
qed

text \<open>C24: Damage to any single byte of a record file, wherever it is, is detected: the file no longer
  decodes.\<close>

theorem queue_record_detects_damage:
  assumes "record_wf r" "i < length (record_encoding r)" "record_encoding r ! i \<noteq> b"
  shows "\<not> fst (decodeRecord (Some ((record_encoding r)[i := b])) (length (record_encoding r)))"
proof
  let ?e = "record_encoding r" and ?m = "length (record_body r)"
  assume "fst (decodeRecord (Some (?e[i := b])) (length ?e))"
  then obtain r' where "decodeRecord (Some (?e[i := b])) (length ?e) = (True, r')"
    by (metis prod.collapse)
  from decodeRecord_sound[OF this] have e': "?e[i := b] = record_encoding r'" and wf': "record_wf r'" by simp_all
  have len: "length (record_encoding r') = length ?e" using e' by (metis length_list_update)
  then have m: "length (record_body r') = ?m" by (simp add: record_encoding_def)
  show False
  proof (cases "i < ?m")
    case True
    then have "(record_body r)[i := b] @ be32 (crc32 (record_body r)) = record_body r' @ be32 (crc32 (record_body r'))"
      using e' by (simp add: record_encoding_def list_update_append1)
    then have "(record_body r)[i := b] = record_body r'" "crc32 (record_body r) = crc32 (record_body r')"
      using m by simp_all
    then show False using crc32_detects_one_byte[OF True] assms(3) True
      by (simp add: record_encoding_def nth_append) metis
  next
    case False
    then have "?e[i := b] = record_body r @ (be32 (crc32 (record_body r)))[i - ?m := b]"
      by (simp add: record_encoding_def list_update_append)
    with e' have "record_body r @ (be32 (crc32 (record_body r)))[i - ?m := b] = record_body r' @ be32 (crc32 (record_body r'))"
      by (metis record_encoding_def)
    then have "record_body r' = record_body r" and "(be32 (crc32 (record_body r)))[i - ?m := b] = be32 (crc32 (record_body r'))"
      using append_eq_append_conv[OF disjI1, OF m[symmetric]] by (metis, metis)
    then have "(be32 (crc32 (record_body r)))[i - ?m := b] = be32 (crc32 (record_body r))" by metis
    then have "be32 (crc32 (record_body r)) ! (i - ?m) = b"
      using False assms(2) by (metis (no_types, lifting) length_append nth_list_update_eq record_encoding_def
          less_diff_conv2 add.commute not_less)
    then show False using False assms(3) by (simp add: record_encoding_def nth_append)
  qed
qed

theorem queue_record_detects_damage_witness:
  "\<not> fst (decodeRecord (Some ((record_encoding example_record)[0 := 0])) 59)"
proof -
  have len: "length (record_encoding example_record) = 59"
    using length_record_encoding example_record_wf by (simp add: record_wf_def) (simp add: example_record_def)
  have "record_encoding example_record ! 0 \<noteq> 0"
    by (simp add: record_encoding_def record_body_def Let_def be32_def kQueueMagic_def)
  from queue_record_detects_damage[OF example_record_wf _ this] show ?thesis by (simp add: len)
qed

end
