(* ===== verification/Deduplicator.thy ===== *)
theory Deduplicator
  imports Protocol_Telemetry
begin

text \<open>
  The recent-packet memory (\<open>lib/pairing/deduplicator.cpp\<close>): telemetry keys and the ring
  \<open>RecentDeduplicator\<close>. The contract of such a memory is the locale \<open>recent_memory\<close>: its contents
  as a list, oldest first, and what each operation does to that list. The ring is shown to satisfy it,
  so that the index arithmetic of \<open>next_\<close> and \<open>oldestAt\<close> never shows in what follows.
\<close>

section \<open>Keys and the ring\<close>

record TelemetryKey =
  key_nodeId :: "byte list"
  key_persistentSessionId :: u32
  key_sequence :: u32

definition TelemetryKey_init :: TelemetryKey where
  "TelemetryKey_init = \<lparr>key_nodeId = replicate kNodeIdCapacity 0, key_persistentSessionId = 0,
                        key_sequence = 0\<rparr>"

definition makeTelemetryKey :: "byte list option \<Rightarrow> u32 \<Rightarrow> u32 \<Rightarrow> TelemetryKey" where
  "makeTelemetryKey nodeId persistentSessionId seqno =
     (let key = TelemetryKey_init;
          key = (case nodeId of None \<Rightarrow> key
                 | Some s \<Rightarrow> key\<lparr>key_nodeId := strncpy (key_nodeId key) s (kNodeIdCapacity - 1)\<rparr>)
      in key\<lparr>key_persistentSessionId := persistentSessionId, key_sequence := seqno\<rparr>)"

definition telemetryKeyEqual :: "TelemetryKey \<Rightarrow> TelemetryKey \<Rightarrow> bool" where
  "telemetryKeyEqual lhs rhs \<longleftrightarrow>
     strncmp_eq (key_nodeId lhs) (key_nodeId rhs) kNodeIdCapacity \<and>
     key_persistentSessionId lhs = key_persistentSessionId rhs \<and>
     key_sequence lhs = key_sequence rhs"

record RecentDeduplicator =
  dd_keys :: "TelemetryKey list"
  dd_capacity :: nat
  dd_size :: nat
  dd_next :: nat

definition RecentDeduplicator_init :: "nat \<Rightarrow> RecentDeduplicator" where
  "RecentDeduplicator_init capacity =
     (let cap = (if capacity = 0 then 1 else capacity);
          cap = (if kRecentDedupCapacity < cap then kRecentDedupCapacity else cap)
      in \<lparr>dd_keys = replicate kRecentDedupCapacity TelemetryKey_init, dd_capacity = cap,
          dd_size = 0, dd_next = 0\<rparr>)"

definition oldestAt :: "RecentDeduplicator \<Rightarrow> nat \<Rightarrow> TelemetryKey" where
  "oldestAt m index =
     (let oldest = (if dd_size m < dd_capacity m then 0 else dd_next m)
      in dd_keys m ! ((oldest + index) mod dd_capacity m))"

definition dedup_contains :: "RecentDeduplicator \<Rightarrow> TelemetryKey \<Rightarrow> bool" where
  "dedup_contains m key = list_ex (\<lambda>index. telemetryKeyEqual (oldestAt m index) key) [0..<dd_size m]"

definition remember :: "RecentDeduplicator \<Rightarrow> TelemetryKey \<Rightarrow> bool \<times> RecentDeduplicator" where
  "remember m key =
     (if dedup_contains m key then (False, m)
      else (True, m\<lparr>dd_keys := (dd_keys m)[dd_next m := key],
                    dd_next := (dd_next m + 1) mod dd_capacity m,
                    dd_size := (if dd_size m < dd_capacity m then dd_size m + 1 else dd_size m)\<rparr>))"

definition dedup_clear :: "RecentDeduplicator \<Rightarrow> RecentDeduplicator" where
  "dedup_clear m = m\<lparr>dd_size := 0, dd_next := 0\<rparr>"


section \<open>Telemetry keys\<close>

text \<open>A key as \<open>makeTelemetryKey\<close> builds it: the identifier zero-padded in its array.\<close>

definition key_ok :: "TelemetryKey \<Rightarrow> bool" where
  "key_ok k \<longleftrightarrow> length (cstr (key_nodeId k)) < kNodeIdCapacity \<and>
     key_nodeId k = char_array kNodeIdCapacity (cstr (key_nodeId k))"

lemma key_ok_length: "key_ok k \<Longrightarrow> length (key_nodeId k) = kNodeIdCapacity"
  using length_char_array[of "cstr (key_nodeId k)" kNodeIdCapacity] by (simp add: key_ok_def)

lemma telemetryKeyEqual_refl [simp]: "telemetryKeyEqual k k"
  by (simp add: telemetryKeyEqual_def strncmp_eq_def)

lemma telemetryKeyEqual_sym: "telemetryKeyEqual a b \<Longrightarrow> telemetryKeyEqual b a"
  by (simp add: telemetryKeyEqual_def strncmp_eq_def)

lemma telemetryKeyEqual_trans:
  "telemetryKeyEqual a b \<Longrightarrow> telemetryKeyEqual b c \<Longrightarrow> telemetryKeyEqual a c"
  by (simp add: telemetryKeyEqual_def strncmp_eq_def)

lemma telemetryKeyEqual_iff:
  assumes "key_ok a" "key_ok b" shows "telemetryKeyEqual a b \<longleftrightarrow> a = b"
proof
  assume "telemetryKeyEqual a b"
  then have "cstr (key_nodeId a) = cstr (key_nodeId b)"
      "key_persistentSessionId a = key_persistentSessionId b" "key_sequence a = key_sequence b"
    using assms by (simp_all add: telemetryKeyEqual_def strncmp_eq_def key_ok_length)
  moreover from this(1) have "key_nodeId a = key_nodeId b"
    using assms by (metis key_ok_def)
  ultimately show "a = b" by (cases a, cases b) simp
qed simp

lemma take_cstr_strncpy:
  assumes "n < m"
  shows "strncpy (replicate m 0) s n = char_array m (take n (cstr s))"
proof -
  have "take n (cstr s @ replicate n 0) @ replicate (m - n) (0::byte)
      = take n (cstr s) @ replicate (m - length (take n (cstr s))) 0"
  proof (cases "n \<le> length (cstr s)")
    case False
    then have "replicate (n - length (cstr s)) (0::byte) @ replicate (m - n) 0 = replicate (m - length (cstr s)) 0"
      using assms by (simp flip: replicate_add)
    with False show ?thesis by simp
  qed simp
  then show ?thesis by (simp add: strncpy_def char_array_def)
qed

lemma key_ok_makeTelemetryKey [simp]: "key_ok (makeTelemetryKey n ses seqno)"
proof (cases n)
  case None
  then show ?thesis
    by (simp add: makeTelemetryKey_def TelemetryKey_init_def key_ok_def char_array_def capacity_defs
        cstr_def)
next
  case (Some s)
  have "0 \<notin> set (take 24 (cstr s))" using nul_notin_cstr[of s] by (meson in_set_takeD)
  with Some show ?thesis
    by (simp add: makeTelemetryKey_def TelemetryKey_init_def key_ok_def take_cstr_strncpy
        capacity_defs cstr_char_array)
qed

lemma makeTelemetryKey_inj:
  assumes "node_name (cstr a)" "node_name (cstr b)"
  shows "makeTelemetryKey (Some a) s q = makeTelemetryKey (Some b) s' q' \<longleftrightarrow>
         cstr a = cstr b \<and> s = s' \<and> q = q'"
  using assms strncpy_zeros[of a kNodeIdCapacity] strncpy_zeros[of b kNodeIdCapacity]
  by (auto simp: makeTelemetryKey_def TelemetryKey_init_def node_name_def char_array_inj)


section \<open>The contract of a recent-packet memory\<close>

text \<open>What remembering does to the list of remembered keys, oldest first.\<close>

definition recent_push :: "('k \<Rightarrow> 'k \<Rightarrow> bool) \<Rightarrow> nat \<Rightarrow> 'k list \<Rightarrow> 'k \<Rightarrow> 'k list" where
  "recent_push eq cap xs k =
     (if \<exists>x\<in>set xs. eq x k then xs else (if length xs < cap then xs else tl xs) @ [k])"

lemma recent_push_keeps:
  assumes "length zs \<le> n" "length zs < cap - 1"
  shows "\<exists>ys' zs'. recent_push eq cap (ys @ k # zs) k' = ys' @ k # zs' \<and> length zs' \<le> Suc n"
proof -
  consider "\<exists>x\<in>set (ys @ k # zs). eq x k'"
    | "\<not> (\<exists>x\<in>set (ys @ k # zs). eq x k')" "length (ys @ k # zs) < cap"
    | a ys1 where "\<not> (\<exists>x\<in>set (ys @ k # zs). eq x k')" "\<not> length (ys @ k # zs) < cap" "ys = a # ys1"
  proof (cases ys)
    case Nil
    have "Suc (length zs) < cap" using assms(2) by simp
    with Nil that show ?thesis by auto
  qed (use that in auto)
  then show ?thesis
  proof cases
    case 1
    then have "recent_push eq cap (ys @ k # zs) k' = ys @ k # zs" unfolding recent_push_def by (rule if_P)
    with assms(1) show ?thesis by (auto intro: exI[of _ ys])
  next
    case 2
    then have "recent_push eq cap (ys @ k # zs) k' = ys @ k # (zs @ [k'])" by (auto simp: recent_push_def)
    with assms(1) show ?thesis by fastforce
  next
    case 3
    then have "recent_push eq cap (ys @ k # zs) k' = ys1 @ k # (zs @ [k'])" by (auto simp: recent_push_def)
    with assms(1) show ?thesis by fastforce
  qed
qed

locale recent_memory =
  fixes eq :: "'k \<Rightarrow> 'k \<Rightarrow> bool"
    and inv :: "'m \<Rightarrow> bool"
    and capacity :: "'m \<Rightarrow> nat"
    and contents :: "'m \<Rightarrow> 'k list"
    and mem :: "'m \<Rightarrow> 'k \<Rightarrow> bool"
    and rem :: "'m \<Rightarrow> 'k \<Rightarrow> bool \<times> 'm"
    and clr :: "'m \<Rightarrow> 'm"
  assumes eq_refl: "eq k k"
    and capacity_pos: "inv m \<Longrightarrow> 0 < capacity m"
    and contents_bound: "inv m \<Longrightarrow> length (contents m) \<le> capacity m"
    and mem_iff: "inv m \<Longrightarrow> mem m k \<longleftrightarrow> (\<exists>x\<in>set (contents m). eq x k)"
    and rem_verdict: "inv m \<Longrightarrow> fst (rem m k) \<longleftrightarrow> \<not> mem m k"
    and rem_contents: "inv m \<Longrightarrow> contents (snd (rem m k)) = recent_push eq (capacity m) (contents m) k"
    and rem_inv: "inv m \<Longrightarrow> inv (snd (rem m k))"
    and rem_capacity: "inv m \<Longrightarrow> capacity (snd (rem m k)) = capacity m"
    and clr_inv: "inv m \<Longrightarrow> inv (clr m)"
    and clr_contents: "inv m \<Longrightarrow> contents (clr m) = []"
begin

definition rem_all :: "'k list \<Rightarrow> 'm \<Rightarrow> 'm" where
  "rem_all ks m = fold (\<lambda>k m. snd (rem m k)) ks m"

lemma rem_all_inv: "inv m \<Longrightarrow> inv (rem_all ks m) \<and> capacity (rem_all ks m) = capacity m"
  unfolding rem_all_def by (induction ks arbitrary: m) (simp_all add: rem_inv rem_capacity)

lemma rem_all_contents:
  "inv m \<Longrightarrow> contents (rem_all ks m) = fold (\<lambda>k xs. recent_push eq (capacity m) xs k) ks (contents m)"
  unfolding rem_all_def
  by (induction ks arbitrary: m) (simp_all add: rem_inv rem_capacity rem_contents)

text \<open>At most \<open>n\<close> keys follow \<open>k\<close>: it survives as long as the memory has room for them and \<open>k\<close>.\<close>

definition within :: "nat \<Rightarrow> 'k \<Rightarrow> 'm \<Rightarrow> bool" where
  "within n k m \<longleftrightarrow> (\<exists>ys zs. contents m = ys @ k # zs \<and> length zs \<le> n)"

lemma within_mem: "inv m \<Longrightarrow> within n k m \<Longrightarrow> mem m k"
  using mem_iff eq_refl by (auto simp: within_def)

lemma within_rem:
  assumes "inv m" "within n k m" "Suc n < capacity m"
  shows "within (Suc n) k (snd (rem m k'))"
proof -
  obtain ys zs where c: "contents m = ys @ k # zs" "length zs \<le> n"
    using assms(2) by (auto simp: within_def)
  have "\<exists>ys' zs'. contents (snd (rem m k')) = ys' @ k # zs' \<and> length zs' \<le> Suc n"
    unfolding rem_contents[OF assms(1)] c(1) using c assms(3) by (intro recent_push_keeps) auto
  then show ?thesis by (simp add: within_def)
qed

lemma remembered_window:
  assumes "inv m" "fst (rem m k)" "length ks < capacity m"
  shows "mem (rem_all ks (snd (rem m k))) k"
proof -
  have start: "within 0 k (snd (rem m k))"
    using assms(1,2) rem_contents[OF assms(1), of k] rem_verdict[OF assms(1)] mem_iff[OF assms(1)]
    by (auto simp: recent_push_def within_def)
  have "inv m' \<Longrightarrow> within n k m' \<Longrightarrow> n + length ks < capacity m' \<Longrightarrow>
      within (n + length ks) k (rem_all ks m')" for n m'
  proof (induction ks arbitrary: n m')
    case (Cons k' ks)
    then show ?case
      using within_rem[of m' n k k'] rem_inv[of m' k'] rem_capacity[of m' k']
        Cons.IH[of "snd (rem m' k')" "Suc n"] by (simp add: rem_all_def)
  qed (simp add: rem_all_def)
  from this[OF rem_inv[OF assms(1)] start] show ?thesis
    using assms(1,3) rem_inv[OF assms(1), of k] rem_capacity[OF assms(1), of k]
      rem_all_inv[OF rem_inv[OF assms(1)]] within_mem by simp
qed

lemma forgets_nothing_new:
  "inv m \<Longrightarrow> set (contents (rem_all ks m)) \<subseteq> set (contents m) \<union> set ks"
proof (induction ks arbitrary: m)
  case (Cons k ks)
  have "set (contents (snd (rem m k))) \<subseteq> insert k (set (contents m))"
    using rem_contents[OF Cons.prems, of k]
    by (cases "contents m") (auto simp: recent_push_def)
  then show ?case using Cons.IH[OF rem_inv[OF Cons.prems, of k]] by (auto simp: rem_all_def)
qed (simp add: rem_all_def)

end


section \<open>The ring implements the contract\<close>

definition dedup_inv :: "RecentDeduplicator \<Rightarrow> bool" where
  "dedup_inv m \<longleftrightarrow> length (dd_keys m) = kRecentDedupCapacity \<and> 0 < dd_capacity m \<and>
     dd_capacity m \<le> kRecentDedupCapacity \<and> dd_size m \<le> dd_capacity m \<and>
     dd_next m < dd_capacity m \<and> (dd_size m < dd_capacity m \<longrightarrow> dd_next m = dd_size m)"

definition dedup_list :: "RecentDeduplicator \<Rightarrow> TelemetryKey list" where
  "dedup_list m = map (oldestAt m) [0..<dd_size m]"

lemma length_dedup_list [simp]: "length (dedup_list m) = dd_size m"
  by (simp add: dedup_list_def)

lemma dedup_init_inv: "dedup_inv (RecentDeduplicator_init n)"
  by (simp add: dedup_inv_def RecentDeduplicator_init_def Let_def capacity_defs)

lemma dedup_list_init [simp]: "dedup_list (RecentDeduplicator_init n) = []"
  by (simp add: dedup_list_def RecentDeduplicator_init_def Let_def)

lemma dedup_contains_iff: "dedup_contains m k \<longleftrightarrow> (\<exists>x\<in>set (dedup_list m). telemetryKeyEqual x k)"
  by (simp add: dedup_contains_def dedup_list_def list_ex_iff)

lemma remember_inv: "dedup_inv m \<Longrightarrow> dedup_inv (snd (remember m k))"
  by (auto simp: remember_def dedup_inv_def)

lemma remember_room:
  assumes "dedup_inv m" "\<not> dedup_contains m k" "dd_size m < dd_capacity m"
  shows "dedup_list (snd (remember m k)) = dedup_list m @ [k]"
proof (rule nth_equalityI)
  fix i assume i: "i < length (dedup_list (snd (remember m k)))"
  show "dedup_list (snd (remember m k)) ! i = (dedup_list m @ [k]) ! i"
  proof (cases "i < dd_size m")
    case True
    with assms show ?thesis
      by (auto simp: remember_def dedup_list_def oldestAt_def nth_append dedup_inv_def Let_def mod_Suc)
  next
    case False
    with i assms have "i = dd_size m" by (simp add: remember_def)
    with assms show ?thesis
      by (auto simp: remember_def dedup_list_def oldestAt_def nth_append dedup_inv_def Let_def
          mod_Suc split: if_splits)
  qed
qed (use assms in \<open>simp add: remember_def\<close>)

lemma remember_full:
  assumes "dedup_inv m" "\<not> dedup_contains m k" "\<not> dd_size m < dd_capacity m"
  shows "dedup_list (snd (remember m k)) = tl (dedup_list m) @ [k]"
proof -
  let ?c = "dd_capacity m" and ?n = "dd_next m"
  have c: "dd_size m = ?c" "0 < ?c" "?n < ?c" "?c \<le> length (dd_keys m)"
    using assms by (auto simp: dedup_inv_def)
  have elem: "dedup_list (snd (remember m k)) ! i = (if i = ?c - 1 then k else dd_keys m ! ((?n + Suc i) mod ?c))"
    if "i < ?c" for i
  proof -
    have "(Suc ?n mod ?c + i) mod ?c = (?n + Suc i) mod ?c" by (simp add: mod_simps)
    moreover have "(?n + Suc i) mod ?c = ?n \<longleftrightarrow> i = ?c - 1"
    proof (cases "?n + Suc i < ?c")
      case False
      then have "(?n + Suc i) mod ?c = ?n + Suc i - ?c"
        using c that by (simp add: mod_if)
      then show ?thesis using False that c by auto
    qed (use c in auto)
    ultimately show ?thesis
      using that c assms(2) by (auto simp: remember_def dedup_list_def oldestAt_def Let_def)
  qed
  have old: "dedup_list m ! i = dd_keys m ! ((?n + i) mod ?c)" if "i < ?c" for i
    using that c by (simp add: dedup_list_def oldestAt_def)
  show ?thesis
  proof (rule nth_equalityI)
    show "length (dedup_list (snd (remember m k))) = length (tl (dedup_list m) @ [k])"
      using c assms(2) by (simp add: remember_def)
    fix i assume "i < length (dedup_list (snd (remember m k)))"
    then have i: "i < ?c" using c assms(2) by (simp add: remember_def)
    show "dedup_list (snd (remember m k)) ! i = (tl (dedup_list m) @ [k]) ! i"
      using i c by (auto simp: elem old nth_append nth_tl)
  qed
qed

lemma remember_contents:
  assumes "dedup_inv m"
  shows "dedup_list (snd (remember m k)) = recent_push telemetryKeyEqual (dd_capacity m) (dedup_list m) k"
proof (cases "dedup_contains m k")
  case True
  then show ?thesis by (simp add: recent_push_def dedup_contains_iff) (simp add: remember_def dedup_contains_iff)
next
  case False
  then show ?thesis using remember_room[OF assms False] remember_full[OF assms False]
    by (auto simp: recent_push_def dedup_contains_iff)
qed

interpretation ring: recent_memory telemetryKeyEqual dedup_inv dd_capacity dedup_list dedup_contains
  remember dedup_clear
proof
  fix m :: RecentDeduplicator and k :: TelemetryKey
  assume inv: "dedup_inv m"
  show "0 < dd_capacity m" "length (dedup_list m) \<le> dd_capacity m"
    using inv by (simp_all add: dedup_inv_def)
  show "dedup_contains m k \<longleftrightarrow> (\<exists>x\<in>set (dedup_list m). telemetryKeyEqual x k)"
    by (rule dedup_contains_iff)
  show "fst (remember m k) \<longleftrightarrow> \<not> dedup_contains m k" "dd_capacity (snd (remember m k)) = dd_capacity m"
    by (simp_all add: remember_def)
  show "dedup_inv (snd (remember m k))" using inv by (rule remember_inv)
  show "dedup_list (snd (remember m k)) = recent_push telemetryKeyEqual (dd_capacity m) (dedup_list m) k"
    using inv by (rule remember_contents)
  show "dedup_inv (dedup_clear m)" "dedup_list (dedup_clear m) = []"
    using inv by (auto simp: dedup_inv_def dedup_clear_def dedup_list_def)
qed simp


section \<open>Properties of the recent-packet memory\<close>

definition remember_all :: "TelemetryKey list \<Rightarrow> RecentDeduplicator \<Rightarrow> RecentDeduplicator" where
  "remember_all ks m = fold (\<lambda>k m. snd (remember m k)) ks m"

lemma remember_all_ring: "remember_all = ring.rem_all"
  by (simp add: fun_eq_iff remember_all_def ring.rem_all_def)

text \<open>C22: Whatever keys are remembered, starting from a fresh ring of any requested capacity, the ring
  behaves as a bounded first-in first-out list of different keys: its contents are what appending each
  new key and dropping the oldest when full leaves, its size never exceeds the capacity (1 to 64), and
  the array indices it uses stay inside the array.\<close>

theorem dedup_refines_list:
  "let m = remember_all ks (RecentDeduplicator_init n); cap = min kRecentDedupCapacity (max 1 n) in
   dedup_list m = fold (\<lambda>k xs. recent_push telemetryKeyEqual cap xs k) ks [] \<and>
   dd_capacity m = cap \<and> dd_size m \<le> cap \<and> dd_next m < length (dd_keys m) \<and>
   (dedup_contains m k \<longleftrightarrow> (\<exists>x\<in>set (dedup_list m). telemetryKeyEqual x k))"
proof -
  have cap: "dd_capacity (RecentDeduplicator_init n) = min kRecentDedupCapacity (max 1 n)"
    by (simp add: RecentDeduplicator_init_def Let_def capacity_defs)
  note inv = ring.rem_all_inv[OF dedup_init_inv[of n], of ks, unfolded cap]
  from inv show ?thesis
    using ring.rem_all_contents[OF dedup_init_inv[of n], of ks]
    by (auto simp: Let_def remember_all_ring cap dedup_contains_iff dedup_inv_def)
qed

text \<open>A key that was new when it was remembered is still recognised as a duplicate after fewer
  than \<open>capacity\<close> further packets, whatever they are; and a key is never recognised unless some
  remembered key is equal to it.\<close>

theorem dedup_window:
  assumes "dedup_inv m" "fst (remember m k)" "length ks < dd_capacity m"
  shows "dedup_contains (remember_all ks (snd (remember m k))) k \<and>
         (dedup_contains (remember_all ks m) k' \<longrightarrow>
            (\<exists>x\<in>set (dedup_list m) \<union> set ks. telemetryKeyEqual x k'))"
  using ring.remembered_window[OF assms] ring.forgets_nothing_new[OF assms(1), of ks]
  unfolding remember_all_ring dedup_contains_iff by blast

theorem dedup_window_witness:
  "dedup_contains (remember_all [makeTelemetryKey (Some [65]) 1 3]
     (snd (remember (RecentDeduplicator_init 2) (makeTelemetryKey (Some [65]) 1 2))))
     (makeTelemetryKey (Some [65]) 1 2)"
  using dedup_window[OF dedup_init_inv, of 2 "makeTelemetryKey (Some [65]) 1 2" "[makeTelemetryKey (Some [65]) 1 3]"]
  by (simp add: remember_def dedup_contains_iff) (simp add: RecentDeduplicator_init_def capacity_defs)

text \<open>Two keys compare equal exactly when they name the same node, session and sequence number:
  the comparison is never fooled by what is behind the terminator, and two different packets of a
  node never share a key.\<close>

theorem telemetryKey_identity:
  assumes "node_name (cstr a)" "node_name (cstr b)"
  shows "telemetryKeyEqual (makeTelemetryKey (Some a) s q) (makeTelemetryKey (Some b) s' q') \<longleftrightarrow>
         cstr a = cstr b \<and> s = s' \<and> q = q'"
  using assms by (simp add: telemetryKeyEqual_iff makeTelemetryKey_inj)

theorem telemetryKey_identity_witness:
  "telemetryKeyEqual (makeTelemetryKey (Some [65, 0, 66]) 1 2) (makeTelemetryKey (Some [65]) 1 2) \<and>
   \<not> telemetryKeyEqual (makeTelemetryKey (Some [65]) 1 2) (makeTelemetryKey (Some [65]) 1 3)"
  using telemetryKey_identity[of "[65, 0, 66]" "[65]" 1 2 1 2] telemetryKey_identity[of "[65]" "[65]" 1 2 1 3]
  by (simp add: cstr_def node_name_def capacity_defs validNodeByte_def)

end
