(* ===== verification/Durable_Queue_Core.thy ===== *)
theory Durable_Queue_Core
  imports Queue_Record Deduplicator
begin

text \<open>
  The crash-safe queue (\<open>lib/queue/durable_queue_core.cpp\<close>): an index of record ids in memory over
  one file per record. The interface \<open>QueueStorage\<close> is the locale \<open>queue_storage\<close>, whose laws are
  what a crash-safe directory promises; every operation of \<open>DurableQueueCore\<close> is a function on the
  index and the storage state.
\<close>

section \<open>Storage interface and state\<close>

text \<open>Virtual calls; \<open>None\<close> stands for a call that returns false.\<close>

record 'st queue_storage_ops =
  qs_listRecordIds :: "'st \<Rightarrow> (u64 list \<times> u32) option \<times> 'st"
  qs_readRecord :: "string \<Rightarrow> 'st \<Rightarrow> byte list option \<times> 'st"
  qs_writeRecordAtomic :: "u64 \<Rightarrow> byte list \<Rightarrow> 'st \<Rightarrow> bool \<times> 'st"
  qs_removeRecord :: "string \<Rightarrow> 'st \<Rightarrow> bool \<times> 'st"
  qs_cleanupTemporaryFiles :: "'st \<Rightarrow> 'st"

record QueueCoreStats =
  st_recoveredRecords :: u32
  st_corruptRecords :: u32
  st_droppedOldest :: u32
  st_storageErrors :: u32

record QueueEntry =
  en_recordId :: u64
  en_keyHash :: u64

record DurableQueueCore =
  qc_capacity :: nat
  qc_nextRecordId :: u64
  qc_entries :: "QueueEntry list"
  qc_stats :: QueueCoreStats

definition DurableQueueCore_init :: "nat \<Rightarrow> DurableQueueCore" where
  "DurableQueueCore_init capacity =
     \<lparr>qc_capacity = (if capacity = 0 then 1 else capacity), qc_nextRecordId = 1, qc_entries = [],
      qc_stats = \<lparr>st_recoveredRecords = 0, st_corruptRecords = 0, st_droppedOldest = 0, st_storageErrors = 0\<rparr>\<rparr>"

definition storageError :: "DurableQueueCore \<Rightarrow> DurableQueueCore" where
  "storageError q = q\<lparr>qc_stats := (qc_stats q)\<lparr>st_storageErrors := st_storageErrors (qc_stats q) + 1\<rparr>\<rparr>"

definition corruptRecord :: "u32 \<Rightarrow> DurableQueueCore \<Rightarrow> DurableQueueCore" where
  "corruptRecord n q = q\<lparr>qc_stats := (qc_stats q)\<lparr>st_corruptRecords := st_corruptRecords (qc_stats q) + n\<rparr>\<rparr>"

definition dropOldest :: "DurableQueueCore \<Rightarrow> DurableQueueCore" where
  "dropOldest q = q\<lparr>qc_entries := tl (qc_entries q),
     qc_stats := (qc_stats q)\<lparr>st_droppedOldest := st_droppedOldest (qc_stats q) + 1\<rparr>\<rparr>"

text \<open>\<open>snprintf\<close> with \<open>%016llx\<close>: 16 hexadecimal digits.\<close>

definition hex_digit :: "nat \<Rightarrow> char" where
  "hex_digit n = ''0123456789abcdef'' ! n"

definition hex_name :: "nat \<Rightarrow> u64 \<Rightarrow> string" where
  "hex_name digits v = map (\<lambda>k. hex_digit (unat (drop_bit (4 * k) v AND 15))) (rev [0..<digits])"

definition recordName :: "u64 \<Rightarrow> string" where
  "recordName recordId = hex_name 16 recordId @ ''.rec''"

definition mix :: "byte \<Rightarrow> u64 \<Rightarrow> u64" where
  "mix v hash = (hash XOR ucast v) * 1099511628211"

definition keyHash :: "TelemetryKey \<Rightarrow> u64" where
  "keyHash key =
     (let hash = 14695981039346656037;
          len = strnlen (key_nodeId key) kNodeIdCapacity;
          hash = mix (of_nat len) hash;
          hash = fold mix (take len (key_nodeId key)) hash;
          hash = fold (\<lambda>shift. mix (ucast (drop_bit shift (key_persistentSessionId key)))) [24, 16, 8, 0] hash
      in fold (\<lambda>shift. mix (ucast (drop_bit shift (key_sequence key)))) [24, 16, 8, 0] hash)"

definition packetKey :: "TelemetryPacket \<Rightarrow> TelemetryKey" where
  "packetKey t = makeTelemetryKey (Some (t_nodeId t)) (t_persistentSessionId t) (t_sequence t)"


section \<open>Operations\<close>

text \<open>\<open>!readRecord(..) || !decode(..)\<close>: the record in a file, when it can be read and decoded.\<close>

definition readAndDecode :: "'st queue_storage_ops \<Rightarrow> u64 \<Rightarrow> 'st \<Rightarrow> QueueRecord option \<times> 'st" where
  "readAndDecode S recordId st =
     (case qs_readRecord S (recordName recordId) st of
        (None, st) \<Rightarrow> (None, st)
      | (Some bytes, st) \<Rightarrow>
         (case decodeRecord (Some bytes) (length bytes) of (ok, r) \<Rightarrow> (if ok then Some r else None, st)))"

definition recordTelemetry :: "QueueRecord \<Rightarrow> TelemetryPacket option" where
  "recordTelemetry r =
     (case decodeTelemetry (Some (q_rawPayload r)) (unat (q_payloadLength r)) TelemetryPacket_init of
        (status, t) \<Rightarrow> if status = DecodeStatus_kOk then Some t else None)"

text \<open>The loop of \<open>recover\<close> over the listed ids, and its trimming loop.\<close>

fun recover_scan ::
  "'st queue_storage_ops \<Rightarrow> u64 list \<Rightarrow> DurableQueueCore \<times> 'st \<Rightarrow> DurableQueueCore \<times> 'st" where
  "recover_scan S [] qs = qs"
| "recover_scan S (listed # ids) (q, st) =
     (case readAndDecode S listed st of (loaded, st) \<Rightarrow>
      (case (case loaded of None \<Rightarrow> None
             | Some r \<Rightarrow> if q_recordId r \<noteq> listed then None
                 else (case recordTelemetry r of None \<Rightarrow> None | Some t \<Rightarrow> Some (r, t))) of
         None \<Rightarrow>
           let q = corruptRecord 1 q in
           (case qs_removeRecord S (recordName listed) st of
              (True, st) \<Rightarrow> recover_scan S ids (q, st)
            | (False, st) \<Rightarrow> recover_scan S ids (storageError q, st))
       | Some (r, t) \<Rightarrow>
           recover_scan S ids
             (q\<lparr>qc_entries := qc_entries q @ [\<lparr>en_recordId = q_recordId r, en_keyHash = keyHash (packetKey t)\<rparr>],
               qc_nextRecordId := (if qc_nextRecordId q \<le> q_recordId r then q_recordId r + 1 else qc_nextRecordId q)\<rparr>,
              st)))"

function recover_trim :: "'st queue_storage_ops \<Rightarrow> DurableQueueCore \<Rightarrow> 'st \<Rightarrow> bool \<times> DurableQueueCore \<times> 'st" where
  "recover_trim S q st =
     (if length (qc_entries q) \<le> qc_capacity q then (True, q, st)
      else case qs_removeRecord S (recordName (en_recordId (hd (qc_entries q)))) st of
             (False, st) \<Rightarrow> (False, storageError q, st)
           | (True, st) \<Rightarrow> recover_trim S (dropOldest q) st)"
  by pat_completeness auto
termination
  by (relation "measure (\<lambda>(S, q, st). length (qc_entries q))") (auto simp: dropOldest_def)

declare recover_trim.simps [simp del]

definition core_recover :: "'st queue_storage_ops \<Rightarrow> DurableQueueCore \<times> 'st \<Rightarrow> bool \<times> DurableQueueCore \<times> 'st" where
  "core_recover S = (\<lambda>(q, st).
     let q = q\<lparr>qc_entries := [], qc_nextRecordId := 1\<rparr>;
         st = qs_cleanupTemporaryFiles S st in
     case qs_listRecordIds S st of
       (None, st) \<Rightarrow> (False, storageError q, st)
     | (Some (recordIds, corruptNames), st) \<Rightarrow>
        (case recover_scan S recordIds (corruptRecord corruptNames q, st) of (q, st) \<Rightarrow>
         let q = q\<lparr>qc_entries := sort_key en_recordId (qc_entries q)\<rparr> in
         case recover_trim S q st of
           (False, q, st) \<Rightarrow> (False, q, st)
         | (True, q, st) \<Rightarrow>
             (True, q\<lparr>qc_stats := (qc_stats q)\<lparr>st_recoveredRecords := of_nat (length (qc_entries q))\<rparr>\<rparr>, st)))"

text \<open>
  \<open>enqueue\<close>: the write with its last resort on a full queue (\<open>None\<close> is the early return), the
  restoration of the bound, and the call itself, whose result includes the record with the id it
  assigned.
\<close>

definition enqueue_write ::
  "'st queue_storage_ops \<Rightarrow> QueueRecord \<Rightarrow> byte list \<Rightarrow> DurableQueueCore \<times> 'st \<Rightarrow> bool option \<times> DurableQueueCore \<times> 'st" where
  "enqueue_write S r bytes = (\<lambda>(q, st).
     case qs_writeRecordAtomic S (q_recordId r) bytes st of (wrote, st) \<Rightarrow>
     if \<not> wrote \<and> qc_capacity q \<le> length (qc_entries q)
     then case qs_removeRecord S (recordName (en_recordId (hd (qc_entries q)))) st of
            (False, st) \<Rightarrow> (None, storageError q, st)
          | (True, st) \<Rightarrow>
             (case qs_writeRecordAtomic S (q_recordId r) bytes st of (wrote, st) \<Rightarrow> (Some wrote, dropOldest q, st))
     else (Some wrote, q, st))"

definition enqueue_bound ::
  "'st queue_storage_ops \<Rightarrow> QueueRecord \<Rightarrow> DurableQueueCore \<times> 'st \<Rightarrow> bool \<times> DurableQueueCore \<times> 'st" where
  "enqueue_bound S r = (\<lambda>(q, st).
     if qc_capacity q \<le> length (qc_entries q)
     then case qs_removeRecord S (recordName (en_recordId (hd (qc_entries q)))) st of
            (False, st) \<Rightarrow> (False, storageError q, snd (qs_removeRecord S (recordName (q_recordId r)) st))
          | (True, st) \<Rightarrow> (True, dropOldest q, st)
     else (True, q, st))"

definition core_enqueue ::
  "'st queue_storage_ops \<Rightarrow> QueueRecord \<Rightarrow> DurableQueueCore \<times> 'st \<Rightarrow> (bool \<times> QueueRecord) \<times> DurableQueueCore \<times> 'st" where
  "core_enqueue S r = (\<lambda>(q, st).
     if qc_nextRecordId q = 0 then ((False, r), storageError q, st)
     else case recordTelemetry r of None \<Rightarrow> ((False, r), q, st) | Some t \<Rightarrow>
     let r = r\<lparr>q_recordId := qc_nextRecordId q\<rparr> in
     case encodeRecord r of None \<Rightarrow> ((False, r), q, st) | Some bytes \<Rightarrow>
     case enqueue_write S r bytes (q, st) of
       (None, q, st) \<Rightarrow> ((False, r), q, st)
     | (Some False, q, st) \<Rightarrow> ((False, r), storageError q, st)
     | (Some True, q, st) \<Rightarrow>
        (case enqueue_bound S r (q, st) of
           (False, q, st) \<Rightarrow> ((False, r), q, st)
         | (True, q, st) \<Rightarrow>
            ((True, r),
             q\<lparr>qc_entries := qc_entries q @ [\<lparr>en_recordId = q_recordId r, en_keyHash = keyHash (packetKey t)\<rparr>],
               qc_nextRecordId := qc_nextRecordId q + 1\<rparr>, st)))"

fun peek_loop ::
  "'st queue_storage_ops \<Rightarrow> QueueEntry list \<Rightarrow> QueueRecord list \<Rightarrow> 'st \<Rightarrow> QueueRecord list option \<times> 'st" where
  "peek_loop S [] records st = (Some records, st)"
| "peek_loop S (e # es) records st =
     (case readAndDecode S (en_recordId e) st of
        (None, st) \<Rightarrow> (None, st)
      | (Some r, st) \<Rightarrow> peek_loop S es (records @ [r]) st)"

definition core_peek ::
  "'st queue_storage_ops \<Rightarrow> nat \<Rightarrow> DurableQueueCore \<times> 'st \<Rightarrow> (bool \<times> QueueRecord list) \<times> DurableQueueCore \<times> 'st" where
  "core_peek S limit = (\<lambda>(q, st).
     let count = min limit (length (qc_entries q)) in
     case peek_loop S (take count (qc_entries q)) [] st of
       (None, st) \<Rightarrow> ((False, []), storageError q, st)
     | (Some records, st) \<Rightarrow> ((True, records), q, st))"

definition core_remove ::
  "'st queue_storage_ops \<Rightarrow> u64 \<Rightarrow> DurableQueueCore \<times> 'st \<Rightarrow> bool \<times> DurableQueueCore \<times> 'st" where
  "core_remove S recordId = (\<lambda>(q, st).
     case dropWhile (\<lambda>e. en_recordId e \<noteq> recordId) (qc_entries q) of
       [] \<Rightarrow> (False, q, st)
     | found # rest \<Rightarrow>
        (case qs_removeRecord S (recordName (en_recordId found)) st of
           (False, st) \<Rightarrow> (False, storageError q, st)
         | (True, st) \<Rightarrow>
            (True, q\<lparr>qc_entries := takeWhile (\<lambda>e. en_recordId e \<noteq> recordId) (qc_entries q) @ rest\<rparr>, st)))"

fun contains_loop ::
  "'st queue_storage_ops \<Rightarrow> TelemetryKey \<Rightarrow> u64 \<Rightarrow> QueueEntry list \<Rightarrow> DurableQueueCore \<times> 'st \<Rightarrow>
     bool \<times> DurableQueueCore \<times> 'st" where
  "contains_loop S key expectedHash [] qs = (False, qs)"
| "contains_loop S key expectedHash (e # es) (q, st) =
     (if en_keyHash e \<noteq> expectedHash then contains_loop S key expectedHash es (q, st)
      else case readAndDecode S (en_recordId e) st of (loaded, st) \<Rightarrow>
        (case (case loaded of None \<Rightarrow> None | Some r \<Rightarrow> recordTelemetry r) of
           None \<Rightarrow> contains_loop S key expectedHash es (storageError q, st)
         | Some t \<Rightarrow> if telemetryKeyEqual (packetKey t) key then (True, q, st)
                      else contains_loop S key expectedHash es (q, st)))"

definition core_contains ::
  "'st queue_storage_ops \<Rightarrow> TelemetryKey \<Rightarrow> DurableQueueCore \<times> 'st \<Rightarrow> bool \<times> DurableQueueCore \<times> 'st" where
  "core_contains S key = (\<lambda>(q, st). contains_loop S key (keyHash key) (qc_entries q) (q, st))"


section \<open>Record names and key hashes\<close>

lemma hex_digit_inj: "a < 16 \<Longrightarrow> b < 16 \<Longrightarrow> hex_digit a = hex_digit b \<longleftrightarrow> a = b"
proof -
  have "inj_on hex_digit {0..<16}" by (rule linorder_inj_onI) (auto simp: hex_digit_def numeral_eq_Suc less_Suc_eq)
  then show "a < 16 \<Longrightarrow> b < 16 \<Longrightarrow> hex_digit a = hex_digit b \<longleftrightarrow> a = b" by (auto simp: inj_on_def)
qed

lemma nibble_take: "(x AND 15 :: u64) = take_bit 4 x"
  by (simp add: take_bit_eq_mask mask_eq_exp_minus_1)

lemma nibble_less: "unat (x AND 15 :: u64) < 16"
  using take_bit_nat_less_exp[of 4 "unat x"] by (simp add: nibble_take unsigned_take_bit_eq)

lemma recordName_inj [simp]: "recordName a = recordName b \<longleftrightarrow> a = b"
proof
  assume "recordName a = recordName b"
  then have "hex_digit (unat (drop_bit (4 * k) a AND 15)) = hex_digit (unat (drop_bit (4 * k) b AND 15))" if "k < 16" for k
    using that by (auto simp: recordName_def hex_name_def)
  then have nib: "take_bit 4 (drop_bit (4 * k) a) = take_bit 4 (drop_bit (4 * k) b)" if "k < 16" for k
    using that by (simp add: hex_digit_inj nibble_less word_unat_eq_iff flip: nibble_take)
  show "a = b"
  proof (rule bit_word_eqI)
    fix n assume "n < LENGTH(64)"
    then have "n div 4 < 16" by simp
    from nib[OF this] have "bit (take_bit 4 (drop_bit (4 * (n div 4)) a)) (n mod 4)
        = bit (take_bit 4 (drop_bit (4 * (n div 4)) b)) (n mod 4)" by simp
    then show "bit a n = bit b n" by (simp add: bit_simps)
  qed
qed simp

lemma keyHash_cong: "telemetryKeyEqual a b \<Longrightarrow> keyHash a = keyHash b"
  by (simp add: telemetryKeyEqual_def keyHash_def take_strnlen strncmp_eq_def Let_def)
     (simp add: strnlen_def)


section \<open>What a file holds\<close>

definition file_record :: "byte list \<Rightarrow> u64 \<Rightarrow> (QueueRecord \<times> TelemetryPacket) option" where
  "file_record b i =
     (case decodeRecord (Some b) (length b) of
        (ok, r) \<Rightarrow> if ok \<and> q_recordId r = i then map_option (Pair r) (recordTelemetry r) else None)"

text \<open>A record as the decoder returns it: the payload array zero-padded.\<close>

definition canonical :: "QueueRecord \<Rightarrow> QueueRecord" where
  "canonical r = r\<lparr>q_rawPayload := char_array kRadioPacketCapacity (take (unat (q_payloadLength r)) (q_rawPayload r))\<rparr>"

lemma canonical_record:
  assumes "record_ok r"
  shows "record_wf (canonical r)" "record_encoding (canonical r) = record_encoding r"
proof -
  have n: "unat (q_payloadLength r) \<le> kRadioPacketCapacity" "length (q_rawPayload r) = kRadioPacketCapacity"
    using assms by (simp_all add: record_ok_def)
  then have tk: "take (unat (q_payloadLength r)) (char_array kRadioPacketCapacity
      (take (unat (q_payloadLength r)) (q_rawPayload r))) = take (unat (q_payloadLength r)) (q_rawPayload r)"
    by (simp add: char_array_def)
  have len: "length (char_array kRadioPacketCapacity (take (unat (q_payloadLength r)) (q_rawPayload r)))
      = kRadioPacketCapacity" using n by (intro length_char_array) simp
  show "record_wf (canonical r)" using assms tk len by (simp add: record_wf_def record_ok_def canonical_def)
  show "record_encoding (canonical r) = record_encoding r"
    using tk by (simp add: record_encoding_def record_body_def canonical_def)
qed

lemma canonical_telemetry:
  assumes "record_ok r" shows "recordTelemetry (canonical r) = recordTelemetry r"
proof -
  let ?n = "unat (q_payloadLength r)"
  have n: "?n \<le> length (q_rawPayload r)" "?n \<le> length (q_rawPayload (canonical r))"
      "take ?n (q_rawPayload (canonical r)) = take ?n (q_rawPayload r)"
    using assms canonical_record(1)[OF assms]
    by (simp_all add: record_ok_def record_wf_def canonical_def char_array_def)
  have "decodeTelemetry (Some (q_rawPayload (canonical r))) ?n TelemetryPacket_init = (DecodeStatus_kOk, t) \<longleftrightarrow>
      decodeTelemetry (Some (q_rawPayload r)) ?n TelemetryPacket_init = (DecodeStatus_kOk, t)" for t
    using n decodeTelemetry_accepts decodeTelemetry_sound by metis
  then show ?thesis
    by (auto simp: recordTelemetry_def canonical_def split: prod.splits) metis+
qed

lemma file_record_encoding:
  assumes "record_ok r" "recordTelemetry r = Some t"
  shows "file_record (record_encoding r) (q_recordId r) = Some (canonical r, t)"
proof -
  have "decodeRecord (Some (record_encoding r)) (length (record_encoding r)) = (True, canonical r)"
    using canonical_record[OF assms(1)] by (intro decodeRecord_accepts) simp_all
  moreover have "q_recordId (canonical r) = q_recordId r" by (simp add: canonical_def)
  ultimately show ?thesis using assms canonical_telemetry[OF assms(1)] by (simp add: file_record_def)
qed

text \<open>The invariant of the index against the record files: every indexed entry has its valid record file. The converse is
  not part of it: an enqueue whose clean-up fails can leave a valid file that is not indexed.\<close>

definition entry_ok :: "(u64 \<Rightarrow> byte list option) \<Rightarrow> QueueEntry \<Rightarrow> bool" where
  "entry_ok fs e \<longleftrightarrow> (\<exists>b r t. fs (en_recordId e) = Some b \<and> file_record b (en_recordId e) = Some (r, t) \<and>
     en_keyHash e = keyHash (packetKey t))"

definition core_inv :: "DurableQueueCore \<Rightarrow> (u64 \<Rightarrow> byte list option) \<Rightarrow> bool" where
  "core_inv q fs \<longleftrightarrow> 0 < qc_capacity q \<and> length (qc_entries q) \<le> qc_capacity q \<and>
     sorted_wrt (<) (map en_recordId (qc_entries q)) \<and> (\<forall>e\<in>set (qc_entries q). entry_ok fs e) \<and>
     (qc_nextRecordId q \<noteq> 0 \<longrightarrow> (\<forall>e\<in>set (qc_entries q). en_recordId e < qc_nextRecordId q))"

text \<open>The index entry a file gives rise to, and the keys of the indexed records.\<close>

definition entry_at :: "(u64 \<Rightarrow> byte list option) \<Rightarrow> u64 \<Rightarrow> QueueEntry option" where
  "entry_at fs i = (case fs i of None \<Rightarrow> None | Some b \<Rightarrow>
     map_option (\<lambda>(r, t). \<lparr>en_recordId = i, en_keyHash = keyHash (packetKey t)\<rparr>) (file_record b i))"

lemma entry_at_iff: "entry_at fs i = Some e \<longleftrightarrow> en_recordId e = i \<and> entry_ok fs e"
  by (cases e) (auto simp: entry_at_def entry_ok_def split: option.splits)

definition queue_has :: "DurableQueueCore \<Rightarrow> (u64 \<Rightarrow> byte list option) \<Rightarrow> TelemetryKey \<Rightarrow> bool" where
  "queue_has q fs key \<longleftrightarrow> (\<exists>e\<in>set (qc_entries q). \<exists>b r t. fs (en_recordId e) = Some b \<and>
     file_record b (en_recordId e) = Some (r, t) \<and> telemetryKeyEqual (packetKey t) key)"

text \<open>The queue an observer sees: the indexed records with their files, oldest first.\<close>

definition queue_view :: "DurableQueueCore \<Rightarrow> (u64 \<Rightarrow> byte list option) \<Rightarrow> (u64 \<times> byte list option) list" where
  "queue_view q fs = map (\<lambda>e. (en_recordId e, fs (en_recordId e))) (qc_entries q)"

lemma sorted_ids_distinct: "core_inv q fs \<Longrightarrow> distinct (map en_recordId (qc_entries q))"
  by (simp add: core_inv_def strict_sorted_iff)

lemma entry_ok_files: "entry_ok fs e \<Longrightarrow> fs' (en_recordId e) = fs (en_recordId e) \<Longrightarrow> entry_ok fs' e"
  by (simp add: entry_ok_def)

lemma stats_only [simp]:
  "qc_entries (storageError q) = qc_entries q" "qc_capacity (storageError q) = qc_capacity q"
  "qc_nextRecordId (storageError q) = qc_nextRecordId q"
  "qc_entries (corruptRecord n q) = qc_entries q" "qc_capacity (corruptRecord n q) = qc_capacity q"
  "qc_nextRecordId (corruptRecord n q) = qc_nextRecordId q"
  "qc_entries (dropOldest q) = tl (qc_entries q)" "qc_capacity (dropOldest q) = qc_capacity q"
  "qc_nextRecordId (dropOldest q) = qc_nextRecordId q"
  by (simp_all add: storageError_def corruptRecord_def dropOldest_def)

lemma core_inv_same:
  "qc_entries q' = qc_entries q \<Longrightarrow> qc_capacity q' = qc_capacity q \<Longrightarrow> qc_nextRecordId q' = qc_nextRecordId q \<Longrightarrow>
   core_inv q' fs = core_inv q fs"
  by (simp add: core_inv_def)

lemma core_inv_files:
  "core_inv q fs \<Longrightarrow> (\<And>e. e \<in> set (qc_entries q) \<Longrightarrow> fs' (en_recordId e) = fs (en_recordId e)) \<Longrightarrow> core_inv q fs'"
  by (auto simp: core_inv_def intro: entry_ok_files)

lemma head_not_in_tail:
  assumes "core_inv q fs" "qc_entries q = e # es" "x \<in> set es" shows "en_recordId x \<noteq> en_recordId e"
  using sorted_ids_distinct[OF assms(1)] assms(2,3) by (auto simp: image_iff)

lemma core_inv_drop:
  assumes "core_inv q fs" "qc_entries q \<noteq> []"
  shows "core_inv (dropOldest q) (fs(en_recordId (hd (qc_entries q)) := None))"
proof -
  obtain e es where q: "qc_entries q = e # es" using assms(2) by (cases "qc_entries q") auto
  have "entry_ok (fs(en_recordId e := None)) x" if "x \<in> set es" for x
  proof (rule entry_ok_files)
    show "entry_ok fs x" using assms(1) that by (auto simp: core_inv_def q)
    show "(fs(en_recordId e := None)) (en_recordId x) = fs (en_recordId x)"
      using head_not_in_tail[OF assms(1) q that] by simp
  qed
  then show ?thesis using assms(1) by (auto simp: core_inv_def q)
qed


text \<open>Appending the record with the next id, whose file was written.\<close>

lemma core_inv_append:
  assumes "core_inv q fs" "qc_nextRecordId q \<noteq> 0" "length (qc_entries q) < qc_capacity q"
    and "file_record b (qc_nextRecordId q) = Some (r, t)"
  shows "core_inv (q\<lparr>qc_entries := qc_entries q @ [\<lparr>en_recordId = qc_nextRecordId q, en_keyHash = keyHash (packetKey t)\<rparr>],
      qc_nextRecordId := qc_nextRecordId q + 1\<rparr>) (fs(qc_nextRecordId q \<mapsto> b))"
proof -
  let ?n = "qc_nextRecordId q"
  have less: "en_recordId e < ?n" if "e \<in> set (qc_entries q)" for e
    using assms(1,2) that by (simp add: core_inv_def)
  have old: "entry_ok (fs(?n \<mapsto> b)) e" if "e \<in> set (qc_entries q)" for e
  proof (rule entry_ok_files)
    show "entry_ok fs e" using assms(1) that by (simp add: core_inv_def)
    show "(fs(?n \<mapsto> b)) (en_recordId e) = fs (en_recordId e)" using less[OF that] by auto
  qed
  have new: "entry_ok (fs(?n \<mapsto> b)) \<lparr>en_recordId = ?n, en_keyHash = keyHash (packetKey t)\<rparr>"
    using assms(4) by (simp add: entry_ok_def)
  have "?n + 1 \<noteq> 0 \<Longrightarrow> ?n < ?n + 1" by (simp add: word_less_nat_alt unatSuc add.commute)
  then have "?n + 1 \<noteq> 0 \<Longrightarrow> en_recordId e < ?n + 1" if "e \<in> set (qc_entries q)" for e
    using less[OF that] by force
  with assms less old new \<open>?n + 1 \<noteq> 0 \<Longrightarrow> ?n < ?n + 1\<close> show ?thesis
    by (auto simp: core_inv_def sorted_wrt_append)
qed


lemma core_inv_without:
  "core_inv q fs \<Longrightarrow> qc_entries q = pre @ e # rest \<Longrightarrow> core_inv (q\<lparr>qc_entries := pre @ rest\<rparr>) fs"
  by (auto simp: core_inv_def sorted_wrt_append)


text \<open>The ids whose file holds a record that belongs there.\<close>

definition valid_ids :: "(u64 \<Rightarrow> byte list option) \<Rightarrow> u64 set" where
  "valid_ids fs = {i. entry_at fs i \<noteq> None}"

lemma map_filter_entry_ids:
  "map en_recordId (List.map_filter (entry_at fs) ids) = filter (\<lambda>i. entry_at fs i \<noteq> None) ids"
  by (induction ids) (auto simp: map_filter_simps split: option.splits dest: entry_at_iff[THEN iffD1])

lemma sorted_key_ids:
  assumes "distinct (map f xs)" "set (map f xs) = V"
  shows "map f (sort_key f xs) = sorted_list_of_set V"
proof -
  have "distinct (map f (sort_key f xs))"
    using assms(1) by (simp add: distinct_map)
  moreover have "set (map f (sort_key f xs)) = V" using assms(2) by simp
  ultimately show ?thesis
    by (metis sorted_distinct_set_unique sorted_list_of_set(1) sorted_list_of_set.distinct_sorted_key_list_of_set
        List.finite_set sorted_sort_key sorted_list_of_set.sorted_sorted_key_list_of_set)
qed

lemma next_id_bound:
  fixes es :: "QueueEntry list"
  assumes "n \<noteq> 0" "\<And>e. e \<in> set es \<Longrightarrow> en_recordId e \<noteq> -1"
  shows "fold (\<lambda>e n. if n \<le> en_recordId e then en_recordId e + 1 else n) es n \<noteq> 0 \<and>
    n \<le> fold (\<lambda>e n. if n \<le> en_recordId e then en_recordId e + 1 else n) es n \<and>
    (\<forall>e\<in>set es. en_recordId e < fold (\<lambda>e n. if n \<le> en_recordId e then en_recordId e + 1 else n) es n)"
  using assms
proof (induction es arbitrary: n)
  case (Cons e es)
  let ?n = "if n \<le> en_recordId e then en_recordId e + 1 else n"
  have "en_recordId e + 1 \<noteq> 0" using Cons.prems(2)[of e] by (simp add: add_eq_0_iff2)
  then have "en_recordId e < en_recordId e + 1" by (simp add: word_less_nat_alt unatSuc add.commute)
  then have "?n \<noteq> 0" "n \<le> ?n" "en_recordId e < ?n" using Cons.prems(1) \<open>en_recordId e + 1 \<noteq> 0\<close> by auto
  with Cons.IH[of ?n] Cons.prems(2) show ?case by (auto intro: order_trans less_le_trans)
qed simp

lemma map_filter_same:
  "(\<And>x. x \<in> set xs \<Longrightarrow> f x = g x) \<Longrightarrow> List.map_filter f xs = List.map_filter g xs"
  by (induction xs) (auto simp: map_filter_simps split: option.splits)


section \<open>The contract of the storage\<close>

text \<open>
  \<open>files st i\<close> is what the record file of id \<open>i\<close> holds; 0 is not an id. A write or removal that
  reports success has taken effect, one that reports failure has changed nothing; reading changes
  nothing and returns the file when it succeeds; listing returns the ids that have a file.
\<close>

locale queue_storage =
  fixes S :: "'st queue_storage_ops"
    and files :: "'st \<Rightarrow> u64 \<Rightarrow> byte list option"
  assumes no_zero: "files st 0 = None"
    and list_ids: "qs_listRecordIds S st = (Some (ids, c), st') \<Longrightarrow>
      distinct ids \<and> set ids = {i. files st i \<noteq> None} \<and> files st' = files st"
    and list_failed: "qs_listRecordIds S st = (None, st') \<Longrightarrow> files st' = files st"
    and read_keeps: "qs_readRecord S (recordName i) st = (x, st') \<Longrightarrow> files st' = files st"
    and read_file: "qs_readRecord S (recordName i) st = (Some b, st') \<Longrightarrow> i \<noteq> 0 \<Longrightarrow> files st i = Some b"
    and write_ok: "qs_writeRecordAtomic S i b st = (True, st') \<Longrightarrow> i \<noteq> 0 \<Longrightarrow> files st' = (files st)(i \<mapsto> b)"
    and write_failed: "qs_writeRecordAtomic S i b st = (False, st') \<Longrightarrow> files st' = files st"
    and remove_ok: "qs_removeRecord S (recordName i) st = (True, st') \<Longrightarrow> files st' = (files st)(i := None)"
    and remove_failed: "qs_removeRecord S (recordName i) st = (False, st') \<Longrightarrow> files st' = files st"
    and cleanup_keeps: "files (qs_cleanupTemporaryFiles S st) = files st"
begin

lemma readAndDecode_keeps: "readAndDecode S i st = (x, st') \<Longrightarrow> files st' = files st"
  by (auto simp: readAndDecode_def split: prod.splits option.splits dest: read_keeps)

lemma readAndDecode_file:
  assumes "readAndDecode S i st = (Some r, st')" "i \<noteq> 0"
  shows "\<exists>b. files st i = Some b \<and> decodeRecord (Some b) (length b) = (True, r)"
  using assms read_file[of i st]
  by (auto simp: readAndDecode_def split: prod.splits option.splits if_splits)

text \<open>What an \<open>enqueue\<close> that got past its guards leaves, for each outcome.\<close>

definition enqueued :: "DurableQueueCore \<Rightarrow> 'st \<Rightarrow> QueueRecord \<Rightarrow> TelemetryPacket \<Rightarrow> DurableQueueCore \<Rightarrow> 'st \<Rightarrow> bool" where
  "enqueued q st r t q' st' \<longleftrightarrow>
     core_inv q' (files st') \<and> qc_nextRecordId q' = qc_nextRecordId q + 1 \<and>
     queue_view q' (files st') =
       (if length (qc_entries q) < qc_capacity q then queue_view q (files st) else tl (queue_view q (files st))) @
       [(qc_nextRecordId q, Some (record_encoding r))]"

definition refused :: "DurableQueueCore \<Rightarrow> 'st \<Rightarrow> DurableQueueCore \<Rightarrow> 'st \<Rightarrow> bool" where
  "refused q st q' st' \<longleftrightarrow>
     core_inv q' (files st') \<and> qc_nextRecordId q' = qc_nextRecordId q \<and>
     (queue_view q' (files st') = queue_view q (files st) \<or>
      qc_capacity q \<le> length (qc_entries q) \<and> queue_view q' (files st') = tl (queue_view q (files st)))"

lemma view_write:
  assumes "core_inv q fs" "qc_nextRecordId q \<noteq> 0"
  shows "queue_view q (fs(qc_nextRecordId q := x)) = queue_view q fs"
  using assms by (auto simp: queue_view_def core_inv_def)

lemma view_drop:
  assumes "core_inv q fs" "qc_entries q \<noteq> []"
  shows "queue_view (dropOldest q) (fs(en_recordId (hd (qc_entries q)) := None)) = tl (queue_view q fs)"
proof -
  obtain e es where q: "qc_entries q = e # es" using assms(2) by (cases "qc_entries q") auto
  show ?thesis using head_not_in_tail[OF assms(1) q] by (simp add: queue_view_def q)
qed

lemma append_enqueued:
  assumes "core_inv q fs" "qc_nextRecordId q \<noteq> 0" "length (qc_entries q) < qc_capacity q"
    "record_ok r" "q_recordId r = qc_nextRecordId q" "recordTelemetry r = Some t"
    "files st' = fs(qc_nextRecordId q \<mapsto> record_encoding r)"
  shows "core_inv (q\<lparr>qc_entries := qc_entries q @ [\<lparr>en_recordId = q_recordId r, en_keyHash = keyHash (packetKey t)\<rparr>],
      qc_nextRecordId := qc_nextRecordId q + 1\<rparr>) (files st') \<and>
    queue_view (q\<lparr>qc_entries := qc_entries q @ [\<lparr>en_recordId = q_recordId r, en_keyHash = keyHash (packetKey t)\<rparr>],
      qc_nextRecordId := qc_nextRecordId q + 1\<rparr>) (files st')
      = queue_view q fs @ [(qc_nextRecordId q, Some (record_encoding r))]"
proof -
  have "file_record (record_encoding r) (qc_nextRecordId q) = Some (canonical r, t)"
    using file_record_encoding[OF assms(4,6)] assms(5) by simp
  from core_inv_append[OF assms(1-3) this] view_write[OF assms(1,2), of "Some (record_encoding r)"]
  show ?thesis by (simp add: assms(5,7)) (simp add: queue_view_def)
qed

text \<open>The two ways to make room: after the write, or before the second attempt.\<close>

lemma make_room:
  assumes "core_inv q fs" "qc_capacity q \<le> length (qc_entries q)"
  shows "qc_entries q \<noteq> []" "core_inv (dropOldest q) (fs(en_recordId (hd (qc_entries q)) := None))"
    "length (qc_entries (dropOldest q)) < qc_capacity q"
    "queue_view (dropOldest q) (fs(en_recordId (hd (qc_entries q)) := None)) = tl (queue_view q fs)"
proof -
  show ne: "qc_entries q \<noteq> []" using assms by (auto simp: core_inv_def)
  then show "length (qc_entries (dropOldest q)) < qc_capacity q" using assms by (auto simp: core_inv_def)
  show "core_inv (dropOldest q) (fs(en_recordId (hd (qc_entries q)) := None))"
    "queue_view (dropOldest q) (fs(en_recordId (hd (qc_entries q)) := None)) = tl (queue_view q fs)"
    using core_inv_drop[OF assms(1) ne] view_drop[OF assms(1) ne] by simp_all
qed

lemma head_id_old:
  assumes "core_inv q fs" "qc_nextRecordId q \<noteq> 0" "qc_entries q \<noteq> []"
  shows "en_recordId (hd (qc_entries q)) \<noteq> qc_nextRecordId q"
proof -
  have "en_recordId (hd (qc_entries q)) < qc_nextRecordId q"
    using assms hd_in_set[OF assms(3)] by (simp add: core_inv_def)
  then show ?thesis by simp
qed

lemma enqueue_write_outcome:
  assumes "enqueue_write S r b (q, st) = (x, q', st')" "q_recordId r \<noteq> 0"
  shows "case x of
      None \<Rightarrow> q' = storageError q \<and> files st' = files st
    | Some True \<Rightarrow> q' = q \<and> files st' = (files st)(q_recordId r \<mapsto> b) \<or>
        qc_capacity q \<le> length (qc_entries q) \<and> q' = dropOldest q \<and>
        files st' = (files st)(en_recordId (hd (qc_entries q)) := None, q_recordId r \<mapsto> b)
    | Some False \<Rightarrow> q' = q \<and> files st' = files st \<or>
        qc_capacity q \<le> length (qc_entries q) \<and> q' = dropOldest q \<and>
        files st' = (files st)(en_recordId (hd (qc_entries q)) := None)"
  using assms
  by (auto simp: enqueue_write_def dest!: write_ok write_failed remove_ok remove_failed
      split: prod.splits if_splits bool.splits)

lemma enqueue_bound_outcome:
  assumes "enqueue_bound S r (q, st) = (ok, q', st')"
  shows "if ok then (if length (qc_entries q) < qc_capacity q then q' = q \<and> files st' = files st
                     else q' = dropOldest q \<and> files st' = (files st)(en_recordId (hd (qc_entries q)) := None))
         else qc_capacity q \<le> length (qc_entries q) \<and> q' = storageError q \<and>
              (\<exists>x. files st' = (files st)(q_recordId r := x))"
proof (cases "qc_capacity q \<le> length (qc_entries q)")
  case True
  obtain ok1 st1 where r1: "qs_removeRecord S (recordName (en_recordId (hd (qc_entries q)))) st = (ok1, st1)"
    by (cases "qs_removeRecord S (recordName (en_recordId (hd (qc_entries q)))) st")
  obtain ok2 st2 where r2: "qs_removeRecord S (recordName (q_recordId r)) st1 = (ok2, st2)"
    by (cases "qs_removeRecord S (recordName (q_recordId r)) st1")
  have "\<exists>x. files st2 = (files st1)(q_recordId r := x)"
    using remove_ok[of "q_recordId r" st1 st2] remove_failed[of "q_recordId r" st1 st2] r2
    by (cases ok2) (auto intro: exI[of _ "files st1 (q_recordId r)"])
  then show ?thesis using assms True r1 r2 remove_ok[of _ st st1] remove_failed[of _ st st1]
    by (cases ok1) (auto simp: enqueue_bound_def)
qed (use assms in \<open>auto simp: enqueue_bound_def\<close>)

lemma view_files:
  "(\<And>e. e \<in> set (qc_entries q) \<Longrightarrow> fs' (en_recordId e) = fs (en_recordId e)) \<Longrightarrow> queue_view q fs' = queue_view q fs"
  by (simp add: queue_view_def)

lemma refused_sameI:
  assumes "core_inv q (files st)" "\<And>e. e \<in> set (qc_entries q) \<Longrightarrow> files st1 (en_recordId e) = files st (en_recordId e)"
    "q1 = q \<or> q1 = storageError q"
  shows "refused q st q1 st1"
  using core_inv_files[OF assms(1,2)] view_files[of q "files st1" "files st", OF assms(2)] assms(3)
  by (auto simp: refused_def core_inv_same[of "storageError q" q] queue_view_def)

lemma refused_dropI:
  assumes "core_inv q (files st)" "qc_capacity q \<le> length (qc_entries q)"
    "files st1 = (files st)(en_recordId (hd (qc_entries q)) := None)" "q1 = dropOldest q \<or> q1 = storageError (dropOldest q)"
  shows "refused q st q1 st1"
  using make_room[OF assms(1,2)] assms(2-4)
  by (auto simp: refused_def core_inv_same[of "storageError (dropOldest q)" "dropOldest q"] queue_view_def)

lemma next_not_indexed:
  "core_inv q fs \<Longrightarrow> qc_nextRecordId q \<noteq> 0 \<Longrightarrow> e \<in> set (qc_entries q) \<Longrightarrow>
   (fs(qc_nextRecordId q := x)) (en_recordId e) = fs (en_recordId e)"
  by (auto simp: core_inv_def)

lemma enqueue_outcome:
  assumes inv: "core_inv q (files st)" and raw: "length (q_rawPayload r) = kRadioPacketCapacity"
    and run: "core_enqueue S r (q, st) = ((ok, r'), q', st')"
  shows "if ok then (\<exists>t. recordTelemetry r = Some t \<and> record_ok r' \<and> r' = r\<lparr>q_recordId := qc_nextRecordId q\<rparr> \<and>
                       enqueued q st r' t q' st')
         else refused q st q' st'"
proof (cases "qc_nextRecordId q \<noteq> 0 \<and> recordTelemetry r \<noteq> None \<and> record_ok (r\<lparr>q_recordId := qc_nextRecordId q\<rparr>)")
  case False
  then have "\<not> ok \<and> (q' = q \<or> q' = storageError q) \<and> st' = st"
    using raw run by (auto simp: core_enqueue_def encodeRecord_iff split: if_splits option.splits)
  then show ?thesis using refused_sameI[OF inv, of st] by auto
next
  case True
  let ?n = "qc_nextRecordId q" and ?r = "r\<lparr>q_recordId := qc_nextRecordId q\<rparr>" and ?h = "en_recordId (hd (qc_entries q))"
  obtain t where t: "recordTelemetry r = Some t" and n: "?n \<noteq> 0" and rok: "record_ok ?r" using True by auto
  have tr: "recordTelemetry ?r = Some t" using t by (simp add: recordTelemetry_def)
  let ?b = "record_encoding ?r"
  have enc: "encodeRecord ?r = Some ?b" using rok raw by (simp add: encodeRecord_iff)
  obtain x q1 st1 where w: "enqueue_write S ?r ?b (q, st) = (x, q1, st1)" by (cases "enqueue_write S ?r ?b (q, st)")
  note wo = enqueue_write_outcome[OF w, simplified, OF n]
  obtain ok2 q2 st2 where b: "enqueue_bound S ?r (q1, st1) = (ok2, q2, st2)" by (cases "enqueue_bound S ?r (q1, st1)")
  note bo = enqueue_bound_outcome[OF b]
  have res: "core_enqueue S r (q, st) =
     (case x of None \<Rightarrow> ((False, ?r), q1, st1) | Some False \<Rightarrow> ((False, ?r), storageError q1, st1)
      | Some True \<Rightarrow> if ok2 then ((True, ?r), q2\<lparr>qc_entries := qc_entries q2 @
            [\<lparr>en_recordId = ?n, en_keyHash = keyHash (packetKey t)\<rparr>], qc_nextRecordId := qc_nextRecordId q2 + 1\<rparr>, st2)
          else ((False, ?r), q2, st2))"
    using n t enc w b by (simp add: core_enqueue_def Let_def split: option.split bool.split)
  consider (early) "x = None" | (nowrite) "x = Some False" | (unbound) "x = Some True" "\<not> ok2"
    | (stored) "x = Some True" "ok2" by (cases x) auto
  then show ?thesis
  proof cases
    case early
    then show ?thesis using res run wo refused_sameI[OF inv, of st1] by auto
  next
    case nowrite
    then show ?thesis using res run wo refused_sameI[OF inv, of st1] refused_dropI[OF inv, of st1] by auto
  next
    case unbound
    have "q1 = q \<and> files st1 = (files st)(?n \<mapsto> ?b)"
      using wo unbound bo make_room(3)[OF inv] by auto
    with bo unbound obtain y where "files st2 = (files st)(?n := y)" "q2 = storageError q" by auto
    then show ?thesis using res run unbound next_not_indexed[OF inv n] refused_sameI[OF inv, of st2] by auto
  next
    case stored
    have *: "q2 = q \<and> length (qc_entries q) < qc_capacity q \<and> files st2 = (files st)(?n \<mapsto> ?b) \<or>
        q2 = dropOldest q \<and> qc_capacity q \<le> length (qc_entries q) \<and> files st2 = (files st)(?h := None, ?n \<mapsto> ?b)"
    proof (cases "length (qc_entries q) < qc_capacity q")
      case True
      then show ?thesis using wo stored bo by auto
    next
      case full: False
      then have "?h \<noteq> ?n" using head_id_old[OF inv n] make_room(1)[OF inv] by simp
      then show ?thesis using wo stored bo full make_room(3)[OF inv] by (auto simp: fun_upd_twist)
    qed
    then have "enqueued q st ?r t (q2\<lparr>qc_entries := qc_entries q2 @
        [\<lparr>en_recordId = ?n, en_keyHash = keyHash (packetKey t)\<rparr>], qc_nextRecordId := qc_nextRecordId q2 + 1\<rparr>) st2"
    proof
      assume "q2 = q \<and> length (qc_entries q) < qc_capacity q \<and> files st2 = (files st)(?n \<mapsto> ?b)"
      then show ?thesis using append_enqueued[OF inv n _ rok _ tr, of st2] by (auto simp: enqueued_def)
    next
      assume full: "q2 = dropOldest q \<and> qc_capacity q \<le> length (qc_entries q) \<and>
          files st2 = (files st)(?h := None, ?n \<mapsto> ?b)"
      note room = make_room[OF inv conjunct1[OF conjunct2[OF full]]]
      show ?thesis
        using append_enqueued[OF room(2) _ _ rok _ tr, of st2] room(3,4) full n by (auto simp: enqueued_def)
    qed
    then show ?thesis using res run stored t rok by auto
  qed
qed

text \<open>Removing an uploaded record.\<close>

lemma remove_outcome:
  assumes inv: "core_inv q (files st)" and run: "core_remove S i (q, st) = (ok, q', st')"
  shows "core_inv q' (files st') \<and> qc_nextRecordId q' = qc_nextRecordId q \<and>
    (if ok then i \<in> en_recordId ` set (qc_entries q) \<and> files st' = (files st)(i := None) \<and>
                queue_view q' (files st') = filter (\<lambda>(j, _). j \<noteq> i) (queue_view q (files st))
     else files st' = files st \<and> qc_entries q' = qc_entries q)"
proof (cases "dropWhile (\<lambda>e. en_recordId e \<noteq> i) (qc_entries q)")
  case Nil
  with run inv show ?thesis by (auto simp: core_remove_def)
next
  case (Cons e rest)
  let ?pre = "takeWhile (\<lambda>e. en_recordId e \<noteq> i) (qc_entries q)"
  have e: "en_recordId e = i" using Cons by (metis (mono_tags, lifting) dropWhile_eq_Cons_conv)
  have q: "qc_entries q = ?pre @ e # rest" using Cons by (metis takeWhile_dropWhile_id)
  have dist: "distinct (map en_recordId (qc_entries q))" using sorted_ids_distinct[OF inv] .
  then have other: "x \<in> set ?pre \<union> set rest \<Longrightarrow> en_recordId x \<noteq> i" for x
    using q e set_takeWhileD[of x _ "qc_entries q"] by (metis (mono_tags, lifting) Un_iff distinct.simps(2)
        distinct_append image_eqI list.simps(9) map_append set_map)
  obtain rm st1 where rm: "qs_removeRecord S (recordName i) st = (rm, st1)" by (cases "qs_removeRecord S (recordName i) st")
  show ?thesis
  proof (cases rm)
    case False
    then show ?thesis using run Cons e rm remove_failed[of i st st1] inv core_inv_same[of "storageError q" q "files st"]
      by (auto simp: core_remove_def)
  next
    case True
    let ?q = "q\<lparr>qc_entries := ?pre @ rest\<rparr>"
    have fs: "files st1 = (files st)(i := None)" using remove_ok rm True by simp
    have keep: "files st1 (en_recordId x) = files st (en_recordId x)" if "x \<in> set (qc_entries ?q)" for x
      using other[of x] that fs by auto
    have sub: "core_inv ?q (files st)"
      by (rule core_inv_without[OF inv q])
    have "queue_view ?q (files st1) = queue_view ?q (files st)" using keep by (rule view_files)
    also have "\<dots> = filter (\<lambda>(j, _). j \<noteq> i) (queue_view q (files st))"
      using other e by (subst (2) queue_view_def, subst q) (auto simp: queue_view_def filter_id_conv)
    finally have view: "queue_view ?q (files st1) = filter (\<lambda>(j, _). j \<noteq> i) (queue_view q (files st))" .
    have res: "ok" "q' = ?q" "st' = st1" using run Cons e rm True by (simp_all add: core_remove_def)
    have mem: "i \<in> en_recordId ` set (qc_entries q)" using q e by (metis in_set_conv_decomp image_eqI)
    have inv1: "core_inv ?q (files st1)" by (rule core_inv_files[OF sub keep])
    from res inv1 fs view mem show ?thesis unfolding res(2,3) if_P[OF res(1)] by (intro conjI) simp_all
  qed
qed

lemma readAndDecode_telemetry:
  assumes "readAndDecode S i st = (loaded, st')" "file_record b i = Some (r, t)" "files st i = Some b" "loaded \<noteq> None"
  shows "loaded = Some r \<and> recordTelemetry r = Some t"
proof -
  have "i \<noteq> 0" using assms(3) no_zero[of st] by auto
  then show ?thesis using assms readAndDecode_file[of i st _ st']
    by (auto simp: file_record_def split: prod.splits if_splits)
qed

lemma contains_loop_outcome:
  assumes "contains_loop S key h es (q, st) = (found, q', st')" "\<And>e. e \<in> set es \<Longrightarrow> entry_ok (files st) e"
  shows "files st' = files st \<and> qc_entries q' = qc_entries q \<and> qc_capacity q' = qc_capacity q \<and>
    qc_nextRecordId q' = qc_nextRecordId q \<and>
    (found \<longrightarrow> (\<exists>e\<in>set es. \<exists>b r t. files st (en_recordId e) = Some b \<and> file_record b (en_recordId e) = Some (r, t) \<and>
       telemetryKeyEqual (packetKey t) key))"
  using assms
proof (induction es arbitrary: q st)
  case (Cons e es)
  obtain b r t where e: "files st (en_recordId e) = Some b" "file_record b (en_recordId e) = Some (r, t)"
      "en_keyHash e = keyHash (packetKey t)"
    using Cons.prems(2)[of e] by (auto simp: entry_ok_def)
  obtain loaded st1 where rd: "readAndDecode S (en_recordId e) st = (loaded, st1)"
    by (cases "readAndDecode S (en_recordId e) st")
  note fs = readAndDecode_keeps[OF rd]
  have ok: "\<And>e. e \<in> set es \<Longrightarrow> entry_ok (files st1) e" using Cons.prems(2) fs by simp
  note IH = Cons.IH[OF _ ok]
  show ?case
  proof (cases "en_keyHash e \<noteq> h")
    case True
    then show ?thesis using Cons.prems(1) Cons.IH[of q st] Cons.prems(2) by auto
  next
    case False
    show ?thesis
    proof (cases loaded)
      case None
      then show ?thesis using Cons.prems(1) False rd IH[of "storageError q"] fs by auto
    next
      case (Some r')
      then have "r' = r" "recordTelemetry r = Some t" using readAndDecode_telemetry[OF rd e(2,1)] by auto
      then show ?thesis using Cons.prems(1) False rd Some IH[of q] fs e
        by (auto split: if_splits)
    qed
  qed
qed simp

lemma contains_sound:
  assumes "core_inv q (files st)" "core_contains S key (q, st) = (found, q', st')"
  shows "files st' = files st \<and> core_inv q' (files st') \<and> qc_entries q' = qc_entries q \<and>
         qc_nextRecordId q' = qc_nextRecordId q \<and> (found \<longrightarrow> queue_has q (files st) key)"
proof -
  have "\<And>e. e \<in> set (qc_entries q) \<Longrightarrow> entry_ok (files st) e" using assms(1) by (simp add: core_inv_def)
  with contains_loop_outcome[of key "keyHash key" "qc_entries q" q st found q' st'] assms show ?thesis
    using core_inv_same[of q' q] by (simp add: core_contains_def queue_has_def)
qed

lemma peek_loop_outcome:
  assumes "peek_loop S es rs st = (Some out, st')" "\<And>e. e \<in> set es \<Longrightarrow> entry_ok (files st) e"
  shows "files st' = files st \<and> (\<exists>new. out = rs @ new \<and>
    list_all2 (\<lambda>e r. \<exists>b t. files st (en_recordId e) = Some b \<and> file_record b (en_recordId e) = Some (r, t)) es new)"
  using assms
proof (induction es arbitrary: rs st)
  case (Cons e es)
  obtain r st1 where rd: "readAndDecode S (en_recordId e) st = (Some r, st1)"
      and rest: "peek_loop S es (rs @ [r]) st1 = (Some out, st')"
    using Cons.prems(1) by (auto split: prod.splits option.splits)
  note fs = readAndDecode_keeps[OF rd]
  obtain b r' t where e: "files st (en_recordId e) = Some b" "file_record b (en_recordId e) = Some (r', t)"
    using Cons.prems(2)[of e] by (auto simp: entry_ok_def)
  have "r' = r" using readAndDecode_telemetry[OF rd e(2,1)] by simp
  then show ?case using Cons.IH[OF rest] Cons.prems(2) fs e by auto
qed auto

end

text \<open>A storage on which reading an existing file of a possible size does not fail.\<close>

locale reliable_queue_storage = queue_storage +
  assumes read_reliable: "files st i = Some b \<Longrightarrow> length b \<le> kMaximumEncodedBytes \<Longrightarrow>
      fst (qs_readRecord S (recordName i) st) \<noteq> None"
begin

lemma readAndDecode_reliable:
  assumes "readAndDecode S i st = (loaded, st')" "i \<noteq> 0"
  shows "(case loaded of None \<Rightarrow> None
          | Some r \<Rightarrow> if q_recordId r \<noteq> i then None
              else (case recordTelemetry r of None \<Rightarrow> None | Some t \<Rightarrow> Some (r, t)))
       = (case files st i of None \<Rightarrow> None | Some b \<Rightarrow> file_record b i)"
proof -
  obtain x st1 where rd: "qs_readRecord S (recordName i) st = (x, st1)" by (cases "qs_readRecord S (recordName i) st")
  show ?thesis
  proof (cases x)
    case None
    then have "loaded = None" using assms(1) rd by (simp add: readAndDecode_def)
    moreover have "file_record b i = None" if "files st i = Some b" for b
    proof -
      have "\<not> length b \<le> kMaximumEncodedBytes" using read_reliable[OF that] rd None by auto
      then show ?thesis by (auto simp: file_record_def decodeRecord_def)
    qed
    ultimately show ?thesis by (auto split: option.splits)
  next
    case (Some b)
    then have "files st i = Some b" using rd read_file assms(2) by simp
    with assms(1) rd Some show ?thesis
      by (cases "decodeRecord (Some b) (length b)")
         (auto simp: readAndDecode_def file_record_def split: option.splits if_splits)
  qed
qed

lemma readAndDecode_entry:
  assumes "readAndDecode S i st = (loaded, st')" "files st i = Some b" "file_record b i = Some (r, t)"
  shows "loaded = Some r" "recordTelemetry r = Some t"
proof -
  have "i \<noteq> 0" using assms(2) no_zero[of st] by auto
  then have "loaded \<noteq> None" using readAndDecode_reliable[OF assms(1)] assms(2,3) by (cases loaded) auto
  then show "loaded = Some r" "recordTelemetry r = Some t"
    using readAndDecode_telemetry[OF assms(1,3,2)] by auto
qed

lemma contains_loop_complete:
  assumes "contains_loop S key (keyHash key) es (q, st) = (found, q', st')" "\<And>e. e \<in> set es \<Longrightarrow> entry_ok (files st) e"
    "e \<in> set es" "files st (en_recordId e) = Some b" "file_record b (en_recordId e) = Some (r, t)"
    "telemetryKeyEqual (packetKey t) key"
  shows found
  using assms(1-4)
proof (induction es arbitrary: q st)
  case (Cons e' es)
  obtain b' r' t' where e': "files st (en_recordId e') = Some b'" "file_record b' (en_recordId e') = Some (r', t')"
      "en_keyHash e' = keyHash (packetKey t')"
    using Cons.prems(2)[of e'] by (auto simp: entry_ok_def)
  obtain loaded st1 where rd: "readAndDecode S (en_recordId e') st = (loaded, st1)"
    by (cases "readAndDecode S (en_recordId e') st")
  note ld = readAndDecode_entry[OF rd e'(1,2)]
  note fs = readAndDecode_keeps[OF rd]
  show ?case
  proof (cases "en_keyHash e' = keyHash key \<and> telemetryKeyEqual (packetKey t') key")
    case True
    then show ?thesis using Cons.prems(1) rd ld by simp
  next
    case False
    have "e \<noteq> e'"
    proof
      assume "e = e'"
      then have "t' = t" using e' Cons.prems(4) assms(5) by simp
      with False e'(3) assms(6) show False using keyHash_cong by auto
    qed
    then have mem: "e \<in> set es" using Cons.prems(3) by simp
    obtain q1 st2 where "contains_loop S key (keyHash key) es (q1, st2) = (found, q', st')" "files st2 = files st"
      using Cons.prems(1) False rd ld fs by (auto split: if_splits)
    then show ?thesis using Cons.IH[of q1 st2] mem Cons.prems(2,4) by simp
  qed
qed simp

lemma contains_exact:
  assumes "core_inv q (files st)" "core_contains S key (q, st) = (found, q', st')"
  shows "found \<longleftrightarrow> queue_has q (files st) key"
proof
  assume "queue_has q (files st) key"
  then obtain e b r t where "e \<in> set (qc_entries q)" "files st (en_recordId e) = Some b"
      "file_record b (en_recordId e) = Some (r, t)" "telemetryKeyEqual (packetKey t) key"
    by (auto simp: queue_has_def)
  with assms show found
    using contains_loop_complete[of key "qc_entries q" q st found q' st' e b r t]
    by (auto simp: core_contains_def core_inv_def)
qed (use contains_sound[OF assms] in simp)

text \<open>The scan of \<open>recover\<close>: it indexes exactly the files that hold a record, and touches no other.\<close>

lemma scan_outcome:
  assumes "recover_scan S ids (q, st) = (q', st')" "distinct ids" "0 \<notin> set ids"
  shows "qc_entries q' = qc_entries q @ List.map_filter (entry_at (files st)) ids \<and>
    qc_capacity q' = qc_capacity q \<and>
    qc_nextRecordId q' = fold (\<lambda>e n. if n \<le> en_recordId e then en_recordId e + 1 else n)
       (List.map_filter (entry_at (files st)) ids) (qc_nextRecordId q) \<and>
    (\<forall>i. entry_at (files st) i \<noteq> None \<or> i \<notin> set ids \<longrightarrow> files st' i = files st i)"
  using assms
proof (induction ids arbitrary: q st)
  case Nil
  then show ?case by (simp add: List.map_filter_def)
next
  case (Cons i ids)
  obtain loaded st1 where rd: "readAndDecode S i st = (loaded, st1)" by (cases "readAndDecode S i st")
  have "i \<noteq> 0" "0 \<notin> set ids" using Cons.prems(3) by auto
  note fs1 = readAndDecode_keeps[OF rd] and ld = readAndDecode_reliable[OF rd \<open>i \<noteq> 0\<close>]
  obtain rm st2 where rm: "qs_removeRecord S (recordName i) st1 = (rm, st2)"
    by (cases "qs_removeRecord S (recordName i) st1")
  show ?case
  proof (cases "case files st i of None \<Rightarrow> None | Some b \<Rightarrow> file_record b i")
    case None
    then have at: "entry_at (files st) i = None" by (auto simp: entry_at_def split: option.splits)
    obtain q1 where q1: "recover_scan S ids (q1, st2) = (q', st')" "qc_entries q1 = qc_entries q"
        "qc_capacity q1 = qc_capacity q" "qc_nextRecordId q1 = qc_nextRecordId q"
      using Cons.prems(1) rd ld None rm by (cases rm) auto
    have fs2: "files st2 j = files st j" if "j \<noteq> i" for j
      using rm remove_ok[of i st1 st2] remove_failed[of i st1 st2] fs1 that by (cases rm) auto
    then have eq: "entry_at (files st2) j = entry_at (files st) j" if "j \<noteq> i" for j
      using that by (simp add: entry_at_def)
    have "List.map_filter (entry_at (files st2)) ids = List.map_filter (entry_at (files st)) ids"
    proof (rule map_filter_same)
      fix x assume "x \<in> set ids"
      then have "x \<noteq> i" using Cons.prems(2) by auto
      then show "entry_at (files st2) x = entry_at (files st) x" by (rule eq)
    qed
    moreover have "files st' j = files st j" if "entry_at (files st) j \<noteq> None \<or> j \<notin> set (i # ids)" for j
    proof -
      have "j \<noteq> i" using that at by auto
      then show ?thesis using Cons.IH[OF q1(1)] \<open>0 \<notin> set ids\<close> Cons.prems(2) that fs2[of j] eq[of j] by auto
    qed
    ultimately show ?thesis using Cons.IH[OF q1(1)] \<open>0 \<notin> set ids\<close> Cons.prems(2) q1(2-4) at
      by (auto simp: map_filter_simps)
  next
    case (Some rt)
    obtain r t where rt: "rt = (r, t)" by (cases rt)
    then have at: "entry_at (files st) i = Some \<lparr>en_recordId = i, en_keyHash = keyHash (packetKey t)\<rparr>"
      and rid: "q_recordId r = i"
      using Some by (auto simp: entry_at_def file_record_def split: option.splits prod.splits if_splits)
    show ?thesis using Cons.prems rd ld Some rt Cons.IH fs1 at rid
      by (auto simp: map_filter_simps)
  qed
qed

lemma trim_outcome:
  assumes "recover_trim S q st = (True, q', st')" "distinct (map en_recordId (qc_entries q))"
  shows "qc_entries q' = drop (length (qc_entries q) - qc_capacity q) (qc_entries q) \<and>
    qc_capacity q' = qc_capacity q \<and> qc_nextRecordId q' = qc_nextRecordId q \<and>
    (\<forall>i. i \<notin> en_recordId ` set (take (length (qc_entries q) - qc_capacity q) (qc_entries q)) \<longrightarrow> files st' i = files st i)"
  using assms
proof (induction "length (qc_entries q) - qc_capacity q" arbitrary: q st)
  case 0
  then show ?case by (simp add: recover_trim.simps[of S q st])
next
  case (Suc n)
  obtain e es where q: "qc_entries q = e # es" using Suc.hyps(2) by (cases "qc_entries q") auto
  obtain rm st1 where rm: "qs_removeRecord S (recordName (en_recordId e)) st = (rm, st1)"
    by (cases "qs_removeRecord S (recordName (en_recordId e)) st")
  have n: "length (qc_entries q) - qc_capacity q = Suc n" "n = length (qc_entries (dropOldest q)) - qc_capacity (dropOldest q)"
    using Suc.hyps(2) q by simp_all
  have run: "rm" "recover_trim S (dropOldest q) st1 = (True, q', st')"
    using Suc.prems(1) n(1) q rm by (auto simp: recover_trim.simps[of S q st] split: if_splits bool.splits)
  have fs: "files st1 = (files st)(en_recordId e := None)" using remove_ok rm run by simp
  have "distinct (map en_recordId (qc_entries (dropOldest q)))" using Suc.prems(2) q by simp
  note IH = Suc.hyps(1)[OF n(2) run(2) this]
  show ?case using IH n(2) fs unfolding n(1) by (simp add: q)
qed

lemma recover_outcome:
  assumes run: "core_recover S (q, st) = (True, q', st')" and cap: "0 < qc_capacity q"
    and top: "files st (-1) = None"
  shows "map en_recordId (qc_entries q') =
      drop (card (valid_ids (files st)) - qc_capacity q) (sorted_list_of_set (valid_ids (files st))) \<and>
    core_inv q' (files st') \<and> qc_capacity q' = qc_capacity q \<and> qc_nextRecordId q' \<noteq> 0 \<and>
    (\<forall>i. i \<in> en_recordId ` set (qc_entries q') \<longrightarrow> files st' i = files st i)"
proof -
  let ?F = "files st" and ?V = "valid_ids (files st)"
  obtain ids c st1 where ls: "qs_listRecordIds S (qs_cleanupTemporaryFiles S st) = (Some (ids, c), st1)"
    using run by (auto simp: core_recover_def Let_def split: prod.splits option.splits)
  have ids: "distinct ids" "set ids = {i. ?F i \<noteq> None}" "files st1 = ?F"
    using list_ids[OF ls] cleanup_keeps[of st] by simp_all
  let ?q0 = "corruptRecord c (q\<lparr>qc_entries := [], qc_nextRecordId := 1\<rparr>)"
  obtain q2 st2 where sc: "recover_scan S ids (?q0, st1) = (q2, st2)" by (cases "recover_scan S ids (?q0, st1)")
  have "0 \<notin> set ids" using ids(2) no_zero[of st] by simp
  note scan = scan_outcome[OF sc ids(1) this, unfolded ids(3)]
  let ?es = "List.map_filter (entry_at ?F) ids" and ?ses = "sort_key en_recordId (qc_entries q2)"
  obtain q3 st3 where tr: "recover_trim S (q2\<lparr>qc_entries := ?ses\<rparr>) st2 = (True, q3, st3)"
      and q': "qc_entries q' = qc_entries q3" "qc_capacity q' = qc_capacity q3" "qc_nextRecordId q' = qc_nextRecordId q3" "st' = st3"
    using run ls sc by (auto simp: core_recover_def Let_def split: prod.splits bool.splits)
  have es: "qc_entries q2 = ?es" using scan by simp
  have mapids: "map en_recordId ?es = filter (\<lambda>i. entry_at ?F i \<noteq> None) ids" by (rule map_filter_entry_ids)
  have V: "set (map en_recordId ?es) = ?V" "distinct (map en_recordId ?es)"
    using ids unfolding mapids by (auto simp: valid_ids_def entry_at_def split: option.splits)
  have sorted: "map en_recordId ?ses = sorted_list_of_set ?V"
    using V by (simp add: es sorted_key_ids)
  have dist: "distinct (map en_recordId ?ses)" unfolding sorted by simp
  have len: "length ?ses = card ?V"
    using arg_cong[OF sorted, of length] by simp
  note trim = trim_outcome[OF tr] 
  let ?k = "card ?V - qc_capacity q"
  have q3: "qc_entries q3 = drop ?k ?ses" "qc_capacity q3 = qc_capacity q" "qc_nextRecordId q3 = qc_nextRecordId q2"
    and keep: "i \<notin> en_recordId ` set (take ?k ?ses) \<Longrightarrow> files st3 i = files st2 i" for i
    using trim dist len scan by auto
  have okF: "entry_ok ?F e" if e: "e \<in> set ?es" for e
  proof -
    obtain i where "entry_at ?F i \<noteq> None" "e = the (entry_at ?F i)"
      using e unfolding List.map_filter_def by (auto simp del: not_None_eq)
    then have "entry_at ?F i = Some e" by simp
    then show ?thesis by (simp add: entry_at_iff)
  qed
  have files3: "files st3 (en_recordId e) = ?F (en_recordId e)" if "e \<in> set (drop ?k ?ses)" for e
  proof -
    have "e \<in> set ?es" using that in_set_dropD[of e ?k ?ses] es by simp
    then have "files st2 (en_recordId e) = ?F (en_recordId e)"
      using scan V(1) by (auto simp: valid_ids_def)
    moreover have "en_recordId e \<notin> en_recordId ` set (take ?k ?ses)"
    proof -
      have "distinct (map en_recordId (take ?k ?ses @ drop ?k ?ses))" using dist by simp
      then show ?thesis using that unfolding map_append distinct_append by auto
    qed
    ultimately show ?thesis using keep by simp
  qed
  have nxt: "qc_nextRecordId q2 \<noteq> 0" "\<forall>e\<in>set ?es. en_recordId e < qc_nextRecordId q2"
  proof -
    have "en_recordId e \<noteq> -1" if "e \<in> set ?es" for e using okF[OF that] top by (auto simp: entry_ok_def)
    from next_id_bound[of 1 ?es, OF _ this]
    show "qc_nextRecordId q2 \<noteq> 0" "\<forall>e\<in>set ?es. en_recordId e < qc_nextRecordId q2" using scan by auto
  qed
  have "core_inv q' (files st')"
    unfolding core_inv_def q' q3
  proof (intro conjI ballI impI)
    show "0 < qc_capacity q" by (rule cap)
    show "length (drop ?k ?ses) \<le> qc_capacity q" using len by simp
    show "sorted_wrt (<) (map en_recordId (drop ?k ?ses))"
      unfolding drop_map[symmetric] sorted by (intro sorted_wrt_drop strict_sorted_list_of_set)
    fix e assume e: "e \<in> set (drop ?k ?ses)"
    then have "e \<in> set ?es" using in_set_dropD[of e ?k ?ses] es by simp
    then show "entry_ok (files st3) e" "en_recordId e < qc_nextRecordId q2"
      using entry_ok_files[OF okF] files3[OF e] nxt(2) by auto
  qed
  then show ?thesis using q' q3 sorted files3 nxt(1) by (auto simp: drop_map[symmetric])
qed

end

end
