(* ===== verification/Littlefs_Storage.thy ===== *)
theory Littlefs_Storage
  imports Durable_Queue_Core
begin

text \<open>
  \<open>LittleFsQueueStorage\<close> (\<open>lib/queue/durable_queue.cpp\<close>): the record files in the directory
  \<open>/queue\<close>, written to a temporary name and renamed. The filesystem is not part of the repository;
  its calls are the parameter \<open>littlefs_api\<close> and what the firmware relies on is the locale
  \<open>littlefs\<close> (rename is atomic, a failed call has no effect on other files). Writing a file is one call: opening it for
  writing, \<open>write\<close>, \<open>flush\<close> and \<open>close\<close> are \<open>lf_write\<close>, which may fail with any content in that file, so the
  states in between count as its outcomes. The storage then keeps the contract \<open>queue_storage\<close> of the queue.
\<close>

section \<open>The filesystem\<close>

datatype posix_result = Done | NoEntry | Failed

text \<open>
  \<open>lf_dir\<close> is opening a directory and walking it with \<open>openNextFile\<close>: the \<open>name()\<close> of every file and
  whether it is a directory. \<open>lf_open_size\<close> opens a file for reading and returns its \<open>size()\<close>.
  \<open>lf_write\<close> opens for writing, writes, flushes and closes, and returns the count \<open>write\<close> returned.
\<close>

record 'f littlefs_api =
  lf_dir :: "string \<Rightarrow> 'f \<Rightarrow> (string \<times> bool) list option"
  lf_open_size :: "string \<Rightarrow> 'f \<Rightarrow> nat option"
  lf_read :: "string \<Rightarrow> nat \<Rightarrow> 'f \<Rightarrow> byte list"
  lf_write :: "string \<Rightarrow> byte list \<Rightarrow> 'f \<Rightarrow> nat option \<times> 'f"
  lf_rename :: "string \<Rightarrow> string \<Rightarrow> 'f \<Rightarrow> bool \<times> 'f"
  lf_remove :: "string \<Rightarrow> 'f \<Rightarrow> bool \<times> 'f"
  vfs_unlink :: "string \<Rightarrow> 'f \<Rightarrow> posix_result \<times> 'f"
  vfs_stat :: "string \<Rightarrow> 'f \<Rightarrow> posix_result"

definition kQueueDirectory :: string where "kQueueDirectory = ''/queue''"
definition kRecentPath :: string where "kRecentPath = ''/queue/recent.bin''"
definition kRecentTempPath :: string where "kRecentTempPath = ''/queue/recent.tmp''"
definition kFilesystemBasePath :: string where "kFilesystemBasePath = ''/littlefs''"

definition mountedPath :: "string \<Rightarrow> string" where
  "mountedPath logicalPath = kFilesystemBasePath @ logicalPath"

definition silentlyUnlink :: "'f littlefs_api \<Rightarrow> string \<Rightarrow> 'f \<Rightarrow> bool \<times> 'f" where
  "silentlyUnlink P logicalPath f =
     (case vfs_unlink P (mountedPath logicalPath) f of (r, f) \<Rightarrow> (r = Done \<or> r = NoEntry, f))"

definition filePresence :: "'f littlefs_api \<Rightarrow> string \<Rightarrow> 'f \<Rightarrow> int" where
  "filePresence P logicalPath f =
     (case vfs_stat P (mountedPath logicalPath) f of Done \<Rightarrow> 1 | NoEntry \<Rightarrow> 0 | Failed \<Rightarrow> -1)"


section \<open>The record storage\<close>

definition fullPath :: "string \<Rightarrow> string" where
  "fullPath name = kQueueDirectory @ ''/'' @ name"

definition ends_with :: "string \<Rightarrow> string \<Rightarrow> bool" where
  "ends_with suffix s \<longleftrightarrow> length suffix \<le> length s \<and> drop (length s - length suffix) s = suffix"

text \<open>\<open>path.substring(path.lastIndexOf('/') + 1)\<close>\<close>

definition base_name :: "string \<Rightarrow> string" where
  "base_name path = rev (takeWhile (\<lambda>c. c \<noteq> CHR ''/'') (rev path))"

definition nibble :: "char \<Rightarrow> nat option" where
  "nibble value = (let c = of_char value :: nat in
     if 48 \<le> c \<and> c \<le> 57 then Some (c - 48) else if 97 \<le> c \<and> c \<le> 102 then Some (c - 97 + 10) else None)"

definition parse_step :: "char \<Rightarrow> bool \<times> u64 \<Rightarrow> bool \<times> u64" where
  "parse_step value = (\<lambda>(valid, recordId).
     if \<not> valid then (valid, recordId)
     else case nibble value of Some v \<Rightarrow> (True, push_bit 4 recordId OR of_nat v)
          | None \<Rightarrow> (False, push_bit 4 recordId OR 0))"

definition parse_name :: "string \<Rightarrow> bool \<times> u64" where
  "parse_name name = fold parse_step (take 16 name) (length name = 20 \<and> ends_with ''.rec'' name, 0)"

fun scan_directory :: "(string \<times> bool) list \<Rightarrow> u64 list \<times> string list \<Rightarrow> u64 list \<times> string list" where
  "scan_directory [] acc = acc"
| "scan_directory ((path, isDirectory) # files) (recordIds, invalidPaths) =
     (if \<not> isDirectory \<and> ends_with ''.rec'' path
      then case parse_name (base_name path) of (valid, recordId) \<Rightarrow>
        if valid \<and> recordId \<noteq> 0 then scan_directory files (recordIds @ [recordId], invalidPaths)
        else scan_directory files (recordIds, invalidPaths @ [path])
      else scan_directory files (recordIds, invalidPaths))"

fun remove_invalid :: "'f littlefs_api \<Rightarrow> string list \<Rightarrow> u32 \<Rightarrow> 'f \<Rightarrow> u32 option \<times> 'f" where
  "remove_invalid P [] corruptNames f = (Some corruptNames, f)"
| "remove_invalid P (path # paths) corruptNames f =
     (case lf_remove P path f of
        (False, f) \<Rightarrow> (None, f)
      | (True, f) \<Rightarrow> remove_invalid P paths (corruptNames + 1) f)"

definition LittleFs_listRecordIds :: "'f littlefs_api \<Rightarrow> 'f \<Rightarrow> (u64 list \<times> u32) option \<times> 'f" where
  "LittleFs_listRecordIds P f =
     (case lf_dir P kQueueDirectory f of None \<Rightarrow> (None, f)
      | Some files \<Rightarrow>
         (case scan_directory files ([], []) of (recordIds, invalidPaths) \<Rightarrow>
          case remove_invalid P invalidPaths 0 f of
            (None, f) \<Rightarrow> (None, f)
          | (Some corruptNames, f) \<Rightarrow> (Some (recordIds, corruptNames), f)))"

definition LittleFs_readRecord :: "'f littlefs_api \<Rightarrow> string \<Rightarrow> 'f \<Rightarrow> byte list option \<times> 'f" where
  "LittleFs_readRecord P name f =
     (case lf_open_size P (fullPath name) f of None \<Rightarrow> (None, f)
      | Some sz \<Rightarrow>
         if kMaximumEncodedBytes < sz then (None, f)
         else let bytes = lf_read P (fullPath name) sz f in
              (if length bytes = sz then Some bytes else None, f))"

definition LittleFs_writeRecordAtomic :: "'f littlefs_api \<Rightarrow> u64 \<Rightarrow> byte list \<Rightarrow> 'f \<Rightarrow> bool \<times> 'f" where
  "LittleFs_writeRecordAtomic P recordId bytes f =
     (let baseName = hex_name 16 recordId;
          temporary = kQueueDirectory @ ''/'' @ baseName @ ''.tmp'';
          finalPath = kQueueDirectory @ ''/'' @ baseName @ ''.rec'' in
      case silentlyUnlink P temporary f of
        (False, f) \<Rightarrow> (False, f)
      | (True, f) \<Rightarrow>
         (case lf_write P temporary bytes f of
            (None, f) \<Rightarrow> (False, f)
          | (Some written, f) \<Rightarrow>
             if written \<noteq> length bytes then (False, snd (silentlyUnlink P temporary f))
             else case lf_rename P temporary finalPath f of
                    (False, f) \<Rightarrow> (False, snd (silentlyUnlink P temporary f))
                  | (True, f) \<Rightarrow> (True, f)))"

definition LittleFs_removeRecord :: "'f littlefs_api \<Rightarrow> string \<Rightarrow> 'f \<Rightarrow> bool \<times> 'f" where
  "LittleFs_removeRecord P name f = lf_remove P (fullPath name) f"

definition LittleFs_cleanupTemporaryFiles :: "'f littlefs_api \<Rightarrow> 'f \<Rightarrow> 'f" where
  "LittleFs_cleanupTemporaryFiles P f =
     (case lf_dir P kQueueDirectory f of None \<Rightarrow> f
      | Some files \<Rightarrow>
         fold (\<lambda>path f. snd (lf_remove P path f))
           (map fst (filter (\<lambda>(path, isDirectory). \<not> isDirectory \<and> ends_with ''.tmp'' path) files)) f)"

definition littlefs_queue_storage :: "'f littlefs_api \<Rightarrow> 'f queue_storage_ops" where
  "littlefs_queue_storage P =
     \<lparr>qs_listRecordIds = LittleFs_listRecordIds P, qs_readRecord = LittleFs_readRecord P,
      qs_writeRecordAtomic = LittleFs_writeRecordAtomic P, qs_removeRecord = LittleFs_removeRecord P,
      qs_cleanupTemporaryFiles = LittleFs_cleanupTemporaryFiles P\<rparr>"


section \<open>Record names are parsed back\<close>

lemma nibble_hex_digit: "v < 16 \<Longrightarrow> nibble (hex_digit v) = Some v"
proof -
  have "list_all (\<lambda>v. nibble (hex_digit v) = Some v) [0..<16]" by code_simp
  then show "v < 16 \<Longrightarrow> nibble (hex_digit v) = Some v" by (auto simp: list_all_iff)
qed

lemma nibble_digit:
  assumes "nibble c = Some v" shows "v < 16 \<and> c = hex_digit v"
proof -
  let ?code = "\<lambda>v. if v < 10 then 48 + v else 87 + v :: nat"
  have "list_all (\<lambda>v. hex_digit v = char_of (?code v)) [0..<16]" by code_simp
  then have digit: "v < 16 \<Longrightarrow> hex_digit v = char_of (?code v)" by (simp add: list_all_iff)
  have "v < 16" "of_char c = ?code v" using assms by (auto simp: nibble_def Let_def split: if_splits)
  then have "c = char_of (?code v)" by (metis char_of_char)
  with digit \<open>v < 16\<close> show ?thesis by simp
qed

lemma hex_name_Suc: "hex_name (Suc L) v = hex_digit (unat (drop_bit (4 * L) v AND 15)) # hex_name L v"
  by (simp add: hex_name_def)

lemma length_hex_name [simp]: "length (hex_name L v) = L"
  by (simp add: hex_name_def)

lemma parse_hex_name:
  "fold parse_step (hex_name L i) (True, x) = (True, push_bit (4 * L) x OR take_bit (4 * L) i)"
proof (induction L arbitrary: x)
  case (Suc L)
  let ?n = "drop_bit (4 * L) i AND 15"
  have "parse_step (hex_digit (unat ?n)) (True, x) = (True, push_bit 4 x OR ?n)"
    by (simp add: parse_step_def nibble_hex_digit nibble_less)
  moreover have "push_bit (4 * L) (push_bit 4 x OR ?n) OR take_bit (4 * L) i = push_bit (4 * Suc L) x OR take_bit (4 * Suc L) i"
    by (rule bit_word_eqI) (auto simp: bit_simps nibble_take add.commute)
  ultimately show ?case by (simp only: hex_name_Suc fold_simps o_def Suc.IH)
qed (simp add: hex_name_def)

lemma hex_name_snoc:
  assumes "L < 16" "v < 16"
  shows "hex_name (Suc L) (push_bit 4 y OR of_nat v) = hex_name L y @ [hex_digit v]"
proof -
  have v: "take_bit 4 (of_nat v :: u64) = of_nat v"
    using assms(2) by (simp add: word_unat_eq_iff unsigned_take_bit_eq unat_of_nat_less take_bit_nat_eq_self)
  then have high: "\<not> bit (of_nat v :: u64) n" if "4 \<le> n" for n
    using that by (metis bit_take_bit_iff not_le)
  have idx: "rev [0..<Suc L] = map Suc (rev [0..<L]) @ [0]"
    by (metis map_Suc_upt rev.simps(2) rev_map upt_conv_Cons zero_less_Suc)
  have "drop_bit (4 * Suc k) (push_bit 4 y OR of_nat v) AND 15 = drop_bit (4 * k) y AND 15" if "k < L" for k
    using that assms(1) high by (intro bit_word_eqI) (auto simp: bit_simps nibble_take)
  moreover have "(push_bit 4 y OR of_nat v) AND 15 = of_nat v"
    using v by (simp only: nibble_take take_bit_or take_bit_push_bit) simp
  moreover have "unat (of_nat v :: u64) = v" using assms(2) by (intro unat_of_nat_less) simp
  ultimately show ?thesis
    unfolding hex_name_def idx map_append map_map o_def by (simp del: upt_Suc drop_bit_or mult_Suc_right)
qed

lemma parse_invalid: "fold parse_step cs (False, x) = (False, x)"
  by (induction cs) (simp_all add: parse_step_def)

lemma parse_is_name:
  "fold parse_step cs (b, 0) = (True, y) \<Longrightarrow> length cs \<le> 16 \<Longrightarrow> b \<and> cs = hex_name (length cs) y"
proof (induction cs arbitrary: y rule: rev_induct)
  case (snoc c cs)
  obtain ok x where f: "fold parse_step cs (b, 0) = (ok, x)" by fastforce
  have step: "parse_step c (ok, x) = (True, y)" using snoc.prems f by simp
  then obtain v where v: "ok" "nibble c = Some v" "y = push_bit 4 x OR of_nat v"
    by (auto simp: parse_step_def split: if_splits option.splits)
  from snoc.IH[of x] f v(1) snoc.prems have "b" "cs = hex_name (length cs) x" by simp_all
  with v nibble_digit[OF v(2)] snoc.prems hex_name_snoc[of "length cs" v x] show ?case by simp
qed (simp add: hex_name_def)

lemma ends_with_append: "ends_with s (x @ s)"
  by (simp add: ends_with_def)

lemma ends_withD: "ends_with s x \<Longrightarrow> x = take (length x - length s) x @ s"
  by (metis append_take_drop_id ends_with_def)

lemma parse_recordName: "parse_name (recordName i) = (True, i)"
proof -
  have "take_bit 64 i = i" by (rule bit_word_eqI) (simp add: bit_simps)
  then show ?thesis by (simp add: parse_name_def recordName_def ends_with_append parse_hex_name)
qed

lemma parse_name_recordName: "parse_name n = (True, i) \<longleftrightarrow> n = recordName i"
proof
  assume p: "parse_name n = (True, i)"
  have n: "length n = 20" "ends_with ''.rec'' n" "take 16 n = hex_name 16 i"
    using parse_is_name[OF p[unfolded parse_name_def]] by (auto simp: min_def split: if_splits)
  with ends_withD[OF n(2)] show "n = recordName i" by (simp add: recordName_def)
qed (simp add: parse_recordName)


section \<open>The contract of the filesystem\<close>

text \<open>
  \<open>content f p\<close> is what the file at the logical path \<open>p\<close> holds. The names a directory walk returns
  may be base names or full paths; their base names are the files of the directory. A read may be
  short. A write changes only its own file, which holds all bytes when the count says so. Renaming,
  removing and unlinking take effect entirely or not at all.
\<close>

locale littlefs =
  fixes P :: "'f littlefs_api"
    and content :: "'f \<Rightarrow> string \<Rightarrow> byte list option"
  assumes dir: "lf_dir P d f = Some es \<Longrightarrow>
      distinct (map base_name (map fst (filter (\<lambda>(n, isd). \<not> isd) es))) \<and>
      base_name ` {n. (n, False) \<in> set es} = {n. CHR ''/'' \<notin> set n \<and> content f (d @ ''/'' @ n) \<noteq> None}"
    and open_size: "lf_open_size P p f = Some n \<Longrightarrow>
      \<exists>b k. content f p = Some b \<and> n = length b \<and> lf_read P p n f = take k b"
    and write_other: "lf_write P p b f = (x, f') \<Longrightarrow> q \<noteq> p \<Longrightarrow> content f' q = content f q"
    and write_all: "lf_write P p b f = (Some (length b), f') \<Longrightarrow> content f' p = Some b"
    and rename_ok: "lf_rename P p q f = (True, f') \<Longrightarrow> content f p \<noteq> None \<Longrightarrow>
      content f' = (content f)(p := None, q := content f p)"
    and rename_failed: "lf_rename P p q f = (False, f') \<Longrightarrow> content f' = content f"
    and remove_ok: "lf_remove P p f = (True, f') \<Longrightarrow> content f' = (content f)(p := None)"
    and remove_failed: "lf_remove P p f = (False, f') \<Longrightarrow> content f' = content f"
    and unlink_done: "vfs_unlink P (mountedPath p) f = (Done, f') \<Longrightarrow> content f' = (content f)(p := None)"
    and unlink_other: "vfs_unlink P (mountedPath p) f = (r, f') \<Longrightarrow> r \<noteq> Done \<Longrightarrow> content f' = content f"

text \<open>The record files of the queue directory.\<close>

definition record_files :: "('f \<Rightarrow> string \<Rightarrow> byte list option) \<Rightarrow> 'f \<Rightarrow> u64 \<Rightarrow> byte list option" where
  "record_files content f i = (if i = 0 then None else content f (fullPath (recordName i)))"

lemma hex_digit_plain: "v < 16 \<Longrightarrow> hex_digit v \<noteq> CHR ''/''"
proof -
  have "list_all (\<lambda>v. hex_digit v \<noteq> CHR ''/'') [0..<16]" by code_simp
  then show "v < 16 \<Longrightarrow> hex_digit v \<noteq> CHR ''/''" by (simp add: list_all_iff)
qed

lemma recordName_plain: "CHR ''/'' \<notin> set (recordName i)"
  using hex_digit_plain[OF nibble_less] by (auto simp: recordName_def hex_name_def dest: sym)

lemma base_name_plain: "CHR ''/'' \<notin> set n \<Longrightarrow> base_name n = n"
  unfolding base_name_def by (subst takeWhile_eq_all_conv[THEN iffD2]) auto

lemma base_name_path: "CHR ''/'' \<notin> set n \<Longrightarrow> base_name (d @ ''/'' @ n) = n"
  unfolding base_name_def by (simp add: takeWhile_tail takeWhile_append)

lemma fullPath_inj [simp]: "fullPath a = fullPath b \<longleftrightarrow> a = b"
  by (simp add: fullPath_def)

lemma temporary_not_record: "fullPath (recordName i) \<noteq> kQueueDirectory @ ''/'' @ hex_name 16 j @ ''.tmp''"
  by (simp add: fullPath_def recordName_def)

lemma record_files_other:
  "(\<And>i. i \<noteq> 0 \<Longrightarrow> p \<noteq> fullPath (recordName i)) \<Longrightarrow> (\<And>q. q \<noteq> p \<Longrightarrow> content f' q = content f q) \<Longrightarrow>
   record_files content f' = record_files content f"
  unfolding record_files_def fun_eq_iff by metis

text \<open>What a directory walk classifies.\<close>

definition is_record_name :: "string \<Rightarrow> bool" where
  "is_record_name n \<longleftrightarrow> fst (parse_name n) \<and> snd (parse_name n) \<noteq> 0"

lemma is_record_name_iff: "is_record_name n \<longleftrightarrow> (\<exists>i. i \<noteq> 0 \<and> n = recordName i)"
proof
  assume "is_record_name n"
  moreover obtain v i where "parse_name n = (v, i)" by fastforce
  ultimately show "\<exists>i. i \<noteq> 0 \<and> n = recordName i" using parse_name_recordName by (auto simp: is_record_name_def)
qed (auto simp: is_record_name_def parse_recordName)

lemma is_record_name_recordName [simp]: "is_record_name (recordName i) \<longleftrightarrow> i \<noteq> 0"
  by (simp add: is_record_name_def parse_recordName)

lemma base_name_suffix: "\<exists>d. path = d @ base_name path"
  unfolding base_name_def
  by (rule exI[of _ "rev (dropWhile (\<lambda>c. c \<noteq> CHR ''/'') (rev path))"]) (simp flip: rev_append)

lemma record_path_ending: "is_record_name (base_name path) \<Longrightarrow> ends_with ''.rec'' path"
proof -
  assume "is_record_name (base_name path)"
  then obtain i where "base_name path = recordName i" by (auto simp: is_record_name_iff)
  then obtain d where "path = (d @ hex_name 16 i) @ ''.rec''" using base_name_suffix[of path] by (auto simp: recordName_def)
  then show ?thesis by (metis ends_with_append)
qed

lemma scan_directory_files:
  assumes "scan_directory es (ids, bad) = (ids', bad')"
  shows "map recordName ids' = map recordName ids @
      filter is_record_name (map base_name (map fst (filter (\<lambda>(n, isd). \<not> isd) es))) \<and>
    (\<forall>path\<in>set bad'. path \<in> set bad \<or> \<not> is_record_name (base_name path))"
  using assms
proof (induction es "(ids, bad)" arbitrary: ids bad rule: scan_directory.induct)
  case (2 path isDirectory files ids bad)
  obtain v i where p: "parse_name (base_name path) = (v, i)" by fastforce
  show ?case
  proof (cases "\<not> isDirectory \<and> is_record_name (base_name path)")
    case True
    then have v: "v" "i \<noteq> 0" "ends_with ''.rec'' path" using p record_path_ending by (auto simp: is_record_name_def)
    then have "base_name path = recordName i" using p parse_name_recordName by simp
    then show ?thesis using 2 True v p by simp
  next
    case False
    then show ?thesis using 2 p by (fastforce simp: is_record_name_def split: if_splits)
  qed
qed simp

context littlefs
begin

lemma remove_keeps:
  assumes "lf_remove P p f = (ok, f')" "\<And>i. i \<noteq> 0 \<Longrightarrow> p \<noteq> fullPath (recordName i)"
  shows "record_files content f' = record_files content f"
  using assms remove_ok[of p f f'] remove_failed[of p f f']
  by (intro record_files_other[of p]) (cases ok; auto)+

lemma not_record_path: "\<not> is_record_name (base_name p) \<Longrightarrow> i \<noteq> 0 \<Longrightarrow> p \<noteq> fullPath (recordName i)"
  using base_name_path[OF recordName_plain] by (auto simp: fullPath_def)

lemma remove_invalid_keeps:
  "remove_invalid P paths c f = (x, f') \<Longrightarrow> \<forall>p\<in>set paths. \<not> is_record_name (base_name p) \<Longrightarrow>
   record_files content f' = record_files content f"
proof (induction paths arbitrary: c f)
  case (Cons p paths)
  obtain ok f1 where r: "lf_remove P p f = (ok, f1)" by fastforce
  have "record_files content f1 = record_files content f"
    using remove_keeps[OF r] not_record_path Cons.prems(2) by simp
  then show ?case using Cons r by (cases ok) auto
qed simp

lemma scan_ids:
  assumes "lf_dir P kQueueDirectory f = Some es" "scan_directory es ([], []) = (ids, bad)"
  shows "distinct ids" "set ids = {i. record_files content f i \<noteq> None}" "\<forall>p\<in>set bad. \<not> is_record_name (base_name p)"
proof -
  let ?ns = "map base_name (map fst (filter (\<lambda>(n, isd). \<not> isd) es))"
  have d: "distinct ?ns" "set ?ns = {n. CHR ''/'' \<notin> set n \<and> content f (fullPath n) \<noteq> None}"
  proof -
    have "set ?ns = base_name ` {n. (n, False) \<in> set es}" by force
    then show "distinct ?ns" "set ?ns = {n. CHR ''/'' \<notin> set n \<and> content f (fullPath n) \<noteq> None}"
      using dir[OF assms(1)] unfolding fullPath_def by simp_all
  qed
  have m: "map recordName ids = filter is_record_name ?ns" using scan_directory_files[OF assms(2)] by simp
  then have "distinct (map recordName ids)" using d(1) by simp
  then show "distinct ids" by (simp add: distinct_map)
  have "i \<in> set ids \<longleftrightarrow> recordName i \<in> set (map recordName ids)" for i by (auto simp: image_iff)
  then have "i \<in> set ids \<longleftrightarrow> i \<noteq> 0 \<and> content f (fullPath (recordName i)) \<noteq> None" for i
    unfolding m using d(2) recordName_plain[of i] by auto
  then show "set ids = {i. record_files content f i \<noteq> None}" by (auto simp: record_files_def)
  show "\<forall>p\<in>set bad. \<not> is_record_name (base_name p)" using scan_directory_files[OF assms(2)] by simp
qed

lemma silentlyUnlink_other:
  assumes "silentlyUnlink P p f = (ok, f')" "q \<noteq> p" shows "content f' q = content f q"
  using assms unlink_done[of p f] unlink_other[of p f]
  by (auto simp: silentlyUnlink_def split: prod.splits) (metis fun_upd_other posix_result.exhaust)

lemma temporary_keeps:
  assumes "\<And>q. q \<noteq> kQueueDirectory @ ''/'' @ hex_name 16 j @ ''.tmp'' \<Longrightarrow> content f' q = content f q"
  shows "record_files content f' = record_files content f"
proof (rule record_files_other)
  show "kQueueDirectory @ ''/'' @ hex_name 16 j @ ''.tmp'' \<noteq> fullPath (recordName i)" for i
    by (rule temporary_not_record[symmetric])
qed (rule assms)

lemma cleanup_fold_keeps:
  assumes "\<forall>p\<in>set ps. ends_with ''.tmp'' p"
  shows "record_files content (fold (\<lambda>path f. snd (lf_remove P path f)) ps f) = record_files content f"
  using assms
proof (induction ps arbitrary: f)
  case (Cons p ps)
  have "p \<noteq> fullPath (recordName i)" for i
    using Cons.prems ends_withD[of "''.tmp''" p] by (auto simp: fullPath_def recordName_def)
  then have "record_files content (snd (lf_remove P p f)) = record_files content f"
    by (intro remove_keeps[of p f "fst (lf_remove P p f)"]) auto
  then show ?case using Cons by simp
qed simp

lemma write_outcome:
  assumes run: "LittleFs_writeRecordAtomic P i b f = (ok, f')"
  shows "record_files content f' = (if ok \<and> i \<noteq> 0 then (record_files content f)(i \<mapsto> b) else record_files content f)"
proof -
  let ?t = "kQueueDirectory @ ''/'' @ hex_name 16 i @ ''.tmp''" and ?p = "fullPath (recordName i)"
  obtain ok1 f1 where u: "silentlyUnlink P ?t f = (ok1, f1)" by fastforce
  obtain w f2 where w: "lf_write P ?t b f1 = (w, f2)" by fastforce
  obtain ok3 f3 where r: "lf_rename P ?t ?p f2 = (ok3, f3)" by fastforce
  obtain ok4 f4 where u2: "silentlyUnlink P ?t f2 = (ok4, f4)" by fastforce
  obtain ok5 f5 where u3: "silentlyUnlink P ?t f3 = (ok5, f5)" by fastforce
  have k1: "record_files content f1 = record_files content f" using silentlyUnlink_other[OF u] by (rule temporary_keeps)
  have k2: "record_files content f2 = record_files content f1" using write_other[OF w] by (rule temporary_keeps)
  have k4: "record_files content f4 = record_files content f2" using silentlyUnlink_other[OF u2] by (rule temporary_keeps)
  have k5: "record_files content f5 = record_files content f3" using silentlyUnlink_other[OF u3] by (rule temporary_keeps)
  have k3: "record_files content f3 = record_files content f2" if "\<not> ok3"
    using rename_failed[of ?t ?p f2 f3] r that by (simp add: record_files_def fun_eq_iff)
  have k3': "record_files content f3 = (if i = 0 then record_files content f2 else (record_files content f2)(i \<mapsto> b))" if "ok3" "w = Some (length b)"
  proof -
    have "content f2 ?t = Some b" using write_all[of ?t b f1 f2] w that(2) by simp
    then have "content f3 = (content f2)(?t := None, ?p := Some b)" using rename_ok[of ?t ?p f2 f3] r that(1) by simp
    then show ?thesis using temporary_not_record by (auto simp: record_files_def fun_eq_iff)
  qed
  have res: "LittleFs_writeRecordAtomic P i b f = (if \<not> ok1 then (False, f1) else case w of None \<Rightarrow> (False, f2)
      | Some n \<Rightarrow> if n \<noteq> length b then (False, f4) else if ok3 then (True, f3) else (False, f5))"
    using u w r u2 u3 by (simp add: LittleFs_writeRecordAtomic_def fullPath_def recordName_def split: option.split bool.split)
  show ?thesis using run res k1 k2 k4 k5 k3 k3' by (auto split: if_splits option.splits)
qed

end


text \<open>The storage on any such filesystem keeps the contract the queue relies on.\<close>

sublocale littlefs \<subseteq> store: queue_storage "littlefs_queue_storage P" "record_files content"
proof
  fix st ids c st'
  assume "qs_listRecordIds (littlefs_queue_storage P) st = (Some (ids, c), st')"
  then obtain es bad where d: "lf_dir P kQueueDirectory st = Some es" "scan_directory es ([], []) = (ids, bad)"
      "remove_invalid P bad 0 st = (Some c, st')"
    by (auto simp: littlefs_queue_storage_def LittleFs_listRecordIds_def split: option.splits prod.splits)
  then show "distinct ids \<and> set ids = {i. record_files content st i \<noteq> None} \<and> record_files content st' = record_files content st"
    using scan_ids[OF d(1,2)] remove_invalid_keeps[OF d(3)] by simp
next
  fix st st'
  assume "qs_listRecordIds (littlefs_queue_storage P) st = (None, st')"
  then show "record_files content st' = record_files content st"
    using scan_ids(3)[of st] remove_invalid_keeps[of _ _ st None st']
    by (auto simp: littlefs_queue_storage_def LittleFs_listRecordIds_def split: option.splits prod.splits)
next
  fix i st x st'
  assume "qs_readRecord (littlefs_queue_storage P) (recordName i) st = (x, st')"
  then show "record_files content st' = record_files content st"
    by (auto simp: littlefs_queue_storage_def LittleFs_readRecord_def Let_def split: option.splits if_splits)
next
  fix i st b st'
  assume "qs_readRecord (littlefs_queue_storage P) (recordName i) st = (Some b, st')" "i \<noteq> 0"
  then show "record_files content st i = Some b"
    using open_size[of "fullPath (recordName i)" st]
    by (auto simp: littlefs_queue_storage_def LittleFs_readRecord_def Let_def record_files_def split: option.splits if_splits)
next
  fix i st st'
  assume "qs_removeRecord (littlefs_queue_storage P) (recordName i) st = (True, st')"
  then show "record_files content st' = (record_files content st)(i := None)"
    using remove_ok[of "fullPath (recordName i)" st st']
    by (auto simp: littlefs_queue_storage_def LittleFs_removeRecord_def record_files_def fun_eq_iff)
next
  fix i st st'
  assume "qs_removeRecord (littlefs_queue_storage P) (recordName i) st = (False, st')"
  then show "record_files content st' = record_files content st"
    using remove_failed[of "fullPath (recordName i)" st st']
    by (auto simp: littlefs_queue_storage_def LittleFs_removeRecord_def record_files_def fun_eq_iff)
next
  fix st
  show "record_files content (qs_cleanupTemporaryFiles (littlefs_queue_storage P) st) = record_files content st"
    by (auto simp: littlefs_queue_storage_def LittleFs_cleanupTemporaryFiles_def split: option.split
        intro!: cleanup_fold_keeps)
qed (use write_outcome in \<open>auto simp: littlefs_queue_storage_def record_files_def\<close>)


text \<open>On a filesystem that reads and finds existing files, recovery and lookups are exact.\<close>

locale reliable_littlefs = littlefs +
  assumes read_all: "content f p = Some b \<Longrightarrow> lf_open_size P p f = Some (length b) \<and> lf_read P p (length b) f = b"
    and stat_existing: "content f p \<noteq> None \<Longrightarrow> vfs_stat P (mountedPath p) f = Done"

sublocale reliable_littlefs \<subseteq> store: reliable_queue_storage "littlefs_queue_storage P" "record_files content"
proof
  fix st i b
  assume "record_files content st i = Some b" "length b \<le> kMaximumEncodedBytes"
  then show "fst (qs_readRecord (littlefs_queue_storage P) (recordName i) st) \<noteq> None"
    using read_all[of st "fullPath (recordName i)" b]
    by (simp add: littlefs_queue_storage_def LittleFs_readRecord_def record_files_def split: if_splits)
qed


section \<open>A filesystem in memory with a fault schedule\<close>

text \<open>
  Files by path; every changing call consumes one entry of the schedule, \<open>False\<close> makes it fail. A
  write that fails leaves half of the bytes.
\<close>

record mem_fs =
  mf_files :: "(string \<times> byte list) list"
  mf_faults :: "bool list"

definition mf_content :: "mem_fs \<Rightarrow> string \<Rightarrow> byte list option" where
  "mf_content f = map_of (mf_files f)"

definition mf_delete :: "string \<Rightarrow> mem_fs \<Rightarrow> mem_fs" where
  "mf_delete p f = f\<lparr>mf_files := filter (\<lambda>(q, _). q \<noteq> p) (mf_files f)\<rparr>"

definition mf_put :: "string \<Rightarrow> byte list \<Rightarrow> mem_fs \<Rightarrow> mem_fs" where
  "mf_put p b f = f\<lparr>mf_files := (p, b) # filter (\<lambda>(q, _). q \<noteq> p) (mf_files f)\<rparr>"

definition mf_step :: "mem_fs \<Rightarrow> bool \<times> mem_fs" where
  "mf_step f = (case mf_faults f of [] \<Rightarrow> (True, f) | ok # rest \<Rightarrow> (ok, f\<lparr>mf_faults := rest\<rparr>))"

definition mf_in_dir :: "string \<Rightarrow> string \<Rightarrow> bool" where
  "mf_in_dir d p \<longleftrightarrow> take (length d + 1) p = d @ ''/'' \<and> CHR ''/'' \<notin> set (drop (length d + 1) p)"

definition mem_fs_api :: "mem_fs littlefs_api" where
  "mem_fs_api =
    \<lparr>lf_dir = (\<lambda>d f. Some (map (\<lambda>p. (drop (length d + 1) p, False))
        (filter (mf_in_dir d) (remdups (map fst (mf_files f)))))),
     lf_open_size = (\<lambda>p f. map_option length (mf_content f p)),
     lf_read = (\<lambda>p n f. case mf_content f p of None \<Rightarrow> [] | Some b \<Rightarrow> take n b),
     lf_write = (\<lambda>p b f. case mf_step f of (ok, f) \<Rightarrow>
        let w = (if ok then b else take (length b div 2) b) in (Some (length w), mf_put p w f)),
     lf_rename = (\<lambda>p q f. case mf_step f of (ok, f) \<Rightarrow>
        (case mf_content f p of Some b \<Rightarrow> if ok then (True, mf_put q b (mf_delete p f)) else (False, f)
         | None \<Rightarrow> (False, f))),
     lf_remove = (\<lambda>p f. case mf_step f of (ok, f) \<Rightarrow>
        if ok \<and> mf_content f p \<noteq> None then (True, mf_delete p f) else (False, f)),
     vfs_unlink = (\<lambda>m f. let p = drop (length kFilesystemBasePath) m in case mf_step f of (ok, f) \<Rightarrow>
        if mf_content f p = None then (NoEntry, f) else if ok then (Done, mf_delete p f) else (Failed, f)),
     vfs_stat = (\<lambda>m f. if mf_content f (drop (length kFilesystemBasePath) m) = None then NoEntry else Done)\<rparr>"

lemma mf_content_delete [simp]: "mf_content (mf_delete p f) = (mf_content f)(p := None)"
proof -
  have "map_of (filter (\<lambda>(q, _). q \<noteq> p) xs) = (map_of xs)(p := None)" for xs :: "(string \<times> byte list) list"
    by (induction xs) auto
  then show ?thesis by (simp add: mf_content_def mf_delete_def)
qed

lemma mf_content_put [simp]: "mf_content (mf_put p b f) = (mf_content f)(p \<mapsto> b)"
  using mf_content_delete[of p f] by (simp add: mf_content_def mf_put_def mf_delete_def)

lemma mf_content_step: "mf_step f = (ok, f') \<Longrightarrow> mf_content f' = mf_content f"
  by (auto simp: mf_step_def mf_content_def split: list.splits)

lemma drop_mounted [simp]: "drop (length kFilesystemBasePath) (mountedPath p) = p"
  by (simp add: mountedPath_def)

lemma mf_in_dir_path: "mf_in_dir d p \<longleftrightarrow> (\<exists>n. p = d @ ''/'' @ n \<and> CHR ''/'' \<notin> set n)"
proof
  assume "mf_in_dir d p"
  then have "p = (d @ ''/'') @ drop (length d + 1) p" "CHR ''/'' \<notin> set (drop (length d + 1) p)"
    by (metis append_take_drop_id mf_in_dir_def) (use \<open>mf_in_dir d p\<close> in \<open>simp add: mf_in_dir_def\<close>)
  then show "\<exists>n. p = d @ ''/'' @ n \<and> CHR ''/'' \<notin> set n" by (metis append.assoc)
qed (auto simp: mf_in_dir_def)

lemma mem_fs_dir:
  "distinct (map base_name (map (drop (length d + 1)) (filter (mf_in_dir d) (remdups (map fst (mf_files f))))))"
  "base_name ` set (map (drop (length d + 1)) (filter (mf_in_dir d) (remdups (map fst (mf_files f)))))
     = {n. CHR ''/'' \<notin> set n \<and> mf_content f (d @ ''/'' @ n) \<noteq> None}"
proof -
  let ?ps = "filter (mf_in_dir d) (remdups (map fst (mf_files f)))"
  have bn: "base_name (drop (length d + 1) (d @ ''/'' @ n)) = n" if "CHR ''/'' \<notin> set n" for n
    using base_name_plain[OF that] by simp
  have "inj_on (base_name \<circ> drop (length d + 1)) (set ?ps)"
    using bn by (auto simp: inj_on_def mf_in_dir_path)
  then show "distinct (map base_name (map (drop (length d + 1)) ?ps))" by (simp add: distinct_map)
  have ps: "p \<in> set ?ps \<longleftrightarrow> mf_content f p \<noteq> None \<and> mf_in_dir d p" for p
    by (auto simp: mf_content_def map_of_eq_None_iff)
  show "base_name ` set (map (drop (length d + 1)) ?ps) = {n. CHR ''/'' \<notin> set n \<and> mf_content f (d @ ''/'' @ n) \<noteq> None}"
  proof (intro set_eqI iffI)
    fix n assume "n \<in> {n. CHR ''/'' \<notin> set n \<and> mf_content f (d @ ''/'' @ n) \<noteq> None}"
    then have n: "CHR ''/'' \<notin> set n" "d @ ''/'' @ n \<in> set ?ps" using ps by (auto simp: mf_in_dir_path)
    have "base_name (drop (length d + 1) (d @ ''/'' @ n)) = n" by (rule bn[OF n(1)])
    then show "n \<in> base_name ` set (map (drop (length d + 1)) ?ps)" using n(2) by force
  qed (use bn ps in \<open>auto simp: mf_in_dir_path\<close>)
qed

interpretation mem_fs: reliable_littlefs mem_fs_api mf_content
proof
  fix d es and f :: mem_fs
  let ?ps = "map (drop (length d + 1)) (filter (mf_in_dir d) (remdups (map fst (mf_files f))))"
  assume "lf_dir mem_fs_api d f = Some es"
  then have es: "es = map (\<lambda>n. (n, False)) ?ps" by (simp add: mem_fs_api_def comp_def)
  then have "map fst (filter (\<lambda>(n, isd). \<not> isd) es) = ?ps" "{n. (n, False) \<in> set es} = set ?ps"
    by (auto simp: filter_map comp_def)
  then show "distinct (map base_name (map fst (filter (\<lambda>(n, isd). \<not> isd) es))) \<and>
      base_name ` {n. (n, False) \<in> set es} = {n. CHR ''/'' \<notin> set n \<and> mf_content f (d @ ''/'' @ n) \<noteq> None}"
    using mem_fs_dir[of d f] by simp
qed (auto simp: mem_fs_api_def Let_def split: prod.splits option.splits if_splits dest: mf_content_step)

end
