(* ===== verification/Crash_Safety.thy ===== *)
theory Crash_Safety
  imports Littlefs_Storage
begin

text \<open>
  Power cuts. \<open>traced_fs\<close> is any filesystem that also records the state after each changing call;
  running the queue on it yields the states a power cut can leave, and starting \<open>recover\<close> on one of
  them is the restart. The main results: whatever the moment of the cut during \<open>enqueue\<close>, the
  recovered queue is the old one, possibly without its oldest record when it was full, possibly with
  the new record, or with one an earlier failed enqueue left under the same number; and a restart without
  a cut gives back the queue.
\<close>

section \<open>Recording the states between filesystem calls\<close>

definition log_state :: "'r \<times> 'f \<Rightarrow> 'f list \<Rightarrow> 'r \<times> 'f \<times> 'f list" where
  "log_state = (\<lambda>(r, f) log. (r, f, log @ [f]))"

definition traced_fs :: "'f littlefs_api \<Rightarrow> ('f \<times> 'f list) littlefs_api" where
  "traced_fs P =
    \<lparr>lf_dir = (\<lambda>d (f, log). lf_dir P d f),
     lf_open_size = (\<lambda>p (f, log). lf_open_size P p f),
     lf_read = (\<lambda>p n (f, log). lf_read P p n f),
     lf_write = (\<lambda>p b (f, log). log_state (lf_write P p b f) log),
     lf_rename = (\<lambda>p q (f, log). log_state (lf_rename P p q f) log),
     lf_remove = (\<lambda>p (f, log). log_state (lf_remove P p f) log),
     vfs_unlink = (\<lambda>m (f, log). log_state (vfs_unlink P m f) log),
     vfs_stat = (\<lambda>m (f, log). vfs_stat P m f)\<rparr>"

text \<open>Recording changes no result.\<close>

lemma traced_calls [simp]:
  "lf_write (traced_fs P) p b (f, log) = (fst (lf_write P p b f), snd (lf_write P p b f), log @ [snd (lf_write P p b f)])"
  "lf_rename (traced_fs P) p q (f, log) = (fst (lf_rename P p q f), snd (lf_rename P p q f), log @ [snd (lf_rename P p q f)])"
  "lf_remove (traced_fs P) p (f, log) = (fst (lf_remove P p f), snd (lf_remove P p f), log @ [snd (lf_remove P p f)])"
  "silentlyUnlink (traced_fs P) p (f, log) =
     (fst (silentlyUnlink P p f), snd (silentlyUnlink P p f), log @ [snd (silentlyUnlink P p f)])"
  by (simp_all add: traced_fs_def log_state_def silentlyUnlink_def split: prod.split)

lemma traced_write:
  assumes "LittleFs_writeRecordAtomic (traced_fs P) i b (f, log) = (ok, f', log')"
  shows "LittleFs_writeRecordAtomic P i b f = (ok, f')"
  using assms
  by (auto simp: LittleFs_writeRecordAtomic_def Let_def case_prod_beta split: bool.splits option.splits if_splits)

lemma traced_remove:
  "LittleFs_removeRecord (traced_fs P) name (f, log) = (ok, f', log') \<Longrightarrow> LittleFs_removeRecord P name f = (ok, f')"
  by (simp add: LittleFs_removeRecord_def prod_eq_iff)

lemma traced_enqueue_write:
  assumes "enqueue_write (littlefs_queue_storage (traced_fs P)) r b (q, f, log) = (x, q', f', log')"
  shows "enqueue_write (littlefs_queue_storage P) r b (q, f) = (x, q', f')"
  using assms
  by (auto simp: enqueue_write_def littlefs_queue_storage_def dest!: traced_write traced_remove split: prod.splits if_splits bool.splits)

lemma traced_enqueue_bound:
  assumes "enqueue_bound (littlefs_queue_storage (traced_fs P)) r (q, f, log) = (x, q', f', log')"
  shows "enqueue_bound (littlefs_queue_storage P) r (q, f) = (x, q', f')"
  using assms
  by (auto simp: enqueue_bound_def littlefs_queue_storage_def LittleFs_removeRecord_def split: prod.splits if_splits bool.splits)

lemma traced_enqueue:
  assumes "core_enqueue (littlefs_queue_storage (traced_fs P)) r (q, f, log) = (x, q', f', log')"
  shows "core_enqueue (littlefs_queue_storage P) r (q, f) = (x, q', f')"
  using assms
  by (auto simp: core_enqueue_def Let_def dest!: traced_enqueue_write traced_enqueue_bound
      split: prod.splits if_splits bool.splits option.splits)


section \<open>What the recorded states hold\<close>

text \<open>
  During \<open>enqueue\<close> only two record files change: the new one, and the oldest when the queue is full.
\<close>

definition enqueue_cut ::
  "DurableQueueCore \<Rightarrow> byte list \<Rightarrow> (u64 \<Rightarrow> byte list option) \<Rightarrow> (u64 \<Rightarrow> byte list option) \<Rightarrow> bool" where
  "enqueue_cut q b fs fs' \<longleftrightarrow>
     (\<forall>i. i \<noteq> qc_nextRecordId q \<longrightarrow> fs' i = fs i \<or>
        qc_capacity q \<le> length (qc_entries q) \<and> i = en_recordId (hd (qc_entries q)) \<and> fs' i = None) \<and>
     fs' (qc_nextRecordId q) \<in> {fs (qc_nextRecordId q), None, Some b}"

lemma enqueue_cut_steps:
  "enqueue_cut q b fs gs \<Longrightarrow> enqueue_cut q b fs (gs(qc_nextRecordId q \<mapsto> b))"
  "enqueue_cut q b fs gs \<Longrightarrow> enqueue_cut q b fs (gs(qc_nextRecordId q := None))"
  "enqueue_cut q b fs gs \<Longrightarrow> qc_capacity q \<le> length (qc_entries q) \<Longrightarrow>
     enqueue_cut q b fs (gs(en_recordId (hd (qc_entries q)) := None))"
  by (auto simp: enqueue_cut_def)

context littlefs
begin

lemma storage_contract: "queue_storage (littlefs_queue_storage P) (record_files content)"
  by (rule store.queue_storage_axioms)

definition log_ok :: "((u64 \<Rightarrow> byte list option) \<Rightarrow> bool) \<Rightarrow> 'f \<times> 'f list \<Rightarrow> bool" where
  "log_ok I = (\<lambda>(f, log). I (record_files content f) \<and> (\<forall>g\<in>set log. I (record_files content g)))"

lemma log_ok_Nil [simp]: "log_ok I (f, []) \<longleftrightarrow> I (record_files content f)"
  by (simp add: log_ok_def)

lemma log_ok_snoc [simp]: "log_ok I (f', log @ [f']) \<longleftrightarrow> I (record_files content f') \<and> (\<forall>g\<in>set log. I (record_files content g))"
  by (auto simp: log_ok_def)

lemma temp_unlink:
  "record_files content (snd (silentlyUnlink P (kQueueDirectory @ ''/'' @ hex_name 16 i @ ''.tmp'') f)) = record_files content f"
  by (rule temporary_keeps[of i], rule silentlyUnlink_other[OF prod.collapse[symmetric]])

lemma temp_write:
  "record_files content (snd (lf_write P (kQueueDirectory @ ''/'' @ hex_name 16 i @ ''.tmp'') b f)) = record_files content f"
  by (rule temporary_keeps[of i], rule write_other[OF prod.collapse[symmetric]])

lemma write_log:
  assumes run: "LittleFs_writeRecordAtomic (traced_fs P) i b (f, log) = (ok, f', log')" and log: "log_ok I (f, log)"
    and I: "\<And>fs. I fs \<Longrightarrow> i \<noteq> 0 \<Longrightarrow> I (fs(i \<mapsto> b))"
  shows "log_ok I (f', log')"
proof -
  have "record_files content f' = record_files content f \<or>
      i \<noteq> 0 \<and> record_files content f' = (record_files content f)(i \<mapsto> b)"
    using write_outcome[OF traced_write[OF run]] by (auto split: if_splits)
  then have If': "I (record_files content f')" using I log by (auto simp: log_ok_def)
  let ?t = "kQueueDirectory @ ''/'' @ hex_name 16 i @ ''.tmp''"
  have "\<forall>g\<in>set log'. g \<in> set log \<or> record_files content g = record_files content f \<or> record_files content g = record_files content f'"
    using run temp_unlink temp_write
    by (auto simp: LittleFs_writeRecordAtomic_def Let_def case_prod_beta split: bool.splits option.splits if_splits)
  then show ?thesis using log If' by (auto simp: log_ok_def)
qed

lemma remove_log:
  assumes "LittleFs_removeRecord (traced_fs P) (recordName i) (f, log) = (ok, f', log')" "log_ok I (f, log)"
    and "\<And>fs. I fs \<Longrightarrow> I (fs(i := None))"
  shows "log_ok I (f', log')"
proof -
  have rm: "LittleFs_removeRecord P (recordName i) f = (ok, f')" "log' = log @ [f']" using assms(1) by (auto simp: LittleFs_removeRecord_def prod_eq_iff)
  then have "record_files content f' = (record_files content f)(i := None) \<or> record_files content f' = record_files content f"
    using store.remove_ok[of i f f'] store.remove_failed[of i f f'] by (cases ok) (simp_all add: littlefs_queue_storage_def)
  then show ?thesis using assms(2,3) rm(2) by (auto simp: log_ok_def)
qed

lemma enqueue_write_log:
  assumes run: "enqueue_write (littlefs_queue_storage (traced_fs P)) r b (q, f, log) = (x, q', f', log')"
    and r: "q_recordId r = qc_nextRecordId q" and log: "log_ok (enqueue_cut q b fs) (f, log)"
  shows "log_ok (enqueue_cut q b fs) (f', log') \<and>
    (q' = q \<or> q' = storageError q \<or> q' = dropOldest q \<and> qc_capacity q \<le> length (qc_entries q))"
proof -
  let ?I = "enqueue_cut q b fs" and ?W = "LittleFs_writeRecordAtomic (traced_fs P) (qc_nextRecordId q) b"
  let ?R = "LittleFs_removeRecord (traced_fs P) (recordName (en_recordId (hd (qc_entries q))))"
  obtain ok1 f1 log1 where w1: "?W (f, log) = (ok1, f1, log1)" by (metis prod_cases3)
  obtain ok2 f2 log2 where rm: "?R (f1, log1) = (ok2, f2, log2)" by (metis prod_cases3)
  obtain ok3 f3 log3 where w2: "?W (f2, log2) = (ok3, f3, log3)" by (metis prod_cases3)
  have l1: "log_ok ?I (f1, log1)" using write_log[OF w1 log] enqueue_cut_steps(1) by simp
  have l2: "log_ok ?I (f2, log2)" if "qc_capacity q \<le> length (qc_entries q)"
    using remove_log[OF rm l1] enqueue_cut_steps(3) that by simp
  have l3: "log_ok ?I (f3, log3)" if "qc_capacity q \<le> length (qc_entries q)"
    using write_log[OF w2 l2[OF that]] enqueue_cut_steps(1) by simp
  show ?thesis using run w1 rm w2 l1 l2 l3 r
    by (auto simp: enqueue_write_def littlefs_queue_storage_def split: if_splits bool.splits)
qed

lemma enqueue_bound_log:
  assumes run: "enqueue_bound (littlefs_queue_storage (traced_fs P)) r (q1, f, log) = (x, q', f', log')"
    and r: "q_recordId r = qc_nextRecordId q" and log: "log_ok (enqueue_cut q b fs) (f, log)"
    and q1: "qc_capacity q \<le> length (qc_entries q1) \<Longrightarrow> qc_entries q1 = qc_entries q" "qc_capacity q1 = qc_capacity q"
  shows "log_ok (enqueue_cut q b fs) (f', log')"
proof (cases "qc_capacity q \<le> length (qc_entries q1)")
  case True
  note eq = q1(1)[OF True]
  let ?I = "enqueue_cut q b fs"
  obtain ok1 f1 log1 where r1: "LittleFs_removeRecord (traced_fs P) (recordName (en_recordId (hd (qc_entries q)))) (f, log)
      = (ok1, f1, log1)" by (metis prod_cases3)
  obtain ok2 f2 log2 where r2: "LittleFs_removeRecord (traced_fs P) (recordName (qc_nextRecordId q)) (f1, log1) = (ok2, f2, log2)"
    by (metis prod_cases3)
  have l1: "log_ok ?I (f1, log1)" using remove_log[OF r1 log] enqueue_cut_steps(3) True eq by simp
  have l2: "log_ok ?I (f2, log2)" using remove_log[OF r2 l1] enqueue_cut_steps(2) by simp
  show ?thesis using run r1 r2 l1 l2 r q1(2) eq True
    by (cases ok1) (auto simp: enqueue_bound_def littlefs_queue_storage_def)
qed (use run log q1(2) in \<open>auto simp: enqueue_bound_def\<close>)

lemma enqueue_log:
  assumes inv: "core_inv q (record_files content f)"
    and run: "core_enqueue (littlefs_queue_storage (traced_fs P)) r (q, f, []) = (x, q', f', log)"
    and raw: "length (q_rawPayload r) = kRadioPacketCapacity"
  shows "log_ok (enqueue_cut q (record_encoding (r\<lparr>q_recordId := qc_nextRecordId q\<rparr>)) (record_files content f)) (f', log)"
proof -
  let ?r = "r\<lparr>q_recordId := qc_nextRecordId q\<rparr>"
  let ?I = "enqueue_cut q (record_encoding ?r) (record_files content f)"
  have start: "log_ok ?I (f, [])" by (simp add: enqueue_cut_def)
  show ?thesis
  proof (cases "qc_nextRecordId q = 0 \<or> recordTelemetry r = None \<or> encodeRecord ?r = None")
    case True
    then show ?thesis using run start by (auto simp: core_enqueue_def Let_def split: option.splits if_splits)
  next
    case False
    then obtain t where t: "qc_nextRecordId q \<noteq> 0" "recordTelemetry r = Some t" "encodeRecord ?r = Some (record_encoding ?r)"
      using raw by (auto simp: encodeRecord_iff split: if_splits)
    obtain y q1 f1 log1 where w: "enqueue_write (littlefs_queue_storage (traced_fs P)) ?r (record_encoding ?r) (q, f, [])
        = (y, q1, f1, log1)" by (metis prod_cases4)
    note l1 = enqueue_write_log[OF w _ start, simplified]
    obtain z q2 f2 log2 where b: "enqueue_bound (littlefs_queue_storage (traced_fs P)) ?r (q1, f1, log1) = (z, q2, f2, log2)"
      by (metis prod_cases4)
    have small: "length (qc_entries q) \<le> qc_capacity q" "0 < qc_capacity q" using inv by (simp_all add: core_inv_def)
    have "log_ok ?I (f2, log2)"
    proof (rule enqueue_bound_log[OF b, of q])
      assume "qc_capacity q \<le> length (qc_entries q1)"
      with l1 small show "qc_entries q1 = qc_entries q" by (cases "qc_entries q") auto
    qed (use l1 in auto)
    then show ?thesis using run w b l1 t
      by (auto simp: core_enqueue_def Let_def split: option.splits bool.splits)
  qed
qed

end



section \<open>Recovery after a power cut\<close>

lemma view_of_ids:
  assumes "map en_recordId (qc_entries q) = ids" "\<And>i. i \<in> set ids \<Longrightarrow> fs i = gs i"
  shows "queue_view q fs = map (\<lambda>i. (i, gs i)) ids"
  using assms by (auto simp: queue_view_def)

lemma sorted_list_of_ids:
  "sorted_wrt (<) (J :: u64 list) \<Longrightarrow> sorted_list_of_set (set J) = J"
  by (simp add: sorted_list_of_set.idem_if_sorted_distinct strict_sorted_iff)

text \<open>The records a cut can leave valid: the indexed ones, the oldest apart, and one under the next number: the new one, or
  one that was there before (an enqueue whose record was written, but whose clean-up failed when the bound could not be
  kept, leaves its file without an index entry; the number is given out again).\<close>

lemma cut_valid_ids:
  assumes inv: "core_inv q fs" and exact: "valid_ids fs \<subseteq> insert (qc_nextRecordId q) (en_recordId ` set (qc_entries q))"
    and cut: "enqueue_cut q b fs gs" and zero: "fs 0 = None" "gs 0 = None"
  defines "I \<equiv> map en_recordId (qc_entries q)"
  shows "\<exists>J. (J = I \<or> qc_capacity q \<le> length I \<and> J = tl I) \<and> (\<forall>i\<in>set J. gs i = fs i) \<and>
    (sorted_list_of_set (valid_ids gs) = J \<or>
     sorted_list_of_set (valid_ids gs) = J @ [qc_nextRecordId q] \<and>
       (gs (qc_nextRecordId q) = Some b \<or> qc_nextRecordId q \<in> valid_ids fs \<and> gs (qc_nextRecordId q) = fs (qc_nextRecordId q)))"
proof -
  let ?n = "qc_nextRecordId q" and ?full = "qc_capacity q \<le> length I"
  have sorted: "sorted_wrt (<) I" using inv by (simp add: core_inv_def I_def)
  have less: "i < ?n" if "i \<in> set I" "?n \<noteq> 0" for i using inv that by (auto simp: core_inv_def I_def)
  have Iv: "i \<in> valid_ids fs" if "i \<in> set I" for i
    using that inv entry_at_iff[of fs i] by (auto simp: I_def core_inv_def valid_ids_def)
  have vI: "i \<in> valid_ids fs \<longleftrightarrow> i \<in> set I" if "i \<noteq> ?n" for i using exact Iv that by (auto simp: I_def)
  have hdI: "en_recordId (hd (qc_entries q)) = hd I" if "?full"
    using that inv by (cases "qc_entries q") (auto simp: core_inv_def I_def)
  have other: "gs i = fs i \<or> ?full \<and> i = hd I \<and> gs i = None" if "i \<noteq> ?n" for i
    using cut that hdI by (auto simp: enqueue_cut_def I_def)
  have n0: "0 \<notin> valid_ids gs" using zero by (simp add: valid_ids_def entry_at_def)
  define J where "J = (if ?full \<and> gs (hd I) = None then tl I else I)"
  have Jsorted: "sorted_wrt (<) J" using sorted by (cases I) (auto simp: J_def)
  have JI: "set J \<subseteq> set I" by (cases I) (auto simp: J_def)
  have nI: "?n \<notin> set I" using less Iv[of 0] zero(1) by (cases "?n = 0") (auto simp: valid_ids_def entry_at_def)
  have keep: "gs i = fs i" if "i \<in> set J" for i
    using other[of i] that nI JI sorted by (cases I) (auto simp: J_def split: if_splits)
  have valid_eq: "i \<in> valid_ids gs \<longleftrightarrow> i \<in> valid_ids fs" if "gs i = fs i" for i
    using that by (simp add: valid_ids_def entry_at_def)
  have "i \<in> valid_ids gs \<longleftrightarrow> i \<in> set J" if "i \<noteq> ?n" for i
  proof
    assume v: "i \<in> valid_ids gs"
    then have some: "gs i \<noteq> None" by (auto simp: valid_ids_def entry_at_def split: option.splits)
    then have "i \<in> set I" using other[OF that] v vI[OF that] valid_eq by auto
    then show "i \<in> set J" using some by (cases I) (auto simp: J_def)
  qed (use keep JI Iv valid_eq in blast)
  then have "i \<in> valid_ids gs \<longleftrightarrow> i \<in> set J \<or> i = ?n \<and> ?n \<in> valid_ids gs" for i using JI nI by (cases "i = ?n") auto
  then have V: "valid_ids gs = (if ?n \<in> valid_ids gs then insert ?n (set J) else set J)"
    unfolding set_eq_iff by (metis insert_iff)
  have new: "?n \<noteq> 0 \<and> (gs ?n = Some b \<or> ?n \<in> valid_ids fs \<and> gs ?n = fs ?n)" if "?n \<in> valid_ids gs"
  proof -
    have "gs ?n \<noteq> None" using that by (auto simp: valid_ids_def entry_at_def split: option.splits)
    then have "gs ?n = Some b \<or> gs ?n = fs ?n" using cut by (auto simp: enqueue_cut_def)
    then show ?thesis using that n0 valid_eq[of ?n] by auto
  qed
  have "sorted_list_of_set (valid_ids gs) = (if ?n \<in> valid_ids gs then J @ [?n] else J)"
  proof (cases "?n \<in> valid_ids gs")
    case True
    then have "sorted_wrt (<) (J @ [?n])" using Jsorted JI less new by (auto simp: sorted_wrt_append)
    moreover have "set (J @ [?n]) = valid_ids gs" using V True by simp
    ultimately show ?thesis using sorted_list_of_ids True by metis
  next
    case False
    then have "valid_ids gs = set J" using V by simp
    then show ?thesis using sorted_list_of_ids[OF Jsorted] False by simp
  qed
  moreover have "J = I \<or> ?full \<and> J = tl I" by (auto simp: J_def)
  ultimately show ?thesis using keep new by (intro exI[of _ J]) auto
qed

context reliable_littlefs
begin

lemma reliable_storage_contract: "reliable_queue_storage (littlefs_queue_storage P) (record_files content)"
  by (rule store.reliable_queue_storage_axioms)

lemma recover_view:
  assumes "core_recover (littlefs_queue_storage P) (DurableQueueCore_init c, g) = (True, q2, g2)"
    and "0 < c" "record_files content g (-1) = None"
  shows "queue_view q2 (record_files content g2) = map (\<lambda>i. (i, record_files content g i))
      (drop (card (valid_ids (record_files content g)) - c) (sorted_list_of_set (valid_ids (record_files content g))))"
proof -
  let ?ids = "drop (card (valid_ids (record_files content g)) - c) (sorted_list_of_set (valid_ids (record_files content g)))"
  have rec: "map en_recordId (qc_entries q2) = ?ids"
    "\<forall>i. i \<in> en_recordId ` set (qc_entries q2) \<longrightarrow> record_files content g2 i = record_files content g i"
    using store.recover_outcome[OF assms(1) _ assms(3)] assms(2) by (simp_all add: DurableQueueCore_init_def)
  have "i \<in> en_recordId ` set (qc_entries q2)" if "i \<in> set ?ids" for i
    using arg_cong[OF rec(1), of set] that by simp
  then show ?thesis using rec by (intro view_of_ids) auto
qed

lemma crash_recovery:
  assumes inv: "core_inv q (record_files content f)"
    and exact: "valid_ids (record_files content f) \<subseteq> insert (qc_nextRecordId q) (en_recordId ` set (qc_entries q))"
    and raw: "length (q_rawPayload r) = kRadioPacketCapacity"
    and top: "record_files content f (-1) = None" "qc_nextRecordId q \<noteq> -1"
    and run: "core_enqueue (littlefs_queue_storage (traced_fs P)) r (q, f, []) = (x, q', f', log)"
    and cut: "g \<in> set log"
    and restart: "core_recover (littlefs_queue_storage P) (DurableQueueCore_init (qc_capacity q), g) = (True, q2, g2)"
    and V: "V = queue_view q (record_files content f)"
    and N: "N = {(qc_nextRecordId q, Some (record_encoding (r\<lparr>q_recordId := qc_nextRecordId q\<rparr>)))} \<union>
      (if qc_nextRecordId q \<in> valid_ids (record_files content f) then {(qc_nextRecordId q, record_files content f (qc_nextRecordId q))} else {})"
  shows "queue_view q2 (record_files content g2) \<in>
    (if length V < qc_capacity q then {V} \<union> {V @ [n] |n. n \<in> N} else {V, tl V} \<union> {tl V @ [n] |n. n \<in> N})"
proof -
  let ?fs = "record_files content f" and ?gs = "record_files content g" and ?n = "qc_nextRecordId q"
  let ?b = "record_encoding (r\<lparr>q_recordId := ?n\<rparr>)" and ?I = "map en_recordId (qc_entries q)"
  have c: "enqueue_cut q ?b ?fs ?gs" using enqueue_log[OF inv run raw] cut by (simp add: log_ok_def)
  have g_top: "?gs (-1) = None" using c top unfolding enqueue_cut_def by metis
  have cap: "0 < qc_capacity q" "length ?I \<le> qc_capacity q" using inv by (simp_all add: core_inv_def)
  define L where "L = sorted_list_of_set (valid_ids ?gs)"
  obtain J where J: "J = ?I \<or> qc_capacity q \<le> length ?I \<and> J = tl ?I" "\<And>i. i \<in> set J \<Longrightarrow> ?gs i = ?fs i"
    and S: "L = J \<or> L = J @ [?n] \<and> (?gs ?n = Some ?b \<or> ?n \<in> valid_ids ?fs \<and> ?gs ?n = ?fs ?n)"
    using cut_valid_ids[OF inv exact c store.no_zero store.no_zero] unfolding L_def by metis
  have new: "L = J \<or> L = J @ [?n] \<and> (?n, ?gs ?n) \<in> N" using S N by auto
  have V': "V = map (\<lambda>i. (i, ?fs i)) ?I" unfolding V by (rule view_of_ids) simp_all
  have mapJ: "map (\<lambda>i. (i, ?gs i)) J = map (\<lambda>i. (i, ?fs i)) J" using J(2) by simp
  have view: "queue_view q2 (record_files content g2) = map (\<lambda>i. (i, ?gs i)) (drop (length L - qc_capacity q) L)"
    using recover_view[OF restart cap(1) g_top] by (simp add: L_def)
  have ne: "?I \<noteq> []" if "qc_capacity q \<le> length ?I" using that cap by auto
  show ?thesis
  proof (cases "length ?I < qc_capacity q")
    case True
    then have "J = ?I" "length V < qc_capacity q" using J(1) V' by simp_all
    then show ?thesis using view new mapJ V' True by (auto simp: o_def)
  next
    case False
    then have len: "length ?I = qc_capacity q" using cap by simp
    have "drop (length L - qc_capacity q) L = J \<or> drop (length L - qc_capacity q) L = tl ?I @ [?n] \<and> (?n, ?gs ?n) \<in> N"
      using new J(1) ne len by (cases ?I) auto
    moreover have "map (\<lambda>i. (i, ?gs i)) (tl ?I) = map (\<lambda>i. (i, ?fs i)) (tl ?I)"
      using J by (cases ?I) auto
    ultimately show ?thesis using view J(1) mapJ V' len by (auto simp: map_tl o_def)
  qed
qed

end

end
