(* ===== verification/Queue_Properties.thy ===== *)
theory Queue_Properties
  imports Crash_Safety
begin

text \<open>
  The properties of the durable queue on its LittleFS storage, for every filesystem that keeps the
  contract \<open>littlefs\<close>. The record files are the state that survives; \<open>queue_view\<close> pairs each indexed
  id with the bytes of its file, oldest first. The examples run on the filesystem in memory.
\<close>

section \<open>Examples\<close>

text \<open>A received frame, the file it is stored in, and the queue that holds it.\<close>

definition queued_frame :: QueueRecord where
  "queued_frame = QueueRecord_init\<lparr>
     q_reception := ReceptionMetadata_init\<lparr>rm_packetLength := 64, rm_rssiDbm := 0xC2B40000\<rparr>,
     q_payloadLength := 64, q_rawPayload := char_array kRadioPacketCapacity (telemetry_bytes example_telemetry)\<rparr>"

lemma queued_telemetry: "recordTelemetry queued_frame = Some example_telemetry"
  by code_simp

lemma queued_ok: "i \<noteq> 0 \<Longrightarrow> record_ok (queued_frame\<lparr>q_recordId := i\<rparr>)"
  by (simp add: record_ok_def queued_frame_def QueueRecord_init_def length_telemetry_bytes cstr_example_telemetry
      ReceptionMetadata_init_def time_consistent_def capacity_defs char_array_def)

lemma queued_encoding: "i \<noteq> 0 \<Longrightarrow> encodeRecord (queued_frame\<lparr>q_recordId := i\<rparr>) = Some (record_encoding (queued_frame\<lparr>q_recordId := i\<rparr>))"
  using queued_ok[of i] by (simp add: encodeRecord_iff record_ok_def)

definition example_file :: "byte list" where "example_file = record_encoding (queued_frame\<lparr>q_recordId := 1\<rparr>)"
definition one_record :: mem_fs where
  "one_record = \<lparr>mf_files = [(fullPath (recordName 1), example_file)], mf_faults = []\<rparr>"

lemma one_record_dir: "lf_dir mem_fs_api kQueueDirectory one_record = Some [(recordName 1, False)]"
  using recordName_plain[of 1]
  by (simp add: mem_fs_api_def one_record_def mf_in_dir_def fullPath_def)

lemma example_file_record: "file_record example_file 1 = Some (queued_frame\<lparr>q_recordId := 1\<rparr>, example_telemetry)"
proof -
  have "canonical (queued_frame\<lparr>q_recordId := 1\<rparr>) = queued_frame\<lparr>q_recordId := 1\<rparr>"
    by (simp add: canonical_def queued_frame_def QueueRecord_init_def char_array_def length_telemetry_bytes cstr_example_telemetry)
  moreover have "recordTelemetry (queued_frame\<lparr>q_recordId := 1\<rparr>) = Some example_telemetry"
    using queued_telemetry by (simp add: recordTelemetry_def)
  ultimately show ?thesis
  using file_record_encoding[OF queued_ok[of 1]] by (simp add: example_file_def)
qed

lemma example_file_decode: "decodeRecord (Some example_file) (length example_file) = (True, queued_frame\<lparr>q_recordId := 1\<rparr>)"
  using example_file_record by (auto simp: file_record_def split: prod.splits if_splits)

lemma example_file_length: "length example_file = 120"
  using length_record_encoding queued_ok[of 1] by (simp add: example_file_def) (simp add: queued_frame_def)

definition empty_fs :: mem_fs where "empty_fs = \<lparr>mf_files = [], mf_faults = []\<rparr>"

definition one_queued :: "u32 \<Rightarrow> DurableQueueCore" where
  "one_queued recovered = \<lparr>qc_capacity = 2, qc_nextRecordId = 2,
     qc_entries = [\<lparr>en_recordId = 1, en_keyHash = keyHash (packetKey example_telemetry)\<rparr>],
     qc_stats = \<lparr>st_recoveredRecords = recovered, st_corruptRecords = 0, st_droppedOldest = 0, st_storageErrors = 0\<rparr>\<rparr>"

lemma one_record_read: "readAndDecode (littlefs_queue_storage mem_fs_api) 1 one_record = (Some (queued_frame\<lparr>q_recordId := 1\<rparr>), one_record)"
proof -
  have "LittleFs_readRecord mem_fs_api (recordName 1) one_record = (Some example_file, one_record)"
    by (simp add: LittleFs_readRecord_def mem_fs_api_def one_record_def mf_content_def example_file_length record_size_defs capacity_defs)
  then show ?thesis by (simp add: readAndDecode_def littlefs_queue_storage_def example_file_decode)
qed

lemma queued_telemetry_id: "recordTelemetry (queued_frame\<lparr>q_recordId := i\<rparr>) = Some example_telemetry"
  using queued_telemetry by (simp add: recordTelemetry_def)

lemma one_record_recover: "core_recover (littlefs_queue_storage mem_fs_api) (DurableQueueCore_init 2, one_record) =
   (True, one_queued 1, one_record)"
proof -
  have ends: "ends_with ''.rec'' (recordName 1)" "\<not> ends_with ''.tmp'' (recordName 1)"
    by (simp_all add: ends_with_def recordName_def)
  have "LittleFs_cleanupTemporaryFiles mem_fs_api one_record = one_record"
    by (simp add: LittleFs_cleanupTemporaryFiles_def one_record_dir ends)
  moreover have "LittleFs_listRecordIds mem_fs_api one_record = (Some ([1], 0), one_record)"
    by (simp add: LittleFs_listRecordIds_def one_record_dir ends base_name_plain recordName_plain parse_recordName)
  ultimately show ?thesis
    using one_record_read
    by (simp add: core_recover_def littlefs_queue_storage_def Let_def queued_telemetry_id
        DurableQueueCore_init_def recover_trim.simps corruptRecord_def one_queued_def)
qed

lemma one_record_files: "record_files mf_content one_record = [1 \<mapsto> example_file]"
  by (auto simp: record_files_def mf_content_def one_record_def)

lemma empty_fs_files: "record_files mf_content empty_fs = Map.empty"
  by (auto simp: record_files_def mf_content_def empty_fs_def)

lemma empty_core_inv: "0 < c \<Longrightarrow> core_inv (DurableQueueCore_init c) fs"
  by (simp add: core_inv_def DurableQueueCore_init_def)

lemma one_queued_inv: "core_inv (one_queued n) (record_files mf_content one_record)"
  using example_file_record by (simp add: core_inv_def one_queued_def entry_ok_def one_record_files)

lemma one_record_valid: "valid_ids (record_files mf_content one_record) = {1}"
  using example_file_record by (auto simp: valid_ids_def entry_at_def one_record_files split: if_splits option.splits)

lemma example_write:
  "LittleFs_writeRecordAtomic (traced_fs mem_fs_api) 1 example_file (empty_fs, []) = (True, one_record,
     [empty_fs, \<lparr>mf_files = [(kQueueDirectory @ ''/'' @ hex_name 16 1 @ ''.tmp'', example_file)], mf_faults = []\<rparr>, one_record])"
  by (simp add: LittleFs_writeRecordAtomic_def silentlyUnlink_def Let_def traced_fs_def log_state_def mem_fs_api_def mf_step_def
      mf_delete_def mf_put_def mf_content_def empty_fs_def one_record_def fullPath_def recordName_def)

lemma example_enqueue_log:
  "core_enqueue (littlefs_queue_storage (traced_fs mem_fs_api)) queued_frame (DurableQueueCore_init 2, empty_fs, []) =
     ((True, queued_frame\<lparr>q_recordId := 1\<rparr>), one_queued 0, one_record,
      [empty_fs, \<lparr>mf_files = [(kQueueDirectory @ ''/'' @ hex_name 16 1 @ ''.tmp'', example_file)], mf_faults = []\<rparr>, one_record])"
  using example_write
  by (simp add: core_enqueue_def queued_telemetry queued_encoding DurableQueueCore_init_def Let_def enqueue_write_def
      enqueue_bound_def littlefs_queue_storage_def one_queued_def flip: example_file_def)

lemmas example_enqueue = traced_enqueue[OF example_enqueue_log]


section \<open>Properties\<close>

text \<open>C10: Enqueueing is durable, ordered and bounded. When \<open>enqueue\<close> reports success, the record with
  the next id is in its own file, bytes as encoded, and is the last of the queue; every older record
  keeps its file, except that the oldest one was dropped if and only if the queue was full. When it
  reports failure, no record is added and the queue is as before, or, when it was full, may have lost
  its oldest record. The index invariant holds again: at most \<open>capacity\<close> records, ids strictly
  increasing, every indexed record decodable from its file.\<close>

theorem enqueue_durable:
  assumes "littlefs P content" and "core_inv q (record_files content f)"
    and "length (q_rawPayload r) = kRadioPacketCapacity"
    and "core_enqueue (littlefs_queue_storage P) r (q, f) = ((ok, r'), q', f')"
  shows "core_inv q' (record_files content f') \<and>
    (if ok then
       r' = r\<lparr>q_recordId := qc_nextRecordId q\<rparr> \<and> qc_nextRecordId q' = qc_nextRecordId q + 1 \<and>
       file_record (record_encoding r') (qc_nextRecordId q) \<noteq> None \<and>
       queue_view q' (record_files content f') =
         (if length (qc_entries q) < qc_capacity q then queue_view q (record_files content f)
          else tl (queue_view q (record_files content f))) @ [(qc_nextRecordId q, Some (record_encoding r'))]
     else
       queue_view q' (record_files content f') = queue_view q (record_files content f) \<or>
       length (qc_entries q) = qc_capacity q \<and>
       queue_view q' (record_files content f') = tl (queue_view q (record_files content f)))"
proof -
  note st = littlefs.storage_contract[OF assms(1)]
  note out = queue_storage.enqueue_outcome[OF st assms(2-4)]
  show ?thesis
  proof (cases ok)
    case True
    then obtain t where t: "recordTelemetry r = Some t" "record_ok r'" "r' = r\<lparr>q_recordId := qc_nextRecordId q\<rparr>"
      "queue_storage.enqueued (record_files content) q f r' t q' f'"
      using out by auto
    have "recordTelemetry r' = Some t" using t(1,3) by (simp add: recordTelemetry_def)
    then have "file_record (record_encoding r') (qc_nextRecordId q) = Some (canonical r', t)"
      using file_record_encoding[OF t(2)] t(3) by simp
    then show ?thesis using True t(3,4) by (simp add: queue_storage.enqueued_def[OF st])
  next
    case False
    then show ?thesis using out assms(2) by (auto simp: queue_storage.refused_def[OF st] core_inv_def)
  qed
qed

theorem enqueue_durable_witness:
  "queue_view (one_queued 0) (record_files mf_content one_record) = [(1, Some example_file)]"
  using enqueue_durable[OF mem_fs.littlefs_axioms empty_core_inv _ example_enqueue] queued_ok[of 1]
  by (simp add: DurableQueueCore_init_def queue_view_def record_ok_def flip: example_file_def)

text \<open>C11: A power cut at any moment of an enqueue loses no queued record beyond the one the bound drops. For every
  filesystem state after a call of the enqueue, the queue recovered from it is the old queue, or the old queue with one
  record complete at its end, stored under the number the enqueue gives out; if the queue was full, the oldest record may
  be gone. The record at the end is the new one, or the one an earlier failed enqueue left under this number
  because its clean-up failed too. No torn record is ever recovered. This holds when the files hold no valid record beyond the
  indexed ones and that left-over, the payload buffer has its fixed size, and the largest number is not in use.\<close>

theorem enqueue_power_cut:
  assumes "reliable_littlefs P content" and "core_inv q (record_files content f)"
    and "valid_ids (record_files content f) \<subseteq> insert (qc_nextRecordId q) (en_recordId ` set (qc_entries q))"
    and "length (q_rawPayload r) = kRadioPacketCapacity"
    and "record_files content f (-1) = None" "qc_nextRecordId q \<noteq> -1"
    and "core_enqueue (littlefs_queue_storage (traced_fs P)) r (q, f, []) = (res, q', f', log)"
    and "g \<in> set log"
    and "core_recover (littlefs_queue_storage P) (DurableQueueCore_init (qc_capacity q), g) = (True, q2, g2)"
  shows "let fs = record_files content f; V = queue_view q fs; i = qc_nextRecordId q;
             N = {(i, Some (record_encoding (r\<lparr>q_recordId := i\<rparr>)))} \<union> (if i \<in> valid_ids fs then {(i, fs i)} else {})
         in queue_view q2 (record_files content g2) \<in>
              (if length V < qc_capacity q then {V} \<union> {V @ [n] |n. n \<in> N} else {V, tl V} \<union> {tl V @ [n] |n. n \<in> N})"
  using reliable_littlefs.crash_recovery[OF assms(1-9) refl refl] by (simp only: Let_def)

theorem enqueue_power_cut_witness:
  "queue_view (one_queued 1) (record_files mf_content one_record) \<in> {[], [(1, Some example_file)]}"
proof -
  let ?q = "DurableQueueCore_init 2"
  have empty: "valid_ids (record_files mf_content empty_fs) = {}" by (simp add: empty_fs_files valid_ids_def entry_at_def)
  then have none: "valid_ids (record_files mf_content empty_fs) \<subseteq> insert (qc_nextRecordId ?q) (en_recordId ` set (qc_entries ?q))" by simp
  have "core_recover (littlefs_queue_storage mem_fs_api) (DurableQueueCore_init (qc_capacity (DurableQueueCore_init 2)), one_record)
      = (True, one_queued 1, one_record)"
    using one_record_recover by (simp add: DurableQueueCore_init_def)
  from enqueue_power_cut[OF mem_fs.reliable_littlefs_axioms empty_core_inv none _ _ _ example_enqueue_log _ this]
  show ?thesis using queued_ok[of 1] empty
    by (simp add: DurableQueueCore_init_def empty_fs_files record_ok_def Let_def queue_view_def flip: example_file_def)
qed

text \<open>C13: Recovery rebuilds the queue from the files alone: when \<open>recover\<close> succeeds, the queue is the
  newest \<open>capacity\<close> of the valid record files (readable, checksum and telemetry intact, id matching
  the file name), in id order with their files untouched, and the next id is above all of them.\<close>

theorem recover_newest:
  assumes "reliable_littlefs P content" and "0 < c" and "record_files content f (-1) = None"
    and "core_recover (littlefs_queue_storage P) (DurableQueueCore_init c, f) = (True, q, f')"
  shows "let valid = sorted_list_of_set (valid_ids (record_files content f)) in
    core_inv q (record_files content f') \<and> qc_capacity q = c \<and> qc_nextRecordId q \<noteq> 0 \<and>
    queue_view q (record_files content f') =
      map (\<lambda>i. (i, record_files content f i)) (drop (length valid - c) valid)"
proof -
  note rel = reliable_littlefs.reliable_storage_contract[OF assms(1)]
  have "core_inv q (record_files content f') \<and> qc_capacity q = c \<and> qc_nextRecordId q \<noteq> 0"
    using reliable_queue_storage.recover_outcome[OF rel assms(4) _ assms(3)] assms(2) by (simp add: DurableQueueCore_init_def)
  then show ?thesis using reliable_littlefs.recover_view[OF assms(1,4,2,3)] by (simp add: Let_def)
qed

theorem recover_newest_witness:
  "qc_capacity (one_queued 1) = 2 \<and>
   queue_view (one_queued 1) (record_files mf_content one_record) = [(1, Some example_file)]"
  using recover_newest[OF mem_fs.reliable_littlefs_axioms _ _ one_record_recover]
  by (simp add: one_record_valid Let_def) (simp add: one_record_files)

text \<open>C12: A restart gives the queue back: recovering a fresh \<open>DurableQueueCore\<close> of the same capacity
  from files that hold no valid record beyond the indexed ones yields exactly the queue that was in
  memory.\<close>

theorem restart_restores_queue:
  assumes "reliable_littlefs P content" and "core_inv q (record_files content f)"
    and "valid_ids (record_files content f) = en_recordId ` set (qc_entries q)"
    and "record_files content f (-1) = None"
    and "core_recover (littlefs_queue_storage P) (DurableQueueCore_init (qc_capacity q), f) = (True, q', f')"
  shows "queue_view q' (record_files content f') = queue_view q (record_files content f)"
proof -
  let ?I = "map en_recordId (qc_entries q)"
  have inv: "0 < qc_capacity q" "length ?I \<le> qc_capacity q" "sorted_wrt (<) ?I"
    using assms(2) by (simp_all add: core_inv_def)
  have "sorted_list_of_set (valid_ids (record_files content f)) = ?I"
    using sorted_list_of_ids[OF inv(3)] assms(3) by simp
  then show ?thesis
    using reliable_littlefs.recover_view[OF assms(1,5) inv(1) assms(4)] inv(2)
    by (simp add: queue_view_def comp_def flip: length_sorted_list_of_set)
qed

theorem restart_restores_queue_witness:
  "queue_view (one_queued 1) (record_files mf_content one_record)
     = queue_view (one_queued 0) (record_files mf_content one_record)"
proof -
  have "core_recover (littlefs_queue_storage mem_fs_api) (DurableQueueCore_init (qc_capacity (one_queued 0)), one_record)
      = (True, one_queued 1, one_record)"
    using one_record_recover by (simp add: one_queued_def)
  moreover have "valid_ids (record_files mf_content one_record) = en_recordId ` set (qc_entries (one_queued 0))"
    by (simp add: one_record_valid) (simp add: one_queued_def)
  moreover have "record_files mf_content one_record (-1) = None" by (simp add: one_record_files)
  ultimately show ?thesis
    using restart_restores_queue[OF mem_fs.reliable_littlefs_axioms one_queued_inv] by blast
qed

text \<open>The duplicate check on the queue is exact: \<open>contains\<close> answers yes if and only if some queued
  record holds telemetry with the same node, session and sequence; the stored hashes never hide one,
  a hash collision never reports one, and nothing is changed by asking.\<close>

theorem queue_contains_exact:
  assumes "reliable_littlefs P content" and "core_inv q (record_files content f)"
    and "core_contains (littlefs_queue_storage P) key (q, f) = (found, q', f')"
  shows "(found \<longleftrightarrow> (\<exists>(i, b)\<in>set (queue_view q (record_files content f)). \<exists>r t.
      file_record (the b) i = Some (r, t) \<and> telemetryKeyEqual (packetKey t) key)) \<and>
    record_files content f' = record_files content f \<and> qc_entries q' = qc_entries q"
proof -
  note rel = reliable_littlefs.reliable_storage_contract[OF assms(1)]
  have st: "queue_storage (littlefs_queue_storage P) (record_files content)"
    by (rule reliable_queue_storage.axioms(1)[OF rel])
  have some: "record_files content f (en_recordId e) = Some (the (record_files content f (en_recordId e)))"
    if "e \<in> set (qc_entries q)" for e
  proof -
    have "entry_ok (record_files content f) e" using assms(2) that by (simp add: core_inv_def)
    then show ?thesis by (auto simp: entry_ok_def)
  qed
  have "queue_has q (record_files content f) key \<longleftrightarrow> (\<exists>(i, b)\<in>set (queue_view q (record_files content f)). \<exists>r t.
      file_record (the b) i = Some (r, t) \<and> telemetryKeyEqual (packetKey t) key)"
    unfolding queue_has_def queue_view_def by (auto simp: Bex_def) (metis some option.sel)+
  then show ?thesis
    using reliable_queue_storage.contains_exact[OF rel assms(2,3)] queue_storage.contains_sound[OF st assms(2,3)] by simp
qed

theorem queue_contains_exact_witness:
  "\<exists>(i, b)\<in>set (queue_view (one_queued 0) (record_files mf_content one_record)). \<exists>r t.
     file_record (the b) i = Some (r, t) \<and> telemetryKeyEqual (packetKey t) (packetKey example_telemetry)"
proof -
  have "core_contains (littlefs_queue_storage mem_fs_api) (packetKey example_telemetry) (one_queued 0, one_record)
      = (True, one_queued 0, one_record)"
    using one_record_read
    by (simp add: core_contains_def one_queued_def queued_telemetry_id telemetryKeyEqual_def strncmp_eq_def)
  from queue_contains_exact[OF mem_fs.reliable_littlefs_axioms one_queued_inv this] show ?thesis by simp
qed

text \<open>Removing a record by id deletes its file and takes it out of the queue, leaving the order and
  the files of all others; when \<open>remove\<close> reports failure, index and files are unchanged.\<close>

theorem remove_only_that_record:
  assumes "littlefs P content" and "core_inv q (record_files content f)"
    and "core_remove (littlefs_queue_storage P) i (q, f) = (ok, q', f')"
  shows "core_inv q' (record_files content f') \<and> qc_nextRecordId q' = qc_nextRecordId q \<and>
    (if ok then i \<in> fst ` set (queue_view q (record_files content f)) \<and>
         record_files content f' = (record_files content f)(i := None) \<and>
         queue_view q' (record_files content f') = filter (\<lambda>(j, _). j \<noteq> i) (queue_view q (record_files content f))
     else queue_view q' (record_files content f') = queue_view q (record_files content f))"
  using queue_storage.remove_outcome[OF littlefs.storage_contract[OF assms(1)] assms(2,3)]
  by (auto simp: queue_view_def image_image)

theorem remove_only_that_record_witness:
  "queue_view ((one_queued 0)\<lparr>qc_entries := []\<rparr>) (record_files mf_content empty_fs) = []"
proof -
  have "core_remove (littlefs_queue_storage mem_fs_api) 1 (one_queued 0, one_record)
      = (True, (one_queued 0)\<lparr>qc_entries := []\<rparr>, empty_fs)"
    by (simp add: core_remove_def one_queued_def littlefs_queue_storage_def LittleFs_removeRecord_def mem_fs_api_def
        mf_step_def mf_content_def mf_delete_def one_record_def empty_fs_def)
  from remove_only_that_record[OF mem_fs.littlefs_axioms one_queued_inv this] show ?thesis
    by (simp add: queue_view_def one_queued_def)
qed

text \<open>A batch is the oldest part of the queue: a successful \<open>peek\<close> returns the records of the first
  \<open>limit\<close> entries in order, each as decoded from its file, and changes no file.\<close>

theorem peek_oldest_first:
  assumes "littlefs P content" and "core_inv q (record_files content f)"
    and "core_peek (littlefs_queue_storage P) limit (q, f) = ((True, records), q', f')"
  shows "q' = q \<and> record_files content f' = record_files content f \<and>
    list_all2 (\<lambda>(i, b) r. \<exists>t. file_record (the b) i = Some (r, t))
      (take limit (queue_view q (record_files content f))) records"
proof -
  let ?n = "min limit (length (qc_entries q))"
  have run: "peek_loop (littlefs_queue_storage P) (take ?n (qc_entries q)) [] f = (Some records, f')" "q' = q"
    using assms(3) by (auto simp: core_peek_def Let_def split: prod.splits option.splits)
  have ok: "\<And>e. e \<in> set (take ?n (qc_entries q)) \<Longrightarrow> entry_ok (record_files content f) e"
    using assms(2) by (auto simp: core_inv_def dest: in_set_takeD)
  note out = queue_storage.peek_loop_outcome[OF littlefs.storage_contract[OF assms(1)] run(1) ok]
  have "take ?n (qc_entries q) = take limit (qc_entries q)" by (simp add: min_def)
  with out run(2) show ?thesis
    by (auto simp: queue_view_def take_map list_all2_map1 elim!: list_all2_mono)
qed

theorem peek_oldest_first_witness:
  "list_all2 (\<lambda>(i, b) r. \<exists>t. file_record (the b) i = Some (r, t))
     (take 5 (queue_view (one_queued 0) (record_files mf_content one_record))) [queued_frame\<lparr>q_recordId := 1\<rparr>]"
proof -
  have "core_peek (littlefs_queue_storage mem_fs_api) 5 (one_queued 0, one_record)
      = ((True, [queued_frame\<lparr>q_recordId := 1\<rparr>]), one_queued 0, one_record)"
    using one_record_read by (simp add: core_peek_def one_queued_def)
  from peek_oldest_first[OF mem_fs.littlefs_axioms one_queued_inv this] show ?thesis by simp
qed

text \<open>File names identify records: the name parser of the directory scan accepts exactly the names
  the queue writes, returning the id each was written for, so distinct records never share a file.\<close>

theorem record_names_parse:
  "parse_name name = (True, i) \<longleftrightarrow> name = recordName i"
  by (rule parse_name_recordName)

end
