(* ===== verification/Durable_Queue.thy ===== *)
theory Durable_Queue
  imports Queue_Properties
begin

text \<open>
  The queue service of the firmware (\<open>class DurableQueue\<close>, \<open>lib/queue/durable_queue.cpp\<close>): the crash-safe
  core, the ring of recently finished packets with its file \<open>recent.bin\<close>, and the operational counters in
  flash. Every method takes the mutex first; its body runs alone, so a method is one step on the record
  \<open>DurableQueue\<close> and the state of the hardware. What the methods use of the hardware (filesystem,
  preferences, mutex creation, clock) is the record \<open>queue_platform\<close>.
\<close>

section \<open>Platform and state\<close>

record 'h queue_platform =
  qp_fs :: "'h littlefs_api"
  qp_createMutex :: "'h \<Rightarrow> bool \<times> 'h"
  qp_mount :: "bool \<Rightarrow> 'h \<Rightarrow> bool \<times> 'h"
  qp_mkdir :: "string \<Rightarrow> 'h \<Rightarrow> bool \<times> 'h"
  qp_totalBytes :: "'h \<Rightarrow> u64"
  qp_usedBytes :: "'h \<Rightarrow> u64"
  qp_prefsBegin :: "string \<Rightarrow> bool \<Rightarrow> 'h \<Rightarrow> bool \<times> 'h"
  qp_getBool :: "string \<Rightarrow> bool \<Rightarrow> 'h \<Rightarrow> bool"
  qp_putBool :: "string \<Rightarrow> bool \<Rightarrow> 'h \<Rightarrow> nat \<times> 'h"
  qp_getULong64 :: "string \<Rightarrow> u64 \<Rightarrow> 'h \<Rightarrow> u64"
  qp_putULong64 :: "string \<Rightarrow> u64 \<Rightarrow> 'h \<Rightarrow> nat \<times> 'h"
  qp_millis :: "'h \<Rightarrow> u32 \<times> 'h"

record QueueOperationalStats =
  os_recordsUploaded :: u64
  os_uploadRetries :: u64
  os_recordsDeduplicated :: u64
  os_recordsPermanentlyRejected :: u64
  os_recordsDroppedOldest :: u64
  os_filesystemErrors :: u64

definition QueueOperationalStats_init :: QueueOperationalStats where
  "QueueOperationalStats_init = \<lparr>os_recordsUploaded = 0, os_uploadRetries = 0, os_recordsDeduplicated = 0,
     os_recordsPermanentlyRejected = 0, os_recordsDroppedOldest = 0, os_filesystemErrors = 0\<rparr>"

record QueueTerminalAction =
  ta_recordId :: u64
  ta_key :: TelemetryKey
  ta_permanentlyRejected :: bool

record DurableQueue =
  dq_core :: "DurableQueueCore option"
  dq_recent :: RecentDeduplicator
  dq_mutex :: bool
  dq_stats :: QueueOperationalStats
  dq_mutationsSinceCheckpoint :: u32
  dq_lastCheckpointMs :: u32
  dq_observedCoreDropped :: u32
  dq_observedCoreErrors :: u32
  dq_healthy :: bool

definition DurableQueue_init :: DurableQueue where
  "DurableQueue_init = \<lparr>dq_core = None, dq_recent = RecentDeduplicator_init kRecentDedupCapacity, dq_mutex = False,
     dq_stats = QueueOperationalStats_init, dq_mutationsSinceCheckpoint = 0, dq_lastCheckpointMs = 0,
     dq_observedCoreDropped = 0, dq_observedCoreErrors = 0, dq_healthy = False\<rparr>"

definition kQueueReservedBytes :: u32 where "kQueueReservedBytes = 64 * 1024"
definition kEstimatedLittleFsFileOverhead :: u32 where "kEstimatedLittleFsFileOverhead = 128"
definition kQueueCapacityHardMax :: u32 where "kQueueCapacityHardMax = 4096"
definition kRecentMagic :: u32 where "kRecentMagic = 0x47544431"

definition deriveCapacity :: "u64 \<Rightarrow> u32" where
  "deriveCapacity filesystemBytes =
     (if filesystemBytes \<le> ucast kQueueReservedBytes then 1
      else let perRecord = of_nat kMaximumEncodedBytes + ucast kEstimatedLittleFsFileOverhead :: u64;
               capacity = (filesystemBytes - ucast kQueueReservedBytes) div perRecord;
               capacity = capacity * 4 div 5;
               capacity = (if capacity = 0 then 1 else capacity);
               capacity = (if ucast kQueueCapacityHardMax < capacity then ucast kQueueCapacityHardMax else capacity)
           in ucast capacity)"

definition LittleFs_begin :: "'h queue_platform \<Rightarrow> bool \<Rightarrow> 'h \<Rightarrow> bool \<times> 'h" where
  "LittleFs_begin P formatOnFailure h =
     (case qp_mount P formatOnFailure h of
        (False, h) \<Rightarrow> (False, h)
      | (True, h) \<Rightarrow>
         let directoryPresence = filePresence (qp_fs P) kQueueDirectory h in
         if directoryPresence < 0 then (False, h)
         else if directoryPresence = 0 then
           (case qp_mkdir P kQueueDirectory h of (made, h) \<Rightarrow> (made, h))
         else (True, h))"


section \<open>The recent-packet file\<close>

definition writeU32 :: "u32 \<Rightarrow> byte list \<Rightarrow> byte list" where
  "writeU32 v bytes = bytes @ [ucast (drop_bit 24 v), ucast (drop_bit 16 v), ucast (drop_bit 8 v), ucast v]"

text \<open>The cursor is the list of the bytes before \<open>end\<close> that are left.\<close>

definition readU32 :: "byte list \<Rightarrow> (u32 \<times> byte list) option" where
  "readU32 cursor =
     (if length cursor < 4 then None
      else Some (push_bit 24 (ucast (cursor ! 0)) OR push_bit 16 (ucast (cursor ! 1)) OR
                 push_bit 8 (ucast (cursor ! 2)) OR ucast (cursor ! 3), drop 4 cursor))"

definition persist_key :: "TelemetryKey \<Rightarrow> byte list \<Rightarrow> byte list" where
  "persist_key key bytes =
     (let len = strnlen (key_nodeId key) kNodeIdCapacity;
          bytes = bytes @ [of_nat len];
          bytes = bytes @ take len (key_nodeId key)
      in writeU32 (key_sequence key) (writeU32 (key_persistentSessionId key) bytes))"

definition recentBytes :: "RecentDeduplicator \<Rightarrow> byte list" where
  "recentBytes recent =
     (let bytes = writeU32 kRecentMagic [];
          bytes = bytes @ [of_nat (dd_size recent)];
          bytes = fold (\<lambda>index. persist_key (oldestAt recent index)) [0..<dd_size recent] bytes
      in writeU32 (crc32 bytes) bytes)"

definition persistRecent :: "'f littlefs_api \<Rightarrow> RecentDeduplicator \<Rightarrow> 'f \<Rightarrow> bool \<times> 'f" where
  "persistRecent P recent f =
     (let bytes = recentBytes recent in
      case silentlyUnlink P kRecentTempPath f of
        (False, f) \<Rightarrow> (False, f)
      | (True, f) \<Rightarrow>
         (case lf_write P kRecentTempPath bytes f of
            (None, f) \<Rightarrow> (False, f)
          | (Some written, f) \<Rightarrow>
             if written \<noteq> length bytes then (False, snd (silentlyUnlink P kRecentTempPath f))
             else lf_rename P kRecentTempPath kRecentPath f))"

text \<open>The loop over the stored keys; it has remembered the keys before the first malformed one.\<close>

fun loadKeys :: "nat \<Rightarrow> byte list \<Rightarrow> RecentDeduplicator \<Rightarrow> bool \<times> RecentDeduplicator" where
  "loadKeys 0 cursor recent = (cursor = [], recent)"
| "loadKeys (Suc count) [] recent = (False, recent)"
| "loadKeys (Suc count) (len # cursor) recent =
     (if len = 0 \<or> kNodeIdCapacity \<le> unat len \<or> length cursor < unat len + 8 then (False, recent)
      else let nodeId = memcpy (replicate kNodeIdCapacity 0) cursor (unat len);
               cursor = drop (unat len) cursor in
           if \<not> nodeIdValid (Some nodeId) then (False, recent)
           else case readU32 cursor of None \<Rightarrow> (False, recent)
                | Some (boot, cursor) \<Rightarrow>
                   (case readU32 cursor of None \<Rightarrow> (False, recent)
                    | Some (seqno, cursor) \<Rightarrow>
                       loadKeys count cursor (snd (remember recent (makeTelemetryKey (Some nodeId) boot seqno)))))"

definition parseRecent :: "byte list \<Rightarrow> RecentDeduplicator \<Rightarrow> bool \<times> RecentDeduplicator" where
  "parseRecent bytes recent =
     (let body = take (length bytes - 4) bytes;
          storedCrc = push_bit 24 (ucast (bytes ! (length bytes - 4))) OR push_bit 16 (ucast (bytes ! (length bytes - 3))) OR
                      push_bit 8 (ucast (bytes ! (length bytes - 2))) OR ucast (bytes ! (length bytes - 1)) in
      if storedCrc \<noteq> crc32 body then (False, recent)
      else case readU32 body of None \<Rightarrow> (False, recent)
           | Some (magic, cursor) \<Rightarrow>
              if magic \<noteq> kRecentMagic then (False, recent)
              else case cursor of [] \<Rightarrow> (False, recent)
                   | count # cursor \<Rightarrow>
                      if kRecentDedupCapacity < unat count then (False, recent)
                      else loadKeys (unat count) cursor (dedup_clear recent))"

definition loadRecent :: "'f littlefs_api \<Rightarrow> RecentDeduplicator \<Rightarrow> 'f \<Rightarrow> bool \<times> RecentDeduplicator" where
  "loadRecent P recent f =
     (let presence = filePresence P kRecentPath f in
      if presence = 0 then (True, recent)
      else if presence < 0 then (False, recent)
      else case lf_open_size P kRecentPath f of None \<Rightarrow> (False, recent)
           | Some sz \<Rightarrow>
              if sz < 9 \<or> 4096 < sz then (False, recent)
              else let bytes = lf_read P kRecentPath sz f in
                   if length bytes \<noteq> sz then (False, recent) else parseRecent bytes recent)"


section \<open>Counters\<close>

definition loadCounters :: "'h queue_platform \<Rightarrow> 'h \<Rightarrow> DurableQueue \<Rightarrow> DurableQueue" where
  "loadCounters P h q = q\<lparr>dq_stats :=
     \<lparr>os_recordsUploaded = qp_getULong64 P ''uploaded'' 0 h,
      os_uploadRetries = qp_getULong64 P ''retries'' 0 h,
      os_recordsDeduplicated = qp_getULong64 P ''dedup'' 0 h,
      os_recordsPermanentlyRejected = qp_getULong64 P ''rejected'' 0 h,
      os_recordsDroppedOldest = qp_getULong64 P ''dropped'' 0 h,
      os_filesystemErrors = qp_getULong64 P ''fs-errors'' 0 h\<rparr>\<rparr>"

definition counters :: "QueueOperationalStats \<Rightarrow> (string \<times> u64) list" where
  "counters s = [(''uploaded'', os_recordsUploaded s), (''retries'', os_uploadRetries s),
     (''dedup'', os_recordsDeduplicated s), (''rejected'', os_recordsPermanentlyRejected s),
     (''dropped'', os_recordsDroppedOldest s), (''fs-errors'', os_filesystemErrors s)]"

text \<open>Every counter is written, also after a failed one.\<close>

definition putCounter :: "'h queue_platform \<Rightarrow> string \<times> u64 \<Rightarrow> bool \<times> 'h \<Rightarrow> bool \<times> 'h" where
  "putCounter P = (\<lambda>(name, value) (okay, h). case qp_putULong64 P name value h of (n, h) \<Rightarrow> (0 < n \<and> okay, h))"

definition persistCounters :: "'h queue_platform \<Rightarrow> DurableQueue \<times> 'h \<Rightarrow> bool \<times> DurableQueue \<times> 'h" where
  "persistCounters P = (\<lambda>(q, h).
     case fold (putCounter P) (counters (dq_stats q)) (True, h) of
       (False, h) \<Rightarrow> (False, q, h)
     | (True, h) \<Rightarrow> (case qp_millis P h of (now, h) \<Rightarrow>
         (True, q\<lparr>dq_mutationsSinceCheckpoint := 0, dq_lastCheckpointMs := now\<rparr>, h)))"

definition checkpointCountersUnlocked :: "'h queue_platform \<Rightarrow> bool \<Rightarrow> DurableQueue \<times> 'h \<Rightarrow> DurableQueue \<times> 'h" where
  "checkpointCountersUnlocked P force = (\<lambda>(q, h).
     case qp_millis P h of (now, h) \<Rightarrow>
     if \<not> force \<and> dq_mutationsSinceCheckpoint q < 16 \<and> now - dq_lastCheckpointMs q < 60000 then (q, h)
     else snd (persistCounters P (q, h)))"

definition addErrors :: "u64 \<Rightarrow> DurableQueue \<Rightarrow> DurableQueue" where
  "addErrors n q = q\<lparr>dq_stats := (dq_stats q)\<lparr>os_filesystemErrors := os_filesystemErrors (dq_stats q) + n\<rparr>\<rparr>"

definition addDropped :: "u64 \<Rightarrow> DurableQueue \<Rightarrow> DurableQueue" where
  "addDropped n q = q\<lparr>dq_stats := (dq_stats q)\<lparr>os_recordsDroppedOldest := os_recordsDroppedOldest (dq_stats q) + n\<rparr>\<rparr>"

definition noteMutation :: "DurableQueue \<Rightarrow> DurableQueue" where
  "noteMutation q = q\<lparr>dq_mutationsSinceCheckpoint := dq_mutationsSinceCheckpoint q + 1\<rparr>"


section \<open>The methods\<close>

text \<open>The end of \<open>begin\<close>, once the core has recovered.\<close>

definition begin_recovered :: "'h queue_platform \<Rightarrow> DurableQueueCore \<Rightarrow> DurableQueue \<times> 'h \<Rightarrow> DurableQueue \<times> 'h" where
  "begin_recovered P core = (\<lambda>(q, h).
     let observedDropped = st_droppedOldest (qc_stats core);
         observedErrors = st_storageErrors (qc_stats core) + st_corruptRecords (qc_stats core);
         q = q\<lparr>dq_core := Some core, dq_observedCoreDropped := observedDropped, dq_observedCoreErrors := observedErrors\<rparr>;
         q = loadCounters P h q;
         q = addErrors (ucast observedErrors) (addDropped (ucast observedDropped) q);
         (recentReady, recent) = loadRecent (qp_fs P) (dq_recent q) h;
         q = q\<lparr>dq_recent := recent\<rparr>;
         (q, h) = (if recentReady then (q, h)
                   else let q = addErrors 1 (q\<lparr>dq_recent := dedup_clear recent\<rparr>) in
                        case silentlyUnlink (qp_fs P) kRecentPath h of
                          (True, h) \<Rightarrow> (q, h) | (False, h) \<Rightarrow> (addErrors 1 q, h));
         (q, h) = (if 0 < observedDropped \<or> 0 < observedErrors \<or> \<not> recentReady
                   then snd (persistCounters P (q, h)) else (q, h))
     in (q\<lparr>dq_healthy := True\<rparr>, h))"

definition DurableQueue_begin :: "'h queue_platform \<Rightarrow> DurableQueue \<times> 'h \<Rightarrow> bool \<times> DurableQueue \<times> 'h" where
  "DurableQueue_begin P = (\<lambda>(q, h).
     case qp_createMutex P h of (created, h) \<Rightarrow>
     let q = q\<lparr>dq_mutex := created\<rparr> in
     if \<not> created then (False, q, h) else
     case qp_prefsBegin P ''gw-queue'' False h of
       (False, h) \<Rightarrow> (False, q, h)
     | (True, h) \<Rightarrow>
     let initializedBefore = qp_getBool P ''fs-ready'' False h in
     case LittleFs_begin P (\<not> initializedBefore) h of
       (False, h) \<Rightarrow> (False, q, h)
     | (True, h) \<Rightarrow>
     case (if initializedBefore then (True, h)
           else case qp_putBool P ''fs-ready'' True h of (n, h) \<Rightarrow> (n = 1, h)) of
       (False, h) \<Rightarrow> (False, q, h)
     | (True, h) \<Rightarrow>
     let core = DurableQueueCore_init (unat (deriveCapacity (qp_totalBytes P h))) in
     case core_recover (littlefs_queue_storage (qp_fs P)) (core, h) of
       (False, core, h) \<Rightarrow> (False, q\<lparr>dq_core := Some core\<rparr>, h)
     | (True, core, h) \<Rightarrow> (True, begin_recovered P core (q, h)))"

text \<open>\<open>if (!lock || !healthy_ || core_ == nullptr)\<close>: the core, when the queue is usable.\<close>

definition usable :: "DurableQueue \<Rightarrow> DurableQueueCore option" where
  "usable q = (if dq_mutex q \<and> dq_healthy q then dq_core q else None)"

definition DurableQueue_enqueue ::
  "'h queue_platform \<Rightarrow> QueueRecord \<Rightarrow> DurableQueue \<times> 'h \<Rightarrow> ((bool \<times> bool) \<times> QueueRecord) \<times> DurableQueue \<times> 'h" where
  "DurableQueue_enqueue P r = (\<lambda>(q, h).
     case usable q of None \<Rightarrow> (((False, False), r), q, h)
     | Some core \<Rightarrow>
        (case core_enqueue (littlefs_queue_storage (qp_fs P)) r (core, h) of ((result, r), core', h) \<Rightarrow>
         let q = q\<lparr>dq_core := Some core'\<rparr>;
             q = addDropped (ucast (st_droppedOldest (qc_stats core') - st_droppedOldest (qc_stats core))) q;
             q = addErrors (ucast (st_storageErrors (qc_stats core') - st_storageErrors (qc_stats core))) q;
             dropped = (st_droppedOldest (qc_stats core') \<noteq> st_droppedOldest (qc_stats core));
             (q, h) = (if dropped then snd (persistCounters P (q, h)) else (q, h))
         in (((result, dropped), r), q, h)))"

definition DurableQueue_peek ::
  "'h queue_platform \<Rightarrow> nat \<Rightarrow> DurableQueue \<times> 'h \<Rightarrow> (bool \<times> QueueRecord list) \<times> DurableQueue \<times> 'h" where
  "DurableQueue_peek P limit = (\<lambda>(q, h).
     case usable q of None \<Rightarrow> ((False, []), q, h)
     | Some core \<Rightarrow>
        (case core_peek (littlefs_queue_storage (qp_fs P)) limit (core, h) of (r, core, h) \<Rightarrow>
           (r, q\<lparr>dq_core := Some core\<rparr>, h)))"

definition DurableQueue_contains ::
  "'h queue_platform \<Rightarrow> TelemetryKey \<Rightarrow> DurableQueue \<times> 'h \<Rightarrow> bool \<times> DurableQueue \<times> 'h" where
  "DurableQueue_contains P key = (\<lambda>(q, h).
     case usable q of None \<Rightarrow> (False, q, h)
     | Some core \<Rightarrow>
        if dedup_contains (dq_recent q) key then (True, q, h)
        else case core_contains (littlefs_queue_storage (qp_fs P)) key (core, h) of (isContained, core', h) \<Rightarrow>
          (isContained, addErrors (ucast (st_storageErrors (qc_stats core') - st_storageErrors (qc_stats core)))
             (q\<lparr>dq_core := Some core'\<rparr>), h))"

text \<open>The body of the loop of \<open>finish\<close> over \<open>success\<close> and \<open>changedRecent\<close>.\<close>

definition finish_action ::
  "'h queue_platform \<Rightarrow> QueueTerminalAction \<Rightarrow> (bool \<times> bool) \<times> DurableQueue \<times> DurableQueueCore \<times> 'h \<Rightarrow>
     (bool \<times> bool) \<times> DurableQueue \<times> DurableQueueCore \<times> 'h" where
  "finish_action P action = (\<lambda>((success, changedRecent), q, core, h).
     case core_remove (littlefs_queue_storage (qp_fs P)) (ta_recordId action) (core, h) of
       (False, core, h) \<Rightarrow> ((False, changedRecent), addErrors 1 q, core, h)
     | (True, core, h) \<Rightarrow>
        (case remember (dq_recent q) (ta_key action) of (new, recent) \<Rightarrow>
         let q = q\<lparr>dq_recent := recent\<rparr>;
             s = dq_stats q;
             q = q\<lparr>dq_stats := (if ta_permanentlyRejected action
                   then s\<lparr>os_recordsPermanentlyRejected := os_recordsPermanentlyRejected s + 1\<rparr>
                   else s\<lparr>os_recordsUploaded := os_recordsUploaded s + 1\<rparr>)\<rparr>
         in ((success, new \<or> changedRecent), noteMutation q, core, h)))"

definition DurableQueue_finish ::
  "'h queue_platform \<Rightarrow> QueueTerminalAction list \<Rightarrow> DurableQueue \<times> 'h \<Rightarrow> bool \<times> DurableQueue \<times> 'h" where
  "DurableQueue_finish P actions = (\<lambda>(q, h).
     case usable q of None \<Rightarrow> (False, q, h)
     | Some core \<Rightarrow>
        (case fold (finish_action P) actions ((True, False), q, core, h) of ((success, changedRecent), q, core, h) \<Rightarrow>
         let q = q\<lparr>dq_core := Some core\<rparr>;
             (persisted, h) = (if changedRecent then persistRecent (qp_fs P) (dq_recent q) h else (True, h));
             q = (if persisted then q else addErrors 1 q);
             (q, h) = checkpointCountersUnlocked P False (q, h)
         in (success \<and> persisted, q, h)))"

definition recordDuplicate :: "DurableQueue \<Rightarrow> DurableQueue" where
  "recordDuplicate q = (if \<not> dq_mutex q then q
     else noteMutation (q\<lparr>dq_stats := (dq_stats q)\<lparr>os_recordsDeduplicated := os_recordsDeduplicated (dq_stats q) + 1\<rparr>\<rparr>))"

definition recordUploadRetry :: "'h queue_platform \<Rightarrow> DurableQueue \<times> 'h \<Rightarrow> DurableQueue \<times> 'h" where
  "recordUploadRetry P = (\<lambda>(q, h). if \<not> dq_mutex q then (q, h)
     else checkpointCountersUnlocked P False
       (noteMutation (q\<lparr>dq_stats := (dq_stats q)\<lparr>os_uploadRetries := os_uploadRetries (dq_stats q) + 1\<rparr>\<rparr>), h))"

definition recordFilesystemError :: "DurableQueue \<Rightarrow> DurableQueue" where
  "recordFilesystemError q = (if \<not> dq_mutex q then q else noteMutation (addErrors 1 q))"

definition checkpointCounters :: "'h queue_platform \<Rightarrow> bool \<Rightarrow> DurableQueue \<times> 'h \<Rightarrow> DurableQueue \<times> 'h" where
  "checkpointCounters P force = (\<lambda>(q, h). if dq_mutex q then checkpointCountersUnlocked P force (q, h) else (q, h))"

definition DurableQueue_size :: "DurableQueue \<Rightarrow> nat" where
  "DurableQueue_size q = (if dq_mutex q then (case dq_core q of None \<Rightarrow> 0 | Some core \<Rightarrow> length (qc_entries core)) else 0)"

definition DurableQueue_capacity :: "DurableQueue \<Rightarrow> nat" where
  "DurableQueue_capacity q = (if dq_mutex q then (case dq_core q of None \<Rightarrow> 0 | Some core \<Rightarrow> qc_capacity core) else 0)"

definition filesystemTotalBytes :: "'h queue_platform \<Rightarrow> DurableQueue \<times> 'h \<Rightarrow> u64" where
  "filesystemTotalBytes P = (\<lambda>(q, h). if dq_mutex q then qp_totalBytes P h else 0)"

definition filesystemUsedBytes :: "'h queue_platform \<Rightarrow> DurableQueue \<times> 'h \<Rightarrow> u64" where
  "filesystemUsedBytes P = (\<lambda>(q, h). if dq_mutex q then qp_usedBytes P h else 0)"

definition operationalStats :: "DurableQueue \<Rightarrow> QueueOperationalStats" where
  "operationalStats q = (if dq_mutex q then dq_stats q else QueueOperationalStats_init)"


section \<open>Capacity\<close>

lemma deriveCapacity_nat:
  "unat (deriveCapacity b) =
     (if unat b \<le> 65536 then 1 else min 4096 (max 1 ((unat b - 65536) div 280 * 4 div 5)))"
proof (cases "unat b \<le> 65536")
  case True
  then show ?thesis by (simp add: deriveCapacity_def kQueueReservedBytes_def word_le_nat_alt)
next
  case False
  let ?c = "(b - 65536) div 280 :: u64"
  have c: "unat ?c = (unat b - 65536) div 280"
    using False by (simp add: unat_div unat_sub word_le_nat_alt)
  have "unat b < 2 ^ 64" using unsigned_less[of b] by simp
  then have c4: "unat (?c * 4) = (unat b - 65536) div 280 * 4"
    using c by (subst unat_mult_lem[THEN iffD1]) auto
  then have c5: "unat (?c * 4 div 5) = (unat b - 65536) div 280 * 4 div 5" by (simp add: unat_div)
  let ?d = "if ?c * 4 div 5 = 0 then 1 else ?c * 4 div 5"
  have d: "unat ?d = max 1 ((unat b - 65536) div 280 * 4 div 5)" 
    using c5 unat_gt_0[of "?c * 4 div 5"] by (auto simp: max_def)
  let ?e = "if 4096 < ?d then 4096 else ?d"
  have e: "unat ?e = min 4096 (max 1 ((unat b - 65536) div 280 * 4 div 5))" using d by (auto simp: word_less_nat_alt min_def)
  have "deriveCapacity b = ucast ?e"
    using False by (simp add: deriveCapacity_def kQueueReservedBytes_def word_le_nat_alt record_size_defs capacity_defs
        kEstimatedLittleFsFileOverhead_def kQueueCapacityHardMax_def Let_def)
  moreover have "unat ?e < 2 ^ 32" unfolding e by simp
  then have "take_bit LENGTH(32) (unat ?e) = unat ?e" by (intro take_bit_nat_eq_self) simp
  ultimately have "unat (deriveCapacity b) = unat ?e" by (simp only: unsigned_ucast_eq)
  with e False show ?thesis by simp
qed

text \<open>The queue bound derived from the size of the partition needs no wrap-around and is always between 1
  and 4096. Unless it is the minimum of 1, the records it admits, each counted at its largest encoding plus the
  filesystem overhead (280 bytes), fill at most four fifths of what lies beyond the 64 KiB reserve. On the
  firmware's partition of \<open>0x120000\<close> bytes it is 3182.\<close>

theorem deriveCapacity_bounds:
  "1 \<le> unat (deriveCapacity b) \<and> unat (deriveCapacity b) \<le> 4096 \<and>
   (deriveCapacity b = 1 \<or> 5 * (unat (deriveCapacity b) * 280) \<le> 4 * (unat b - 65536)) \<and>
   deriveCapacity 0x120000 = 3182"
proof -
  have "deriveCapacity 0x120000 = 3182" by (simp add: word_unat_eq_iff deriveCapacity_nat)
  moreover have "deriveCapacity b = 1 \<longleftrightarrow> unat (deriveCapacity b) = 1" by (simp add: word_unat_eq_iff)
  ultimately show ?thesis by (auto simp: deriveCapacity_nat min_def max_def)
qed


section \<open>The recent-packet file is read back\<close>

text \<open>The keys the queue remembers: built by \<open>makeTelemetryKey\<close> from an accepted packet.\<close>

definition recent_key :: "TelemetryKey \<Rightarrow> bool" where
  "recent_key k \<longleftrightarrow> key_ok k \<and> node_name (cstr (key_nodeId k))"

definition key_image :: "TelemetryKey \<Rightarrow> byte list" where
  "key_image k = of_nat (length (cstr (key_nodeId k))) # cstr (key_nodeId k) @
     be32 (key_persistentSessionId k) @ be32 (key_sequence k)"

lemma writeU32_be32: "writeU32 v bytes = bytes @ be32 v"
  by (simp add: writeU32_def be32_def)

lemma readU32_be32: "readU32 (be32 v @ rest) = Some (v, rest)"
  using join32_be32[of v] by (simp add: readU32_def be32_def join32_def)

lemma recent_key_array:
  assumes "recent_key k"
  shows "strnlen (key_nodeId k) kNodeIdCapacity = length (cstr (key_nodeId k))"
    "take (length (cstr (key_nodeId k))) (key_nodeId k) = cstr (key_nodeId k)"
    "char_array kNodeIdCapacity (cstr (key_nodeId k)) = key_nodeId k"
    "0 < length (cstr (key_nodeId k))" "length (cstr (key_nodeId k)) < kNodeIdCapacity"
proof -
  have ok: "key_ok k" "node_name (cstr (key_nodeId k))" using assms by (simp_all add: recent_key_def)
  show len: "strnlen (key_nodeId k) kNodeIdCapacity = length (cstr (key_nodeId k))"
    by (simp add: strnlen_def key_ok_length[OF ok(1)])
  show "take (length (cstr (key_nodeId k))) (key_nodeId k) = cstr (key_nodeId k)"
    using take_strnlen[of "key_nodeId k" kNodeIdCapacity] len by (simp add: key_ok_length[OF ok(1)])
  show "char_array kNodeIdCapacity (cstr (key_nodeId k)) = key_nodeId k" using ok(1) by (simp add: key_ok_def)
  show "0 < length (cstr (key_nodeId k))" "length (cstr (key_nodeId k)) < kNodeIdCapacity"
    using ok(2) by (simp_all add: node_name_def)
qed

lemma persist_key_image: "recent_key k \<Longrightarrow> persist_key k bytes = bytes @ key_image k"
  by (simp add: persist_key_def writeU32_be32 key_image_def recent_key_array)

lemma persist_keys_image:
  "list_all recent_key ks \<Longrightarrow> fold persist_key ks bytes = bytes @ concat (map key_image ks)"
  by (induction ks arbitrary: bytes) (simp_all add: persist_key_image)

lemma loadKeys_step:
  assumes "recent_key k"
  shows "loadKeys (Suc n) (key_image k @ rest) m = loadKeys n rest (snd (remember m k))"
proof -
  let ?s = "cstr (key_nodeId k)"
  note a = recent_key_array[OF assms]
  have len: "unat (of_nat (length ?s) :: byte) = length ?s" using a(5) by (intro unat_of_nat_less) (simp add: capacity_defs)
  have copy: "memcpy (replicate kNodeIdCapacity 0) (?s @ x) (length ?s) = key_nodeId k" for x
    using a(3) by (simp add: memcpy_def char_array_def)
  have "nodeIdValid (Some (key_nodeId k))"
    using nodeIdValid_char_array[of ?s] a(3) assms by (simp add: recent_key_def)
  moreover have "makeTelemetryKey (Some (key_nodeId k)) (key_persistentSessionId k) (key_sequence k) = k"
    using strncpy_zeros[of "key_nodeId k" kNodeIdCapacity] a(3,5) by (simp add: makeTelemetryKey_def TelemetryKey_init_def)
  moreover have "of_nat (length ?s) \<noteq> (0 :: byte)" using len a(4) by (metis unat_0 less_numeral_extra(3))
  ultimately show ?thesis using a(5) by (simp add: key_image_def len copy readU32_be32 Let_def)
qed

lemma loadKeys_images:
  "list_all recent_key ks \<Longrightarrow> loadKeys (length ks) (concat (map key_image ks)) m = (True, remember_all ks m)"
proof (induction ks arbitrary: m)
  case (Cons k ks)
  then show ?case using loadKeys_step[of k "length ks" "concat (map key_image ks)" m] by (simp add: remember_all_def)
qed (simp add: remember_all_def)

text \<open>The ring of a queue: different keys of accepted packets.\<close>

definition recent_inv :: "RecentDeduplicator \<Rightarrow> bool" where
  "recent_inv m \<longleftrightarrow> dedup_inv m \<and> list_all recent_key (dedup_list m) \<and> distinct (dedup_list m)"

lemma recent_inv_remember:
  assumes "recent_inv m" "recent_key k" shows "recent_inv (snd (remember m k))"
proof -
  have inv: "dedup_inv m" and keys: "list_all recent_key (dedup_list m)" and d: "distinct (dedup_list m)"
    using assms(1) by (simp_all add: recent_inv_def)
  have "k \<notin> set (dedup_list m)" if "\<not> (\<exists>x\<in>set (dedup_list m). telemetryKeyEqual x k)" using that by force
  then have "distinct (recent_push telemetryKeyEqual (dd_capacity m) (dedup_list m) k) \<and>
      list_all recent_key (recent_push telemetryKeyEqual (dd_capacity m) (dedup_list m) k)"
    using keys d assms(2) by (cases "dedup_list m") (auto simp: recent_push_def)
  then show ?thesis using ring.rem_contents[OF inv] ring.rem_inv[OF inv] by (simp add: recent_inv_def)
qed

lemma recent_inv_remember_all: "recent_inv m \<Longrightarrow> list_all recent_key ks \<Longrightarrow> recent_inv (remember_all ks m)"
  by (induction ks arbitrary: m) (simp_all add: remember_all_def recent_inv_remember)

lemma recent_push_distinct:
  "distinct (xs @ ks) \<Longrightarrow> list_all recent_key (xs @ ks) \<Longrightarrow> length (xs @ ks) \<le> cap \<Longrightarrow>
   fold (\<lambda>k xs. recent_push telemetryKeyEqual cap xs k) ks xs = xs @ ks"
proof (induction ks arbitrary: xs)
  case (Cons k ks)
  have "\<not> (\<exists>x\<in>set xs. telemetryKeyEqual x k)"
    using Cons.prems by (auto simp: list_all_iff recent_key_def telemetryKeyEqual_iff)
  then have "recent_push telemetryKeyEqual cap xs k = xs @ [k]" using Cons.prems(3) by (simp add: recent_push_def)
  then show ?case using Cons.IH[of "xs @ [k]"] Cons.prems by simp
qed simp

lemma reload_list:
  assumes "recent_inv m" "dedup_inv m0" "dd_size m \<le> dd_capacity m0"
  shows "dedup_list (remember_all (dedup_list m) (dedup_clear m0)) = dedup_list m"
proof -
  have "dd_capacity (dedup_clear m0) = dd_capacity m0" by (simp add: dedup_clear_def)
  then show ?thesis
    using ring.rem_all_contents[OF ring.clr_inv[OF assms(2)], of "dedup_list m"] ring.clr_contents[OF assms(2)]
      recent_push_distinct[of "[]" "dedup_list m" "dd_capacity m0"] assms
    by (simp add: remember_all_ring recent_inv_def)
qed

definition recent_body :: "RecentDeduplicator \<Rightarrow> byte list" where
  "recent_body m = be32 kRecentMagic @ of_nat (dd_size m) # concat (map key_image (dedup_list m))"

lemma recentBytes_image:
  assumes "recent_inv m" shows "recentBytes m = recent_body m @ be32 (crc32 (recent_body m))"
proof -
  have "fold (\<lambda>index. persist_key (oldestAt m index)) [0..<dd_size m] bytes = fold persist_key (dedup_list m) bytes" for bytes
    by (simp add: dedup_list_def fold_map comp_def)
  then show ?thesis using assms
    by (simp add: recentBytes_def writeU32_be32 persist_keys_image recent_inv_def recent_body_def Let_def)
qed

lemma length_key_images:
  "list_all recent_key ks \<Longrightarrow> length (concat (map key_image ks)) \<le> 33 * length ks"
proof (induction ks)
  case (Cons k ks)
  then have "length (cstr (key_nodeId k)) < 25" using recent_key_array(5)[of k] by (simp add: capacity_defs)
  with Cons show ?case by (simp add: key_image_def)
qed simp

lemma parseRecent_image:
  assumes "recent_inv m"
  shows "parseRecent (recentBytes m) m0 = (True, remember_all (dedup_list m) (dedup_clear m0))"
proof -
  let ?b = "recent_body m" and ?c = "crc32 (recent_body m)"
  have sz: "dd_size m \<le> kRecentDedupCapacity" using assms by (simp add: recent_inv_def dedup_inv_def)
  have u: "unat (of_nat (dd_size m) :: byte) = dd_size m" using sz by (intro unat_of_nat_less) (simp add: capacity_defs)
  have bytes: "recentBytes m = ?b @ be32 ?c" by (rule recentBytes_image[OF assms])
  have "length ?b - 0 = length (recentBytes m) - 4" by (simp add: bytes)
  have crc: "push_bit 24 (ucast (recentBytes m ! (length (recentBytes m) - 4))) OR
      push_bit 16 (ucast (recentBytes m ! (length (recentBytes m) - 3))) OR
      push_bit 8 (ucast (recentBytes m ! (length (recentBytes m) - 2))) OR ucast (recentBytes m ! (length (recentBytes m) - 1)) = ?c"
    using join32_be32[of ?c] by (simp add: bytes nth_append be32_def join32_def)
  have "parseRecent (recentBytes m) m0 = loadKeys (dd_size m) (concat (map key_image (dedup_list m))) (dedup_clear m0)"
    unfolding parseRecent_def crc using sz u by (simp add: bytes) (simp add: recent_body_def readU32_be32 kRecentDedupCapacity_def)
  also have "\<dots> = (True, remember_all (dedup_list m) (dedup_clear m0))"
    using loadKeys_images[of "dedup_list m" "dedup_clear m0"] assms by (simp add: recent_inv_def)
  finally show ?thesis .
qed


text \<open>Recovery touches only temporary files and record files.\<close>

definition unrelated :: "string \<Rightarrow> bool" where
  "unrelated p \<longleftrightarrow> \<not> ends_with ''.tmp'' p \<and> \<not> ends_with ''.rec'' p"

lemma unrelated_recent: "unrelated kRecentPath"
  by (simp add: unrelated_def ends_with_def kRecentPath_def)

lemma unrelated_record: "unrelated p \<Longrightarrow> p \<noteq> fullPath (recordName i)"
  using ends_with_append[of "''.rec''" "kQueueDirectory @ ''/'' @ hex_name 16 i"]
  by (auto simp: unrelated_def fullPath_def recordName_def)

context littlefs
begin

lemma removeFile_other: "lf_remove P p f = (ok, f') \<Longrightarrow> q \<noteq> p \<Longrightarrow> content f' q = content f q"
  using remove_ok[of p f f'] remove_failed[of p f f'] by (cases ok) auto

lemma removeRecord_unrelated:
  "LittleFs_removeRecord P (recordName i) f = (ok, f') \<Longrightarrow> unrelated p \<Longrightarrow> content f' p = content f p"
  using removeFile_other unrelated_record by (auto simp: LittleFs_removeRecord_def)

lemma remove_invalid_unrelated:
  "remove_invalid P paths c f = (x, f') \<Longrightarrow> \<forall>p\<in>set paths. ends_with ''.rec'' p \<Longrightarrow> unrelated p \<Longrightarrow> content f' p = content f p"
proof (induction paths arbitrary: c f)
  case (Cons path paths)
  obtain ok f1 where r: "lf_remove P path f = (ok, f1)" by fastforce
  have "p \<noteq> path" using Cons.prems(2,3) by (auto simp: unrelated_def)
  then have "content f1 p = content f p" using removeFile_other[OF r] by simp
  then show ?case using Cons r by (cases ok) auto
qed simp

lemma scan_invalid_suffix:
  "\<forall>p\<in>set bad. ends_with ''.rec'' p \<Longrightarrow> \<forall>p\<in>set (snd (scan_directory es (ids, bad))). ends_with ''.rec'' p"
proof (induction es arbitrary: ids bad)
  case (Cons e es)
  obtain path isd where e: "e = (path, isd)" by fastforce
  obtain v i where p: "parse_name (base_name path) = (v, i)" by fastforce
  let ?rec = "\<not> isd \<and> ends_with ''.rec'' path"
  have step: "scan_directory (e # es) (ids, bad) = scan_directory es
      (if ?rec \<and> v \<and> i \<noteq> 0 then ids @ [i] else ids, if ?rec \<and> \<not> (v \<and> i \<noteq> 0) then bad @ [path] else bad)"
    by (simp add: e p)
  show ?case unfolding step by (rule Cons.IH) (use Cons.prems in auto)
qed simp

lemma list_unrelated:
  assumes "LittleFs_listRecordIds P f = (x, f')" "unrelated p" shows "content f' p = content f p"
proof (cases "lf_dir P kQueueDirectory f")
  case (Some es)
  obtain ids bad where sc: "scan_directory es ([], []) = (ids, bad)" by fastforce
  obtain y f1 where rm: "remove_invalid P bad 0 f = (y, f1)" by fastforce
  have "content f1 p = content f p" using remove_invalid_unrelated[OF rm _ assms(2)] scan_invalid_suffix[of "[]" es "[]"] sc by simp
  then show ?thesis using assms(1) Some sc rm by (auto simp: LittleFs_listRecordIds_def split: option.splits)
qed (use assms in \<open>simp add: LittleFs_listRecordIds_def\<close>)

lemma cleanup_unrelated:
  assumes "unrelated p" shows "content (LittleFs_cleanupTemporaryFiles P f) p = content f p"
proof -
  have "\<forall>q\<in>set ps. ends_with ''.tmp'' q \<Longrightarrow> content (fold (\<lambda>path f. snd (lf_remove P path f)) ps f) p = content f p" for ps f
  proof (induction ps arbitrary: f)
    case (Cons q ps)
    have "content (snd (lf_remove P q f)) p = content f p"
      using removeFile_other[of q f "fst (lf_remove P q f)" "snd (lf_remove P q f)" p] Cons.prems assms by (auto simp: unrelated_def)
    then show ?case using Cons by simp
  qed simp
  then show ?thesis by (auto simp: LittleFs_cleanupTemporaryFiles_def split: option.split)
qed

lemma readAndDecode_same: "readAndDecode (littlefs_queue_storage P) i f = (x, f') \<Longrightarrow> f' = f"
  by (auto simp: readAndDecode_def littlefs_queue_storage_def LittleFs_readRecord_def Let_def
      split: option.splits prod.splits if_splits)

lemma recover_scan_unrelated:
  assumes "unrelated p"
  shows "recover_scan (littlefs_queue_storage P) ids (q, f) = (q', f') \<Longrightarrow> content f' p = content f p"
proof (induction ids arbitrary: q f)
  case (Cons i ids)
  obtain x f1 where rd: "readAndDecode (littlefs_queue_storage P) i f = (x, f1)" by fastforce
  obtain ok f2 where rm: "LittleFs_removeRecord P (recordName i) f1 = (ok, f2)" by fastforce
  have eq: "f1 = f" "content f2 p = content f p"
    using readAndDecode_same[OF rd] removeRecord_unrelated[OF rm assms] by simp_all
  obtain q1 f3 where "recover_scan (littlefs_queue_storage P) ids (q1, f3) = (q', f')" "f3 = f1 \<or> f3 = f2"
    using Cons.prems rd rm
    by (auto simp: Let_def littlefs_queue_storage_def split: option.splits if_splits bool.splits prod.splits)
  then show ?case using Cons.IH eq by metis
qed simp

lemma recover_trim_unrelated:
  assumes "unrelated p"
  shows "recover_trim (littlefs_queue_storage P) q f = (ok, q', f') \<Longrightarrow> content f' p = content f p"
proof (induction "littlefs_queue_storage P" q f rule: recover_trim.induct)
  case (1 q f)
  obtain r f1 where rm: "LittleFs_removeRecord P (recordName (en_recordId (hd (qc_entries q)))) f = (r, f1)" by fastforce
  have "content f1 p = content f p" by (rule removeRecord_unrelated[OF rm assms])
  then show ?case using "1.prems" "1.hyps"[of r f1] rm
    by (subst (asm) recover_trim.simps)
       (auto simp: littlefs_queue_storage_def split: if_splits bool.splits)
qed

lemma recover_unrelated:
  assumes "core_recover (littlefs_queue_storage P) (q, f) = (ok, q', f')" "unrelated p"
  shows "content f' p = content f p"
proof -
  let ?S = "littlefs_queue_storage P" and ?f0 = "LittleFs_cleanupTemporaryFiles P f"
  obtain x f1 where l: "LittleFs_listRecordIds P ?f0 = (x, f1)" by fastforce
  have c1: "content f1 p = content f p" using list_unrelated[OF l assms(2)] cleanup_unrelated[OF assms(2)] by simp
  show ?thesis
  proof (cases x)
    case None
    then show ?thesis using assms(1) l c1 by (auto simp: core_recover_def littlefs_queue_storage_def Let_def)
  next
    case (Some ic)
    let ?q0 = "corruptRecord (snd ic) (q\<lparr>qc_entries := [], qc_nextRecordId := 1\<rparr>)"
    obtain q2 f2 where sc: "recover_scan ?S (fst ic) (?q0, f1) = (q2, f2)" by fastforce
    obtain b q3 f3 where tr: "recover_trim ?S (q2\<lparr>qc_entries := sort_key en_recordId (qc_entries q2)\<rparr>) f2 = (b, q3, f3)"
      by (metis prod_cases3)
    have "f' = f3" using assms(1) l Some sc tr
      by (cases ic; cases b) (auto simp: core_recover_def littlefs_queue_storage_def Let_def)
    then show ?thesis
      using recover_trim_unrelated[OF assms(2) tr] recover_scan_unrelated[OF assms(2) sc] c1 by simp
  qed
qed

lemma persistRecent_file:
  assumes run: "persistRecent P m f = (True, f')"
  shows "content f' kRecentPath = Some (recentBytes m)" "record_files content f' = record_files content f"
proof -
  let ?b = "recentBytes m"
  obtain f1 where u: "silentlyUnlink P kRecentTempPath f = (True, f1)"
    using run by (cases "silentlyUnlink P kRecentTempPath f") (auto simp: persistRecent_def Let_def split: bool.splits)
  obtain w f2 where w: "lf_write P kRecentTempPath ?b f1 = (w, f2)" by fastforce
  have w': "w = Some (length ?b)" and r: "lf_rename P kRecentTempPath kRecentPath f2 = (True, f')"
    using run u w by (auto simp: persistRecent_def Let_def split: option.splits if_splits)
  have tmp: "content f2 kRecentTempPath = Some ?b" using write_all w w' by blast
  then have f': "content f' = (content f2)(kRecentTempPath := None, kRecentPath \<mapsto> ?b)" using rename_ok[OF r] by simp
  then show "content f' kRecentPath = Some ?b" by simp
  have "content f2 q = content f q" if "q \<noteq> kRecentTempPath" for q
    using write_other[OF w that] silentlyUnlink_other[OF u that] by simp
  moreover have "fullPath (recordName i) \<noteq> kRecentPath" "fullPath (recordName i) \<noteq> kRecentTempPath" for i
    using arg_cong[of "fullPath (recordName i)" _ length]
    by (auto simp: fullPath_def recordName_def kQueueDirectory_def kRecentPath_def kRecentTempPath_def)
  ultimately show "record_files content f' = record_files content f"
    using f' by (auto simp: record_files_def fun_eq_iff)
qed

end

context reliable_littlefs
begin

lemma loadRecent_saved:
  assumes "content f kRecentPath = Some (recentBytes m)" "recent_inv m"
  shows "loadRecent P m0 f = parseRecent (recentBytes m) m0"
proof -
  have "9 \<le> length (recentBytes m)" "length (recentBytes m) \<le> 4096"
    using length_key_images[of "dedup_list m"] assms(2)
    by (simp_all add: recentBytes_image recent_body_def recent_inv_def dedup_inv_def capacity_defs)
  moreover have "filePresence P kRecentPath f = 1"
    using stat_existing[of f kRecentPath] assms(1) by (simp add: filePresence_def)
  ultimately show ?thesis using read_all[OF assms(1)] by (simp add: loadRecent_def)
qed

end

text \<open>The memory of finished packets survives a restart: when \<open>persistRecent\<close> reports success, a queue
  that starts later reads the same keys back in the same order, and writing that file touches no record.\<close>

theorem recent_file_roundtrip:
  assumes "reliable_littlefs P content" and "recent_inv m"
    and "persistRecent P m f = (True, f')" and "dedup_inv m0" "dd_size m \<le> dd_capacity m0"
  shows "fst (loadRecent P m0 f') \<and> dedup_list (snd (loadRecent P m0 f')) = dedup_list m \<and>
         record_files content f' = record_files content f"
proof -
  have l: "littlefs P content" using assms(1) by (simp add: reliable_littlefs_def)
  note saved = littlefs.persistRecent_file[OF l assms(3)]
  have "loadRecent P m0 f' = parseRecent (recentBytes m) m0"
    by (rule reliable_littlefs.loadRecent_saved[OF assms(1) saved(1) assms(2)])
  then show ?thesis using parseRecent_image[OF assms(2)] reload_list[OF assms(2,4,5)] saved(2) by simp
qed

definition example_ring :: RecentDeduplicator where
  "example_ring = snd (remember (RecentDeduplicator_init kRecentDedupCapacity) (packetKey example_telemetry))"

lemma example_ring_list: "dedup_list example_ring = [packetKey example_telemetry]"
  unfolding example_ring_def ring.rem_contents[OF dedup_init_inv]
  by (simp add: recent_push_def)

lemma example_key: "recent_key (packetKey example_telemetry)"
proof -
  have "recent_key (makeTelemetryKey (Some (char_array kNodeIdCapacity [78, 49])) s q)" for s q
    using strncpy_zeros[of "char_array kNodeIdCapacity [78, 49]" kNodeIdCapacity]
    by (simp add: recent_key_def makeTelemetryKey_def TelemetryKey_init_def cstr_simps node_name_def capacity_defs validNodeByte_def
        key_ok_def)
  then show ?thesis by (simp add: packetKey_def example_telemetry_def)
qed

lemma example_ring_inv: "recent_inv example_ring"
  using example_key dedup_init_inv remember_inv by (simp add: recent_inv_def example_ring_list) (simp add: example_ring_def)

theorem recent_file_roundtrip_witness:
  "dedup_list (snd (loadRecent mem_fs_api (RecentDeduplicator_init 64) (snd (persistRecent mem_fs_api example_ring empty_fs))))
     = [packetKey example_telemetry]"
proof -
  have "fst (persistRecent mem_fs_api example_ring empty_fs)"
    by (simp add: persistRecent_def silentlyUnlink_def Let_def mem_fs_api_def mf_step_def mf_put_def mf_delete_def mf_content_def
        empty_fs_def)
  then have p: "persistRecent mem_fs_api example_ring empty_fs = (True, snd (persistRecent mem_fs_api example_ring empty_fs))"
    by (simp add: prod_eq_iff)
  have "dd_size example_ring = length (dedup_list example_ring)" by simp
  then have "dd_size example_ring \<le> dd_capacity (RecentDeduplicator_init 64)"
    unfolding example_ring_list by (simp add: RecentDeduplicator_init_def capacity_defs)
  from recent_file_roundtrip[OF mem_fs.reliable_littlefs_axioms example_ring_inv p dedup_init_inv this] show ?thesis
    by (simp add: example_ring_list)
qed


text \<open>Keys that were not remembered before a batch of at most \<open>capacity\<close> keys are all remembered after it.\<close>

lemma fold_push_batch:
  assumes "\<And>k. eq k k" "set ys \<subseteq> Y" "\<forall>k\<in>set ks. \<not> (\<exists>y\<in>Y. eq y k)" "length zs + length ks \<le> cap"
  shows "\<exists>ys' zs'. fold (\<lambda>k xs. recent_push eq cap xs k) ks (ys @ zs) = ys' @ zs' \<and> set zs \<subseteq> set zs' \<and>
    (\<forall>k\<in>set ks. \<exists>z\<in>set zs'. eq z k)"
  using assms(2-4)
proof (induction ks arbitrary: ys zs)
  case (Cons k ks)
  show ?case
  proof (cases "\<exists>x\<in>set (ys @ zs). eq x k")
    case True
    then have push: "recent_push eq cap (ys @ zs) k = ys @ zs" unfolding recent_push_def by (rule if_P)
    have z: "\<exists>z\<in>set zs. eq z k" using True Cons.prems(1,2) by auto
    obtain ys' zs' where "fold (\<lambda>k xs. recent_push eq cap xs k) ks (ys @ zs) = ys' @ zs'" "set zs \<subseteq> set zs'"
      "\<forall>k\<in>set ks. \<exists>z\<in>set zs'. eq z k"
      using Cons.IH[OF Cons.prems(1), of zs] Cons.prems(2,3) by auto
    then show ?thesis using push z by (intro exI[of _ ys'] exI[of _ zs']) auto
  next
    case False
    define ys1 where "ys1 = (if length (ys @ zs) < cap then ys else tl ys)"
    have push: "recent_push eq cap (ys @ zs) k = ys1 @ zs @ [k]"
      using False Cons.prems(3) unfolding recent_push_def ys1_def by (cases ys) auto
    have "set ys1 \<subseteq> Y" using Cons.prems(1) by (cases ys) (auto simp: ys1_def)
    from Cons.IH[OF this, of "zs @ [k]"] Cons.prems(2,3) obtain ys' zs' where
      "fold (\<lambda>k xs. recent_push eq cap xs k) ks (ys1 @ zs @ [k]) = ys' @ zs'" "set (zs @ [k]) \<subseteq> set zs'"
      "\<forall>k\<in>set ks. \<exists>z\<in>set zs'. eq z k" by auto
    then show ?thesis using push assms(1) by (intro exI[of _ ys'] exI[of _ zs']) auto
  qed
qed auto

lemma batch_remembered:
  assumes "dedup_inv m" "\<forall>k\<in>set ks. \<not> dedup_contains m k" "length ks \<le> dd_capacity m" "k \<in> set ks"
  shows "dedup_contains (remember_all ks m) k"
proof -
  have "\<exists>ys' zs'. dedup_list (remember_all ks m) = ys' @ zs' \<and> set [] \<subseteq> set zs' \<and> (\<forall>k\<in>set ks. \<exists>z\<in>set zs'. telemetryKeyEqual z k)"
    using fold_push_batch[of telemetryKeyEqual "dedup_list m" "set (dedup_list m)" ks "[]" "dd_capacity m"] assms(2,3)
    by (simp add: remember_all_ring ring.rem_all_contents[OF assms(1)] dedup_contains_iff)
  then show ?thesis using assms(4) by (fastforce simp: dedup_contains_iff)
qed


section \<open>The contract of the hardware\<close>

text \<open>
  What the queue relies on beyond the filesystem: mounting without formatting, the preferences, the
  mutex and the clock leave the files alone; a counter that was written is read back.
\<close>

locale queue_hardware = reliable_littlefs "qp_fs P" content
  for P :: "'h queue_platform" and content :: "'h \<Rightarrow> string \<Rightarrow> byte list option" +
  fixes number :: "'h \<Rightarrow> string \<Rightarrow> u64 option"
    and flag :: "'h \<Rightarrow> string \<Rightarrow> bool option"
  assumes createMutex_keeps: "content (snd (qp_createMutex P h)) = content h \<and> flag (snd (qp_createMutex P h)) = flag h"
    and mount_keeps: "content (snd (qp_mount P False h)) = content h"
    and mkdir_keeps: "content (snd (qp_mkdir P d h)) = content h"
    and prefsBegin_keeps: "content (snd (qp_prefsBegin P ns ro h)) = content h"
    and getBool: "qp_prefsBegin P ''gw-queue'' False h = (True, h') \<Longrightarrow>
      qp_getBool P k b0 h' = (case flag h k of None \<Rightarrow> b0 | Some v \<Rightarrow> v)"
    and putBool_keeps: "content (snd (qp_putBool P k b0 h)) = content h"
    and putULong64_keeps: "content (snd (qp_putULong64 P k v h)) = content h"
    and millis_keeps: "content (snd (qp_millis P h)) = content h \<and> number (snd (qp_millis P h)) = number h"
    and getULong64: "qp_getULong64 P k v0 h = (case number h k of None \<Rightarrow> v0 | Some v \<Rightarrow> v)"
    and putULong64_ok: "0 < fst (qp_putULong64 P k v h) \<Longrightarrow> number (snd (qp_putULong64 P k v h)) = (number h)(k \<mapsto> v)"
begin

lemma files_content: "content h' = content h \<Longrightarrow> record_files content h' = record_files content h"
  by (simp add: record_files_def fun_eq_iff)

lemma putCounter_step:
  "putCounter P (k, v) (ok, h) = (0 < fst (qp_putULong64 P k v h) \<and> ok, snd (qp_putULong64 P k v h))"
  by (simp add: putCounter_def case_prod_beta)

lemma putCounters_keeps: "content (snd (fold (putCounter P) cs (ok, h))) = content h"
proof (induction cs arbitrary: ok h)
  case (Cons c cs)
  then show ?case by (cases c) (simp add: putCounter_step putULong64_keeps)
qed simp

lemma putCounters_false: "\<not> fst (fold (putCounter P) cs (False, h))"
proof (induction cs arbitrary: h)
  case (Cons c cs)
  then show ?case by (cases c) (simp add: putCounter_step)
qed simp

lemma putCounters_number:
  "fst (fold (putCounter P) cs (True, h)) \<Longrightarrow> number (snd (fold (putCounter P) cs (True, h))) = number h ++ map_of (rev cs)"
proof (induction cs arbitrary: h)
  case (Cons c cs)
  obtain k v where c: "c = (k, v)" by fastforce
  have "0 < fst (qp_putULong64 P k v h)"
    using Cons.prems putCounters_false[of cs] by (cases "fst (qp_putULong64 P k v h)") (auto simp: c putCounter_step)
  then show ?case using Cons putULong64_ok[of k v h] by (simp add: c putCounter_step) (simp add: fun_upd_def)
qed simp

lemma persistCounters_keeps:
  assumes "persistCounters P (q, h) = (ok, q', h')"
  shows "content h' = content h \<and> dq_stats q' = dq_stats q \<and> dq_core q' = dq_core q \<and> dq_recent q' = dq_recent q \<and>
    dq_mutex q' = dq_mutex q \<and> dq_healthy q' = dq_healthy q"
  using assms putCounters_keeps[of "counters (dq_stats q)" True h] millis_keeps
  by (auto simp: persistCounters_def case_prod_beta split: prod.splits bool.splits) (metis snd_conv)+

lemma checkpoint_keeps:
  assumes "checkpointCountersUnlocked P force (q, h) = (q', h')"
  shows "content h' = content h \<and> dq_stats q' = dq_stats q \<and> dq_core q' = dq_core q \<and> dq_recent q' = dq_recent q \<and>
    dq_mutex q' = dq_mutex q \<and> dq_healthy q' = dq_healthy q"
proof -
  obtain now h1 where m: "qp_millis P h = (now, h1)" by fastforce
  have h1: "content h1 = content h" using millis_keeps[of h] m by simp
  obtain ok q2 h2 where p: "persistCounters P (q, h1) = (ok, q2, h2)" by (metis prod_cases3)
  show ?thesis using assms m h1 p persistCounters_keeps[OF p]
    by (auto simp: checkpointCountersUnlocked_def split: if_splits)
qed

lemma counters_reload:
  assumes "persistCounters P (q, h) = (True, q', h')"
  shows "dq_stats (loadCounters P h' q0) = dq_stats q"
proof -
  obtain h1 where w: "fold (putCounter P) (counters (dq_stats q)) (True, h) = (True, h1)" and "number h' = number h1"
    using assms millis_keeps
    by (auto simp: persistCounters_def split: prod.splits bool.splits) (metis snd_conv)
  then have "number h' = number h ++ map_of (rev (counters (dq_stats q)))"
    using putCounters_number[of "counters (dq_stats q)" h] by simp
  then show ?thesis by (simp add: loadCounters_def getULong64 counters_def)
qed

text \<open>The loop of \<open>finish\<close>: what was removed, \<open>gone\<close>, is remembered.\<close>

lemma finish_loop:
  assumes "fold (finish_action P) acts ((s, c), q, core, h) = ((s', c'), q', core', h')" "core_inv core (record_files content h)"
  shows "\<exists>gone. set gone \<subseteq> set acts \<and> length gone \<le> length acts \<and> (s' \<longrightarrow> gone = acts) \<and>
    core_inv core' (record_files content h') \<and>
    queue_view core' (record_files content h') =
      filter (\<lambda>(j, _). j \<notin> ta_recordId ` set gone) (queue_view core (record_files content h)) \<and>
    dq_recent q' = remember_all (map ta_key gone) (dq_recent q) \<and>
    dq_core q' = dq_core q \<and> dq_mutex q' = dq_mutex q \<and> dq_healthy q' = dq_healthy q \<and>
    (\<not> c' \<longrightarrow> \<not> c \<and> remember_all (map ta_key gone) (dq_recent q) = dq_recent q) \<and> (\<not> s \<longrightarrow> \<not> s')"
  using assms
proof (induction acts arbitrary: s c q core h)
  case (Cons a acts)
  let ?S = "littlefs_queue_storage (qp_fs P)" and ?F = "record_files content"
  obtain ok core1 h1 where rm: "core_remove ?S (ta_recordId a) (core, h) = (ok, core1, h1)" by (metis prod_cases3)
  note out = queue_storage.remove_outcome[OF storage_contract Cons.prems(2) rm]
  show ?case
  proof (cases ok)
    case False
    then have step: "finish_action P a ((s, c), q, core, h) = ((False, c), addErrors 1 q, core1, h1)"
      using rm by (simp add: finish_action_def)
    have view: "queue_view core1 (?F h1) = queue_view core (?F h)" using out False by (simp add: queue_view_def)
    have "fold (finish_action P) acts ((False, c), addErrors 1 q, core1, h1) = ((s', c'), q', core', h')"
      using Cons.prems(1) step by simp
    from Cons.IH[OF this] out show ?thesis using view
      by (auto simp: addErrors_def)
  next
    case True
    obtain new recent where rem: "remember (dq_recent q) (ta_key a) = (new, recent)" by fastforce
    define q1 where "q1 = (let q = q\<lparr>dq_recent := recent\<rparr>; s = dq_stats q in noteMutation (q\<lparr>dq_stats := (if ta_permanentlyRejected a
         then s\<lparr>os_recordsPermanentlyRejected := os_recordsPermanentlyRejected s + 1\<rparr>
         else s\<lparr>os_recordsUploaded := os_recordsUploaded s + 1\<rparr>)\<rparr>))"
    have q1: "dq_recent q1 = recent" "dq_core q1 = dq_core q" "dq_mutex q1 = dq_mutex q" "dq_healthy q1 = dq_healthy q"
      by (simp_all add: q1_def noteMutation_def Let_def)
    have step: "finish_action P a ((s, c), q, core, h) = ((s, new \<or> c), q1, core1, h1)"
      using rm True rem by (simp add: finish_action_def q1_def Let_def)
    have view: "queue_view core1 (?F h1) = filter (\<lambda>(j, _). j \<noteq> ta_recordId a) (queue_view core (?F h))"
      using out True by metis
    have same: "\<not> new \<Longrightarrow> recent = dq_recent q" using rem by (auto simp: remember_def split: if_splits)
    have rest: "fold (finish_action P) acts ((s, new \<or> c), q1, core1, h1) = ((s', c'), q', core', h')"
      using Cons.prems(1) step by simp
    have inv1: "core_inv core1 (?F h1)" using out by blast
    obtain gone where gone: "set gone \<subseteq> set acts" "length gone \<le> length acts" "s' \<longrightarrow> gone = acts"
        "core_inv core' (?F h')"
        "queue_view core' (?F h') = filter (\<lambda>(j, _). j \<notin> ta_recordId ` set gone) (queue_view core1 (?F h1))"
        "dq_recent q' = remember_all (map ta_key gone) recent" "dq_core q' = dq_core q" "dq_mutex q' = dq_mutex q"
        "dq_healthy q' = dq_healthy q" "\<not> c' \<longrightarrow> \<not> (new \<or> c) \<and> remember_all (map ta_key gone) recent = recent" "\<not> s \<longrightarrow> \<not> s'"
      using Cons.IH[OF rest inv1, unfolded q1] by metis
    have "filter (\<lambda>(j, _). j \<notin> ta_recordId ` set gone) (queue_view core1 (?F h1))
        = filter (\<lambda>(j, _). j \<notin> ta_recordId ` set (a # gone)) (queue_view core (?F h))"
      unfolding view filter_filter by (rule filter_cong) auto
    then show ?thesis using gone rem same by (intro exI[of _ "a # gone"]) (auto simp: remember_all_def)
  qed
qed (auto simp: remember_all_def)

lemma finish_outcome:
  assumes use: "usable q = Some core" and inv: "core_inv core (record_files content h)" and ring: "dedup_inv (dq_recent q)"
    and new: "\<forall>a\<in>set acts. \<not> dedup_contains (dq_recent q) (ta_key a)" "length acts \<le> dd_capacity (dq_recent q)"
    and run: "DurableQueue_finish P acts (q, h) = (True, q', h')"
  shows "\<exists>core'. usable q' = Some core' \<and> core_inv core' (record_files content h') \<and>
    queue_view core' (record_files content h') =
      filter (\<lambda>(j, _). j \<notin> ta_recordId ` set acts) (queue_view core (record_files content h)) \<and>
    dq_recent q' = remember_all (map ta_key acts) (dq_recent q) \<and>
    (\<forall>a\<in>set acts. dedup_contains (dq_recent q') (ta_key a)) \<and>
    (acts \<noteq> [] \<longrightarrow> content h' kRecentPath = Some (recentBytes (dq_recent q')))"
proof -
  obtain s1 c1 q1 core1 h1 where l: "fold (finish_action P) acts ((True, False), q, core, h) = ((s1, c1), q1, core1, h1)"
    by (metis prod.collapse)
  define pers where "pers = (if c1 then persistRecent (qp_fs P) (dq_recent q1) h1 else (True, h1))"
  define q2 where "q2 = (if fst pers then q1\<lparr>dq_core := Some core1\<rparr> else addErrors 1 (q1\<lparr>dq_core := Some core1\<rparr>))"
  have res: "s1" "fst pers" "checkpointCountersUnlocked P False (q2, snd pers) = (q', h')"
    using run use l by (auto simp: DurableQueue_finish_def Let_def pers_def q2_def case_prod_beta split: if_splits)
  note cp = checkpoint_keeps[OF res(3)]
  obtain gone where gone: "gone = acts" "core_inv core1 (record_files content h1)"
    "queue_view core1 (record_files content h1) = filter (\<lambda>(j, _). j \<notin> ta_recordId ` set gone) (queue_view core (record_files content h))"
    "dq_recent q1 = remember_all (map ta_key gone) (dq_recent q)" "dq_mutex q1 = dq_mutex q" "dq_healthy q1 = dq_healthy q"
    "\<not> c1 \<longrightarrow> remember_all (map ta_key gone) (dq_recent q) = dq_recent q"
    using finish_loop[OF l inv] res(1) by metis
  have known: "\<forall>a\<in>set acts. dedup_contains (dq_recent q1) (ta_key a)"
    using batch_remembered[OF ring, of "map ta_key acts"] new gone(1,4) by simp
  then have changed: "acts \<noteq> [] \<Longrightarrow> c1" using new(1) gone(1,4,7) by (cases acts) auto
  have p: "record_files content (snd pers) = record_files content h1 \<and> (acts \<noteq> [] \<longrightarrow> content (snd pers) kRecentPath = Some (recentBytes (dq_recent q1)))"
    using persistRecent_file[of "dq_recent q1" h1 "snd pers"] res(2) changed by (cases c1) (auto simp: pers_def prod_eq_iff)
  have q2: "q2 = q1\<lparr>dq_core := Some core1\<rparr>" using res(2) by (simp add: q2_def)
  have "usable q' = Some core1" using cp q2 use gone(5,6) by (auto simp: usable_def split: if_splits)
  then show ?thesis using cp p q2 gone known files_content[of h' "snd pers"] by auto
qed

text \<open>Restart: \<open>begin\<close> on a filesystem that was initialised before.\<close>

lemma silentlyUnlink_recent:
  "record_files content (snd (silentlyUnlink (qp_fs P) kRecentPath h)) = record_files content h"
  using silentlyUnlink_other[OF prod.collapse[symmetric], of _ kRecentPath h] unrelated_record[OF unrelated_recent]
  by (simp add: record_files_def fun_eq_iff) metis

lemma LittleFs_begin_keeps:
  assumes "LittleFs_begin P False h = (ok, h')" shows "content h' = content h"
  using assms mount_keeps[of h] mkdir_keeps
  by (auto simp: LittleFs_begin_def Let_def split: prod.splits bool.splits if_splits) (metis snd_conv)+

lemma begin_recovered_outcome:
  assumes run: "begin_recovered P core (q, h) = (q', h')"
  shows "dq_core q' = Some core \<and> dq_mutex q' = dq_mutex q \<and> dq_healthy q' \<and> record_files content h' = record_files content h \<and>
    (fst (loadRecent (qp_fs P) (dq_recent q) h) \<longrightarrow> dq_recent q' = snd (loadRecent (qp_fs P) (dq_recent q) h))"
proof -
  define keeps where "keeps q1 h1 \<longleftrightarrow> dq_core q1 = Some core \<and> dq_mutex q1 = dq_mutex q \<and> record_files content h1 = record_files content h \<and>
      (fst (loadRecent (qp_fs P) (dq_recent q) h) \<longrightarrow> dq_recent q1 = snd (loadRecent (qp_fs P) (dq_recent q) h))" for q1 :: DurableQueue and h1
  define o1 where "o1 = st_droppedOldest (qc_stats core)"
  define o2 where "o2 = st_storageErrors (qc_stats core) + st_corruptRecords (qc_stats core)"
  define q1 where "q1 = addErrors (ucast o2) (addDropped (ucast o1)
      (loadCounters P h (q\<lparr>dq_core := Some core, dq_observedCoreDropped := o1, dq_observedCoreErrors := o2\<rparr>)))"
  have q1: "dq_core q1 = Some core" "dq_mutex q1 = dq_mutex q" "dq_recent q1 = dq_recent q"
    by (simp_all add: q1_def addErrors_def addDropped_def loadCounters_def)
  obtain ready recent where l: "loadRecent (qp_fs P) (dq_recent q) h = (ready, recent)" by fastforce
  define q2 where "q2 = (if ready then (q1\<lparr>dq_recent := recent\<rparr>, h)
      else let q = addErrors 1 ((q1\<lparr>dq_recent := recent\<rparr>)\<lparr>dq_recent := dedup_clear recent\<rparr>) in
           case silentlyUnlink (qp_fs P) kRecentPath h of (True, h) \<Rightarrow> (q, h) | (False, h) \<Rightarrow> (addErrors 1 q, h))"
  have k2: "keeps (fst q2) (snd q2)"
    using q1 l silentlyUnlink_recent[of h]
    by (auto simp: q2_def keeps_def Let_def addErrors_def split: prod.splits bool.splits)
  define q3 where "q3 = (if 0 < o1 \<or> 0 < o2 \<or> \<not> ready then snd (persistCounters P (fst q2, snd q2)) else q2)"
  have "keeps (fst q3) (snd q3)"
  proof (cases "0 < o1 \<or> 0 < o2 \<or> \<not> ready")
    case True
    obtain ok q4 h4 where p: "persistCounters P (fst q2, snd q2) = (ok, q4, h4)" by (metis prod_cases3)
    have "keeps q4 h4" using persistCounters_keeps[OF p] k2 files_content[of h4 "snd q2"] by (simp add: keeps_def)
    then show ?thesis using True p by (simp add: q3_def)
  qed (use k2 in \<open>simp add: q3_def\<close>)
  moreover have "begin_recovered P core (q, h) = (case q2 of (q, h) \<Rightarrow>
      case (if 0 < o1 \<or> 0 < o2 \<or> \<not> ready then snd (persistCounters P (q, h)) else (q, h)) of
        (q, h) \<Rightarrow> (q\<lparr>dq_healthy := True\<rparr>, h))"
    by (simp only: begin_recovered_def Let_def prod.case o1_def[symmetric] o2_def[symmetric] q1_def[symmetric] q1(3) l q2_def)
  then have "begin_recovered P core (q, h) = ((fst q3)\<lparr>dq_healthy := True\<rparr>, snd q3)"
    by (simp add: q3_def case_prod_beta)
  ultimately show ?thesis using run by (auto simp: keeps_def)
qed

lemma begin_stages:
  assumes ready: "flag h ''fs-ready'' = Some True" and run: "DurableQueue_begin P (DurableQueue_init, h) = (True, q', h')"
  shows "\<exists>b h1 core h2. content h1 = content h \<and>
    core_recover (littlefs_queue_storage (qp_fs P)) (DurableQueueCore_init (unat (deriveCapacity b)), h1) = (True, core, h2) \<and>
    usable q' = Some core \<and> record_files content h' = record_files content h2 \<and>
    (fst (loadRecent (qp_fs P) (RecentDeduplicator_init kRecentDedupCapacity) h2) \<longrightarrow>
       dq_recent q' = snd (loadRecent (qp_fs P) (RecentDeduplicator_init kRecentDedupCapacity) h2))"
proof -
  obtain c ha where a: "qp_createMutex P h = (c, ha)" by fastforce
  obtain pb hb where b: "qp_prefsBegin P ''gw-queue'' False ha = (pb, hb)" by fastforce
  have cp: "c" "pb" using run a b by (auto simp: DurableQueue_begin_def Let_def split: if_splits bool.splits)
  then have old: "qp_getBool P ''fs-ready'' False hb = True"
    using getBool[of ha hb "''fs-ready''" False] b ready createMutex_keeps[of h] a by simp
  obtain m hc where m: "LittleFs_begin P False hb = (m, hc)" by fastforce
  have c0: "content hc = content h"
    using LittleFs_begin_keeps[OF m] prefsBegin_keeps[of "''gw-queue''" False ha] createMutex_keeps[of h] a b by simp
  let ?core = "DurableQueueCore_init (unat (deriveCapacity (qp_totalBytes P hc)))" and ?q = "DurableQueue_init\<lparr>dq_mutex := True\<rparr>"
  obtain ok core h2 where r: "core_recover (littlefs_queue_storage (qp_fs P)) (?core, hc) = (ok, core, h2)" by (metis prod_cases3)
  have "DurableQueue_begin P (DurableQueue_init, h) = (if \<not> m then (False, ?q, hc)
      else if ok then (True, begin_recovered P core (?q, h2)) else (False, ?q\<lparr>dq_core := Some core\<rparr>, h2))"
    using a b cp old m r by (simp add: DurableQueue_begin_def Let_def split: bool.splits)
  then have fin: "m" "ok" "begin_recovered P core (?q, h2) = (q', h')" using run by (auto split: if_splits)
  have "dq_recent ?q = RecentDeduplicator_init kRecentDedupCapacity" by (simp add: DurableQueue_init_def)
  with begin_recovered_outcome[OF fin(3)] r fin(2) c0 show ?thesis
    by (intro exI[of _ "qp_totalBytes P hc"] exI[of _ hc] exI[of _ core] exI[of _ h2]) (simp add: usable_def)
qed

lemma begin_outcome:
  assumes ready: "flag h ''fs-ready'' = Some True" and top: "record_files content h (-1) = None"
    and run: "DurableQueue_begin P (DurableQueue_init, h) = (True, q', h')"
  shows "\<exists>core. usable q' = Some core \<and> core_inv core (record_files content h') \<and>
    (let valid = sorted_list_of_set (valid_ids (record_files content h)) in
     queue_view core (record_files content h') =
       map (\<lambda>i. (i, record_files content h i)) (drop (length valid - qc_capacity core) valid)) \<and>
    (\<forall>m. recent_inv m \<and> content h kRecentPath = Some (recentBytes m) \<longrightarrow> dedup_list (dq_recent q') = dedup_list m)"
proof -
  obtain b h1 core h2 where st: "content h1 = content h"
    "core_recover (littlefs_queue_storage (qp_fs P)) (DurableQueueCore_init (unat (deriveCapacity b)), h1) = (True, core, h2)"
    "usable q' = Some core" "record_files content h' = record_files content h2"
    "fst (loadRecent (qp_fs P) (RecentDeduplicator_init kRecentDedupCapacity) h2) \<longrightarrow>
       dq_recent q' = snd (loadRecent (qp_fs P) (RecentDeduplicator_init kRecentDedupCapacity) h2)"
    using begin_stages[OF ready run] by metis
  have cap: "0 < unat (deriveCapacity b)" by (simp add: deriveCapacity_nat less_max_iff_disj)
  have top1: "record_files content h1 (-1) = None" using top files_content[OF st(1)] by simp
  have "core_inv core (record_files content h2) \<and> qc_capacity core = unat (deriveCapacity b)"
    using store.recover_outcome[OF st(2) _ top1] cap by (simp add: DurableQueueCore_init_def)
  moreover note recover_view[OF st(2) cap top1]
  moreover have "dedup_list (dq_recent q') = dedup_list m" if m: "recent_inv m" "content h kRecentPath = Some (recentBytes m)" for m
  proof -
    have "content h2 kRecentPath = Some (recentBytes m)"
      using recover_unrelated[OF st(2) unrelated_recent] st(1) m(2) by simp
    then have "loadRecent (qp_fs P) (RecentDeduplicator_init kRecentDedupCapacity) h2 =
        parseRecent (recentBytes m) (RecentDeduplicator_init kRecentDedupCapacity)"
      by (rule loadRecent_saved[OF _ m(1)])
    moreover have "dd_size m \<le> dd_capacity (RecentDeduplicator_init kRecentDedupCapacity)"
      using m(1) by (simp add: recent_inv_def dedup_inv_def RecentDeduplicator_init_def Let_def capacity_defs)
    ultimately show ?thesis
      using st(5) parseRecent_image[OF m(1)] reload_list[OF m(1) dedup_init_inv] by simp
  qed
  ultimately show ?thesis using st(3,4) files_content[OF st(1)] by (simp add: Let_def)
qed

end

end
