(* ===== verification/Durable_Queue_Properties.thy ===== *)
theory Durable_Queue_Properties
  imports Durable_Queue
begin

text \<open>
  The properties of the queue service across restarts, for every platform that keeps the contract
  \<open>queue_hardware\<close>, and a platform in memory that keeps it: the filesystem of \<open>Littlefs_Storage\<close> beside
  counters, flags and a clock.
\<close>

section \<open>A platform in memory\<close>

record mem_prefs =
  mp_numbers :: "string \<Rightarrow> u64 option"
  mp_flags :: "string \<Rightarrow> bool option"
  mp_clock :: u32

type_synonym mem_hw = "mem_fs \<times> mem_prefs"

definition on_fs :: "('f \<Rightarrow> 'r \<times> 'f) \<Rightarrow> 'f \<times> 'x \<Rightarrow> 'r \<times> 'f \<times> 'x" where
  "on_fs call = (\<lambda>(f, x). case call f of (r, f) \<Rightarrow> (r, f, x))"

definition beside :: "'f littlefs_api \<Rightarrow> ('f \<times> 'x) littlefs_api" where
  "beside P =
    \<lparr>lf_dir = (\<lambda>d h. lf_dir P d (fst h)), lf_open_size = (\<lambda>p h. lf_open_size P p (fst h)),
     lf_read = (\<lambda>p n h. lf_read P p n (fst h)), lf_write = (\<lambda>p b. on_fs (lf_write P p b)),
     lf_rename = (\<lambda>p q. on_fs (lf_rename P p q)), lf_remove = (\<lambda>p. on_fs (lf_remove P p)),
     vfs_unlink = (\<lambda>m. on_fs (vfs_unlink P m)), vfs_stat = (\<lambda>m h. vfs_stat P m (fst h))\<rparr>"

definition mem_platform :: "mem_hw queue_platform" where
  "mem_platform =
    \<lparr>qp_fs = beside mem_fs_api, qp_createMutex = Pair True, qp_mount = (\<lambda>_. Pair True), qp_mkdir = (\<lambda>_. Pair True),
     qp_totalBytes = (\<lambda>_. 0x120000), qp_usedBytes = (\<lambda>_. 0), qp_prefsBegin = (\<lambda>_ _. Pair True),
     qp_getBool = (\<lambda>k b0 h. case mp_flags (snd h) k of None \<Rightarrow> b0 | Some v \<Rightarrow> v),
     qp_putBool = (\<lambda>k v (f, x). (1, f, x\<lparr>mp_flags := (mp_flags x)(k \<mapsto> v)\<rparr>)),
     qp_getULong64 = (\<lambda>k v0 h. case mp_numbers (snd h) k of None \<Rightarrow> v0 | Some v \<Rightarrow> v),
     qp_putULong64 = (\<lambda>k v (f, x). (8, f, x\<lparr>mp_numbers := (mp_numbers x)(k \<mapsto> v)\<rparr>)),
     qp_millis = (\<lambda>(f, x). (mp_clock x, f, x\<lparr>mp_clock := mp_clock x + 1\<rparr>))\<rparr>"

lemma on_fs_eq: "on_fs call h = (r, h') \<longleftrightarrow> call (fst h) = (r, fst h') \<and> snd h' = snd h"
  by (auto simp: on_fs_def split: prod.splits)

lemma beside_contract: "reliable_littlefs P content \<Longrightarrow> reliable_littlefs (beside P) (\<lambda>h. content (fst h))"
proof -
  assume "reliable_littlefs P content"
  then have P: "littlefs P content" and R: "reliable_littlefs_axioms P content" by (simp_all add: reliable_littlefs_def)
  show ?thesis
    unfolding reliable_littlefs_def littlefs_def reliable_littlefs_axioms_def
    using P[unfolded littlefs_def] R[unfolded reliable_littlefs_axioms_def]
    by (simp add: beside_def on_fs_eq)
qed

interpretation hw: queue_hardware mem_platform "\<lambda>h. mf_content (fst h)" "\<lambda>h. mp_numbers (snd h)" "\<lambda>h. mp_flags (snd h)"
proof -
  have "reliable_littlefs (qp_fs mem_platform) (\<lambda>h. mf_content (fst h))"
    using beside_contract[OF mem_fs.reliable_littlefs_axioms] by (simp add: mem_platform_def)
  then show "queue_hardware mem_platform (\<lambda>h. mf_content (fst h)) (\<lambda>h. mp_numbers (snd h)) (\<lambda>h. mp_flags (snd h))"
    by (rule queue_hardware.intro) (unfold_locales, auto simp: mem_platform_def)
qed


section \<open>Properties\<close>

text \<open>Finished records move to the memory of recent packets. When \<open>finish\<close> reports success for a batch
  whose packets were not remembered yet and which fits the memory (64; batches are at most 50), exactly
  those records have left the queue, in file and index, the others keep their order and files, every
  finished packet is recognised as a duplicate from then on, and the file of recent packets holds them all.\<close>

theorem finish_remembers:
  assumes "queue_hardware P content number flag"
    and "usable q = Some core" and "core_inv core (record_files content h)" and "dedup_inv (dq_recent q)"
    and "\<forall>a\<in>set acts. \<not> dedup_contains (dq_recent q) (ta_key a)" "length acts \<le> dd_capacity (dq_recent q)"
    and "DurableQueue_finish P acts (q, h) = (True, q', h')"
  shows "\<exists>core'. usable q' = Some core' \<and> core_inv core' (record_files content h') \<and>
    queue_view core' (record_files content h') =
      filter (\<lambda>(j, _). j \<notin> ta_recordId ` set acts) (queue_view core (record_files content h)) \<and>
    (\<forall>a\<in>set acts. DurableQueue_contains P (ta_key a) (q', h') = (True, q', h')) \<and>
    (acts \<noteq> [] \<longrightarrow> content h' kRecentPath = Some (recentBytes (dq_recent q')))"
  using queue_hardware.finish_outcome[OF assms] by (auto simp: DurableQueue_contains_def)

definition empty_hw :: mem_hw where
  "empty_hw = (empty_fs, \<lparr>mp_numbers = (\<lambda>_. None), mp_flags = [''fs-ready'' \<mapsto> True], mp_clock = 0\<rparr>)"

definition one_hw :: mem_hw where "one_hw = (one_record, snd empty_hw)"

definition running_queue :: DurableQueue where
  "running_queue = DurableQueue_init\<lparr>dq_core := Some (one_queued 0), dq_mutex := True, dq_healthy := True\<rparr>"

definition upload_example :: QueueTerminalAction where
  "upload_example = \<lparr>ta_recordId = 1, ta_key = packetKey example_telemetry, ta_permanentlyRejected = False\<rparr>"

lemma running_usable: "usable running_queue = Some (one_queued 0)"
  by (simp add: running_queue_def usable_def)

lemma one_hw_files: "record_files (\<lambda>h. mf_content (fst h)) one_hw = record_files mf_content one_record"
  by (simp add: record_files_def one_hw_def fun_eq_iff)

definition saved_fs :: mem_fs where
  "saved_fs = \<lparr>mf_files = [(kRecentPath, recentBytes example_ring)], mf_faults = []\<rparr>"

definition saved_hw :: mem_hw where "saved_hw = (saved_fs, (snd empty_hw)\<lparr>mp_clock := 1\<rparr>)"

lemma upload_example_run:
  "fst (DurableQueue_finish mem_platform [upload_example] (running_queue, one_hw)) \<and>
   snd (snd (DurableQueue_finish mem_platform [upload_example] (running_queue, one_hw))) = saved_hw"
proof -
  have rm: "core_remove (littlefs_queue_storage (beside mem_fs_api)) 1 (one_queued 0, one_hw)
      = (True, (one_queued 0)\<lparr>qc_entries := []\<rparr>, empty_hw)"
    by (simp add: core_remove_def one_queued_def littlefs_queue_storage_def LittleFs_removeRecord_def beside_def on_fs_def mem_fs_api_def
        mf_step_def mf_content_def mf_delete_def one_record_def empty_fs_def one_hw_def empty_hw_def)
  have save: "persistRecent (beside mem_fs_api) example_ring empty_hw = (True, saved_fs, snd empty_hw)"
    by (simp add: persistRecent_def silentlyUnlink_def Let_def beside_def on_fs_def mem_fs_api_def mf_step_def mf_put_def mf_delete_def
        mf_content_def empty_fs_def empty_hw_def saved_fs_def)
  have ring: "remember (dq_recent running_queue) (packetKey example_telemetry) = (True, example_ring)"
    by (simp add: running_queue_def DurableQueue_init_def example_ring_def remember_def dedup_contains_iff)
  define q1 where "q1 = noteMutation (running_queue\<lparr>dq_recent := example_ring,
      dq_stats := (dq_stats running_queue)\<lparr>os_recordsUploaded := os_recordsUploaded (dq_stats running_queue) + 1\<rparr>\<rparr>)"
  have step: "finish_action mem_platform upload_example ((True, False), running_queue, one_queued 0, one_hw)
      = ((True, True), q1, (one_queued 0)\<lparr>qc_entries := []\<rparr>, empty_hw)"
    using rm ring by (simp add: finish_action_def upload_example_def q1_def Let_def mem_platform_def)
  have q1: "dq_recent q1 = example_ring" "dq_mutationsSinceCheckpoint q1 = 1" "dq_lastCheckpointMs q1 = 0"
    by (simp_all add: q1_def noteMutation_def running_queue_def DurableQueue_init_def)
  have chk: "checkpointCountersUnlocked mem_platform False (q1\<lparr>dq_core := Some core\<rparr>, saved_fs, snd empty_hw)
      = (q1\<lparr>dq_core := Some core\<rparr>, saved_hw)" for core
    using q1 by (simp add: checkpointCountersUnlocked_def mem_platform_def saved_hw_def empty_hw_def)
  show ?thesis
    using save q1(1) chk
    by (simp add: DurableQueue_finish_def running_usable step) (simp add: mem_platform_def)
qed

lemmas upload_example_hyps =
  hw.queue_hardware_axioms running_usable one_queued_inv[of 0, folded one_hw_files]

lemma running_ring: "dq_recent running_queue = RecentDeduplicator_init kRecentDedupCapacity"
  by (simp add: running_queue_def DurableQueue_init_def)

theorem finish_remembers_witness:
  "\<exists>q' h'. DurableQueue_finish mem_platform [upload_example] (running_queue, one_hw) = (True, q', h') \<and>
     DurableQueue_contains mem_platform (packetKey example_telemetry) (q', h') = (True, q', h')"
proof -
  obtain q' h' where run: "DurableQueue_finish mem_platform [upload_example] (running_queue, one_hw) = (True, q', h')"
    using upload_example_run by (cases "DurableQueue_finish mem_platform [upload_example] (running_queue, one_hw)") auto
  have "dedup_inv (dq_recent running_queue)" "\<forall>a\<in>set [upload_example]. \<not> dedup_contains (dq_recent running_queue) (ta_key a)"
      "length [upload_example] \<le> dd_capacity (dq_recent running_queue)"
    by (simp_all add: running_ring dedup_init_inv dedup_contains_iff) (simp add: RecentDeduplicator_init_def Let_def capacity_defs)
  from finish_remembers[OF upload_example_hyps this run]
  have "DurableQueue_contains mem_platform (ta_key upload_example) (q', h') = (True, q', h')" by auto
  then show ?thesis using run by (intro exI[of _ q'] exI[of _ h']) (simp add: upload_example_def)
qed

text \<open>A restart of the queue service rebuilds its state from flash. On a filesystem that was initialised
  before, which is then never formatted, a \<open>begin\<close> that succeeds leaves the queue usable with the newest
  valid records within the capacity, in order and with their files untouched, and with the keys of the
  recent-packet file.\<close>

theorem begin_restores:
  assumes "queue_hardware P content number flag" and "flag h ''fs-ready'' = Some True"
    and "record_files content h (-1) = None"
    and "DurableQueue_begin P (DurableQueue_init, h) = (True, q', h')"
  shows "\<exists>core. usable q' = Some core \<and> core_inv core (record_files content h') \<and>
    (let valid = sorted_list_of_set (valid_ids (record_files content h)) in
     queue_view core (record_files content h') =
       map (\<lambda>i. (i, record_files content h i)) (drop (length valid - qc_capacity core) valid)) \<and>
    (\<forall>m. recent_inv m \<and> content h kRecentPath = Some (recentBytes m) \<longrightarrow> dedup_list (dq_recent q') = dedup_list m)"
  by (rule queue_hardware.begin_outcome[OF assms])

text \<open>Starting on a platform whose queue directory holds no record and no temporary file.\<close>

lemma mem_begin:
  assumes "lf_dir mem_fs_api kQueueDirectory f = Some [] \<or> lf_dir mem_fs_api kQueueDirectory f = Some [(''recent.bin'', False)]"
    and "mp_flags x ''fs-ready'' = Some True"
  shows "fst (DurableQueue_begin mem_platform (DurableQueue_init, f, x))"
proof -
  have "core_recover (littlefs_queue_storage (beside mem_fs_api)) (DurableQueueCore_init c, f, x) =
      (True, DurableQueueCore_init c, f, x)" for c
    using assms(1)
    by (auto simp: core_recover_def littlefs_queue_storage_def Let_def LittleFs_listRecordIds_def LittleFs_cleanupTemporaryFiles_def
        beside_def recover_trim.simps corruptRecord_def DurableQueueCore_init_def ends_with_def)
  moreover have "LittleFs_begin mem_platform b (f, x) = (True, f, x)" for b
    by (simp add: LittleFs_begin_def mem_platform_def Let_def filePresence_def split: posix_result.split)
       (simp add: beside_def mem_fs_api_def)
  moreover have "qp_getBool mem_platform ''fs-ready'' False (f, x)" using assms(2) by (simp add: mem_platform_def)
  ultimately show ?thesis
    by (simp add: DurableQueue_begin_def Let_def) (simp add: mem_platform_def)
qed

lemma empty_begin: "fst (DurableQueue_begin mem_platform (DurableQueue_init, empty_hw))"
  unfolding empty_hw_def by (rule mem_begin) (simp_all add: mem_fs_api_def empty_fs_def)

lemma saved_begin: "fst (DurableQueue_begin mem_platform (DurableQueue_init, saved_hw))"
proof -
  have "lf_dir mem_fs_api kQueueDirectory saved_fs = Some [(''recent.bin'', False)]"
    by (simp add: mem_fs_api_def saved_fs_def mf_in_dir_def kQueueDirectory_def kRecentPath_def)
  then show ?thesis unfolding saved_hw_def by (intro mem_begin) (simp_all add: empty_hw_def)
qed

theorem begin_restores_witness:
  "\<exists>q' h' core. DurableQueue_begin mem_platform (DurableQueue_init, empty_hw) = (True, q', h') \<and> usable q' = Some core \<and>
     queue_view core (record_files (\<lambda>h. mf_content (fst h)) h') = []"
proof -
  obtain q' h' where run: "DurableQueue_begin mem_platform (DurableQueue_init, empty_hw) = (True, q', h')"
    using empty_begin by (cases "DurableQueue_begin mem_platform (DurableQueue_init, empty_hw)") auto
  have none: "record_files (\<lambda>h. mf_content (fst h)) empty_hw = (\<lambda>_. None)"
    by (simp add: record_files_def empty_hw_def empty_fs_def mf_content_def fun_eq_iff)
  have "mp_flags (snd empty_hw) ''fs-ready'' = Some True" "record_files (\<lambda>h. mf_content (fst h)) empty_hw (-1) = None"
    by (simp add: empty_hw_def) (simp add: none)
  from begin_restores[OF hw.queue_hardware_axioms this run] obtain core where "usable q' = Some core"
      "queue_view core (record_files (\<lambda>h. mf_content (fst h)) h') = []"
    by (auto simp: none valid_ids_def entry_at_def)
  then show ?thesis using run by blast
qed

text \<open>C14: A packet that was uploaded or rejected is not accepted again after a power cycle. Let the batch fit into
  the ring of recent packets, with no packet of it remembered before and keys of the form the packets have. When
  \<open>finish\<close> has reported success for the batch and the service is started anew, with success, from the flash it
  left (the file system formatted, and no record under the largest number), every packet of the batch is recognised as a
  duplicate. A packet that was in the ring already keeps its old place there, so a batch may push it out; that case is
  not claimed.\<close>

theorem finished_known_after_restart:
  assumes "queue_hardware P content number flag"
    and "usable q = Some core" and "core_inv core (record_files content h)" and "recent_inv (dq_recent q)"
    and "\<forall>a\<in>set acts. \<not> dedup_contains (dq_recent q) (ta_key a) \<and> recent_key (ta_key a)"
    and "length acts \<le> dd_capacity (dq_recent q)"
    and "DurableQueue_finish P acts (q, h) = (True, q', h')"
    and "flag h' ''fs-ready'' = Some True" "record_files content h' (-1) = None"
    and "DurableQueue_begin P (DurableQueue_init, h') = (True, q2, h2)" and "a \<in> set acts"
  shows "DurableQueue_contains P (ta_key a) (q2, h2) = (True, q2, h2)"
proof -
  have "dedup_inv (dq_recent q)" "\<forall>a\<in>set acts. \<not> dedup_contains (dq_recent q) (ta_key a)"
    using assms(4,5) by (simp_all add: recent_inv_def)
  from queue_hardware.finish_outcome[OF assms(1-3) this assms(6,7)]
  have fin: "dq_recent q' = remember_all (map ta_key acts) (dq_recent q)" "dedup_contains (dq_recent q') (ta_key a)"
    "content h' kRecentPath = Some (recentBytes (dq_recent q'))"
    using assms(11) by auto
  have "recent_inv (dq_recent q')"
    unfolding fin(1) using assms(5) by (intro recent_inv_remember_all[OF assms(4)]) (simp add: list_all_iff)
  with queue_hardware.begin_outcome[OF assms(1,8,9,10)] fin(3)
  obtain core2 where "usable q2 = Some core2" "dedup_list (dq_recent q2) = dedup_list (dq_recent q')" by blast
  then show ?thesis using fin(2) by (simp add: DurableQueue_contains_def dedup_contains_iff)
qed

theorem finished_known_after_restart_witness:
  "\<exists>q' h' q2 h2. DurableQueue_finish mem_platform [upload_example] (running_queue, one_hw) = (True, q', h') \<and>
     DurableQueue_begin mem_platform (DurableQueue_init, h') = (True, q2, h2) \<and>
     DurableQueue_contains mem_platform (packetKey example_telemetry) (q2, h2) = (True, q2, h2)"
proof -
  obtain q' where run: "DurableQueue_finish mem_platform [upload_example] (running_queue, one_hw) = (True, q', saved_hw)"
    using upload_example_run by (cases "DurableQueue_finish mem_platform [upload_example] (running_queue, one_hw)") auto
  obtain q2 h2 where boot: "DurableQueue_begin mem_platform (DurableQueue_init, saved_hw) = (True, q2, h2)"
    using saved_begin by (cases "DurableQueue_begin mem_platform (DurableQueue_init, saved_hw)") auto
  have ring: "recent_inv (dq_recent running_queue)"
      "\<forall>a\<in>set [upload_example]. \<not> dedup_contains (dq_recent running_queue) (ta_key a) \<and> recent_key (ta_key a)"
      "length [upload_example] \<le> dd_capacity (dq_recent running_queue)"
    using example_key
    by (simp_all add: recent_inv_def running_ring dedup_init_inv dedup_contains_iff upload_example_def)
       (simp add: RecentDeduplicator_init_def Let_def capacity_defs)
  have fl: "mp_flags (snd saved_hw) ''fs-ready'' = Some True" by (simp add: saved_hw_def empty_hw_def)
  have "fullPath (recordName i) \<noteq> kRecentPath" for i using unrelated_record[OF unrelated_recent] by metis
  then have top: "record_files (\<lambda>h. mf_content (fst h)) saved_hw (-1) = None"
    by (simp add: record_files_def saved_hw_def saved_fs_def mf_content_def)
  have "DurableQueue_contains mem_platform (ta_key upload_example) (q2, h2) = (True, q2, h2)"
    by (rule finished_known_after_restart[OF upload_example_hyps ring run fl top boot]) simp
  then have "DurableQueue_contains mem_platform (packetKey example_telemetry) (q2, h2) = (True, q2, h2)"
    by (simp add: upload_example_def)
  then show ?thesis using run boot by blast
qed

text \<open>Operational counters survive a restart: when \<open>persistCounters\<close> reports success, a later \<open>loadCounters\<close>
  returns every counter with the value it had, and the check pointing changes neither queue nor files.\<close>

theorem counters_survive:
  assumes "queue_hardware P content number flag" and "persistCounters P (q, h) = (True, q', h')"
  shows "dq_stats (loadCounters P h' q0) = dq_stats q \<and> dq_mutationsSinceCheckpoint q' = 0 \<and>
    dq_core q' = dq_core q \<and> dq_recent q' = dq_recent q \<and> content h' = content h"
proof -
  have "dq_mutationsSinceCheckpoint q' = 0"
    using assms(2) by (auto simp: persistCounters_def split: prod.splits bool.splits)
  then show ?thesis
    using queue_hardware.counters_reload[OF assms] queue_hardware.persistCounters_keeps[OF assms] by simp
qed

theorem counters_survive_witness:
  "dq_stats (loadCounters mem_platform (snd (snd (persistCounters mem_platform (running_queue, one_hw)))) DurableQueue_init)
     = dq_stats running_queue"
proof -
  let ?r = "persistCounters mem_platform (running_queue, one_hw)"
  have "fst ?r" by (simp add: persistCounters_def counters_def putCounter_def mem_platform_def one_hw_def)
  then have "?r = (True, fst (snd ?r), snd (snd ?r))" by (simp add: prod_eq_iff)
  from counters_survive[OF hw.queue_hardware_axioms this] show ?thesis by simp
qed

end
