(* ===== verification/Preferences_Store.thy ===== *)
theory Preferences_Store
  imports Gateway_Prelude
begin

text \<open>
  The ESP32 \<open>Preferences\<close> library (key-value pairs in NVS flash) as the firmware uses it. The library
  is not part of the repository, so its calls are a parameter of the model, the record
  \<open>preferences_api\<close>; what the firmware relies on is the locale \<open>preferences\<close>: a value that was
  written is read back, a write either takes effect completely and reports its length or leaves the
  old value, and opening or closing a namespace changes no value. Two of its laws are assumptions on healthy flash:
  a namespace that holds a value can always be opened for reading (\<open>begin_existing\<close>; where opening fails for another
  reason, the command store starts fresh, and nothing is claimed then), and a write that reports a failure has not taken
  effect (\<open>putBytes_failed\<close>). Opening for writing and every write may fail at any time. The locale is shown to be
  satisfiable by a map with a fault schedule.
\<close>

record 'n preferences_api =
  pf_begin :: "string \<Rightarrow> bool \<Rightarrow> 'n \<Rightarrow> bool \<times> 'n"
  pf_end :: "'n \<Rightarrow> 'n"
  pf_getBytesLength :: "string \<Rightarrow> 'n \<Rightarrow> nat"
  pf_getBytes :: "string \<Rightarrow> nat \<Rightarrow> 'n \<Rightarrow> byte list"
  pf_putBytes :: "string \<Rightarrow> byte list \<Rightarrow> 'n \<Rightarrow> nat \<times> 'n"
  pf_getUInt :: "string \<Rightarrow> u32 \<Rightarrow> 'n \<Rightarrow> u32"
  pf_putUInt :: "string \<Rightarrow> u32 \<Rightarrow> 'n \<Rightarrow> nat \<times> 'n"

locale preferences =
  fixes P :: "'n preferences_api"
    and stored :: "'n \<Rightarrow> string \<Rightarrow> string \<Rightarrow> byte list option"
    and number :: "'n \<Rightarrow> string \<Rightarrow> string \<Rightarrow> u32 option"
    and opened :: "'n \<Rightarrow> string"
  assumes begin_keeps: "pf_begin P ns ro n = (ok, n') \<Longrightarrow> stored n' = stored n \<and> number n' = number n"
    and begin_opens: "pf_begin P ns ro n = (True, n') \<Longrightarrow> opened n' = ns"
    and begin_existing: "stored n ns key \<noteq> None \<Longrightarrow> fst (pf_begin P ns True n)"
    and end_keeps: "stored (pf_end P n) = stored n \<and> number (pf_end P n) = number n"
    and getBytesLength: "pf_getBytesLength P key n = (case stored n (opened n) key of None \<Rightarrow> 0 | Some b \<Rightarrow> length b)"
    and getBytes: "pf_getBytes P key len n =
      (case stored n (opened n) key of None \<Rightarrow> [] | Some b \<Rightarrow> if length b \<le> len then b else [])"
    and putBytes_ok: "pf_putBytes P key b n = (length b, n') \<Longrightarrow> b \<noteq> [] \<Longrightarrow>
      stored n' = (stored n)(opened n := (stored n (opened n))(key \<mapsto> b)) \<and>
      number n' = number n \<and> opened n' = opened n"
    and putBytes_failed: "pf_putBytes P key b n = (w, n') \<Longrightarrow> w \<noteq> length b \<Longrightarrow>
      stored n' = stored n \<and> number n' = number n \<and> opened n' = opened n"
    and getUInt: "pf_getUInt P key d n = (case number n (opened n) key of None \<Rightarrow> d | Some v \<Rightarrow> v)"
    and putUInt_ok: "pf_putUInt P key v n = (4, n') \<Longrightarrow>
      number n' = (number n)(opened n := (number n (opened n))(key \<mapsto> v)) \<and>
      stored n' = stored n \<and> opened n' = opened n"
    and putUInt_failed: "pf_putUInt P key v n = (w, n') \<Longrightarrow> w \<noteq> 4 \<Longrightarrow>
      stored n' = stored n \<and> number n' = number n \<and> opened n' = opened n"


section \<open>A map with a fault schedule\<close>

text \<open>Every write consumes one entry of the schedule; \<open>False\<close> makes it fail.\<close>

record nvs_map =
  nv_blobs :: "string \<Rightarrow> string \<Rightarrow> byte list option"
  nv_numbers :: "string \<Rightarrow> string \<Rightarrow> u32 option"
  nv_opened :: string
  nv_faults :: "bool list"

definition nvs_write_ok :: "nvs_map \<Rightarrow> bool" where
  "nvs_write_ok n = (case nv_faults n of [] \<Rightarrow> True | ok # _ \<Rightarrow> ok)"

definition nvs_map_api :: "nvs_map preferences_api" where
  "nvs_map_api =
    \<lparr>pf_begin = (\<lambda>ns ro n. (True, n\<lparr>nv_opened := ns\<rparr>)),
     pf_end = (\<lambda>n. n),
     pf_getBytesLength = (\<lambda>key n. case nv_blobs n (nv_opened n) key of None \<Rightarrow> 0 | Some b \<Rightarrow> length b),
     pf_getBytes = (\<lambda>key len n. case nv_blobs n (nv_opened n) key of None \<Rightarrow> []
                      | Some b \<Rightarrow> if length b \<le> len then b else []),
     pf_putBytes = (\<lambda>key b n. let n' = n\<lparr>nv_faults := tl (nv_faults n)\<rparr> in
        if nvs_write_ok n \<and> b \<noteq> []
        then (length b, n'\<lparr>nv_blobs := (nv_blobs n)(nv_opened n := (nv_blobs n (nv_opened n))(key \<mapsto> b))\<rparr>)
        else (0, n')),
     pf_getUInt = (\<lambda>key d n. case nv_numbers n (nv_opened n) key of None \<Rightarrow> d | Some v \<Rightarrow> v),
     pf_putUInt = (\<lambda>key v n. let n' = n\<lparr>nv_faults := tl (nv_faults n)\<rparr> in
        if nvs_write_ok n
        then (4, n'\<lparr>nv_numbers := (nv_numbers n)(nv_opened n := (nv_numbers n (nv_opened n))(key \<mapsto> v))\<rparr>)
        else (0, n'))\<rparr>"

definition nvs_empty :: "bool list \<Rightarrow> nvs_map" where
  "nvs_empty faults = \<lparr>nv_blobs = (\<lambda>_ _. None), nv_numbers = (\<lambda>_ _. None), nv_opened = '''', nv_faults = faults\<rparr>"

interpretation nvs: preferences nvs_map_api nv_blobs nv_numbers nv_opened
  by unfold_locales
     (auto simp: nvs_map_api_def Let_def split: if_splits option.splits)

end
