(* ===== verification/Command_Store.thy ===== *)
theory Command_Store
  imports Protocol_Commands Preferences_Store
begin

text \<open>
  The store of the one outstanding node command (\<open>lib/commands/command_store.cpp\<close>): its record as
  the bytes written to flash, with the FNV-1a checksum over them, and every operation of
  \<open>CommandStore\<close>. The storage behind it is the interface \<open>CommandBackend\<close>, stated as the locale
  \<open>command_backend\<close> and implemented by \<open>NvsCommandBackend\<close> on the \<open>Preferences\<close> library.
  Operations run under the store's mutex, so concurrent callers interleave as sequences of whole
  operations.
\<close>

section \<open>The persisted record\<close>

definition kCommandStoreMagic :: u32 where "kCommandStoreMagic = 0x47574332"
definition kCommandStoreSchema :: u16 where "kCommandStoreSchema = 1"

datatype CommandState = CommandState_kNone | CommandState_kPending | CommandState_kSent
  | CommandState_kConfirmed | CommandState_kFailed | CommandState_kCancelled

fun CommandState_u8 :: "CommandState \<Rightarrow> u8" where
  "CommandState_u8 CommandState_kNone = 0"
| "CommandState_u8 CommandState_kPending = 1"
| "CommandState_u8 CommandState_kSent = 2"
| "CommandState_u8 CommandState_kConfirmed = 3"
| "CommandState_u8 CommandState_kFailed = 4"
| "CommandState_u8 CommandState_kCancelled = 5"

text \<open>
  Enumerations are stored as their bytes, since a record read from flash may hold any byte there.
  The padding of the struct is explicit (\<open>g_pad7\<close> is the byte at offset 7, and so on), because the
  checksum covers it.
\<close>

record GatewayCommand =
  g_commandId :: u32
  g_type :: u8
  g_state :: u8
  g_pollIntervalMinutes :: u8
  g_pad7 :: u8
  g_scheduledMaintenanceUnix :: u32
  g_pad12 :: u32
  g_createdUnixMs :: u64
  g_lastSentUnixMs :: u64
  g_sendCount :: u32
  g_result :: u8
  g_effectivePollIntervalMinutes :: u8
  g_pad38 :: u16
  g_effectiveMaintenanceUnix :: u32
  g_pad44 :: u32

text \<open>\<open>GatewayCommand{}\<close> in memory \<open>raw\<close>: every member gets its initialiser, the padding keeps what
  was there.\<close>

definition GatewayCommand_init :: "GatewayCommand \<Rightarrow> GatewayCommand" where
  "GatewayCommand_init raw = raw
     \<lparr>g_commandId := 0, g_type := CommandType_u8 CommandType_kNone,
      g_state := CommandState_u8 CommandState_kNone, g_pollIntervalMinutes := 0,
      g_scheduledMaintenanceUnix := 0, g_createdUnixMs := -1, g_lastSentUnixMs := -1, g_sendCount := 0,
      g_result := CommandResultCode_u8 CommandResultCode_kNone, g_effectivePollIntervalMinutes := 0,
      g_effectiveMaintenanceUnix := 0\<rparr>"

definition GatewayCommand_zero :: GatewayCommand where
  "GatewayCommand_zero = \<lparr>g_commandId = 0, g_type = 0, g_state = 0, g_pollIntervalMinutes = 0, g_pad7 = 0,
     g_scheduledMaintenanceUnix = 0, g_pad12 = 0, g_createdUnixMs = 0, g_lastSentUnixMs = 0,
     g_sendCount = 0, g_result = 0, g_effectivePollIntervalMinutes = 0, g_pad38 = 0,
     g_effectiveMaintenanceUnix = 0, g_pad44 = 0\<rparr>"

record CommandStoreRecord =
  s_magic :: u32
  s_schemaVersion :: u16
  s_structureSize :: u16
  s_nextCommandId :: u32
  s_pad12 :: u32
  s_command :: GatewayCommand
  s_checksum :: u32
  s_pad68 :: u32

definition CommandStoreRecord_init :: CommandStoreRecord where
  "CommandStoreRecord_init = \<lparr>s_magic = kCommandStoreMagic, s_schemaVersion = kCommandStoreSchema,
     s_structureSize = 0, s_nextCommandId = 1, s_pad12 = 0,
     s_command = GatewayCommand_init GatewayCommand_zero, s_checksum = 0, s_pad68 = 0\<rparr>"

definition sizeof_CommandStoreRecord :: nat where "sizeof_CommandStoreRecord = 72"
definition offsetof_checksum :: nat where "offsetof_checksum = 64"

definition command_image :: "GatewayCommand \<Rightarrow> byte list" where
  "command_image c =
     le32 (g_commandId c) @ [g_type c, g_state c, g_pollIntervalMinutes c, g_pad7 c] @
     le32 (g_scheduledMaintenanceUnix c) @ le32 (g_pad12 c) @ le64 (g_createdUnixMs c) @
     le64 (g_lastSentUnixMs c) @ le32 (g_sendCount c) @
     [g_result c, g_effectivePollIntervalMinutes c] @ le16 (g_pad38 c) @
     le32 (g_effectiveMaintenanceUnix c) @ le32 (g_pad44 c)"

definition record_image :: "CommandStoreRecord \<Rightarrow> byte list" where
  "record_image r =
     le32 (s_magic r) @ le16 (s_schemaVersion r) @ le16 (s_structureSize r) @
     le32 (s_nextCommandId r) @ le32 (s_pad12 r) @ command_image (s_command r) @
     le32 (s_checksum r) @ le32 (s_pad68 r)"

definition image_command :: "byte list \<Rightarrow> nat \<Rightarrow> GatewayCommand" where
  "image_command bs i = \<lparr>g_commandId = le32_at bs i, g_type = bs ! (i + 4), g_state = bs ! (i + 5),
     g_pollIntervalMinutes = bs ! (i + 6), g_pad7 = bs ! (i + 7),
     g_scheduledMaintenanceUnix = le32_at bs (i + 8), g_pad12 = le32_at bs (i + 12),
     g_createdUnixMs = le64_at bs (i + 16), g_lastSentUnixMs = le64_at bs (i + 24),
     g_sendCount = le32_at bs (i + 32), g_result = bs ! (i + 36),
     g_effectivePollIntervalMinutes = bs ! (i + 37), g_pad38 = le16_at bs (i + 38),
     g_effectiveMaintenanceUnix = le32_at bs (i + 40), g_pad44 = le32_at bs (i + 44)\<rparr>"

definition image_record :: "byte list \<Rightarrow> CommandStoreRecord" where
  "image_record bs = \<lparr>s_magic = le32_at bs 0, s_schemaVersion = le16_at bs 4,
     s_structureSize = le16_at bs 6, s_nextCommandId = le32_at bs 8, s_pad12 = le32_at bs 12,
     s_command = image_command bs 16, s_checksum = le32_at bs 64, s_pad68 = le32_at bs 68\<rparr>"

definition fnv_step :: "byte \<Rightarrow> u32 \<Rightarrow> u32" where
  "fnv_step b hash = (hash XOR ucast b) * 16777619"

definition fnv1a :: "byte list \<Rightarrow> u32" where
  "fnv1a bs = fold fnv_step bs 2166136261"

definition store_checksum :: "CommandStoreRecord \<Rightarrow> u32" where
  "store_checksum r = fnv1a (take offsetof_checksum (record_image r))"

definition store_initialize :: CommandStoreRecord where
  "store_initialize =
     (let r = \<lparr>s_magic = kCommandStoreMagic, s_schemaVersion = kCommandStoreSchema,
               s_structureSize = of_nat sizeof_CommandStoreRecord, s_nextCommandId = 1, s_pad12 = 0,
               s_command = GatewayCommand_zero\<lparr>g_createdUnixMs := -1, g_lastSentUnixMs := -1,
                 g_result := CommandResultCode_u8 CommandResultCode_kNone\<rparr>,
               s_checksum = 0, s_pad68 = 0\<rparr>
      in r\<lparr>s_checksum := store_checksum r\<rparr>)"

definition store_valid :: "CommandStoreRecord \<Rightarrow> bool" where
  "store_valid r \<longleftrightarrow>
     s_magic r = kCommandStoreMagic \<and> s_schemaVersion r = kCommandStoreSchema \<and>
     s_structureSize r = of_nat sizeof_CommandStoreRecord \<and> s_nextCommandId r \<noteq> 0 \<and>
     g_type (s_command r) \<le> CommandType_u8 CommandType_kSetPollIntervalMinutes \<and>
     g_state (s_command r) \<le> CommandState_u8 CommandState_kCancelled \<and>
     (g_result (s_command r) = CommandResultCode_u8 CommandResultCode_kNone \<or>
      g_result (s_command r) \<le> CommandResultCode_u8 CommandResultCode_kInternalError) \<and>
     s_checksum r = store_checksum r"


section \<open>Operations\<close>

text \<open>The virtual calls of \<open>CommandBackend\<close>; \<open>load\<close> returns \<open>None\<close> when it returns false.\<close>

record 'st command_backend_ops =
  cb_load :: "'st \<Rightarrow> CommandStoreRecord option \<times> 'st"
  cb_save :: "CommandStoreRecord \<Rightarrow> 'st \<Rightarrow> bool \<times> 'st"

record CommandStore =
  cst_backend :: bool
  cst_record :: CommandStoreRecord
  cst_lastError :: string
  cst_mutex :: bool

definition CommandStore_init :: CommandStore where
  "CommandStore_init = \<lparr>cst_backend = False, cst_record = CommandStoreRecord_init,
     cst_lastError = ''not initialized'', cst_mutex = False\<rparr>"

text \<open>\<open>created\<close> is whether \<open>xSemaphoreCreateMutex\<close> returns a mutex; the second Boolean of the result
  is \<open>initializedFresh\<close>, given its old value.\<close>

definition store_begin ::
  "'st command_backend_ops \<Rightarrow> bool \<Rightarrow> bool \<Rightarrow> CommandStore \<times> 'st \<Rightarrow> (bool \<times> bool) \<times> CommandStore \<times> 'st" where
  "store_begin B created fresh = (\<lambda>(cs, st).
     let cs = (if \<not> cst_mutex cs then cs\<lparr>cst_mutex := created\<rparr> else cs) in
     if \<not> cst_mutex cs
     then ((False, fresh), cs\<lparr>cst_lastError := ''command state mutex initialization failed''\<rparr>, st)
     else let cs = cs\<lparr>cst_backend := True\<rparr> in
       case cb_load B st of (loaded, st) \<Rightarrow>
       (case (case loaded of Some r \<Rightarrow> if store_valid r then Some r else None | None \<Rightarrow> None) of
          Some r \<Rightarrow> ((True, False), cs\<lparr>cst_record := r, cst_lastError := ''command state loaded''\<rparr>, st)
        | None \<Rightarrow>
           let cs = cs\<lparr>cst_record := store_initialize\<rparr> in
           case cb_save B (cst_record cs) st of
             (False, st) \<Rightarrow> ((False, True), cs\<lparr>cst_lastError := ''command state initialization write failed''\<rparr>, st)
           | (True, st) \<Rightarrow> ((True, True), cs\<lparr>cst_lastError := ''command state initialized''\<rparr>, st)))"

definition store_commit ::
  "'st command_backend_ops \<Rightarrow> CommandStoreRecord \<Rightarrow> CommandStore \<times> 'st \<Rightarrow> bool \<times> CommandStore \<times> 'st" where
  "store_commit B candidate = (\<lambda>(cs, st).
     if \<not> cst_backend cs then (False, cs, st)
     else let candidate = candidate\<lparr>s_checksum := store_checksum candidate\<rparr> in
       case cb_save B candidate st of
         (False, st) \<Rightarrow> (False, cs\<lparr>cst_lastError := ''command state persistence failed''\<rparr>, st)
       | (True, st) \<Rightarrow> (True, cs\<lparr>cst_record := candidate\<rparr>, st))"

definition in_flight :: "u8 \<Rightarrow> bool" where
  "in_flight state \<longleftrightarrow> state = CommandState_u8 CommandState_kPending \<or> state = CommandState_u8 CommandState_kSent"

definition store_create ::
  "'st command_backend_ops \<Rightarrow> GatewayCommand \<Rightarrow> CommandType \<Rightarrow> u8 \<Rightarrow> u32 \<Rightarrow> u64 \<Rightarrow> CommandStore \<times> 'st \<Rightarrow>
     (bool \<times> u32) \<times> CommandStore \<times> 'st" where
  "store_create B raw type pollIntervalMinutes scheduledMaintenanceUnix createdUnixMs = (\<lambda>(cs, st).
     if \<not> cst_mutex cs then ((False, 0), cs, st)
     else if type = CommandType_kNone \<or> s_nextCommandId (cst_record cs) = UINT32_MAX \<or>
             in_flight (g_state (s_command (cst_record cs)))
     then ((False, 0), cs\<lparr>cst_lastError := ''a command is already pending or arguments are invalid''\<rparr>, st)
     else if (type = CommandType_kSetPollIntervalMinutes \<and> pollIntervalMinutes = 0) \<or>
             (type = CommandType_kScheduleMaintenanceAt \<and> scheduledMaintenanceUnix = 0)
     then ((False, 0), cs\<lparr>cst_lastError := ''command payload is invalid''\<rparr>, st)
     else let candidate = cst_record cs;
              command = (GatewayCommand_init raw)
                \<lparr>g_commandId := s_nextCommandId candidate, g_type := CommandType_u8 type,
                 g_state := CommandState_u8 CommandState_kPending,
                 g_pollIntervalMinutes := pollIntervalMinutes,
                 g_scheduledMaintenanceUnix := scheduledMaintenanceUnix,
                 g_createdUnixMs := createdUnixMs, g_lastSentUnixMs := -1,
                 g_result := CommandResultCode_u8 CommandResultCode_kNone\<rparr>;
              candidate = candidate\<lparr>s_nextCommandId := s_nextCommandId candidate + 1, s_command := command\<rparr>
          in case store_commit B candidate (cs, st) of
               (False, cs, st) \<Rightarrow> ((False, 0), cs, st)
             | (True, cs, st) \<Rightarrow>
                 ((True, g_commandId command), cs\<lparr>cst_lastError := ''command created and allocator persisted''\<rparr>, st))"

definition store_markSent ::
  "'st command_backend_ops \<Rightarrow> u32 \<Rightarrow> u64 \<Rightarrow> CommandStore \<times> 'st \<Rightarrow> bool \<times> CommandStore \<times> 'st" where
  "store_markSent B commandId sentUnixMs = (\<lambda>(cs, st).
     if \<not> cst_mutex cs then (False, cs, st)
     else let cmd = s_command (cst_record cs) in
       if commandId = 0 \<or> commandId \<noteq> g_commandId cmd \<or> \<not> in_flight (g_state cmd) then (False, cs, st)
       else let candidate = (cst_record cs)\<lparr>s_command := cmd\<lparr>g_state := CommandState_u8 CommandState_kSent,
                  g_lastSentUnixMs := sentUnixMs, g_sendCount := g_sendCount cmd + 1\<rparr>\<rparr>
         in case store_commit B candidate (cs, st) of
              (False, cs, st) \<Rightarrow> (False, cs, st)
            | (True, cs, st) \<Rightarrow> (True, cs\<lparr>cst_lastError := ''command send recorded''\<rparr>, st))"

text \<open>The second Boolean of the result is \<open>duplicate\<close>, given its old value.\<close>

definition store_confirm ::
  "'st command_backend_ops \<Rightarrow> CommandResultPacket \<Rightarrow> bool \<Rightarrow> CommandStore \<times> 'st \<Rightarrow> (bool \<times> bool) \<times> CommandStore \<times> 'st" where
  "store_confirm B result dup = (\<lambda>(cs, st).
     if \<not> cst_mutex cs then ((False, dup), cs, st)
     else let cmd = s_command (cst_record cs) in
       if c_commandId result = 0 \<or> c_commandId result \<noteq> g_commandId cmd \<or>
          CommandType_u8 (c_commandType result) \<noteq> g_type cmd
       then ((False, False), cs\<lparr>cst_lastError := ''command result does not match current command''\<rparr>, st)
       else if g_state cmd = CommandState_u8 CommandState_kConfirmed then ((True, True), cs, st)
       else if \<not> in_flight (g_state cmd) then ((False, False), cs, st)
       else let candidate = (cst_record cs)\<lparr>s_command := cmd
                  \<lparr>g_state := CommandState_u8 CommandState_kConfirmed,
                   g_result := CommandResultCode_u8 (c_resultCode result),
                   g_effectivePollIntervalMinutes := c_effectivePollIntervalMinutes result,
                   g_effectiveMaintenanceUnix := c_scheduledMaintenanceUnix result\<rparr>\<rparr>
         in case store_commit B candidate (cs, st) of
              (False, cs, st) \<Rightarrow> ((False, False), cs, st)
            | (True, cs, st) \<Rightarrow> ((True, False), cs\<lparr>cst_lastError := ''matching command result confirmed''\<rparr>, st))"

definition store_cancel ::
  "'st command_backend_ops \<Rightarrow> u32 \<Rightarrow> CommandStore \<times> 'st \<Rightarrow> bool \<times> CommandStore \<times> 'st" where
  "store_cancel B commandId = (\<lambda>(cs, st).
     if \<not> cst_mutex cs then (False, cs, st)
     else let cmd = s_command (cst_record cs) in
       if commandId = 0 \<or> commandId \<noteq> g_commandId cmd \<or> \<not> in_flight (g_state cmd) then (False, cs, st)
       else case store_commit B ((cst_record cs)\<lparr>s_command :=
                  cmd\<lparr>g_state := CommandState_u8 CommandState_kCancelled\<rparr>\<rparr>) (cs, st) of
              (False, cs, st) \<Rightarrow> (False, cs, st)
            | (True, cs, st) \<Rightarrow> (True, cs\<lparr>cst_lastError := ''command cancelled''\<rparr>, st))"

definition pendingForAck :: "CommandStore \<Rightarrow> GatewayCommand option" where
  "pendingForAck cs =
     (if \<not> cst_mutex cs then None
      else if \<not> in_flight (g_state (s_command (cst_record cs))) then None
      else Some (s_command (cst_record cs)))"

definition store_current :: "CommandStore \<Rightarrow> GatewayCommand \<Rightarrow> GatewayCommand" where
  "store_current cs raw = (if \<not> cst_mutex cs then GatewayCommand_init raw else s_command (cst_record cs))"

definition store_nextCommandId :: "CommandStore \<Rightarrow> u32" where
  "store_nextCommandId cs = (if \<not> cst_mutex cs then 0 else s_nextCommandId (cst_record cs))"

fun commandStateName :: "CommandState \<Rightarrow> string" where
  "commandStateName CommandState_kNone = ''NONE''"
| "commandStateName CommandState_kPending = ''PENDING''"
| "commandStateName CommandState_kSent = ''SENT''"
| "commandStateName CommandState_kConfirmed = ''CONFIRMED''"
| "commandStateName CommandState_kFailed = ''FAILED''"
| "commandStateName CommandState_kCancelled = ''CANCELLED''"

text \<open>\<open>NvsCommandBackend\<close> on the \<open>Preferences\<close> library.\<close>

definition NvsCommandBackend_load :: "'n preferences_api \<Rightarrow> 'n \<Rightarrow> CommandStoreRecord option \<times> 'n" where
  "NvsCommandBackend_load P n =
     (case pf_begin P ''gathra-cmd'' True n of
        (False, n) \<Rightarrow> (None, n)
      | (True, n) \<Rightarrow>
         let bytes = (if pf_getBytesLength P ''state'' n = sizeof_CommandStoreRecord
                      then pf_getBytes P ''state'' sizeof_CommandStoreRecord n else []);
             n = pf_end P n
         in (if length bytes = sizeof_CommandStoreRecord then Some (image_record bytes) else None, n))"

definition NvsCommandBackend_save :: "'n preferences_api \<Rightarrow> CommandStoreRecord \<Rightarrow> 'n \<Rightarrow> bool \<times> 'n" where
  "NvsCommandBackend_save P r n =
     (case pf_begin P ''gathra-cmd'' False n of
        (False, n) \<Rightarrow> (False, n)
      | (True, n) \<Rightarrow>
         (case pf_putBytes P ''state'' (record_image r) n of (written, n) \<Rightarrow>
            (written = sizeof_CommandStoreRecord, pf_end P n)))"

definition nvs_command_backend :: "'n preferences_api \<Rightarrow> 'n command_backend_ops" where
  "nvs_command_backend P = \<lparr>cb_load = NvsCommandBackend_load P, cb_save = NvsCommandBackend_save P\<rparr>"


section \<open>The image and its checksum\<close>

lemma length_command_image [simp]: "length (command_image c) = 48"
  by (simp add: command_image_def)

lemma length_record_image [simp]: "length (record_image r) = 72"
  by (simp add: record_image_def)

lemma image_record_image [simp]: "image_record (record_image r) = r"
proof -
  have le64: "le64 v = le32 (ucast v) @ le32 (ucast (drop_bit 32 v))" for v
    by (simp add: le64_def le32_def be64_def)
  show ?thesis
    by (cases r; cases "s_command r")
       (simp add: image_record_def image_command_def record_image_def command_image_def le64_at_def
          le32_at_def le16_at_def le64 le32_def le16_def be32_def be16_def bytes_simps)
qed

text \<open>The FNV prime is odd, so multiplying by it is undone by multiplying by its inverse.\<close>

lemma fnv_prime_inverse: "(16777619 :: u32) * 0x359C449B = 1"
  unfolding word_uint_eq_iff by simp

lemma fnv_cancel: "(x :: u32) * 16777619 = y * 16777619 \<longleftrightarrow> x = y"
proof
  assume "x * 16777619 = y * 16777619"
  then have "x * (16777619 * 0x359C449B) = y * (16777619 * 0x359C449B)" by (simp only: mult.assoc[symmetric])
  then show "x = y" by (simp only: fnv_prime_inverse mult_1_right)
qed simp

lemma checksum_of_image: "s_checksum (image_record bs) = le32_at bs 64"
  by (simp add: image_record_def)

lemma checksum_bytes: "take 4 (drop 64 (record_image r)) = le32 (s_checksum r)"
  by (simp add: record_image_def)

text \<open>Any 72 bytes are the image of the record read from them.\<close>

lemma le_at_bytes:
  "i + 1 < length bs \<Longrightarrow> le16 (le16_at bs i) = [bs ! i, bs ! (i + 1)]"
  "i + 3 < length bs \<Longrightarrow> le32 (le32_at bs i) = [bs ! i, bs ! (i + 1), bs ! (i + 2), bs ! (i + 3)]"
  by (simp_all add: le16_def le16_at_def le32_def le32_at_def bytes_simps)

lemma le64_at_bytes:
  "i + 7 < length bs \<Longrightarrow> le64 (le64_at bs i) = le32 (le32_at bs i) @ le32 (le32_at bs (i + 4))"
  by (simp add: le64_def le64_at_def be64_join64 le32_def)

lemma record_image_record:
  assumes "length bs = 72" shows "record_image (image_record bs) = bs"
proof (rule nth_equalityI)
  have img: "record_image (image_record bs) = map ((!) bs) [0..<72]"
    using assms
    by (simp add: record_image_def image_record_def command_image_def image_command_def le_at_bytes
        le64_at_bytes upt_rec) (simp add: numeral_eq_Suc)
  show "length (record_image (image_record bs)) = length bs" using assms by simp
  fix i assume "i < length (record_image (image_record bs))"
  then show "record_image (image_record bs) ! i = bs ! i" by (simp add: img)
qed

lemma fnv_step_inj: "fnv_step b h = fnv_step b h' \<longleftrightarrow> h = h'"
proof
  assume "fnv_step b h = fnv_step b h'"
  then have "h XOR ucast b = h' XOR ucast b" by (simp add: fnv_step_def fnv_cancel)
  then have "(h XOR ucast b) XOR ucast b = (h' XOR ucast b) XOR ucast b" by simp
  then show "h = h'" by (simp add: xor.assoc)
qed simp

lemma fnv_step_byte: "fnv_step b h = fnv_step b' h \<longleftrightarrow> b = b'"
proof
  assume "fnv_step b h = fnv_step b' h"
  then have "h XOR ucast b = h XOR ucast b'" by (simp add: fnv_step_def fnv_cancel)
  then have "h XOR (h XOR ucast b) = h XOR (h XOR ucast b')" by simp
  then show "b = b'" by (simp add: ucast_byte_inj flip: xor.assoc)
qed simp

lemma fnv_fold_inj: "fold fnv_step bs h = fold fnv_step bs h' \<longleftrightarrow> h = h'"
  by (induction bs arbitrary: h h') (simp_all add: fnv_step_inj)

lemma fnv1a_detects_one_byte:
  assumes "i < length bs" "bs ! i \<noteq> b"
  shows "fnv1a (bs[i := b]) \<noteq> fnv1a bs"
proof -
  have bs: "bs = take i bs @ bs ! i # drop (Suc i) bs" using assms(1) by (rule id_take_nth_drop)
  have upd: "bs[i := b] = take i bs @ b # drop (Suc i) bs"
    using assms(1) by (rule upd_conv_take_nth_drop)
  show ?thesis
    unfolding fnv1a_def upd by (subst (2) bs) (simp add: fnv_fold_inj fnv_step_byte assms(2)[symmetric])
qed


lemma checksum_irrelevant [simp]: "store_checksum (r\<lparr>s_checksum := c\<rparr>) = store_checksum r"
  by (simp add: store_checksum_def offsetof_checksum_def record_image_def)

lemma store_initialize_valid: "store_valid store_initialize"
  unfolding store_valid_def store_initialize_def Let_def checksum_irrelevant
  by (simp add: GatewayCommand_zero_def)

text \<open>Committing keeps a record valid when the new command is a possible one.\<close>

definition sealed :: "CommandStoreRecord \<Rightarrow> CommandStoreRecord" where
  "sealed r = r\<lparr>s_checksum := store_checksum r\<rparr>"

lemma sealed_fields [simp]:
  "s_command (sealed r) = s_command r" "s_nextCommandId (sealed r) = s_nextCommandId r"
  by (simp_all add: sealed_def)

lemma store_commit_sealed:
  "cst_backend cs \<Longrightarrow> store_commit B c (cs, st) =
    (case cb_save B (sealed c) st of
       (False, st) \<Rightarrow> (False, cs\<lparr>cst_lastError := ''command state persistence failed''\<rparr>, st)
     | (True, st) \<Rightarrow> (True, cs\<lparr>cst_record := sealed c\<rparr>, st))"
  unfolding sealed_def by (simp add: store_commit_def Let_def)

lemma sealed_valid:
  assumes "store_valid r" "n \<noteq> 0" "validCommand (g_type c)" "g_state c \<le> 5"
    "g_result c = 0xFF \<or> g_result c \<le> 7"
  shows "store_valid (sealed (r\<lparr>s_nextCommandId := n, s_command := c\<rparr>))"
  using assms by (simp add: store_valid_def sealed_def validCommand_def)

lemma result_code_valid: "CommandResultCode_u8 k = 0xFF \<or> CommandResultCode_u8 k \<le> 7"
  by (cases k) simp_all


section \<open>Runs of the store\<close>

text \<open>
  What can happen to the store: a restart (a new object and \<open>begin\<close>; the flag says whether the mutex
  can be created) and its operations. \<open>cmd_run\<close> collects the identifiers of the commands created.
\<close>

datatype cmd_event =
    Restart bool
  | Create GatewayCommand CommandType u8 u32 u64
  | MarkSent u32 u64
  | Result CommandResultPacket
  | CancelCmd u32

fun cmd_exec ::
  "'st command_backend_ops \<Rightarrow> cmd_event \<Rightarrow> CommandStore \<times> 'st \<Rightarrow> u32 option \<times> CommandStore \<times> 'st" where
  "cmd_exec B (Restart created) (cs, st) = (None, snd (store_begin B created False (CommandStore_init, st)))"
| "cmd_exec B (Create raw type poll sched created) s =
     (case store_create B raw type poll sched created s of ((ok, cid), s') \<Rightarrow> (if ok then Some cid else None, s'))"
| "cmd_exec B (MarkSent cid t) s = (None, snd (store_markSent B cid t s))"
| "cmd_exec B (Result r) s = (None, snd (store_confirm B r False s))"
| "cmd_exec B (CancelCmd cid) s = (None, snd (store_cancel B cid s))"

fun cmd_run ::
  "'st command_backend_ops \<Rightarrow> cmd_event list \<Rightarrow> CommandStore \<times> 'st \<Rightarrow> u32 list \<times> CommandStore \<times> 'st" where
  "cmd_run B [] s = ([], s)"
| "cmd_run B (e # es) s =
     (case cmd_exec B e s of (out, s') \<Rightarrow>
      case cmd_run B es s' of (ids, s'') \<Rightarrow> ((case out of None \<Rightarrow> ids | Some cid \<Rightarrow> cid # ids), s''))"

text \<open>
  The life cycle of a command, as the part of the record it concerns: the next identifier, and the
  identifier, type and state of the current command.
\<close>

record command_view =
  v_next :: u32
  v_id :: u32
  v_type :: u8
  v_state :: u8

definition view_of :: "CommandStoreRecord \<Rightarrow> command_view" where
  "view_of r = \<lparr>v_next = s_nextCommandId r, v_id = g_commandId (s_command r), v_type = g_type (s_command r),
                v_state = g_state (s_command r)\<rparr>"

inductive lifecycle :: "command_view \<Rightarrow> u32 option \<Rightarrow> command_view \<Rightarrow> bool" where
  lc_stay: "lifecycle v None v"
| lc_create: "\<not> in_flight (v_state v) \<Longrightarrow> v_next v \<noteq> UINT32_MAX \<Longrightarrow> type \<noteq> CommandType_kNone \<Longrightarrow>
    lifecycle v (Some (v_next v))
      \<lparr>v_next = v_next v + 1, v_id = v_next v, v_type = CommandType_u8 type,
       v_state = CommandState_u8 CommandState_kPending\<rparr>"
| lc_move: "in_flight (v_state v) \<Longrightarrow> v_id v \<noteq> 0 \<Longrightarrow>
    s \<in> {CommandState_kSent, CommandState_kConfirmed, CommandState_kCancelled} \<Longrightarrow>
    lifecycle v None (v\<lparr>v_state := CommandState_u8 s\<rparr>)"

inductive_cases lifecycle_createE: "lifecycle v (Some cid) v'"
inductive_cases lifecycle_stayE: "lifecycle v None v'"

lemma u32_succ: "v \<noteq> UINT32_MAX \<Longrightarrow> unat (v + 1) = unat v + 1"
  unfolding UINT32_MAX_def by (unat_arith; simp)

lemma lifecycle_next:
  assumes "lifecycle v out v'" "v_next v \<noteq> 0"
  shows "case out of None \<Rightarrow> v_next v' = v_next v
         | Some cid \<Rightarrow> cid = v_next v \<and> v_next v < v_next v' \<and> v_next v' \<noteq> 0"
  using assms
proof (cases rule: lifecycle.cases)
  case (lc_create type)
  then have "unat (v_next v + 1) = unat (v_next v) + 1" by (intro u32_succ) simp
  moreover from this have "v_next v + 1 \<noteq> 0" by (metis add_is_0 one_neq_zero unat_0)
  ultimately show ?thesis using lc_create by (simp add: word_less_nat_alt)
qed auto


text \<open>What \<open>confirm\<close> does to the record in memory, whatever the backend.\<close>

lemma commit_local:
  assumes "store_commit B c (cs, st) = (ok, cs', st')"
  shows "cst_mutex cs' = cst_mutex cs" "cst_record cs' = (if ok then sealed c else cst_record cs)"
  using assms by (auto simp: store_commit_def sealed_def Let_def split: if_splits prod.splits bool.splits)

lemma confirm_mutex:
  assumes "store_confirm B r dup (cs, st) = (res, (cs', st'))" "cst_mutex cs"
  shows "cst_mutex cs'"
  using assms by (auto simp: store_confirm_def Let_def commit_local split: if_splits prod.splits bool.splits)

text \<open>The record of a confirmed command: its new state and what the node reported.\<close>
definition confirmed_record :: "CommandResultPacket \<Rightarrow> CommandStoreRecord \<Rightarrow> CommandStoreRecord" where
  "confirmed_record r rec = rec\<lparr>s_command := (s_command rec)
     \<lparr>g_state := CommandState_u8 CommandState_kConfirmed, g_result := CommandResultCode_u8 (c_resultCode r),
      g_effectivePollIntervalMinutes := c_effectivePollIntervalMinutes r, g_effectiveMaintenanceUnix := c_scheduledMaintenanceUnix r\<rparr>\<rparr>"

definition matches_command :: "CommandResultPacket \<Rightarrow> GatewayCommand \<Rightarrow> bool" where
  "matches_command r c \<longleftrightarrow> c_commandId r \<noteq> 0 \<and> c_commandId r = g_commandId c \<and> CommandType_u8 (c_commandType r) = g_type c"

lemma confirm_result_local:
  assumes "store_confirm B r dup (cs, st) = ((ok, duplicate), (cs', st'))" "cst_mutex cs"
  shows "ok \<longleftrightarrow> matches_command r (s_command (cst_record cs)) \<and>
      (g_state (s_command (cst_record cs)) = CommandState_u8 CommandState_kConfirmed \<or>
       in_flight (g_state (s_command (cst_record cs))) \<and> fst (store_commit B (confirmed_record r (cst_record cs)) (cs, st)))"
    "duplicate \<longleftrightarrow> ok \<and> g_state (s_command (cst_record cs)) = CommandState_u8 CommandState_kConfirmed"
    "ok \<and> \<not> duplicate \<Longrightarrow> cst_record cs' = sealed (confirmed_record r (cst_record cs))"
    "\<not> ok \<or> duplicate \<Longrightarrow> cst_record cs' = cst_record cs"
  using assms
  by (auto simp: store_confirm_def Let_def in_flight_def commit_local confirmed_record_def matches_command_def
      split: if_splits prod.splits bool.splits)

lemma confirmed_not_pending: "cst_record cs = sealed (confirmed_record r rec) \<Longrightarrow> pendingForAck cs = None"
  by (simp add: pendingForAck_def confirmed_record_def sealed_def in_flight_def)


section \<open>The contract of the backend\<close>

text \<open>
  \<open>saved\<close> is the record the storage holds. A save that reports failure leaves it; loading returns it.
\<close>

locale command_backend =
  fixes B :: "'st command_backend_ops"
    and saved :: "'st \<Rightarrow> CommandStoreRecord option"
  assumes save_ok: "cb_save B r st = (True, st') \<Longrightarrow> saved st' = Some r"
    and save_failed: "cb_save B r st = (False, st') \<Longrightarrow> saved st' = saved st"
    and load_saved: "cb_load B st = (l, st') \<Longrightarrow> l = saved st \<and> saved st' = saved st"
begin

text \<open>The record a restart would continue with.\<close>

definition durable :: "'st \<Rightarrow> CommandStoreRecord" where
  "durable st = (case saved st of Some r \<Rightarrow> if store_valid r then r else store_initialize
                 | None \<Rightarrow> store_initialize)"

definition synced :: "CommandStore \<times> 'st \<Rightarrow> bool" where
  "synced = (\<lambda>(cs, st). cst_mutex cs \<longrightarrow> cst_backend cs \<and> cst_record cs = durable st)"

lemma durable_valid: "store_valid (durable st)"
  by (auto simp: durable_def store_initialize_valid split: option.splits)

lemma durable_saved: "saved st = Some r \<Longrightarrow> store_valid r \<Longrightarrow> durable st = r"
  by (simp add: durable_def)

lemma durable_cong: "saved st = saved st' \<Longrightarrow> durable st = durable st'"
  by (simp add: durable_def)

lemma begin_synced:
  assumes "store_begin B created fresh (CommandStore_init, st) = ((ok, fresh'), cs', st')"
  shows "synced (cs', st') \<and> durable st' = durable st \<and> (ok \<longrightarrow> cst_mutex cs')"
proof (cases created)
  case False
  then show ?thesis using assms
    by (auto simp: store_begin_def CommandStore_init_def synced_def)
next
  case True
  obtain l st1 where ld: "cb_load B st = (l, st1)" by (cases "cb_load B st")
  note l = load_saved[OF ld]
  show ?thesis
  proof (cases "\<exists>r. l = Some r \<and> store_valid r")
    case r: True
    then show ?thesis using assms \<open>created\<close> l ld
      by (auto simp: store_begin_def CommandStore_init_def synced_def durable_def)
  next
    case False
    then have none: "(case l of Some r \<Rightarrow> if store_valid r then Some r else None | None \<Rightarrow> None) = None"
      and fresh: "durable st = store_initialize"
      using l by (auto simp: durable_def split: option.splits)
    obtain b st2 where sv: "cb_save B store_initialize st1 = (b, st2)" by (cases "cb_save B store_initialize st1")
    have "durable st2 = store_initialize"
      using save_ok[of _ st1 st2] save_failed[of _ st1 st2] sv l fresh store_initialize_valid
      by (cases b) (auto simp: durable_def)
    then show ?thesis using assms \<open>created\<close> ld none sv fresh
      by (cases b) (auto simp: store_begin_def CommandStore_init_def synced_def)
  qed
qed

lemma commit_synced:
  assumes "store_commit B c (cs, st) = (ok, cs', st')" "synced (cs, st)" "cst_mutex cs" "store_valid (sealed c)"
  shows "cst_mutex cs' \<and> cst_backend cs' \<and> cst_record cs' = durable st' \<and>
         durable st' = (if ok then sealed c else durable st)"
proof -
  have backend: "cst_backend cs" "cst_record cs = durable st" using assms(2,3) by (simp_all add: synced_def)
  obtain b st1 where sv: "cb_save B (sealed c) st = (b, st1)" by (cases "cb_save B (sealed c) st")
  show ?thesis
  proof (cases b)
    case True
    then have "saved st1 = Some (sealed c)" using save_ok sv by simp
    moreover have "ok" "st' = st1" "cs' = cs\<lparr>cst_record := sealed c\<rparr>"
      using assms(1) sv True by (simp_all add: store_commit_sealed backend(1))
    ultimately show ?thesis using assms(3) backend durable_saved[OF _ assms(4)] by simp
  next
    case False
    then have "durable st1 = durable st" using save_failed[of "sealed c" st st1] sv by (intro durable_cong) simp
    moreover have "\<not> ok" "st' = st1" "cs' = cs\<lparr>cst_lastError := ''command state persistence failed''\<rparr>"
      using assms(1) sv False by (simp_all add: store_commit_sealed backend(1))
    ultimately show ?thesis using assms(3) backend by simp
  qed
qed

text \<open>One operation: memory and storage stay in step, and the record moves along the life cycle.\<close>

definition simulates :: "u32 option \<Rightarrow> 'st \<Rightarrow> CommandStore \<times> 'st \<Rightarrow> bool" where
  "simulates out st = (\<lambda>(cs', st'). synced (cs', st') \<and>
     lifecycle (view_of (durable st)) out (view_of (durable st')))"

lemma simulates_same:
  "synced (cs, st) \<Longrightarrow> simulates None st (cs, st)" "synced (cs, st) \<Longrightarrow> simulates None st (cs\<lparr>cst_lastError := e\<rparr>, st)"
  by (simp_all add: simulates_def synced_def lc_stay)

lemma commit_simulates:
  assumes "store_commit B c (cs, st) = (ok, cs', st')" "synced (cs, st)" "cst_mutex cs" "store_valid (sealed c)"
    "lifecycle (view_of (durable st)) out (view_of c)"
  shows "simulates (if ok then out else None) st (cs'\<lparr>cst_lastError := e\<rparr>, st')"
    "simulates (if ok then out else None) st (cs', st')"
  using commit_synced[OF assms(1-4)] assms(5)
  by (auto simp: simulates_def synced_def view_of_def lc_stay)

lemma create_simulates:
  assumes "synced s" "cmd_exec B (Create raw type poll sched created) s = (out, s')"
  shows "simulates out (snd s) s'"
proof -
  obtain cs st where s: "s = (cs, st)" by (cases s)
  let ?r = "cst_record cs"
  let ?c = "?r\<lparr>s_nextCommandId := s_nextCommandId ?r + 1, s_command := (GatewayCommand_init raw)
                \<lparr>g_commandId := s_nextCommandId ?r, g_type := CommandType_u8 type,
                 g_state := CommandState_u8 CommandState_kPending, g_pollIntervalMinutes := poll,
                 g_scheduledMaintenanceUnix := sched, g_createdUnixMs := created, g_lastSentUnixMs := -1,
                 g_result := CommandResultCode_u8 CommandResultCode_kNone\<rparr>\<rparr>"
  show ?thesis
  proof (cases "cst_mutex cs \<and> type \<noteq> CommandType_kNone \<and> s_nextCommandId ?r \<noteq> UINT32_MAX \<and>
      \<not> in_flight (g_state (s_command ?r)) \<and>
      \<not> ((type = CommandType_kSetPollIntervalMinutes \<and> poll = 0) \<or> (type = CommandType_kScheduleMaintenanceAt \<and> sched = 0))")
    case False
    then have "out = None \<and> (\<exists>e. s' = (cs, st) \<or> s' = (cs\<lparr>cst_lastError := e\<rparr>, st))"
      using assms(2) s by (auto simp: store_create_def split: if_splits)
    then show ?thesis using simulates_same assms(1) s by auto
  next
    case True
    then have rec: "?r = durable st" using assms(1) by (simp add: s synced_def)
    have "s_nextCommandId ?r + 1 \<noteq> 0" using u32_succ[of "s_nextCommandId ?r"] True by (metis add_is_0 one_neq_zero unat_0)
    then have valid: "store_valid (sealed ?c)"
      using durable_valid[of st] True unfolding rec by (intro sealed_valid) (auto simp: enum_codes)
    have lc: "lifecycle (view_of (durable st)) (Some (s_nextCommandId ?r)) (view_of ?c)"
      using True lc_create[of "view_of ?r" type] unfolding rec by (simp add: view_of_def)
    obtain ok cs1 st1 where com: "store_commit B ?c (cs, st) = (ok, cs1, st1)"
      by (cases "store_commit B ?c (cs, st)") auto
    show ?thesis
      using commit_simulates[OF com _ _ valid lc] assms True com
      by (cases ok) (auto simp: s store_create_def Let_def)
  qed
qed

text \<open>\<open>markSent\<close>, \<open>confirm\<close> and \<open>cancel\<close> commit a new state for the command in flight.\<close>

lemma move_simulates:
  assumes com: "store_commit B ((cst_record cs)\<lparr>s_command := c\<rparr>) (cs, st) = (ok, cs', st')"
    and base: "synced (cs, st)" "cst_mutex cs" and cur: "in_flight (g_state (s_command (cst_record cs)))"
    "g_commandId (s_command (cst_record cs)) \<noteq> 0"
    and new: "x \<in> {CommandState_kSent, CommandState_kConfirmed, CommandState_kCancelled}"
    "g_state c = CommandState_u8 x" "g_commandId c = g_commandId (s_command (cst_record cs))"
    "g_type c = g_type (s_command (cst_record cs))"
    "g_result c = g_result (s_command (cst_record cs)) \<or> g_result c = CommandResultCode_u8 k"
  shows "simulates None st (cs', st')" "simulates None st (cs'\<lparr>cst_lastError := e\<rparr>, st')"
proof -
  have rec: "cst_record cs = durable st" using base by (simp add: synced_def)
  have d: "store_valid (durable st)" by (rule durable_valid)
  have "store_valid (sealed ((durable st)\<lparr>s_nextCommandId := s_nextCommandId (durable st), s_command := c\<rparr>))"
    using d new result_code_valid[of k] rec
    by (intro sealed_valid[OF d]) (auto simp: store_valid_def validCommand_def)
  then have valid: "store_valid (sealed ((cst_record cs)\<lparr>s_command := c\<rparr>))" by (simp add: rec)
  have lc: "lifecycle (view_of (durable st)) None (view_of ((cst_record cs)\<lparr>s_command := c\<rparr>))"
    using lc_move[of "view_of (durable st)" x] cur new by (simp add: view_of_def rec)
  show "simulates None st (cs', st')" "simulates None st (cs'\<lparr>cst_lastError := e\<rparr>, st')"
    using commit_simulates[OF com base valid lc] by simp_all
qed

lemma markSent_simulates: "synced s \<Longrightarrow> simulates None (snd s) (snd (store_markSent B cid t s))"
  using simulates_same
  by (cases s) (auto simp: store_markSent_def Let_def split: prod.splits bool.splits
      elim!: move_simulates[where x = CommandState_kSent and k = CommandResultCode_kNone])

lemma confirm_simulates: "synced s \<Longrightarrow> simulates None (snd s) (snd (store_confirm B r dup s))"
  using simulates_same
  by (cases s) (auto simp: store_confirm_def Let_def split: prod.splits bool.splits
      elim!: move_simulates[where x = CommandState_kConfirmed and k = "c_resultCode r"])

lemma cancel_simulates: "synced s \<Longrightarrow> simulates None (snd s) (snd (store_cancel B cid s))"
  using simulates_same
  by (cases s) (auto simp: store_cancel_def Let_def split: prod.splits bool.splits
      elim!: move_simulates[where x = CommandState_kCancelled and k = CommandResultCode_kNone])

lemma exec_simulates:
  assumes "synced s" "cmd_exec B e s = (out, s')"
  shows "simulates out (snd s) s'"
proof (cases e)
  case (Restart created)
  obtain cs st where s: "s = (cs, st)" by (cases s)
  obtain ok fresh cs' st' where "store_begin B created False (CommandStore_init, st) = ((ok, fresh), cs', st')"
    by (cases "store_begin B created False (CommandStore_init, st)") auto
  with begin_synced[OF this] show ?thesis using assms(2) Restart s
    by (auto simp: simulates_def lc_stay)
next
  case (Create raw type poll sched created)
  with create_simulates[OF assms(1)] assms(2) show ?thesis by simp
qed (use markSent_simulates[OF assms(1)] confirm_simulates[OF assms(1)] cancel_simulates[OF assms(1)] assms(2) in auto)

lemma next_nonzero: "v_next (view_of (durable st)) \<noteq> 0"
  using durable_valid[of st] by (simp add: view_of_def store_valid_def)

lemma run_simulates:
  assumes "synced s" "cmd_run B es s = (ids, s')"
  shows "synced s' \<and> sorted_wrt (<) ids \<and>
    (\<forall>i\<in>set ids. v_next (view_of (durable (snd s))) \<le> i \<and> i < v_next (view_of (durable (snd s')))) \<and>
    v_next (view_of (durable (snd s))) \<le> v_next (view_of (durable (snd s')))"
  using assms
proof (induction es arbitrary: s ids)
  case (Cons e es)
  let ?n = "\<lambda>s. v_next (view_of (durable (snd s)))"
  obtain out s1 where e: "cmd_exec B e s = (out, s1)" by (cases "cmd_exec B e s")
  obtain ids1 where es: "cmd_run B es s1 = (ids1, s')" and ids: "ids = (case out of None \<Rightarrow> ids1 | Some i \<Rightarrow> i # ids1)"
    using Cons.prems(2) e by (auto split: prod.splits)
  have sim: "simulates out (snd s) s1" using exec_simulates[OF Cons.prems(1) e] .
  then have "synced s1" and lc: "lifecycle (view_of (durable (snd s))) out (view_of (durable (snd s1)))"
    by (auto simp: simulates_def split: prod.splits)
  note IH = Cons.IH[OF this(1) es]
  from lifecycle_next[OF lc next_nonzero]
  have step: "case out of None \<Rightarrow> ?n s1 = ?n s | Some i \<Rightarrow> i = ?n s \<and> ?n s < ?n s1"
    by (auto split: option.splits)
  show ?case
  proof (cases out)
    case None
    with IH step ids show ?thesis by simp
  next
    case (Some i)
    then have "i = ?n s" "?n s < ?n s1" using step by simp_all
    with IH ids Some show ?thesis by (fastforce dest: order_less_le_trans order_less_imp_le)
  qed
qed simp

text \<open>Without a successful \<open>create\<close> a command that left the flight states stays where it is.\<close>

lemma lifecycle_rest: "lifecycle v None v' \<Longrightarrow> \<not> in_flight (v_state v) \<Longrightarrow> v' = v"
  by (erule lifecycle_stayE) auto

lemma run_rest:
  assumes "synced s" "cmd_run B es s = ([], s')" "\<not> in_flight (v_state (view_of (durable (snd s))))"
  shows "view_of (durable (snd s')) = view_of (durable (snd s))"
  using assms
proof (induction es arbitrary: s)
  case (Cons e es)
  obtain out s1 where e: "cmd_exec B e s = (out, s1)" by (cases "cmd_exec B e s")
  obtain ids1 where es: "cmd_run B es s1 = (ids1, s')" and "[] = (case out of None \<Rightarrow> ids1 | Some i \<Rightarrow> i # ids1)"
    using Cons.prems(2) e by (auto split: prod.splits)
  then have out: "out = None" "ids1 = []" by (auto split: option.splits)
  have "simulates None (snd s) s1" using exec_simulates[OF Cons.prems(1) e] out by simp
  then have "synced s1" "view_of (durable (snd s1)) = view_of (durable (snd s))"
    using lifecycle_rest Cons.prems(3) by (auto simp: simulates_def split: prod.splits)
  with Cons.IH[of s1] es out Cons.prems(3) show ?case by simp
qed simp

lemma pendingForAck_synced:
  assumes "synced s" shows "pendingForAck (fst s) =
    (if cst_mutex (fst s) \<and> in_flight (v_state (view_of (durable (snd s))))
     then Some (s_command (durable (snd s))) else None)"
  using assms by (cases s) (auto simp: pendingForAck_def synced_def view_of_def)

end


section \<open>The backend on flash\<close>

definition nvs_saved :: "('n \<Rightarrow> string \<Rightarrow> string \<Rightarrow> byte list option) \<Rightarrow> 'n \<Rightarrow> CommandStoreRecord option" where
  "nvs_saved stored n = (case stored n ''gathra-cmd'' ''state'' of
     Some b \<Rightarrow> if length b = sizeof_CommandStoreRecord then Some (image_record b) else None | None \<Rightarrow> None)"

context preferences
begin

lemma nvs_load:
  assumes "NvsCommandBackend_load P n = (l, n')"
  shows "l = nvs_saved stored n \<and> nvs_saved stored n' = nvs_saved stored n"
proof -
  obtain ok n1 where op: "pf_begin P ''gathra-cmd'' True n = (ok, n1)" by (cases "pf_begin P ''gathra-cmd'' True n")
  note keep = begin_keeps[OF op] begin_existing[of n "''gathra-cmd''" "''state''"]
  show ?thesis
  proof (cases ok)
    case True
    then show ?thesis using assms op keep begin_opens[of "''gathra-cmd''" True n n1] end_keeps[of n1]
      by (auto simp: NvsCommandBackend_load_def nvs_saved_def getBytesLength getBytes Let_def
          sizeof_CommandStoreRecord_def split: option.splits if_splits)
  next
    case False
    then show ?thesis using assms op keep
      by (auto simp: NvsCommandBackend_load_def nvs_saved_def split: option.splits)
  qed
qed

lemma nvs_save:
  assumes "NvsCommandBackend_save P r n = (ok, n')"
  shows "nvs_saved stored n' = (if ok then Some r else nvs_saved stored n)"
proof -
  obtain opn n1 where op: "pf_begin P ''gathra-cmd'' False n = (opn, n1)"
    by (cases "pf_begin P ''gathra-cmd'' False n")
  obtain w n2 where put: "pf_putBytes P ''state'' (record_image r) n1 = (w, n2)"
    by (cases "pf_putBytes P ''state'' (record_image r) n1")
  have ne: "record_image r \<noteq> []" by (metis length_0_conv length_record_image zero_neq_numeral)
  show ?thesis
  proof (cases opn)
    case False
    then show ?thesis using assms op begin_keeps[OF op] by (auto simp: NvsCommandBackend_save_def nvs_saved_def)
  next
    case True
    then have n1: "stored n1 = stored n" "opened n1 = ''gathra-cmd''"
      using begin_keeps[OF op] begin_opens op by auto
    have res: "ok = (w = 72)" "n' = pf_end P n2"
      using assms op put True by (simp_all add: NvsCommandBackend_save_def sizeof_CommandStoreRecord_def)
    show ?thesis
    proof (cases "w = 72")
      case True
      with put have "pf_putBytes P ''state'' (record_image r) n1 = (length (record_image r), n2)" by simp
      from putBytes_ok[OF this ne] show ?thesis using res True n1 end_keeps[of n2]
        by (simp add: nvs_saved_def sizeof_CommandStoreRecord_def)
    next
      case False
      with putBytes_failed[OF put] show ?thesis using res n1 end_keeps[of n2]
        by (simp add: nvs_saved_def)
    qed
  qed
qed

lemma nvs_backend: "command_backend (nvs_command_backend P) (nvs_saved stored)"
  by unfold_locales (auto simp: nvs_command_backend_def dest: nvs_load nvs_save)

end

sublocale preferences \<subseteq> nvs_cmd: command_backend "nvs_command_backend P" "nvs_saved stored"
  by (rule nvs_backend)

interpretation nvs_map_cmd: command_backend "nvs_command_backend nvs_map_api" "nvs_saved nv_blobs"
  by (rule nvs.nvs_backend)


section \<open>Properties of the command store\<close>

lemma init_synced: "command_backend B saved \<Longrightarrow> command_backend.synced saved (CommandStore_init, n)"
  by (simp add: command_backend.synced_def CommandStore_init_def)

lemma run_from_init:
  assumes "preferences P stored number opened"
    and "cmd_run (nvs_command_backend P) events (CommandStore_init, n) = (ids, s)"
  shows "command_backend.synced (nvs_saved stored) s"
  using command_backend.run_simulates[OF preferences.nvs_backend[OF assms(1)]
      init_synced[OF preferences.nvs_backend[OF assms(1)]] assms(2)] by simp

definition example_events :: "cmd_event list" where
  "example_events =
     [Restart True, Create GatewayCommand_zero CommandType_kEnterMaintenanceNow 0 0 5, CancelCmd 1,
      Restart True, Create GatewayCommand_zero CommandType_kSetPollIntervalMinutes 15 0 9,
      MarkSent 2 10, Restart True]"

text \<open>C15: Command identifiers are never reused: in any run of the store on flash, with restarts, failed
  writes, confirmations and cancellations in any order, the identifiers of the created commands are
  strictly increasing and never 0, so a node can recognise a command it has already executed.\<close>

theorem command_ids_never_reused:
  assumes "preferences P stored number opened"
    and "cmd_run (nvs_command_backend P) events (CommandStore_init, n) = (ids, s')"
  shows "sorted_wrt (<) ids \<and> 0 \<notin> set ids"
proof -
  note backend = preferences.nvs_backend[OF assms(1)]
  show ?thesis
    using command_backend.run_simulates[OF backend init_synced[OF backend] assms(2)]
      command_backend.next_nonzero[OF backend, of n] by (fastforce simp: word_le_0_iff)
qed

lemma example_run:
  "fst (cmd_run (nvs_command_backend nvs_map_api) example_events (CommandStore_init, nvs_empty [])) = [1, 2]"
  by code_simp

theorem command_ids_never_reused_witness:
  "sorted_wrt (<) [1, 2 :: u32] \<and>
   fst (cmd_run (nvs_command_backend nvs_map_api) example_events (CommandStore_init, nvs_empty [])) = [1, 2]"
  using command_ids_never_reused[OF nvs.preferences_axioms prod.collapse[symmetric],
      of example_events "nvs_empty []"] example_run by simp

text \<open>C16: A command that was confirmed or cancelled is never sent to the node again: from any state the
  store can be in, while no new command is created, every later state, restarts and failed writes
  included, offers no command for an acknowledgement and keeps identifier and state.\<close>

theorem finished_command_stays_finished:
  assumes "preferences P stored number opened"
    and "cmd_run (nvs_command_backend P) before (CommandStore_init, n) = (ids, (cs, st))"
    and "cst_mutex cs" "pendingForAck cs = None"
    and "cmd_run (nvs_command_backend P) events (cs, st) = ([], (cs', st'))"
  shows "pendingForAck cs' = None \<and>
         (cst_mutex cs' \<longrightarrow> view_of (cst_record cs') = view_of (cst_record cs))"
proof -
  note backend = preferences.nvs_backend[OF assms(1)]
  note sync = run_from_init[OF assms(1,2)]
  have rest: "\<not> in_flight (v_state (view_of (command_backend.durable (nvs_saved stored) st)))"
    using command_backend.pendingForAck_synced[OF backend sync] assms(3,4) by auto
  have sync': "command_backend.synced (nvs_saved stored) (cs', st')"
    using command_backend.run_simulates[OF backend sync assms(5)] by simp
  have "view_of (command_backend.durable (nvs_saved stored) st')
      = view_of (command_backend.durable (nvs_saved stored) st)"
    using command_backend.run_rest[OF backend sync assms(5)] rest by simp
  then show ?thesis
    using command_backend.pendingForAck_synced[OF backend sync'] rest sync sync' assms(3)
    by (simp add: command_backend.synced_def[OF backend])
qed

definition cancelled_run :: "u32 list \<times> CommandStore \<times> nvs_map" where
  "cancelled_run = cmd_run (nvs_command_backend nvs_map_api)
     [Restart True, Create GatewayCommand_zero CommandType_kEnterMaintenanceNow 0 0 5, CancelCmd 1]
     (CommandStore_init, nvs_empty [])"

lemma cancelled_run_state:
  "cst_mutex (fst (snd cancelled_run)) \<and> pendingForAck (fst (snd cancelled_run)) = None \<and>
   fst (cmd_run (nvs_command_backend nvs_map_api) [MarkSent 1 7, Restart True] (snd cancelled_run)) = []"
  by code_simp

theorem finished_command_stays_finished_witness:
  "pendingForAck (fst (snd (cmd_run (nvs_command_backend nvs_map_api) [MarkSent 1 7, Restart True]
     (snd cancelled_run)))) = None"
proof -
  let ?r = "cmd_run (nvs_command_backend nvs_map_api) [MarkSent 1 7, Restart True]
      (fst (snd cancelled_run), snd (snd cancelled_run))"
  have "?r = ([], (fst (snd ?r), snd (snd ?r)))" using cancelled_run_state by (metis prod.collapse)
  moreover have "cmd_run (nvs_command_backend nvs_map_api)
     [Restart True, Create GatewayCommand_zero CommandType_kEnterMaintenanceNow 0 0 5, CancelCmd 1]
     (CommandStore_init, nvs_empty []) = (fst cancelled_run, (fst (snd cancelled_run), snd (snd cancelled_run)))"
    by (simp only: cancelled_run_def[symmetric] prod.collapse)
  ultimately show ?thesis
    using finished_command_stays_finished[OF nvs.preferences_axioms] cancelled_run_state by (metis prod.collapse)
qed

text \<open>C17: A result from the node is accepted for the current command only, and then it is accepted: \<open>confirm\<close> succeeds
  exactly when the identifier is not zero, identifier and type are those of the current command, and either the command is
  already confirmed (then it is reported as a duplicate and the record stays) or it is in flight and the confirmed record
  is committed. The record then carries the reported result and effective values, it is in flash before the success is
  reported (a restart continues with it), and the command is offered no more. A refused or unsaved result leaves the record
  as it was.\<close>

theorem confirm_only_matching:
  assumes "preferences P stored number opened"
    and "cmd_run (nvs_command_backend P) before (CommandStore_init, n) = (ids, (cs, st))"
    and "store_confirm (nvs_command_backend P) r dup (cs, st) = ((ok, duplicate), (cs', st'))" "cst_mutex cs"
  shows "let c = s_command (cst_record cs); confirmed = confirmed_record r (cst_record cs) in
     (ok \<longleftrightarrow> matches_command r c \<and>
        (g_state c = CommandState_u8 CommandState_kConfirmed \<or>
         in_flight (g_state c) \<and> fst (store_commit (nvs_command_backend P) confirmed (cs, st)))) \<and>
     (duplicate \<longleftrightarrow> ok \<and> g_state c = CommandState_u8 CommandState_kConfirmed) \<and>
     (ok \<and> \<not> duplicate \<longrightarrow> pendingForAck cs' = None \<and> s_command (cst_record cs') = s_command confirmed) \<and>
     (\<not> ok \<or> duplicate \<longrightarrow> cst_record cs' = cst_record cs) \<and>
     (\<forall>fresh cs2 st2. store_begin (nvs_command_backend P) True False (CommandStore_init, st')
        = ((True, fresh), (cs2, st2)) \<longrightarrow> cst_record cs2 = cst_record cs')"
proof -
  note backend = preferences.nvs_backend[OF assms(1)]
  note sync = run_from_init[OF assms(1,2)]
  have "command_backend.simulates (nvs_saved stored) None st (cs', st')"
    using command_backend.confirm_simulates[OF backend sync, of r dup] assms(3) by simp
  then have sync': "command_backend.synced (nvs_saved stored) (cs', st')"
    by (simp add: command_backend.simulates_def[OF backend])
  have mutex: "cst_mutex cs'" using assms(3,4) by (rule confirm_mutex)
  then have "cst_record cs' = command_backend.durable (nvs_saved stored) st'"
    using sync' by (simp add: command_backend.synced_def[OF backend])
  moreover have "cst_record cs2 = command_backend.durable (nvs_saved stored) st'"
    if "store_begin (nvs_command_backend P) True False (CommandStore_init, st') = ((True, fresh), (cs2, st2))"
    for fresh cs2 st2
    using command_backend.begin_synced[OF backend that]
    by (simp add: command_backend.synced_def[OF backend])
  ultimately have "\<forall>fresh cs2 st2. store_begin (nvs_command_backend P) True False (CommandStore_init, st')
        = ((True, fresh), (cs2, st2)) \<longrightarrow> cst_record cs2 = cst_record cs'" by simp
  moreover have "s_command (sealed c) = s_command c" for c by (simp add: sealed_def)
  ultimately show ?thesis
    using confirm_result_local[OF assms(3,4)] confirmed_not_pending[of cs' r "cst_record cs"] unfolding Let_def by (metis (no_types))
qed

definition waiting_run :: "u32 list \<times> CommandStore \<times> nvs_map" where
  "waiting_run = cmd_run (nvs_command_backend nvs_map_api)
     [Restart True, Create GatewayCommand_zero CommandType_kEnterMaintenanceNow 0 0 5] (CommandStore_init, nvs_empty [])"

definition example_answer :: CommandResultPacket where
  "example_answer = CommandResultPacket_init\<lparr>c_commandId := 1, c_commandType := CommandType_kEnterMaintenanceNow\<rparr>"

theorem confirm_only_matching_witness:
  "fst (store_confirm (nvs_command_backend nvs_map_api) example_answer False (snd waiting_run)) = (True, False) \<and>
   pendingForAck (fst (snd waiting_run)) \<noteq> None \<and>
   pendingForAck (fst (snd (store_confirm (nvs_command_backend nvs_map_api) example_answer False (snd waiting_run)))) = None \<and>
   fst (store_confirm (nvs_command_backend nvs_map_api) example_answer False (snd cancelled_run)) = (False, False)"
proof -
  let ?c = "store_confirm (nvs_command_backend nvs_map_api) example_answer False"
  let ?w = "(fst (snd waiting_run), snd (snd waiting_run))" and ?x = "(fst (snd cancelled_run), snd (snd cancelled_run))"
  have run: "cmd_run (nvs_command_backend nvs_map_api) [Restart True, Create GatewayCommand_zero CommandType_kEnterMaintenanceNow 0 0 5]
      (CommandStore_init, nvs_empty []) = (fst waiting_run, ?w)"
    "cmd_run (nvs_command_backend nvs_map_api) [Restart True, Create GatewayCommand_zero CommandType_kEnterMaintenanceNow 0 0 5, CancelCmd 1]
      (CommandStore_init, nvs_empty []) = (fst cancelled_run, ?x)"
    by (simp_all only: cancelled_run_def[symmetric] waiting_run_def[symmetric] prod.collapse)
  have state: "cst_mutex (fst (snd waiting_run))" "pendingForAck (fst (snd waiting_run)) \<noteq> None"
      "matches_command example_answer (s_command (cst_record (fst (snd waiting_run))))"
      "g_state (s_command (cst_record (fst (snd waiting_run)))) = CommandState_u8 CommandState_kPending" "cst_mutex (fst (snd cancelled_run))"
      "g_state (s_command (cst_record (fst (snd cancelled_run)))) = CommandState_u8 CommandState_kCancelled"
      "fst (store_commit (nvs_command_backend nvs_map_api) (confirmed_record example_answer (cst_record (fst (snd waiting_run)))) ?w)" by code_simp+
  obtain ok d cs st where w: "?c ?w = ((ok, d), (cs, st))" by (metis prod.collapse)
  obtain ok' d' cs' st' where x: "?c ?x = ((ok', d'), (cs', st'))" by (metis prod.collapse)
  note W = confirm_only_matching[OF nvs.preferences_axioms run(1) w state(1), unfolded Let_def]
  note X = confirm_only_matching[OF nvs.preferences_axioms run(2) x state(5), unfolded Let_def]
  have "ok \<and> \<not> d \<and> pendingForAck cs = None" using W state by (simp add: in_flight_def)
  moreover have "\<not> ok' \<and> \<not> d'" using X state(6) by (simp add: in_flight_def)
  ultimately show ?thesis using w x state(2) by simp
qed

text \<open>C18: Any damage to a single byte of the stored record, up to and including its checksum, is
  detected when the store is loaded: the damaged image is never a valid record.\<close>

theorem store_detects_damage:
  assumes "store_valid r" "i < 68" "record_image r ! i \<noteq> b"
  shows "\<not> store_valid (image_record ((record_image r)[i := b]))"
proof
  let ?bs = "(record_image r)[i := b]"
  let ?r = "image_record ?bs"
  assume valid: "store_valid ?r"
  have bs: "record_image ?r = ?bs" by (rule record_image_record) simp
  have sum: "s_checksum ?r = fnv1a (take 64 ?bs)"
    using valid by (simp add: store_valid_def store_checksum_def bs offsetof_checksum_def)
  have sum0: "s_checksum r = fnv1a (take 64 (record_image r))"
    using assms(1) by (simp add: store_valid_def store_checksum_def offsetof_checksum_def)
  show False
  proof (cases "i < 64")
    case True
    then have "fnv1a ((take 64 (record_image r))[i := b]) \<noteq> fnv1a (take 64 (record_image r))"
      using assms(3) by (intro fnv1a_detects_one_byte) simp_all
    moreover have "s_checksum ?r = s_checksum r" using True checksum_of_image[of ?bs] checksum_of_image[of "record_image r"]
      by (simp add: le32_at_def)
    ultimately show False using sum sum0 True by (simp add: take_update_swap)
  next
    case False
    then have "s_checksum ?r = s_checksum r" using sum sum0 by (simp add: take_update_cancel)
    moreover have "le32 (s_checksum ?r) = take 4 (drop 64 ?bs)" "le32 (s_checksum r) = take 4 (drop 64 (record_image r))"
      using checksum_bytes[of ?r] checksum_bytes[of r] bs by simp_all
    ultimately have "take 4 (drop 64 ?bs) ! (i - 64) = take 4 (drop 64 (record_image r)) ! (i - 64)" by simp
    then show False using False assms(2,3) by simp
  qed
qed


theorem store_detects_damage_witness:
  "\<not> store_valid (image_record ((record_image store_initialize)[8 := 2]))"
proof -
  have "record_image store_initialize ! 8 \<noteq> 2"
    by (simp add: record_image_def store_initialize_def Let_def nth_append le32_def be32_def)
  from store_detects_damage[OF store_initialize_valid _ this] show ?thesis by simp
qed

end
