(* ===== verification/Packet_Processor.thy ===== *)
theory Packet_Processor
  imports Queue_Record Deduplicator Pairing_Manager Running_Statistics Command_Store
begin

text \<open>
  What happens to one received frame (\<open>lib/radio/packet_processor.cpp\<close>): decode, pairing filter,
  duplicate check, durable enqueue, acknowledgement. The collaborators \<open>PacketQueueSink\<close>, \<open>AckSink\<close>,
  \<open>MonotonicClock\<close> and \<open>CommandStore\<close> are operations on the rest of the world (\<open>packet_env\<close>); what the
  processor relies on is the locale \<open>packet_sinks\<close>.
\<close>

section \<open>Data\<close>

record ReceivedFrame =
  fr_bytes :: "byte list"
  fr_length :: nat
  fr_reception :: ReceptionMetadata
  fr_observedUs :: u64

record EnqueueOutcome =
  eo_persisted :: bool
  eo_droppedOldest :: bool

record AckTransmission =
  at_attempted :: bool
  at_success :: bool
  at_receiveRestored :: bool
  at_startUs :: u64
  at_completedUs :: u64

definition AckTransmission_init :: AckTransmission where
  "AckTransmission_init = \<lparr>at_attempted = False, at_success = False, at_receiveRestored = False, at_startUs = 0, at_completedUs = 0\<rparr>"

datatype PacketDisposition =
    PacketDisposition_kDecodeRejected | PacketDisposition_kPairingCandidate | PacketDisposition_kUnpairedIgnored
  | PacketDisposition_kUnknownNodeIgnored | PacketDisposition_kDurableEnqueueFailed | PacketDisposition_kNewAcknowledged
  | PacketDisposition_kDuplicateAcknowledged | PacketDisposition_kAckFailed | PacketDisposition_kCommandResultConfirmed
  | PacketDisposition_kCommandResultDuplicate | PacketDisposition_kCommandResultIgnored

record 'd PacketProcessingStats =
  ps_validProtocolPackets :: u64
  ps_validTelemetryPackets :: u64
  ps_validCommandResultPackets :: u64
  ps_decodeErrors :: u64
  ps_unknownNodePackets :: u64
  ps_duplicates :: u64
  ps_ackSent :: u64
  ps_ackFailures :: u64
  ps_durableEnqueueFailures :: u64
  ps_commandResultsConfirmed :: u64
  ps_commandResultsIgnored :: u64
  ps_lastQueueWriteUs :: u64
  ps_lastRxToDurableEnqueueUs :: u64
  ps_lastRxToAckStartUs :: u64
  ps_lastRxToAckCompleteUs :: u64
  ps_lastAckTxDurationUs :: u64
  ps_successfulAckLatency :: "'d AckLatencyStatistics"

definition PacketProcessingStats_init :: "'d double_ops \<Rightarrow> 'd PacketProcessingStats" where
  "PacketProcessingStats_init D =
     \<lparr>ps_validProtocolPackets = 0, ps_validTelemetryPackets = 0, ps_validCommandResultPackets = 0, ps_decodeErrors = 0,
      ps_unknownNodePackets = 0, ps_duplicates = 0, ps_ackSent = 0, ps_ackFailures = 0, ps_durableEnqueueFailures = 0,
      ps_commandResultsConfirmed = 0, ps_commandResultsIgnored = 0, ps_lastQueueWriteUs = 0, ps_lastRxToDurableEnqueueUs = 0,
      ps_lastRxToAckStartUs = 0, ps_lastRxToAckCompleteUs = 0, ps_lastAckTxDurationUs = 0,
      ps_successfulAckLatency = AckLatencyStatistics_init D\<rparr>"

record LatestTelemetry =
  lt_available :: bool
  lt_packet :: TelemetryPacket
  lt_reception :: ReceptionMetadata

definition LatestTelemetry_init :: LatestTelemetry where
  "LatestTelemetry_init = \<lparr>lt_available = False, lt_packet = TelemetryPacket_init, lt_reception = ReceptionMetadata_init\<rparr>"

record PacketProcessingResult =
  pr_disposition :: PacketDisposition
  pr_decodeStatus :: DecodeStatus
  pr_telemetry :: TelemetryPacket
  pr_commandResult :: CommandResultPacket
  pr_isCommandResult :: bool
  pr_ack :: AckTransmission
  pr_droppedOldest :: bool

definition PacketProcessingResult_init :: PacketProcessingResult where
  "PacketProcessingResult_init = \<lparr>pr_disposition = PacketDisposition_kDecodeRejected,
     pr_decodeStatus = DecodeStatus_kBufferTooSmall, pr_telemetry = TelemetryPacket_init,
     pr_commandResult = CommandResultPacket_init, pr_isCommandResult = False, pr_ack = AckTransmission_init,
     pr_droppedOldest = False\<rparr>"

record 'd PacketProcessor =
  pp_pairing :: PairingManager
  pp_stats :: "'d PacketProcessingStats"
  pp_latest :: LatestTelemetry

definition PacketProcessor_init :: "'d double_ops \<Rightarrow> PairingManager \<Rightarrow> 'd PacketProcessor" where
  "PacketProcessor_init D pairing =
     \<lparr>pp_pairing = pairing, pp_stats = PacketProcessingStats_init D, pp_latest = LatestTelemetry_init\<rparr>"

text \<open>The collaborators. \<open>pe_confirm\<close> returns \<open>confirm\<close>'s result and \<open>duplicate\<close>.\<close>

record 'w packet_env =
  pe_containsKey :: "TelemetryKey \<Rightarrow> 'w \<Rightarrow> bool \<times> 'w"
  pe_durablyEnqueue :: "QueueRecord \<Rightarrow> 'w \<Rightarrow> EnqueueOutcome \<times> 'w"
  pe_noteDuplicate :: "'w \<Rightarrow> 'w"
  pe_transmitAck :: "TelemetryPacket \<Rightarrow> 'w \<Rightarrow> AckTransmission \<times> 'w"
  pe_confirm :: "CommandResultPacket \<Rightarrow> 'w \<Rightarrow> (bool \<times> bool) \<times> 'w"
  pe_nowUs :: "'w \<Rightarrow> u64 \<times> 'w"


section \<open>Processing a frame\<close>

definition with_stats :: "('d PacketProcessingStats \<Rightarrow> 'd PacketProcessingStats) \<Rightarrow> 'd PacketProcessor \<Rightarrow> 'd PacketProcessor" where
  "with_stats f p = p\<lparr>pp_stats := f (pp_stats p)\<rparr>"

definition countDecodeError :: "'d PacketProcessingStats \<Rightarrow> 'd PacketProcessingStats" where
  "countDecodeError s = s\<lparr>ps_decodeErrors := ps_decodeErrors s + 1\<rparr>"
definition countUnknownNode :: "'d PacketProcessingStats \<Rightarrow> 'd PacketProcessingStats" where
  "countUnknownNode s = s\<lparr>ps_unknownNodePackets := ps_unknownNodePackets s + 1\<rparr>"
definition countResultIgnored :: "'d PacketProcessingStats \<Rightarrow> 'd PacketProcessingStats" where
  "countResultIgnored s = s\<lparr>ps_commandResultsIgnored := ps_commandResultsIgnored s + 1\<rparr>"

definition processCommandResult ::
  "'w packet_env \<Rightarrow> ReceivedFrame \<Rightarrow> 'd PacketProcessor \<times> 'w \<Rightarrow> PacketProcessingResult \<times> 'd PacketProcessor \<times> 'w" where
  "processCommandResult E frame = (\<lambda>(p, w).
     case decodeCommandResult (Some (fr_bytes frame)) (fr_length frame) CommandResultPacket_init of (status, c) \<Rightarrow>
     let result = PacketProcessingResult_init\<lparr>pr_isCommandResult := True, pr_decodeStatus := status, pr_commandResult := c\<rparr> in
     if status \<noteq> DecodeStatus_kOk
     then (result\<lparr>pr_disposition := PacketDisposition_kDecodeRejected\<rparr>, with_stats countDecodeError p, w)
     else
     let p = with_stats (\<lambda>s. s\<lparr>ps_validProtocolPackets := ps_validProtocolPackets s + 1,
                            ps_validCommandResultPackets := ps_validCommandResultPackets s + 1\<rparr>) p in
     if \<not> paired (pp_pairing p) \<or> \<not> lt_available (pp_latest p) \<or> \<not> pairing_matches (pp_pairing p) (Some (c_nodeId c)) \<or>
        t_persistentSessionId (lt_packet (pp_latest p)) \<noteq> c_persistentSessionId c
     then (result\<lparr>pr_disposition := PacketDisposition_kCommandResultIgnored\<rparr>, with_stats countResultIgnored p, w)
     else case pe_confirm E c w of
       ((False, duplicate), w) \<Rightarrow>
         (result\<lparr>pr_disposition := PacketDisposition_kCommandResultIgnored\<rparr>, with_stats countResultIgnored p, w)
     | ((True, duplicate), w) \<Rightarrow>
         (result\<lparr>pr_disposition := (if duplicate then PacketDisposition_kCommandResultDuplicate
                                   else PacketDisposition_kCommandResultConfirmed)\<rparr>,
          with_stats (\<lambda>s. s\<lparr>ps_commandResultsConfirmed := ps_commandResultsConfirmed s + 1\<rparr>) p, w))"

definition frameRecord :: "ReceivedFrame \<Rightarrow> QueueRecord" where
  "frameRecord frame = QueueRecord_init\<lparr>q_reception := fr_reception frame, q_payloadLength := of_nat (fr_length frame),
     q_rawPayload := memcpy (q_rawPayload QueueRecord_init) (fr_bytes frame) (fr_length frame)\<rparr>"

text \<open>The part from \<open>transmitAck\<close> on: the timings of the last acknowledgement, the statistics of the
  successful ones, and the call.\<close>

definition ackTimings :: "ReceivedFrame \<Rightarrow> AckTransmission \<Rightarrow> 'd PacketProcessingStats \<Rightarrow> 'd PacketProcessingStats" where
  "ackTimings frame ack s =
     (let s = (if at_attempted ack \<and> fr_observedUs frame \<le> at_startUs ack
               then s\<lparr>ps_lastRxToAckStartUs := at_startUs ack - fr_observedUs frame\<rparr> else s);
          s = (if at_attempted ack \<and> fr_observedUs frame \<le> at_completedUs ack
               then s\<lparr>ps_lastRxToAckCompleteUs := at_completedUs ack - fr_observedUs frame\<rparr> else s)
      in (if at_attempted ack \<and> at_startUs ack \<le> at_completedUs ack
          then s\<lparr>ps_lastAckTxDurationUs := at_completedUs ack - at_startUs ack\<rparr> else s))"

definition ackLatency ::
  "'d double_ops \<Rightarrow> ReceivedFrame \<Rightarrow> AckTransmission \<Rightarrow> 'd PacketProcessingStats \<Rightarrow> 'd PacketProcessingStats" where
  "ackLatency D frame ack s =
     (if fr_observedUs frame \<le> at_startUs ack \<and> fr_observedUs frame \<le> at_completedUs ack
      then s\<lparr>ps_successfulAckLatency := al_record D (at_startUs ack - fr_observedUs frame)
               (at_completedUs ack - fr_observedUs frame) (ps_successfulAckLatency s)\<rparr> else s)"

definition acknowledge ::
  "'d double_ops \<Rightarrow> 'w packet_env \<Rightarrow> ReceivedFrame \<Rightarrow> bool \<Rightarrow> PacketProcessingResult \<Rightarrow> 'd PacketProcessor \<times> 'w \<Rightarrow>
     PacketProcessingResult \<times> 'd PacketProcessor \<times> 'w" where
  "acknowledge D E frame duplicate result = (\<lambda>(p, w).
     case pe_transmitAck E (pr_telemetry result) w of (ack, w) \<Rightarrow>
     let result = result\<lparr>pr_ack := ack\<rparr>;
         p = with_stats (ackTimings frame ack) p in
     if at_success ack \<and> at_receiveRestored ack
     then (result\<lparr>pr_disposition := (if duplicate then PacketDisposition_kDuplicateAcknowledged
                                    else PacketDisposition_kNewAcknowledged)\<rparr>,
           with_stats (\<lambda>s. ackLatency D frame ack (s\<lparr>ps_ackSent := ps_ackSent s + 1\<rparr>)) p, w)
     else (result\<lparr>pr_disposition := PacketDisposition_kAckFailed\<rparr>,
           with_stats (\<lambda>s. s\<lparr>ps_ackFailures := ps_ackFailures s + 1\<rparr>) p, w))"

definition queueTimings :: "ReceivedFrame \<Rightarrow> u64 \<Rightarrow> u64 \<Rightarrow> 'd PacketProcessingStats \<Rightarrow> 'd PacketProcessingStats" where
  "queueTimings frame enqueueStartedUs enqueueCompletedUs s =
     (let s = s\<lparr>ps_lastQueueWriteUs := enqueueCompletedUs - enqueueStartedUs\<rparr> in
      if fr_observedUs frame \<le> enqueueCompletedUs
      then s\<lparr>ps_lastRxToDurableEnqueueUs := enqueueCompletedUs - fr_observedUs frame\<rparr> else s)"

text \<open>The part of a telemetry frame of the paired node: the duplicate check and the durable enqueue.\<close>

definition acceptTelemetry ::
  "'d double_ops \<Rightarrow> 'w packet_env \<Rightarrow> ReceivedFrame \<Rightarrow> PacketProcessingResult \<Rightarrow> 'd PacketProcessor \<times> 'w \<Rightarrow>
     PacketProcessingResult \<times> 'd PacketProcessor \<times> 'w" where
  "acceptTelemetry D E frame result = (\<lambda>(p, w).
     let t = pr_telemetry result;
         p = p\<lparr>pp_latest := \<lparr>lt_available = True, lt_packet = t, lt_reception = fr_reception frame\<rparr>\<rparr>;
         key = makeTelemetryKey (Some (t_nodeId t)) (t_persistentSessionId t) (t_sequence t) in
     case pe_containsKey E key w of
       (True, w) \<Rightarrow>
         acknowledge D E frame True result
           (with_stats (\<lambda>s. s\<lparr>ps_duplicates := ps_duplicates s + 1\<rparr>) p, pe_noteDuplicate E w)
     | (False, w) \<Rightarrow>
         (case pe_nowUs E w of (enqueueStartedUs, w) \<Rightarrow>
          case pe_durablyEnqueue E (frameRecord frame) w of (enqueue, w) \<Rightarrow>
          let result = result\<lparr>pr_droppedOldest := eo_droppedOldest enqueue\<rparr> in
          if \<not> eo_persisted enqueue
          then (result\<lparr>pr_disposition := PacketDisposition_kDurableEnqueueFailed\<rparr>,
                with_stats (\<lambda>s. s\<lparr>ps_durableEnqueueFailures := ps_durableEnqueueFailures s + 1\<rparr>) p, w)
          else case pe_nowUs E w of (enqueueCompletedUs, w) \<Rightarrow>
            acknowledge D E frame False result
              (with_stats (queueTimings frame enqueueStartedUs enqueueCompletedUs) p, w)))"

definition processTelemetry ::
  "'d double_ops \<Rightarrow> 'w packet_env \<Rightarrow> ReceivedFrame \<Rightarrow> 'd PacketProcessor \<times> 'w \<Rightarrow>
     PacketProcessingResult \<times> 'd PacketProcessor \<times> 'w" where
  "processTelemetry D E frame = (\<lambda>(p, w).
     case decodeTelemetry (Some (fr_bytes frame)) (fr_length frame) TelemetryPacket_init of (status, t) \<Rightarrow>
     let result = PacketProcessingResult_init\<lparr>pr_decodeStatus := status, pr_telemetry := t\<rparr> in
     if status \<noteq> DecodeStatus_kOk
     then (result\<lparr>pr_disposition := PacketDisposition_kDecodeRejected\<rparr>, with_stats countDecodeError p, w)
     else
     let p = with_stats (\<lambda>s. s\<lparr>ps_validProtocolPackets := ps_validProtocolPackets s + 1,
                            ps_validTelemetryPackets := ps_validTelemetryPackets s + 1\<rparr>) p in
     if pm_pairingMode (pp_pairing p)
     then (result\<lparr>pr_disposition := PacketDisposition_kPairingCandidate\<rparr>,
           p\<lparr>pp_pairing := observe t (rm_rssiDbm (fr_reception frame)) (rm_snrDb (fr_reception frame))
                              (rm_gatewayUptimeMs (fr_reception frame)) (pp_pairing p)\<rparr>, w)
     else if \<not> paired (pp_pairing p)
     then (result\<lparr>pr_disposition := PacketDisposition_kUnpairedIgnored\<rparr>, with_stats countUnknownNode p, w)
     else if \<not> pairing_matches (pp_pairing p) (Some (t_nodeId t))
     then (result\<lparr>pr_disposition := PacketDisposition_kUnknownNodeIgnored\<rparr>, with_stats countUnknownNode p, w)
     else acceptTelemetry D E frame result (p, w))"

definition process ::
  "'d double_ops \<Rightarrow> 'w packet_env \<Rightarrow> ReceivedFrame \<Rightarrow> 'd PacketProcessor \<times> 'w \<Rightarrow>
     PacketProcessingResult \<times> 'd PacketProcessor \<times> 'w" where
  "process D E frame pw =
     (if 4 \<le> fr_length frame \<and> fr_bytes frame ! 3 = MessageType_u8 MessageType_kCommandResult
      then processCommandResult E frame pw else processTelemetry D E frame pw)"


section \<open>The contract of the collaborators\<close>

text \<open>
  \<open>durable w k\<close> says that the packet with key \<open>k\<close> is on stable storage (queued or finished before);
  \<open>acks w\<close> lists the acknowledgements that went on air, and \<open>answers a t\<close> says that \<open>a\<close> acknowledges
  the packet \<open>t\<close>.
\<close>

definition telemetry_key :: "TelemetryPacket \<Rightarrow> TelemetryKey" where
  "telemetry_key t = makeTelemetryKey (Some (t_nodeId t)) (t_persistentSessionId t) (t_sequence t)"

definition well_framed :: "ReceivedFrame \<Rightarrow> bool" where
  "well_framed frame \<longleftrightarrow> length (fr_bytes frame) = kRadioPacketCapacity \<and> fr_length frame \<le> kRadioPacketCapacity"

lemma frameRecord_payload:
  assumes "well_framed frame"
  shows "length (q_rawPayload (frameRecord frame)) = kRadioPacketCapacity"
    "unat (q_payloadLength (frameRecord frame)) = fr_length frame"
    "decodeTelemetry (Some (q_rawPayload (frameRecord frame))) (fr_length frame) TelemetryPacket_init = (DecodeStatus_kOk, t) \<longleftrightarrow>
     decodeTelemetry (Some (fr_bytes frame)) (fr_length frame) TelemetryPacket_init = (DecodeStatus_kOk, t)"
proof -
  have n: "fr_length frame \<le> length (fr_bytes frame)" "length (fr_bytes frame) = 96" "fr_length frame \<le> 96"
    using assms by (simp_all add: well_framed_def kRadioPacketCapacity_def)
  show len: "length (q_rawPayload (frameRecord frame)) = kRadioPacketCapacity"
    using n by (simp add: frameRecord_def QueueRecord_init_def memcpy_def kRadioPacketCapacity_def)
  show "unat (q_payloadLength (frameRecord frame)) = fr_length frame"
    using n(3) by (simp add: frameRecord_def QueueRecord_init_def unat_of_nat)
  have "take (fr_length frame) (q_rawPayload (frameRecord frame)) = take (fr_length frame) (fr_bytes frame)"
    using n by (simp add: frameRecord_def QueueRecord_init_def memcpy_def)
  then show "decodeTelemetry (Some (q_rawPayload (frameRecord frame))) (fr_length frame) TelemetryPacket_init = (DecodeStatus_kOk, t) \<longleftrightarrow>
     decodeTelemetry (Some (fr_bytes frame)) (fr_length frame) TelemetryPacket_init = (DecodeStatus_kOk, t)"
    using n len decodeTelemetry_accepts decodeTelemetry_sound by (metis kRadioPacketCapacity_def)
qed

locale packet_sinks =
  fixes E :: "'w packet_env"
    and inv :: "'w \<Rightarrow> bool"
    and durable :: "'w \<Rightarrow> TelemetryKey \<Rightarrow> bool"
    and acks :: "'w \<Rightarrow> 'a list"
    and answers :: "'a \<Rightarrow> TelemetryPacket \<Rightarrow> bool"
  assumes contains: "inv w \<Longrightarrow> pe_containsKey E k w = (found, w') \<Longrightarrow>
      inv w' \<and> acks w' = acks w \<and> (found \<longrightarrow> durable w' k)"
    and enqueue: "inv w \<Longrightarrow> length (q_rawPayload r) = kRadioPacketCapacity \<Longrightarrow> pe_durablyEnqueue E r w = (out, w') \<Longrightarrow>
      inv w' \<and> acks w' = acks w \<and>
      (eo_persisted out \<longrightarrow> (\<exists>t. decodeTelemetry (Some (q_rawPayload r)) (unat (q_payloadLength r)) TelemetryPacket_init
          = (DecodeStatus_kOk, t) \<and> durable w' (telemetry_key t)))"
    and note_duplicate: "inv w \<Longrightarrow> inv (pe_noteDuplicate E w) \<and> acks (pe_noteDuplicate E w) = acks w \<and>
      durable (pe_noteDuplicate E w) = durable w"
    and now: "inv w \<Longrightarrow> pe_nowUs E w = (t, w') \<Longrightarrow> inv w' \<and> acks w' = acks w \<and> durable w' = durable w"
    and transmit: "inv w \<Longrightarrow> telemetry_wf p \<Longrightarrow> pe_transmitAck E p w = (a, w') \<Longrightarrow>
      inv w' \<and> durable w' = durable w \<and> (at_success a \<longrightarrow> at_attempted a) \<and>
      (if at_attempted a then \<exists>x. acks w' = acks w @ [x] \<and> answers x p else acks w' = acks w)"
    and confirm: "inv w \<Longrightarrow> pe_confirm E c w = (x, w') \<Longrightarrow> inv w' \<and> acks w' = acks w \<and> durable w' = durable w"
begin

text \<open>Whatever was acknowledged is durable.\<close>

definition acknowledged :: "PacketProcessingResult \<Rightarrow> TelemetryPacket \<Rightarrow> 'w \<Rightarrow> 'w \<Rightarrow> bool" where
  "acknowledged r t w w' \<longleftrightarrow> inv w' \<and> (acks w' = acks w \<or> (\<exists>x. acks w' = acks w @ [x] \<and> answers x t) \<and> durable w' (telemetry_key t)) \<and>
     (pr_disposition r \<in> {PacketDisposition_kNewAcknowledged, PacketDisposition_kDuplicateAcknowledged} \<longrightarrow> acks w' \<noteq> acks w)"

lemma acknowledge_durable:
  assumes "inv w" "durable w (telemetry_key (pr_telemetry r))" "acknowledge D E frame dup r (p, w) = (r', p', w')"
    and wf: "telemetry_wf (pr_telemetry r)"
  shows "acknowledged r' (pr_telemetry r) w w'"
proof -
  obtain a w1 where t: "pe_transmitAck E (pr_telemetry r) w = (a, w1)" by fastforce
  note out = transmit[OF assms(1) wf t]
  have "w' = w1" "pr_disposition r' \<in> {PacketDisposition_kNewAcknowledged, PacketDisposition_kDuplicateAcknowledged} \<longrightarrow> at_success a"
    using assms(3) t by (auto simp: acknowledge_def Let_def split: if_splits)
  then show ?thesis using out assms(2) by (cases "at_attempted a") (auto simp: acknowledged_def)
qed

lemma accept_durable:
  assumes "inv w" "well_framed frame"
    and dec: "decodeTelemetry (Some (fr_bytes frame)) (fr_length frame) TelemetryPacket_init = (DecodeStatus_kOk, pr_telemetry r)"
    and run: "acceptTelemetry D E frame r (p, w) = (r', p', w')"
  shows "acknowledged r' (pr_telemetry r) w w'"
proof -
  have wf: "telemetry_wf (pr_telemetry r)"
    using decodeTelemetry_sound[OF dec] assms(2) by (simp add: well_framed_def)
  let ?t = "pr_telemetry r" and ?p = "p\<lparr>pp_latest := \<lparr>lt_available = True, lt_packet = pr_telemetry r, lt_reception = fr_reception frame\<rparr>\<rparr>"
  obtain found w1 where c: "pe_containsKey E (telemetry_key ?t) w = (found, w1)" by fastforce
  note c' = contains[OF assms(1) c]
  obtain t1 w2 where n1: "pe_nowUs E w1 = (t1, w2)" by fastforce
  note n1' = now[OF conjunct1[OF c'] n1]
  obtain out w3 where e: "pe_durablyEnqueue E (frameRecord frame) w2 = (out, w3)" by fastforce
  note e' = enqueue[OF conjunct1[OF n1'] frameRecord_payload(1)[OF assms(2)] e, unfolded frameRecord_payload(2,3)[OF assms(2)]]
  obtain t2 w4 where n2: "pe_nowUs E w3 = (t2, w4)" by fastforce
  note n2' = now[OF conjunct1[OF e'] n2]
  consider (dup) "found" | (failed) "\<not> found" "\<not> eo_persisted out" | (stored) "\<not> found" "eo_persisted out" by blast
  then show ?thesis
  proof cases
    case dup
    then have "acknowledge D E frame True r (with_stats (\<lambda>s. s\<lparr>ps_duplicates := ps_duplicates s + 1\<rparr>) ?p, pe_noteDuplicate E w1) = (r', p', w')"
      using run c by (simp add: acceptTelemetry_def Let_def telemetry_key_def)
    moreover have "durable (pe_noteDuplicate E w1) (telemetry_key ?t)" "inv (pe_noteDuplicate E w1)"
        "acks (pe_noteDuplicate E w1) = acks w"
      using c' dup note_duplicate[of w1] by simp_all
    ultimately show ?thesis using acknowledge_durable[of "pe_noteDuplicate E w1" r] wf by (simp add: acknowledged_def)
  next
    case failed
    then show ?thesis using run c n1 e c' n1' e'
      by (auto simp: acceptTelemetry_def Let_def telemetry_key_def acknowledged_def)
  next
    case stored
    then have "acknowledge D E frame False (r\<lparr>pr_droppedOldest := eo_droppedOldest out\<rparr>)
        (with_stats (queueTimings frame t1 t2) ?p, w4) = (r', p', w')"
      using run c n1 e n2 by (simp add: acceptTelemetry_def Let_def telemetry_key_def)
    moreover have "durable w4 (telemetry_key ?t)" "inv w4" "acks w4 = acks w"
      using c' n1' e' n2' stored(2) dec by auto
    ultimately show ?thesis
      using acknowledge_durable[of w4 "r\<lparr>pr_droppedOldest := eo_droppedOldest out\<rparr>"] wf by (simp add: acknowledged_def)
  qed
qed

lemma process_durable:
  assumes "inv w" "well_framed frame" "process D E frame (p, w) = (r, p', w')"
  shows "inv w' \<and> (acks w' = acks w \<or>
     (\<exists>t. decodeTelemetry (Some (fr_bytes frame)) (fr_length frame) TelemetryPacket_init = (DecodeStatus_kOk, t) \<and>
        \<not> pm_pairingMode (pp_pairing p) \<and> pairing_matches (pp_pairing p) (Some (t_nodeId t)) \<and>
        (\<exists>x. acks w' = acks w @ [x] \<and> answers x t) \<and> durable w' (telemetry_key t))) \<and>
     (pr_disposition r \<in> {PacketDisposition_kNewAcknowledged, PacketDisposition_kDuplicateAcknowledged} \<longrightarrow> acks w' \<noteq> acks w)"
proof (cases "4 \<le> fr_length frame \<and> fr_bytes frame ! 3 = MessageType_u8 MessageType_kCommandResult")
  case True
  then have run: "processCommandResult E frame (p, w) = (r, p', w')" using assms(3) by (simp add: process_def)
  then show ?thesis using assms(1) confirm
    by (auto simp: processCommandResult_def Let_def split: prod.splits if_splits bool.splits)
next
  case False
  obtain status t where d: "decodeTelemetry (Some (fr_bytes frame)) (fr_length frame) TelemetryPacket_init = (status, t)" by fastforce
  let ?r = "PacketProcessingResult_init\<lparr>pr_decodeStatus := status, pr_telemetry := t\<rparr>"
  let ?p = "with_stats (\<lambda>s. s\<lparr>ps_validProtocolPackets := ps_validProtocolPackets s + 1,
                            ps_validTelemetryPackets := ps_validTelemetryPackets s + 1\<rparr>) p"
  have pair: "pp_pairing ?p = pp_pairing p" by (simp add: with_stats_def)
  have run: "processTelemetry D E frame (p, w) = (r, p', w')" using assms(3) unfolding process_def if_not_P[OF False] .
  show ?thesis
  proof (cases "status = DecodeStatus_kOk \<and> \<not> pm_pairingMode (pp_pairing p) \<and> paired (pp_pairing p) \<and>
      pairing_matches (pp_pairing p) (Some (t_nodeId t))")
    case True
    then have "acceptTelemetry D E frame ?r (?p, w) = (r, p', w')"
      using run d pair by (simp add: processTelemetry_def Let_def)
    from accept_durable[OF assms(1,2) _ this] d True show ?thesis by (auto simp: acknowledged_def)
  next
    case ignored: False
    then have "w' = w \<and> pr_disposition r \<notin> {PacketDisposition_kNewAcknowledged, PacketDisposition_kDuplicateAcknowledged}"
      using run d pair by (auto simp: processTelemetry_def Let_def split: if_splits)
    then show ?thesis using assms(1) by auto
  qed
qed

end


section \<open>Counters\<close>

text \<open>How the counters of a run relate to the disposition of the frame.\<close>

definition counted :: "PacketDisposition \<Rightarrow> 'd PacketProcessingStats \<Rightarrow> 'd PacketProcessingStats \<Rightarrow> bool" where
  "counted d s s' \<longleftrightarrow>
     ps_decodeErrors s' = ps_decodeErrors s + of_bool (d = PacketDisposition_kDecodeRejected) \<and>
     ps_unknownNodePackets s' = ps_unknownNodePackets s +
       of_bool (d \<in> {PacketDisposition_kUnpairedIgnored, PacketDisposition_kUnknownNodeIgnored}) \<and>
     ps_ackSent s' = ps_ackSent s +
       of_bool (d \<in> {PacketDisposition_kNewAcknowledged, PacketDisposition_kDuplicateAcknowledged}) \<and>
     ps_ackFailures s' = ps_ackFailures s + of_bool (d = PacketDisposition_kAckFailed) \<and>
     ps_durableEnqueueFailures s' = ps_durableEnqueueFailures s + of_bool (d = PacketDisposition_kDurableEnqueueFailed) \<and>
     ps_commandResultsConfirmed s' = ps_commandResultsConfirmed s +
       of_bool (d \<in> {PacketDisposition_kCommandResultConfirmed, PacketDisposition_kCommandResultDuplicate}) \<and>
     ps_commandResultsIgnored s' = ps_commandResultsIgnored s + of_bool (d = PacketDisposition_kCommandResultIgnored)"

lemma timings_keep_counters [simp]:
  "ps_validProtocolPackets (ackTimings frame ack s) = ps_validProtocolPackets s"
  "ps_validTelemetryPackets (ackTimings frame ack s) = ps_validTelemetryPackets s"
  "ps_validCommandResultPackets (ackTimings frame ack s) = ps_validCommandResultPackets s"
  "ps_decodeErrors (ackTimings frame ack s) = ps_decodeErrors s"
  "ps_unknownNodePackets (ackTimings frame ack s) = ps_unknownNodePackets s"
  "ps_duplicates (ackTimings frame ack s) = ps_duplicates s"
  "ps_ackSent (ackTimings frame ack s) = ps_ackSent s"
  "ps_ackFailures (ackTimings frame ack s) = ps_ackFailures s"
  "ps_durableEnqueueFailures (ackTimings frame ack s) = ps_durableEnqueueFailures s"
  "ps_commandResultsConfirmed (ackTimings frame ack s) = ps_commandResultsConfirmed s"
  "ps_commandResultsIgnored (ackTimings frame ack s) = ps_commandResultsIgnored s"
  "ps_validProtocolPackets (ackLatency D frame ack s) = ps_validProtocolPackets s"
  "ps_validTelemetryPackets (ackLatency D frame ack s) = ps_validTelemetryPackets s"
  "ps_validCommandResultPackets (ackLatency D frame ack s) = ps_validCommandResultPackets s"
  "ps_decodeErrors (ackLatency D frame ack s) = ps_decodeErrors s"
  "ps_unknownNodePackets (ackLatency D frame ack s) = ps_unknownNodePackets s"
  "ps_duplicates (ackLatency D frame ack s) = ps_duplicates s"
  "ps_ackSent (ackLatency D frame ack s) = ps_ackSent s"
  "ps_ackFailures (ackLatency D frame ack s) = ps_ackFailures s"
  "ps_durableEnqueueFailures (ackLatency D frame ack s) = ps_durableEnqueueFailures s"
  "ps_commandResultsConfirmed (ackLatency D frame ack s) = ps_commandResultsConfirmed s"
  "ps_commandResultsIgnored (ackLatency D frame ack s) = ps_commandResultsIgnored s"
  "ps_validProtocolPackets (queueTimings frame t t' s) = ps_validProtocolPackets s"
  "ps_validTelemetryPackets (queueTimings frame t t' s) = ps_validTelemetryPackets s"
  "ps_validCommandResultPackets (queueTimings frame t t' s) = ps_validCommandResultPackets s"
  "ps_decodeErrors (queueTimings frame t t' s) = ps_decodeErrors s"
  "ps_unknownNodePackets (queueTimings frame t t' s) = ps_unknownNodePackets s"
  "ps_duplicates (queueTimings frame t t' s) = ps_duplicates s"
  "ps_ackSent (queueTimings frame t t' s) = ps_ackSent s"
  "ps_ackFailures (queueTimings frame t t' s) = ps_ackFailures s"
  "ps_durableEnqueueFailures (queueTimings frame t t' s) = ps_durableEnqueueFailures s"
  "ps_commandResultsConfirmed (queueTimings frame t t' s) = ps_commandResultsConfirmed s"
  "ps_commandResultsIgnored (queueTimings frame t t' s) = ps_commandResultsIgnored s"
  by (simp_all add: ackTimings_def ackLatency_def queueTimings_def Let_def)

text \<open>What one stage does to the counters: the disposition is counted, the packet counters stay.\<close>

definition stage :: "PacketDisposition \<Rightarrow> 'd PacketProcessingStats \<Rightarrow> 'd PacketProcessingStats \<Rightarrow> bool" where
  "stage d s s' \<longleftrightarrow> counted d s s' \<and> ps_validProtocolPackets s' = ps_validProtocolPackets s \<and>
     ps_validTelemetryPackets s' = ps_validTelemetryPackets s \<and> ps_validCommandResultPackets s' = ps_validCommandResultPackets s"

lemma stage_acknowledge:
  assumes "acknowledge D E frame dup r (p, w) = (r', p', w')"
  shows "stage (pr_disposition r') (pp_stats p) (pp_stats p') \<and> pr_disposition r' \<noteq> PacketDisposition_kDecodeRejected"
proof -
  obtain ack w1 where a: "pe_transmitAck E (pr_telemetry r) w = (ack, w1)" by fastforce
  let ?s = "ackTimings frame ack (pp_stats p)"
  show ?thesis
  proof (cases "at_success ack \<and> at_receiveRestored ack")
    case True
    then have "pp_stats p' = ackLatency D frame ack (?s\<lparr>ps_ackSent := ps_ackSent ?s + 1\<rparr>)"
        and d: "pr_disposition r' = (if dup then PacketDisposition_kDuplicateAcknowledged else PacketDisposition_kNewAcknowledged)"
      using assms a by (auto simp: acknowledge_def with_stats_def Let_def)
    then show ?thesis by (simp add: stage_def counted_def d)
  next
    case False
    then have "pp_stats p' = ?s\<lparr>ps_ackFailures := ps_ackFailures ?s + 1\<rparr>" "pr_disposition r' = PacketDisposition_kAckFailed"
      using assms a by (auto simp: acknowledge_def with_stats_def Let_def)
    then show ?thesis by (simp add: stage_def counted_def)
  qed
qed

lemma stage_accept:
  assumes "acceptTelemetry D E frame r (p, w) = (r', p', w')"
  shows "stage (pr_disposition r') (pp_stats p) (pp_stats p') \<and> pr_disposition r' \<noteq> PacketDisposition_kDecodeRejected"
proof -
  let ?t = "pr_telemetry r" and ?p = "p\<lparr>pp_latest := \<lparr>lt_available = True, lt_packet = pr_telemetry r, lt_reception = fr_reception frame\<rparr>\<rparr>"
  obtain found w1 where c: "pe_containsKey E (makeTelemetryKey (Some (t_nodeId ?t)) (t_persistentSessionId ?t) (t_sequence ?t)) w = (found, w1)"
    by fastforce
  obtain t1 w2 where n1: "pe_nowUs E w1 = (t1, w2)" by fastforce
  obtain out w3 where e: "pe_durablyEnqueue E (frameRecord frame) w2 = (out, w3)" by fastforce
  obtain t2 w4 where n2: "pe_nowUs E w3 = (t2, w4)" by fastforce
  consider (dup) "found" | (failed) "\<not> found" "\<not> eo_persisted out" | (stored) "\<not> found" "eo_persisted out" by blast
  then show ?thesis
  proof cases
    case dup
    then have "acknowledge D E frame True r (with_stats (\<lambda>s. s\<lparr>ps_duplicates := ps_duplicates s + 1\<rparr>) ?p, pe_noteDuplicate E w1) = (r', p', w')"
      using assms c by (simp add: acceptTelemetry_def Let_def)
    from stage_acknowledge[OF this] show ?thesis by (simp add: stage_def counted_def with_stats_def)
  next
    case failed
    then show ?thesis using assms c n1 e by (auto simp: acceptTelemetry_def Let_def stage_def counted_def with_stats_def)
  next
    case stored
    then have "acknowledge D E frame False (r\<lparr>pr_droppedOldest := eo_droppedOldest out\<rparr>)
        (with_stats (queueTimings frame t1 t2) ?p, w4) = (r', p', w')"
      using assms c n1 e n2 by (simp add: acceptTelemetry_def Let_def)
    from stage_acknowledge[OF this] show ?thesis by (simp add: stage_def counted_def with_stats_def)
  qed
qed

text \<open>A whole run: the disposition is counted and an accepted frame is one more valid packet of its type.\<close>

definition accounted ::
  "bool \<Rightarrow> PacketDisposition \<Rightarrow> 'd PacketProcessingStats \<Rightarrow> 'd PacketProcessingStats \<Rightarrow> bool" where
  "accounted isResult d s s' \<longleftrightarrow> counted d s s' \<and>
     (let accepted = of_bool (d \<noteq> PacketDisposition_kDecodeRejected) in
      ps_validProtocolPackets s' = ps_validProtocolPackets s + accepted \<and>
      ps_validCommandResultPackets s' = ps_validCommandResultPackets s + (if isResult then accepted else 0) \<and>
      ps_validTelemetryPackets s' = ps_validTelemetryPackets s + (if isResult then 0 else accepted))"

lemmas account_defs = accounted_def counted_def stage_def with_stats_def countDecodeError_def countUnknownNode_def countResultIgnored_def

lemma accounted_result:
  assumes "processCommandResult E frame (p, w) = (r, p', w')"
  shows "accounted True (pr_disposition r) (pp_stats p) (pp_stats p')"
proof -
  obtain status c where d: "decodeCommandResult (Some (fr_bytes frame)) (fr_length frame) CommandResultPacket_init = (status, c)" by fastforce
  obtain ok dup w1 where cf: "pe_confirm E c w = ((ok, dup), w1)" by (metis prod.collapse)
  define known where "known \<longleftrightarrow> paired (pp_pairing p) \<and> lt_available (pp_latest p) \<and> pairing_matches (pp_pairing p) (Some (c_nodeId c)) \<and>
        t_persistentSessionId (lt_packet (pp_latest p)) = c_persistentSessionId c"
  have run: "processCommandResult E frame (p, w) =
      (let result = PacketProcessingResult_init\<lparr>pr_isCommandResult := True, pr_decodeStatus := status, pr_commandResult := c\<rparr>;
           p1 = with_stats (\<lambda>s. s\<lparr>ps_validProtocolPackets := ps_validProtocolPackets s + 1,
                  ps_validCommandResultPackets := ps_validCommandResultPackets s + 1\<rparr>) p in
       if status \<noteq> DecodeStatus_kOk
       then (result\<lparr>pr_disposition := PacketDisposition_kDecodeRejected\<rparr>, with_stats countDecodeError p, w)
       else if \<not> known then (result\<lparr>pr_disposition := PacketDisposition_kCommandResultIgnored\<rparr>, with_stats countResultIgnored p1, w)
       else if \<not> ok then (result\<lparr>pr_disposition := PacketDisposition_kCommandResultIgnored\<rparr>, with_stats countResultIgnored p1, w1)
       else (result\<lparr>pr_disposition := (if dup then PacketDisposition_kCommandResultDuplicate else PacketDisposition_kCommandResultConfirmed)\<rparr>,
             with_stats (\<lambda>s. s\<lparr>ps_commandResultsConfirmed := ps_commandResultsConfirmed s + 1\<rparr>) p1, w1))"
    using d cf by (simp add: processCommandResult_def Let_def known_def with_stats_def)
  consider "status \<noteq> DecodeStatus_kOk" | "status = DecodeStatus_kOk" "\<not> known" | "status = DecodeStatus_kOk" "known" "\<not> ok"
    | "status = DecodeStatus_kOk" "known" "ok" "dup" | "status = DecodeStatus_kOk" "known" "ok" "\<not> dup" by blast
  then show ?thesis using assms unfolding run
    by cases (simp_all only: Let_def if_True if_False not_True_eq_False not_False_eq_True prod.inject simp_thms, safe, simp_all add: account_defs)
qed

lemma accounted_telemetry:
  assumes "processTelemetry D E frame (p, w) = (r, p', w')"
  shows "accounted False (pr_disposition r) (pp_stats p) (pp_stats p')"
proof -
  obtain status t where d: "decodeTelemetry (Some (fr_bytes frame)) (fr_length frame) TelemetryPacket_init = (status, t)" by fastforce
  let ?r = "PacketProcessingResult_init\<lparr>pr_decodeStatus := status, pr_telemetry := t\<rparr>"
  let ?p = "with_stats (\<lambda>s. s\<lparr>ps_validProtocolPackets := ps_validProtocolPackets s + 1,
                            ps_validTelemetryPackets := ps_validTelemetryPackets s + 1\<rparr>) p"
  obtain r' p2 w2 where a: "acceptTelemetry D E frame ?r (?p, w) = (r', p2, w2)"
    by (cases "acceptTelemetry D E frame ?r (?p, w)")
  note st = stage_accept[OF a]
  have pair: "pp_pairing ?p = pp_pairing p" by (simp add: with_stats_def)
  consider "status \<noteq> DecodeStatus_kOk" | "status = DecodeStatus_kOk" "pm_pairingMode (pp_pairing p)"
    | "status = DecodeStatus_kOk" "\<not> pm_pairingMode (pp_pairing p)" "\<not> paired (pp_pairing p)"
    | "status = DecodeStatus_kOk" "\<not> pm_pairingMode (pp_pairing p)" "paired (pp_pairing p)"
      "\<not> pairing_matches (pp_pairing p) (Some (t_nodeId t))"
    | (accept) "status = DecodeStatus_kOk" "\<not> pm_pairingMode (pp_pairing p)" "paired (pp_pairing p)"
      "pairing_matches (pp_pairing p) (Some (t_nodeId t))" by blast
  then show ?thesis
  proof cases
    case accept
    then have "(r, p', w') = (r', p2, w2)"
      using assms d a pair by (simp add: processTelemetry_def Let_def)
    then show ?thesis using st by (simp add: account_defs)
  qed (use assms d pair in \<open>auto simp: processTelemetry_def Let_def account_defs\<close>)
qed

text \<open>Every frame is accounted for exactly once. Whatever the frame, the state and the collaborators
  do, the counter that belongs to the reported disposition goes up by one and the others stay (decode
  errors, unknown nodes, acknowledgements sent and failed, failed enqueues, command results confirmed and
  ignored); a frame that is not rejected counts as one valid packet, and as telemetry or as a command
  result according to its type byte.\<close>

theorem process_accounting:
  "case process D E frame (p, w) of (r, p', w') \<Rightarrow>
     accounted (4 \<le> fr_length frame \<and> fr_bytes frame ! 3 = MessageType_u8 MessageType_kCommandResult)
       (pr_disposition r) (pp_stats p) (pp_stats p')"
  using accounted_result[of E frame p w] accounted_telemetry[of D E frame p w]
  by (auto simp: process_def split: prod.split)

text \<open>C19: Frames that do not come from the paired node have no effect beyond the counters: nothing is stored, no
  acknowledgement is sent, the command store is not asked and no other collaborator is called. This covers every frame
  except two kinds: a frame that decodes to telemetry of the paired node outside pairing mode, and a frame with the type
  byte of a command result that decodes to a result of the paired node for the session of its latest telemetry. A command
  result of another node, of another session or before any telemetry is ignored without reaching the command store. In
  pairing mode a valid telemetry frame only becomes the pairing candidate.\<close>

theorem foreign_frames_ignored:
  assumes "process D E frame (p, w) = (r, p', w')"
    and "\<And>t. decodeTelemetry (Some (fr_bytes frame)) (fr_length frame) TelemetryPacket_init = (DecodeStatus_kOk, t) \<Longrightarrow>
      pm_pairingMode (pp_pairing p) \<or> \<not> pairing_matches (pp_pairing p) (Some (t_nodeId t))"
    and "\<And>c. 4 \<le> fr_length frame \<Longrightarrow> fr_bytes frame ! 3 = MessageType_u8 MessageType_kCommandResult \<Longrightarrow>
      decodeCommandResult (Some (fr_bytes frame)) (fr_length frame) CommandResultPacket_init = (DecodeStatus_kOk, c) \<Longrightarrow>
      \<not> (lt_available (pp_latest p) \<and> pairing_matches (pp_pairing p) (Some (c_nodeId c)) \<and>
         t_persistentSessionId (lt_packet (pp_latest p)) = c_persistentSessionId c)"
  shows "w' = w \<and> pp_latest p' = pp_latest p \<and>
    (pp_pairing p' = pp_pairing p \<or>
     (\<exists>t. pr_disposition r = PacketDisposition_kPairingCandidate \<and> pm_pairingMode (pp_pairing p) \<and>
        decodeTelemetry (Some (fr_bytes frame)) (fr_length frame) TelemetryPacket_init = (DecodeStatus_kOk, t) \<and>
        pp_pairing p' = observe t (rm_rssiDbm (fr_reception frame)) (rm_snrDb (fr_reception frame))
                          (rm_gatewayUptimeMs (fr_reception frame)) (pp_pairing p)))"
proof (cases "4 \<le> fr_length frame \<and> fr_bytes frame ! 3 = MessageType_u8 MessageType_kCommandResult")
  case True
  obtain status c where d: "decodeCommandResult (Some (fr_bytes frame)) (fr_length frame) CommandResultPacket_init = (status, c)" by fastforce
  have run: "processCommandResult E frame (p, w) = (r, p', w')" using assms(1) unfolding process_def if_P[OF True] .
  have "status \<noteq> DecodeStatus_kOk \<or> \<not> (lt_available (pp_latest p) \<and> pairing_matches (pp_pairing p) (Some (c_nodeId c)) \<and>
         t_persistentSessionId (lt_packet (pp_latest p)) = c_persistentSessionId c)" using assms(3) True d by blast
  then show ?thesis using run d by (auto simp: processCommandResult_def Let_def with_stats_def split: if_splits)
next
  case False
  obtain status t where d: "decodeTelemetry (Some (fr_bytes frame)) (fr_length frame) TelemetryPacket_init = (status, t)" by fastforce
  have run: "processTelemetry D E frame (p, w) = (r, p', w')" using assms(1) unfolding process_def if_not_P[OF False] .
  have "status \<noteq> DecodeStatus_kOk \<or> pm_pairingMode (pp_pairing p) \<or> \<not> pairing_matches (pp_pairing p) (Some (t_nodeId t))"
    using assms(2) d by blast
  then show ?thesis using run d
    by (auto simp: processTelemetry_def Let_def with_stats_def split: if_splits)
qed

text \<open>Collaborators that count every call that reaches them.\<close>

definition counting_env :: "nat packet_env" where
  "counting_env = \<lparr>pe_containsKey = (\<lambda>_ n. (False, Suc n)),
     pe_durablyEnqueue = (\<lambda>_ n. (\<lparr>eo_persisted = True, eo_droppedOldest = False\<rparr>, Suc n)), pe_noteDuplicate = Suc,
     pe_transmitAck = (\<lambda>_ n. (AckTransmission_init, Suc n)), pe_confirm = (\<lambda>_ n. ((False, False), Suc n)), pe_nowUs = (\<lambda>n. (0, Suc n))\<rparr>"

definition stranger_frame :: ReceivedFrame where
  "stranger_frame = \<lparr>fr_bytes = char_array kRadioPacketCapacity (telemetry_bytes example_telemetry), fr_length = 64,
     fr_reception = ReceptionMetadata_init, fr_observedUs = 0\<rparr>"

definition stranger_result :: ReceivedFrame where
  "stranger_result = \<lparr>fr_bytes = char_array kRadioPacketCapacity (result_bytes example_result), fr_length = length (result_bytes example_result),
     fr_reception = ReceptionMetadata_init, fr_observedUs = 0\<rparr>"

theorem foreign_frames_ignored_witness:
  "\<exists>r p' r2 p2. process real_ops counting_env stranger_frame (PacketProcessor_init real_ops PairingManager_init, 0) = (r, p', 0) \<and>
     pp_latest p' = LatestTelemetry_init \<and>
     process real_ops counting_env stranger_result (PacketProcessor_init real_ops PairingManager_init, 0) = (r2, p2, 0) \<and>
     pr_disposition r2 = PacketDisposition_kCommandResultIgnored"
proof -
  let ?p = "PacketProcessor_init real_ops PairingManager_init"
  obtain r p' w' where run: "process real_ops counting_env stranger_frame (?p, 0) = (r, p', w')"
    by (cases "process real_ops counting_env stranger_frame (?p, 0)")
  obtain r2 p2 w2 where run2: "process real_ops counting_env stranger_result (?p, 0) = (r2, p2, w2)"
    by (cases "process real_ops counting_env stranger_result (?p, 0)")
  have no: "\<not> pairing_matches (pp_pairing ?p) x" for x
    by (simp add: PacketProcessor_init_def PairingManager_init_def pairing_matches_def paired_def capacity_defs)
  then have "w' = 0 \<and> pp_latest p' = pp_latest ?p" using foreign_frames_ignored[OF run] by blast
  moreover have "w2 = 0" using foreign_frames_ignored[OF run2] no by blast
  moreover have "pr_disposition (fst (process real_ops counting_env stranger_result (?p, 0))) = PacketDisposition_kCommandResultIgnored"
    by code_simp
  ultimately show ?thesis using run run2 by (simp add: PacketProcessor_init_def)
qed

end
