(* ===== verification/Gateway_Config.thy ===== *)
theory Gateway_Config
  imports Preferences_Store Protocol
begin

text \<open>
  The gateway's configuration (\<open>lib/config/gateway_config.cpp\<close>) and the object that keeps it in NVS
  (\<open>lib/config/config_store.cpp\<close>): validation field by field, the grammar of the backend URL, the
  migration of a schema-1 blob, loading and saving.

  A \<open>float\<close> is its bit pattern: comparison and finiteness are read off the pattern, as IEEE 754
  defines them; subtraction, which rounds, is the parameter \<open>fsub\<close> of the definitions that use it.
  A pair of pointers \<open>begin\<close>, \<open>end\<close> into a string is the list of the bytes between them.
\<close>

section \<open>Constants and floats\<close>

definition kConfigSchemaVersion :: u16 where "kConfigSchemaVersion = 2"
definition kBackendUrlCapacity :: nat where "kBackendUrlCapacity = 161"
definition kWifiSsidCapacity :: nat where "kWifiSsidCapacity = 33"
definition kWifiPasswordCapacity :: nat where "kWifiPasswordCapacity = 65"
definition kBearerTokenCapacity :: nat where "kBearerTokenCapacity = 129"
definition kDefaultBackendUrl :: "byte list" where "kDefaultBackendUrl = ascii ''https://api.gathra.my.id''"

lemmas config_sizes = kBackendUrlCapacity_def kWifiSsidCapacity_def kWifiPasswordCapacity_def
  kBearerTokenCapacity_def kNodeIdCapacity_def kGatewayIdCapacity_def

type_synonym f32 = u32

definition fabsf :: "f32 \<Rightarrow> f32" where "fabsf x = x AND 0x7FFFFFFF"
definition isfinite :: "f32 \<Rightarrow> bool" where "isfinite x \<longleftrightarrow> fabsf x < 0x7F800000"
definition isnan :: "f32 \<Rightarrow> bool" where "isnan x \<longleftrightarrow> 0x7F800000 < fabsf x"
definition f32_order :: "f32 \<Rightarrow> int" where
  "f32_order x = (if bit x 31 then - uint (fabsf x) else uint (fabsf x))"
definition f32_less :: "f32 \<Rightarrow> f32 \<Rightarrow> bool" where
  "f32_less x y \<longleftrightarrow> \<not> isnan x \<and> \<not> isnan y \<and> f32_order x < f32_order y"


section \<open>The configuration\<close>

record RadioConfig =
  r_frequencyMhz :: f32
  r_bandwidthKhz :: f32
  r_spreadingFactor :: u8
  r_codingRateDenominator :: u8
  r_txPowerDbm :: u8
  r_syncWord :: u8

definition RadioConfig_init :: RadioConfig where
  "RadioConfig_init = \<lparr>r_frequencyMhz = 0x43D88000, r_bandwidthKhz = 0x42FA0000, r_spreadingFactor = 10,
     r_codingRateDenominator = 6, r_txPowerDbm = 17, r_syncWord = 0x12\<rparr>"

text \<open>\<open>GatewayConfig\<close> is the schema-1 struct with one more field at its end, as the \<open>static_assert\<close>
  of the header demands; \<open>gc_pad\<close> are the three padding bytes before the timeouts.\<close>

record GatewayConfigV1 =
  gc_schemaVersion :: u16
  gc_gatewayId :: "byte list"
  gc_wifiSsid :: "byte list"
  gc_wifiPassword :: "byte list"
  gc_pairedNodeId :: "byte list"
  gc_backendBaseUrl :: "byte list"
  gc_backendBearerToken :: "byte list"
  gc_radio :: RadioConfig
  gc_backendBatchSize :: u8
  gc_pad :: "byte list"
  gc_backendHttpTimeoutMs :: u32
  gc_backendInitialBackoffMs :: u32
  gc_backendMaximumBackoffMs :: u32
  gc_wifiReconnectIntervalMs :: u32
  gc_wifiFallbackAfterMs :: u32
  gc_wifiApGraceMs :: u32

record GatewayConfig = GatewayConfigV1 +
  gc_heartbeatIntervalSeconds :: u32

definition GatewayConfig_init :: GatewayConfig where
  "GatewayConfig_init = \<lparr>gc_schemaVersion = kConfigSchemaVersion, gc_gatewayId = replicate kGatewayIdCapacity 0,
     gc_wifiSsid = replicate kWifiSsidCapacity 0, gc_wifiPassword = replicate kWifiPasswordCapacity 0,
     gc_pairedNodeId = replicate kNodeIdCapacity 0, gc_backendBaseUrl = replicate kBackendUrlCapacity 0,
     gc_backendBearerToken = replicate kBearerTokenCapacity 0, gc_radio = RadioConfig_init, gc_backendBatchSize = 20,
     gc_pad = [0, 0, 0], gc_backendHttpTimeoutMs = 10000, gc_backendInitialBackoffMs = 2000,
     gc_backendMaximumBackoffMs = 300000, gc_wifiReconnectIntervalMs = 15000, gc_wifiFallbackAfterMs = 60000,
     gc_wifiApGraceMs = 30000, gc_heartbeatIntervalSeconds = kDefaultHeartbeatIntervalSeconds\<rparr>"

definition setDefaults :: "byte list option \<Rightarrow> GatewayConfig" where
  "setDefaults derivedGatewayId = GatewayConfig_init
     \<lparr>gc_gatewayId := strncpy (gc_gatewayId GatewayConfig_init)
        (case derivedGatewayId of None \<Rightarrow> ascii ''GTH-GW-UNKNOWN'' | Some s \<Rightarrow> s) (kGatewayIdCapacity - 1),
      gc_backendBaseUrl := strncpy (gc_backendBaseUrl GatewayConfig_init) kDefaultBackendUrl (kBackendUrlCapacity - 1)\<rparr>"

datatype ConfigValidationCode =
    ConfigValidationCode_kOk | ConfigValidationCode_kSchema | ConfigValidationCode_kGatewayId
  | ConfigValidationCode_kWifi | ConfigValidationCode_kNodeId | ConfigValidationCode_kBackendUrl
  | ConfigValidationCode_kBearerToken | ConfigValidationCode_kRadio | ConfigValidationCode_kBackendPolicy
  | ConfigValidationCode_kWifiPolicy | ConfigValidationCode_kHeartbeatPolicy


section \<open>Validation\<close>

definition is_digit :: "byte \<Rightarrow> bool" where "is_digit c \<longleftrightarrow> 0x30 \<le> c \<and> c \<le> 0x39"
definition alphanumeric :: "byte \<Rightarrow> bool" where
  "alphanumeric c \<longleftrightarrow> 0x41 \<le> c \<and> c \<le> 0x5A \<or> 0x61 \<le> c \<and> c \<le> 0x7A \<or> is_digit c"
definition hexadecimal :: "byte \<Rightarrow> bool" where
  "hexadecimal c \<longleftrightarrow> 0x41 \<le> c \<and> c \<le> 0x46 \<or> 0x61 \<le> c \<and> c \<le> 0x66 \<or> is_digit c"
definition iscntrl :: "byte \<Rightarrow> bool" where "iscntrl c \<longleftrightarrow> c < 0x20 \<or> c = 0x7F"
definition isspace :: "byte \<Rightarrow> bool" where "isspace c \<longleftrightarrow> c = 0x20 \<or> 0x09 \<le> c \<and> c \<le> 0x0D"

definition validBandwidth :: "(f32 \<Rightarrow> f32 \<Rightarrow> f32) \<Rightarrow> f32 \<Rightarrow> bool" where
  "validBandwidth fsub v = list_ex (\<lambda>candidate. f32_less (fabsf (fsub v candidate)) 0x3D75C28F)
     [0x40F9999A, 0x41266666, 0x4179999A, 0x41A66666, 0x41FA0000, 0x4226CCCD, 0x427A0000, 0x42FA0000, 0x437A0000]"

definition identifierValid :: "byte list option \<Rightarrow> nat \<Rightarrow> bool" where
  "identifierValid value capacity =
     (case value of None \<Rightarrow> False
      | Some s \<Rightarrow> let len = strnlen s capacity in
          if len = 0 \<or> capacity \<le> len then False
          else list_all (\<lambda>c. alphanumeric c \<or> c = 0x2D \<or> c = 0x5F) (take len s))"

definition boundedCString :: "byte list option \<Rightarrow> nat \<Rightarrow> bool" where
  "boundedCString value capacity = (case value of None \<Rightarrow> False | Some s \<Rightarrow> strnlen s capacity < capacity)"

definition containsControlOrSpace :: "byte list option \<Rightarrow> bool" where
  "containsControlOrSpace value =
     (case value of None \<Rightarrow> True | Some s \<Rightarrow> list_ex (\<lambda>c. iscntrl c \<or> isspace c) (cstr s))"

fun port_loop :: "u32 \<Rightarrow> byte list \<Rightarrow> u32 option" where
  "port_loop port [] = Some port"
| "port_loop port (c # cs) =
     (if c < 0x30 \<or> 0x39 < c then None
      else let port = port * 10 + ucast (c - 0x30) in if 65535 < port then None else port_loop port cs)"

definition decimalPortValid :: "byte list \<Rightarrow> bool" where
  "decimalPortValid s = (if s = [] then False else case port_loop 0 s of None \<Rightarrow> False | Some port \<Rightarrow> 0 < port)"

text \<open>The loop of \<open>dnsHostValid\<close>: \<open>prev\<close> is \<open>cursor[-1]\<close>; the result is \<open>labelStart\<close>, or
  \<open>None\<close> for the early return.\<close>

fun dns_loop :: "bool \<Rightarrow> byte \<Rightarrow> byte list \<Rightarrow> bool option" where
  "dns_loop labelStart prev [] = Some labelStart"
| "dns_loop labelStart prev (c # cs) =
     (if alphanumeric c then dns_loop False c cs
      else if c = 0x2D \<and> \<not> labelStart \<and> cs \<noteq> [] \<and> hd cs \<noteq> 0x2E then dns_loop labelStart c cs
      else if c = 0x2E \<and> \<not> labelStart \<and> prev \<noteq> 0x2D then dns_loop True c cs
      else None)"

definition dnsHostValid :: "byte list \<Rightarrow> bool" where
  "dnsHostValid s = (if s = [] then False else
     case dns_loop True 0 s of None \<Rightarrow> False | Some labelStart \<Rightarrow> \<not> labelStart \<and> last s \<noteq> 0x2D)"

definition authorityValid :: "byte list \<Rightarrow> bool" where
  "authorityValid s =
     (case s of [] \<Rightarrow> False
      | c # cs \<Rightarrow>
         if c = 0x5B then
           let inner = takeWhile (\<lambda>c. c \<noteq> 0x5D) cs; after = tl (dropWhile (\<lambda>c. c \<noteq> 0x5D) cs) in
           if 0x5D \<notin> set cs \<or> inner = [] then False
           else if \<not> list_all (\<lambda>c. hexadecimal c \<or> c = 0x3A \<or> c = 0x2E) inner then False
           else if after = [] then True
           else hd after = 0x3A \<and> decimalPortValid (tl after)
         else
           let host = takeWhile (\<lambda>c. c \<noteq> 0x3A) s in
           if \<not> dnsHostValid host then False
           else 0x3A \<notin> set s \<or> decimalPortValid (tl (dropWhile (\<lambda>c. c \<noteq> 0x3A) s)))"

definition gatewayIdValid :: "byte list option \<Rightarrow> bool" where
  "gatewayIdValid gatewayId = identifierValid gatewayId kGatewayIdCapacity"

definition backendUrlValid :: "byte list option \<Rightarrow> bool" where
  "backendUrlValid url =
     (if \<not> boundedCString url kBackendUrlCapacity then False
      else let u = cstr (the url); http = take 7 u = ascii ''http://''; https = take 8 u = ascii ''https://'' in
      if length u < 10 then False
      else if \<not> http \<and> \<not> https then False
      else let authority = drop (if https then 8 else 7) u in
      if authority = [] \<or> 0x40 \<in> set authority \<or> 0x3F \<in> set authority \<or> 0x23 \<in> set authority then False
      else if \<not> authorityValid (takeWhile (\<lambda>c. c \<noteq> 0x2F) authority) \<or> 0x5C \<in> set authority then False
      else if list_ex (\<lambda>c. iscntrl c \<or> isspace c) u then False
      else last u \<noteq> 0x2F)"

definition radioConfigEqual :: "(f32 \<Rightarrow> f32 \<Rightarrow> f32) \<Rightarrow> RadioConfig \<Rightarrow> RadioConfig \<Rightarrow> bool" where
  "radioConfigEqual fsub a b \<longleftrightarrow>
     f32_less (fabsf (fsub (r_frequencyMhz a) (r_frequencyMhz b))) 0x3A83126F \<and>
     f32_less (fabsf (fsub (r_bandwidthKhz a) (r_bandwidthKhz b))) 0x3C23D70A \<and>
     r_spreadingFactor a = r_spreadingFactor b \<and> r_codingRateDenominator a = r_codingRateDenominator b \<and>
     r_txPowerDbm a = r_txPowerDbm b \<and> r_syncWord a = r_syncWord b"

definition validateConfig :: "(f32 \<Rightarrow> f32 \<Rightarrow> f32) \<Rightarrow> GatewayConfig \<Rightarrow> ConfigValidationCode \<times> string" where
  "validateConfig fsub c =
     (if gc_schemaVersion c \<noteq> kConfigSchemaVersion
      then (ConfigValidationCode_kSchema, ''unsupported configuration schema'')
      else if \<not> gatewayIdValid (Some (gc_gatewayId c))
      then (ConfigValidationCode_kGatewayId, ''gatewayId must be 1-48 ASCII letters, digits, '' @ [CHR 0x27, CHR ''-'', CHR 0x27] @ '' or '' @ [CHR 0x27, CHR ''_'', CHR 0x27])
      else if \<not> boundedCString (Some (gc_wifiSsid c)) kWifiSsidCapacity \<or>
        \<not> boundedCString (Some (gc_wifiPassword c)) kWifiPasswordCapacity \<or>
        gc_wifiSsid c ! 0 = 0 \<and> gc_wifiPassword c ! 0 \<noteq> 0 \<or>
        gc_wifiPassword c ! 0 \<noteq> 0 \<and> length (cstr (gc_wifiPassword c)) < 8
      then (ConfigValidationCode_kWifi, ''invalid Wi-Fi credentials'')
      else if gc_pairedNodeId c ! 0 \<noteq> 0 \<and> \<not> nodeIdValid (Some (gc_pairedNodeId c))
      then (ConfigValidationCode_kNodeId, ''pairedNodeId must be empty or 1-24 ASCII letters, digits, '' @ [CHR 0x27, CHR ''-'', CHR 0x27] @ '' or '' @ [CHR 0x27, CHR ''_'', CHR 0x27])
      else if \<not> backendUrlValid (Some (gc_backendBaseUrl c))
      then (ConfigValidationCode_kBackendUrl, ''backend URL must be an http:// or https:// base URL without credentials or trailing slash'')
      else if \<not> boundedCString (Some (gc_backendBearerToken c)) kBearerTokenCapacity \<or>
        containsControlOrSpace (Some (gc_backendBearerToken c))
      then (ConfigValidationCode_kBearerToken, ''backend token must be bounded and contain no whitespace'')
      else let r = gc_radio c in
      if \<not> isfinite (r_frequencyMhz r) \<or> f32_less (r_frequencyMhz r) 0x43CD0000 \<or> f32_less 0x44034000 (r_frequencyMhz r) \<or>
        \<not> validBandwidth fsub (r_bandwidthKhz r) \<or> r_spreadingFactor r < 7 \<or> 12 < r_spreadingFactor r \<or>
        r_codingRateDenominator r < 5 \<or> 8 < r_codingRateDenominator r \<or> sint (r_txPowerDbm r) < 2 \<or> 20 < sint (r_txPowerDbm r)
      then (ConfigValidationCode_kRadio, ''invalid SX1278 radio setting'')
      else if gc_backendBatchSize c = 0 \<or> kBackendMaximumBatchSize < unat (gc_backendBatchSize c) \<or>
        gc_backendHttpTimeoutMs c < 1000 \<or> 30000 < gc_backendHttpTimeoutMs c \<or>
        gc_backendInitialBackoffMs c < 1000 \<or> 60000 < gc_backendInitialBackoffMs c \<or>
        gc_backendMaximumBackoffMs c < gc_backendInitialBackoffMs c \<or> 300000 < gc_backendMaximumBackoffMs c
      then (ConfigValidationCode_kBackendPolicy, ''invalid backend batching/timeout/backoff policy'')
      else if gc_wifiReconnectIntervalMs c < 5000 \<or> 300000 < gc_wifiReconnectIntervalMs c \<or>
        gc_wifiFallbackAfterMs c < 15000 \<or> 3600000 < gc_wifiFallbackAfterMs c \<or> 300000 < gc_wifiApGraceMs c
      then (ConfigValidationCode_kWifiPolicy, ''invalid Wi-Fi reconnect/fallback policy'')
      else if gc_heartbeatIntervalSeconds c < kMinimumHeartbeatIntervalSeconds \<or>
        kMaximumHeartbeatIntervalSeconds < gc_heartbeatIntervalSeconds c
      then (ConfigValidationCode_kHeartbeatPolicy, ''heartbeat interval must be 15-3600 seconds'')
      else (ConfigValidationCode_kOk, ''ok''))"

definition configOk :: "(f32 \<Rightarrow> f32 \<Rightarrow> f32) \<Rightarrow> GatewayConfig \<Rightarrow> bool" where
  "configOk fsub c \<longleftrightarrow> fst (validateConfig fsub c) = ConfigValidationCode_kOk"

definition migrateConfigV1 :: "(f32 \<Rightarrow> f32 \<Rightarrow> f32) \<Rightarrow> GatewayConfigV1 \<Rightarrow> GatewayConfig option" where
  "migrateConfigV1 fsub legacy =
     (if gc_schemaVersion legacy \<noteq> 1 then None
      else let candidate = GatewayConfig_init
        \<lparr>gc_schemaVersion := kConfigSchemaVersion,
         gc_gatewayId := gc_gatewayId legacy, gc_wifiSsid := gc_wifiSsid legacy,
         gc_wifiPassword := gc_wifiPassword legacy, gc_pairedNodeId := gc_pairedNodeId legacy,
         gc_backendBaseUrl := gc_backendBaseUrl legacy, gc_backendBearerToken := gc_backendBearerToken legacy,
         gc_radio := gc_radio legacy, gc_backendBatchSize := gc_backendBatchSize legacy,
         gc_backendHttpTimeoutMs := gc_backendHttpTimeoutMs legacy,
         gc_backendInitialBackoffMs := gc_backendInitialBackoffMs legacy,
         gc_backendMaximumBackoffMs := gc_backendMaximumBackoffMs legacy,
         gc_wifiReconnectIntervalMs := gc_wifiReconnectIntervalMs legacy,
         gc_wifiFallbackAfterMs := gc_wifiFallbackAfterMs legacy, gc_wifiApGraceMs := gc_wifiApGraceMs legacy,
         gc_heartbeatIntervalSeconds := kDefaultHeartbeatIntervalSeconds\<rparr> in
      if \<not> configOk fsub candidate then None else Some candidate)"


section \<open>The blob in NVS\<close>

text \<open>The memory image of the struct: offsets 0, 2, 51, 84, 149, 174, 335, 464 (radio), 476, 480 and on.\<close>

definition radio_image :: "RadioConfig \<Rightarrow> byte list" where
  "radio_image r = le32 (r_frequencyMhz r) @ le32 (r_bandwidthKhz r) @
     [r_spreadingFactor r, r_codingRateDenominator r, r_txPowerDbm r, r_syncWord r]"

definition config_image :: "GatewayConfig \<Rightarrow> byte list" where
  "config_image c = le16 (gc_schemaVersion c) @ gc_gatewayId c @ gc_wifiSsid c @ gc_wifiPassword c @ gc_pairedNodeId c @
     gc_backendBaseUrl c @ gc_backendBearerToken c @ radio_image (gc_radio c) @ [gc_backendBatchSize c] @ gc_pad c @
     le32 (gc_backendHttpTimeoutMs c) @ le32 (gc_backendInitialBackoffMs c) @ le32 (gc_backendMaximumBackoffMs c) @
     le32 (gc_wifiReconnectIntervalMs c) @ le32 (gc_wifiFallbackAfterMs c) @ le32 (gc_wifiApGraceMs c) @
     le32 (gc_heartbeatIntervalSeconds c)"

definition sizeof_GatewayConfig :: nat where "sizeof_GatewayConfig = 508"
definition sizeof_GatewayConfigV1 :: nat where "sizeof_GatewayConfigV1 = 504"

definition slice :: "byte list \<Rightarrow> nat \<Rightarrow> nat \<Rightarrow> byte list" where
  "slice b i n = take n (drop i b)"

definition image_configV1 :: "byte list \<Rightarrow> GatewayConfigV1" where
  "image_configV1 b = \<lparr>gc_schemaVersion = le16_at b 0, gc_gatewayId = slice b 2 49, gc_wifiSsid = slice b 51 33,
     gc_wifiPassword = slice b 84 65, gc_pairedNodeId = slice b 149 25, gc_backendBaseUrl = slice b 174 161,
     gc_backendBearerToken = slice b 335 129,
     gc_radio = \<lparr>r_frequencyMhz = le32_at b 464, r_bandwidthKhz = le32_at b 468, r_spreadingFactor = b ! 472,
       r_codingRateDenominator = b ! 473, r_txPowerDbm = b ! 474, r_syncWord = b ! 475\<rparr>,
     gc_backendBatchSize = b ! 476, gc_pad = slice b 477 3, gc_backendHttpTimeoutMs = le32_at b 480,
     gc_backendInitialBackoffMs = le32_at b 484, gc_backendMaximumBackoffMs = le32_at b 488,
     gc_wifiReconnectIntervalMs = le32_at b 492, gc_wifiFallbackAfterMs = le32_at b 496, gc_wifiApGraceMs = le32_at b 500\<rparr>"

definition image_config :: "byte list \<Rightarrow> GatewayConfig" where
  "image_config b = GatewayConfigV1.extend (image_configV1 b) \<lparr>gc_heartbeatIntervalSeconds = le32_at b 504\<rparr>"


section \<open>The store\<close>

record ConfigStore =
  cs_config :: GatewayConfig
  cs_bootCount :: u32
  cs_healthy :: bool
  cs_bootCountHealthy :: bool
  cs_migratedLegacyConfig :: bool

definition ConfigStore_init :: ConfigStore where
  "ConfigStore_init = \<lparr>cs_config = GatewayConfig_init, cs_bootCount = 0, cs_healthy = False,
     cs_bootCountHealthy = False, cs_migratedLegacyConfig = False\<rparr>"

definition config_save ::
  "(f32 \<Rightarrow> f32 \<Rightarrow> f32) \<Rightarrow> 'n preferences_api \<Rightarrow> GatewayConfig \<Rightarrow> ConfigStore \<times> 'n \<Rightarrow> bool \<times> ConfigStore \<times> 'n" where
  "config_save fsub P config = (\<lambda>(s, n).
     if \<not> configOk fsub config then (False, s, n)
     else case pf_putBytes P ''config'' (config_image config) n of (written, n) \<Rightarrow>
       if written \<noteq> sizeof_GatewayConfig then (False, s, n)
       else (True, s\<lparr>cs_config := config\<rparr>, n))"

text \<open>The first part of \<open>begin\<close>: the three branches that settle the configuration.\<close>

definition config_load ::
  "(f32 \<Rightarrow> f32 \<Rightarrow> f32) \<Rightarrow> 'n preferences_api \<Rightarrow> byte list option \<Rightarrow> ConfigStore \<times> 'n \<Rightarrow> bool \<times> ConfigStore \<times> 'n" where
  "config_load fsub P derivedGatewayId = (\<lambda>(s, n).
     let storedSize = pf_getBytesLength P ''config'' n;
         bytes = pf_getBytes P ''config'' sizeof_GatewayConfig n in
     if storedSize = sizeof_GatewayConfig \<and> length bytes = sizeof_GatewayConfig \<and> configOk fsub (image_config bytes)
     then (True, s\<lparr>cs_config := image_config bytes\<rparr>, n)
     else if storedSize = sizeof_GatewayConfigV1
     then let bytes = pf_getBytes P ''config'' sizeof_GatewayConfigV1 n in
       if length bytes \<noteq> sizeof_GatewayConfigV1 then (False, s, n)
       else (case migrateConfigV1 fsub (image_configV1 bytes) of
           None \<Rightarrow> (False, s, n)
         | Some loaded \<Rightarrow>
             (case config_save fsub P loaded (s, n) of
                (False, s, n) \<Rightarrow> (False, s, n)
              | (True, s, n) \<Rightarrow> (True, s\<lparr>cs_migratedLegacyConfig := True\<rparr>, n)))
     else let s = s\<lparr>cs_config := setDefaults derivedGatewayId\<rparr> in config_save fsub P (cs_config s) (s, n))"

definition config_begin ::
  "(f32 \<Rightarrow> f32 \<Rightarrow> f32) \<Rightarrow> 'n preferences_api \<Rightarrow> byte list option \<Rightarrow> ConfigStore \<times> 'n \<Rightarrow> bool \<times> ConfigStore \<times> 'n" where
  "config_begin fsub P derivedGatewayId = (\<lambda>(s, n).
     case pf_begin P ''gathra-gw'' False n of
       (False, n) \<Rightarrow> (False, s, n)
     | (True, n) \<Rightarrow>
     case config_load fsub P derivedGatewayId (s, n) of
       (False, s, n) \<Rightarrow> (False, s, n)
     | (True, s, n) \<Rightarrow>
     let previousBootCount = pf_getUInt P ''boot-count'' 0 n;
         s = s\<lparr>cs_bootCount := (if previousBootCount = UINT32_MAX then UINT32_MAX else previousBootCount + 1)\<rparr>;
         (okay, n) = (if previousBootCount = UINT32_MAX then (True, n)
                      else case pf_putUInt P ''boot-count'' (cs_bootCount s) n of (written, n) \<Rightarrow> (written = 4, n))
     in (True, s\<lparr>cs_bootCountHealthy := okay, cs_healthy := True\<rparr>, n))"


section \<open>The grammar of hosts, ports and URLs\<close>

text \<open>What the loops accept, as grammars: a host is a dot-separated list of labels of letters, digits
  and inner hyphens; a port is a decimal number between 1 and 65535.\<close>

definition label_char :: "byte \<Rightarrow> bool" where "label_char c \<longleftrightarrow> alphanumeric c \<or> c = 0x2D"

definition dns_label :: "byte list \<Rightarrow> bool" where
  "dns_label l \<longleftrightarrow> l \<noteq> [] \<and> list_all label_char l \<and> hd l \<noteq> 0x2D \<and> last l \<noteq> 0x2D"

fun split_dots :: "byte list \<Rightarrow> byte list list" where
  "split_dots [] = [[]]"
| "split_dots (c # cs) = (if c = 0x2E then [] # split_dots cs
                          else (c # hd (split_dots cs)) # tl (split_dots cs))"

definition dns_host :: "byte list \<Rightarrow> bool" where "dns_host s = list_all dns_label (split_dots s)"

definition decimal :: "byte list \<Rightarrow> nat" where "decimal s = foldl (\<lambda>a c. a * 10 + unat (c - 0x30)) 0 s"

definition port_number :: "byte list \<Rightarrow> bool" where
  "port_number s \<longleftrightarrow> list_all is_digit s \<and> 0 < decimal s \<and> decimal s \<le> 65535"

lemma alphanumeric_simps [simp]: "\<not> alphanumeric 0x2D" "\<not> alphanumeric 0x2E" "\<not> alphanumeric 0x3A" "\<not> alphanumeric 0x5B"
  by (simp_all add: alphanumeric_def is_digit_def)

lemma split_dots_nonempty [simp]: "split_dots s \<noteq> []"
  by (cases s) auto

lemma split_dots_first: "hd (split_dots s) = takeWhile (\<lambda>c. c \<noteq> 0x2E) s"
  by (induction s) auto

lemma dns_loop_within:
  assumes "prev = 0x2D \<longrightarrow> s \<noteq> [] \<and> hd s \<noteq> 0x2E"
  shows "dns_loop False prev s = Some False \<longleftrightarrow>
    list_all label_char (hd (split_dots s)) \<and> (hd (split_dots s) \<noteq> [] \<longrightarrow> last (hd (split_dots s)) \<noteq> 0x2D) \<and>
    list_all dns_label (tl (split_dots s))"
    and "dns_loop True prev s = Some False \<longleftrightarrow> dns_host s"
  using assms
proof (induction s arbitrary: prev)
  case (Cons c cs)
  {
    case 1
    consider (alnum) "alphanumeric c" | (hyphen) "c = 0x2D" | (dot) "c = 0x2E"
      | (other) "\<not> alphanumeric c" "c \<noteq> 0x2D" "c \<noteq> 0x2E" by blast
    then show ?case
    proof cases
      case alnum
      then have "c \<noteq> 0x2D" "c \<noteq> 0x2E" by auto
      then show ?thesis using alnum Cons.IH(1)[of c] by (auto simp: label_char_def)
    next
      case hyphen
      show ?thesis
      proof (cases "cs \<noteq> [] \<and> hd cs \<noteq> 0x2E")
        case True
        then have "hd (split_dots cs) \<noteq> []" by (cases cs) auto
        then show ?thesis using hyphen True Cons.IH(1)[of c] by (auto simp: label_char_def)
      next
        case False
        then have "hd (split_dots cs) = []" by (cases cs) auto
        then show ?thesis using hyphen False by auto
      qed
    next
      case dot
      then show ?thesis using 1 Cons.IH(2)[of c] by (auto simp: dns_host_def)
    next
      case other
      then show ?thesis by (auto simp: label_char_def)
    qed
  next
    case 2
    have "dns_label (c # hd (split_dots cs)) \<longleftrightarrow> alphanumeric c \<and> list_all label_char (hd (split_dots cs)) \<and>
      (hd (split_dots cs) \<noteq> [] \<longrightarrow> last (hd (split_dots cs)) \<noteq> 0x2D)"
      by (auto simp: dns_label_def label_char_def)
    moreover have "alphanumeric c \<Longrightarrow> c \<noteq> 0x2D \<and> c \<noteq> 0x2E" by auto
    moreover have "\<not> dns_label []" by (simp add: dns_label_def)
    ultimately show ?case using Cons.IH(1)[of c] by (auto simp: dns_host_def)
  }
qed (simp_all add: dns_host_def dns_label_def)

lemma split_dots_last: "s \<noteq> [] \<Longrightarrow> last s \<noteq> 0x2E \<Longrightarrow> last (last (split_dots s)) = last s \<and> last (split_dots s) \<noteq> []"
proof (induction s)
  case (Cons c cs)
  show ?case
  proof (cases "cs = []")
    case False
    then have IH: "last (last (split_dots cs)) = last cs \<and> last (split_dots cs) \<noteq> []" using Cons by auto
    show ?thesis
    proof (cases "tl (split_dots cs) = []")
      case True
      then have "last (split_dots cs) = hd (split_dots cs)" by (cases "split_dots cs") auto
      then show ?thesis using IH True False by auto
    next
      case tl: False
      then have "last (tl (split_dots cs)) = last (split_dots cs)" by (simp add: last_tl)
      then show ?thesis using IH tl False by auto
    qed
  qed (use Cons.prems in auto)
qed simp

lemma dnsHostValid_iff: "dnsHostValid s \<longleftrightarrow> dns_host s"
proof -
  have "last s \<noteq> 0x2D \<and> s \<noteq> []" if "dns_host s"
  proof -
    have "last (split_dots s) \<in> set (split_dots s)" by simp
    then have l: "dns_label (last (split_dots s))" using that by (auto simp: dns_host_def list_all_iff)
    have ne: "s \<noteq> []" using that by (auto simp: dns_host_def dns_label_def)
    show ?thesis
    proof (cases "last s = 0x2E")
      case False then show ?thesis using split_dots_last[OF ne False] l ne by (simp add: dns_label_def)
    qed (use ne in simp)
  qed
  then show ?thesis using dns_loop_within(2)[of 0 s]
    by (auto simp: dnsHostValid_def split: option.splits)
qed

lemma port_loop_decimal:
  assumes "unat p \<le> 65535"
  shows "port_loop p s = Some q \<longleftrightarrow>
    list_all is_digit s \<and> foldl (\<lambda>a c. a * 10 + unat (c - 0x30)) (unat p) s \<le> 65535 \<and>
    unat q = foldl (\<lambda>a c. a * 10 + unat (c - 0x30)) (unat p) s"
  using assms
proof (induction s arbitrary: p)
  case Nil
  then show ?case by (auto simp: word_unat_eq_iff)
next
  case (Cons c cs)
  let ?val = "\<lambda>p cs. foldl (\<lambda>a c. a * 10 + unat (c - 0x30 :: byte)) p cs"
  have mono: "n \<le> ?val n xs" for n xs
  proof (induction xs arbitrary: n)
    case (Cons x xs)
    have "n \<le> n * 10 + unat (x - 0x30)" by simp
    also have "\<dots> \<le> ?val n (x # xs)" using Cons by simp
    finally show ?case .
  qed simp
  show ?case
  proof (cases "is_digit c")
    case True
    have d: "unat (c - 0x30) \<le> 9"
      using True by (auto simp: is_digit_def word_le_nat_alt unat_sub)
    have u: "unat (p * 10 + ucast (c - 0x30) :: u32) = unat p * 10 + unat (c - 0x30)"
    proof -
      have "unat (p * 10 :: u32) = unat p * 10" using Cons.prems by (simp add: unat_mult_lem[THEN iffD1])
      moreover have "unat (ucast (c - 0x30) :: u32) = unat (c - 0x30)" using d by (simp add: unsigned_ucast_eq take_bit_nat_eq_self)
      ultimately show ?thesis using Cons.prems d by (subst unat_add_lem[THEN iffD1]) auto
    qed
    have lt: "(65535 < (p * 10 + ucast (c - 0x30) :: u32)) \<longleftrightarrow> 65535 < unat p * 10 + unat (c - 0x30)"
      unfolding word_less_nat_alt u by simp
    have c: "\<not> (c < 0x30 \<or> 0x39 < c)" using True by (auto simp: is_digit_def)
    show ?thesis
      using Cons.IH[of "p * 10 + ucast (c - 0x30)"] lt u True c mono[of "unat p * 10 + unat (c - 0x30)" cs]
      by (auto simp: Let_def)
  next
    case False
    then have "c < 0x30 \<or> 0x39 < c" by (auto simp: is_digit_def)
    then show ?thesis using False by simp
  qed
qed

lemma decimalPortValid_iff: "decimalPortValid s \<longleftrightarrow> port_number s"
proof -
  have "port_loop 0 s = Some q \<longleftrightarrow> list_all is_digit s \<and> decimal s \<le> 65535 \<and> unat q = decimal s" for q
    using port_loop_decimal[of 0 s q] by (simp add: decimal_def)
  moreover have "\<exists>q::u32. unat q = decimal s" if "decimal s \<le> 65535"
    using that by (intro exI[of _ "of_nat (decimal s)"]) (simp add: unat_of_nat)
  moreover have "decimal [] = 0" by (simp add: decimal_def)
  ultimately show ?thesis
    by (auto simp: decimalPortValid_def port_number_def word_less_nat_alt split: option.splits)
qed


definition port_suffix :: "byte list \<Rightarrow> bool" where
  "port_suffix p \<longleftrightarrow> p = [] \<or> hd p = 0x3A \<and> port_number (tl p)"

definition ip_literal :: "byte list \<Rightarrow> bool" where
  "ip_literal h \<longleftrightarrow> (\<exists>inner. h = 0x5B # inner @ [0x5D] \<and> inner \<noteq> [] \<and> list_all (\<lambda>c. hexadecimal c \<or> c = 0x3A \<or> c = 0x2E) inner)"

definition url_authority :: "byte list \<Rightarrow> bool" where
  "url_authority s \<longleftrightarrow> (\<exists>host port. s = host @ port \<and> port_suffix port \<and> (dns_host host \<or> ip_literal host))"

lemma split_dots_chars: "c \<in> set s \<Longrightarrow> c = 0x2E \<or> (\<exists>l \<in> set (split_dots s). c \<in> set l)"
proof (induction s)
  case (Cons x s)
  have "set (split_dots s) = insert (hd (split_dots s)) (set (tl (split_dots s)))"
    by (metis list.collapse list.simps(15) split_dots_nonempty)
  then show ?case using Cons by auto
qed simp

lemma dns_host_chars: "dns_host s \<Longrightarrow> c \<in> set s \<Longrightarrow> alphanumeric c \<or> c = 0x2D \<or> c = 0x2E"
  using split_dots_chars[of c s] by (auto simp: dns_host_def dns_label_def label_char_def list_all_iff)

lemma dns_host_start: "dns_host s \<Longrightarrow> s \<noteq> [] \<and> hd s \<noteq> 0x5B \<and> 0x3A \<notin> set s"
proof -
  assume h: "dns_host s"
  have "s \<noteq> []" using h by (auto simp: dns_host_def dns_label_def)
  moreover from this have "hd s \<in> set s" by simp
  ultimately show ?thesis using dns_host_chars[OF h, of "hd s"] dns_host_chars[OF h, of "0x3A"] by auto
qed

lemma takeWhile_split: "x \<in> set s \<Longrightarrow> s = takeWhile (\<lambda>c. c \<noteq> x) s @ x # tl (dropWhile (\<lambda>c. c \<noteq> x) s)"
  by (induction s) auto

lemma takeWhile_unsplit: "x \<notin> set a \<Longrightarrow> takeWhile (\<lambda>c. c \<noteq> x) (a @ x # b) = a" "x \<notin> set a \<Longrightarrow> dropWhile (\<lambda>c. c \<noteq> x) (a @ x # b) = x # b"
  by (induction a) auto

lemma hexadecimal_bracket: "list_all (\<lambda>c. hexadecimal c \<or> c = 0x3A \<or> c = 0x2E) inner \<Longrightarrow> 0x5D \<notin> set inner"
  by (auto simp: list_all_iff hexadecimal_def is_digit_def)

lemma authorityValid_literal: "authorityValid (0x5B # cs) \<longleftrightarrow> (\<exists>host port. 0x5B # cs = host @ port \<and> port_suffix port \<and> ip_literal host)"
  (is "?l \<longleftrightarrow> ?r")
proof
  assume ?l
  then have mem: "0x5D \<in> set cs" and ok: "takeWhile (\<lambda>c. c \<noteq> 0x5D) cs \<noteq> []"
      "list_all (\<lambda>c. hexadecimal c \<or> c = 0x3A \<or> c = 0x2E) (takeWhile (\<lambda>c. c \<noteq> 0x5D) cs)"
      "port_suffix (tl (dropWhile (\<lambda>c. c \<noteq> 0x5D) cs))"
    by (auto simp: authorityValid_def Let_def port_suffix_def decimalPortValid_iff split: if_splits)
  have "0x5B # cs = (0x5B # takeWhile (\<lambda>c. c \<noteq> 0x5D) cs @ [0x5D]) @ tl (dropWhile (\<lambda>c. c \<noteq> 0x5D) cs)"
    using takeWhile_split[OF mem] by simp
  then show ?r using ok unfolding ip_literal_def by blast
next
  assume ?r
  then obtain inner port where s: "cs = inner @ 0x5D # port" and ok: "inner \<noteq> []" "port_suffix port"
      "list_all (\<lambda>c. hexadecimal c \<or> c = 0x3A \<or> c = 0x2E) inner" by (auto simp: ip_literal_def)
  note inner = takeWhile_unsplit[OF hexadecimal_bracket[OF ok(3)], of port]
  show ?l using ok by (auto simp: authorityValid_def Let_def s inner port_suffix_def decimalPortValid_iff)
qed

lemma authorityValid_name:
  assumes "hd s \<noteq> 0x5B" "s \<noteq> []"
  shows "authorityValid s \<longleftrightarrow> (\<exists>host port. s = host @ port \<and> port_suffix port \<and> dns_host host)"
    (is "?l \<longleftrightarrow> ?r")
proof -
  obtain c cs where s: "s = c # cs" "c \<noteq> 0x5B" using assms by (cases s) auto
  have eq: "?l \<longleftrightarrow> dns_host (takeWhile (\<lambda>c. c \<noteq> 0x3A) s) \<and> (0x3A \<notin> set s \<or> port_number (tl (dropWhile (\<lambda>c. c \<noteq> 0x3A) s)))"
    by (simp add: authorityValid_def s Let_def dnsHostValid_iff decimalPortValid_iff)
  show ?thesis
  proof (cases "0x3A \<in> set s")
    case True
    show ?thesis
    proof
      assume ?l
      then have "port_suffix (0x3A # tl (dropWhile (\<lambda>c. c \<noteq> 0x3A) s))" using eq True by (simp add: port_suffix_def)
      moreover have "dns_host (takeWhile (\<lambda>c. c \<noteq> 0x3A) s)" using \<open>?l\<close> eq by simp
      moreover note takeWhile_split[OF True]
      ultimately show ?r by blast
    next
      assume ?r
      then obtain host port where hp: "s = host @ port" "port_suffix port" "dns_host host" by blast
      then have "0x3A \<notin> set host" "port \<noteq> []" using dns_host_start True by auto
      then show ?l using hp True takeWhile_unsplit[of "0x3A" host "tl port"] unfolding eq
        by (cases port) (auto simp: port_suffix_def)
    qed
  next
    case False
    then have "takeWhile (\<lambda>c. c \<noteq> 0x3A) s = s" unfolding takeWhile_eq_all_conv by blast
    moreover have "port = []" if "s = host @ port" "port_suffix port" for host port
      using that False by (cases port) (auto simp: port_suffix_def)
    moreover have "port_suffix []" by (simp add: port_suffix_def)
    ultimately show ?thesis using eq False by (metis append_Nil2)
  qed
qed

lemma authorityValid_iff: "authorityValid s \<longleftrightarrow> url_authority s"
proof (cases "s = []")
  case True
  then show ?thesis using dns_host_start[of "[]"] by (auto simp: authorityValid_def url_authority_def ip_literal_def)
next
  case False
  have lit: "hd host = 0x5B \<and> host \<noteq> []" if "ip_literal host" for host using that by (auto simp: ip_literal_def)
  show ?thesis
  proof (cases "hd s = 0x5B")
    case True
    then obtain cs where "s = 0x5B # cs" using False by (cases s) auto
    moreover have "\<not> dns_host host" if "s = host @ port" for host port
      using that True dns_host_start[of host] by (cases host) auto
    ultimately show ?thesis unfolding url_authority_def by (metis authorityValid_literal)
  next
    case name: False
    have "\<not> ip_literal host" if "s = host @ port" for host port using lit[of host] that name by (cases host) auto
    then show ?thesis unfolding url_authority_def authorityValid_name[OF name False] by metis
  qed
qed


lemma take_cstr: "cstr (take n s) = take n (cstr s)"
  unfolding cstr_def by (induction s arbitrary: n) (auto simp: take_Cons split: nat.splits)

lemma strnlen_less: "strnlen s n < n \<longleftrightarrow> length (cstr s) < n"
  by (auto simp: strnlen_def take_cstr)

definition url_path_char :: "byte \<Rightarrow> bool" where
  "url_path_char c \<longleftrightarrow> \<not> iscntrl c \<and> \<not> isspace c \<and> c \<notin> {0x40, 0x3F, 0x23, 0x5C}"

definition backend_url :: "byte list \<Rightarrow> bool" where
  "backend_url u \<longleftrightarrow> (\<exists>scheme authority path. u = scheme @ authority @ path \<and>
     scheme \<in> {ascii ''http://'', ascii ''https://''} \<and> url_authority authority \<and>
     (path = [] \<or> hd path = 0x2F \<and> last path \<noteq> 0x2F \<and> list_all url_path_char path))"

lemma alphanumeric_plain: "alphanumeric c \<Longrightarrow> url_path_char c \<and> c \<noteq> 0x2F"
  by (auto simp: alphanumeric_def is_digit_def url_path_char_def iscntrl_def isspace_def word_less_nat_alt word_le_nat_alt)

lemma url_authority_chars:
  assumes "url_authority a" "c \<in> set a"
  shows "url_path_char c \<and> c \<noteq> 0x2F"
proof -
  obtain host port where hp: "a = host @ port" "port_suffix port" "dns_host host \<or> ip_literal host"
    using assms(1) by (auto simp: url_authority_def)
  have punct: "url_path_char 0x2D" "url_path_char 0x2E" "url_path_char 0x3A" "url_path_char 0x5B" "url_path_char 0x5D"
    by (simp_all add: url_path_char_def iscntrl_def isspace_def)
  have digit: "is_digit c \<Longrightarrow> alphanumeric c" "hexadecimal c \<Longrightarrow> alphanumeric c" for c
    by (auto simp: alphanumeric_def hexadecimal_def word_le_nat_alt)
  consider "c \<in> set port" | "c \<in> set host" "dns_host host" | "c \<in> set host" "ip_literal host" using hp assms(2) by auto
  then show ?thesis
  proof cases
    case 1
    then have "c = 0x3A \<or> is_digit c" using hp(2)
      by (cases port) (auto simp: port_suffix_def port_number_def list_all_iff)
    then show ?thesis using punct digit alphanumeric_plain by auto
  next
    case 2
    then show ?thesis using dns_host_chars[of host c] punct alphanumeric_plain[of c] by auto
  next
    case 3
    then have "c \<in> {0x5B, 0x5D, 0x3A, 0x2E} \<or> hexadecimal c" by (auto simp: ip_literal_def list_all_iff)
    then show ?thesis using punct digit alphanumeric_plain[of c] by auto
  qed
qed


lemma scheme_split: "take 7 u = ascii ''http://'' \<Longrightarrow> u = ascii ''http://'' @ drop 7 u"
    "take 8 u = ascii ''https://'' \<Longrightarrow> u = ascii ''https://'' @ drop 8 u"
    "length (ascii ''http://'') = 7" "length (ascii ''https://'') = 8" "ascii ''http://'' \<noteq> take 7 (ascii ''https://'')"
proof -
  show "u = ascii ''http://'' @ drop 7 u" if "take 7 u = ascii ''http://''" using append_take_drop_id[of 7 u] that by argo
  show "u = ascii ''https://'' @ drop 8 u" if "take 8 u = ascii ''https://''" using append_take_drop_id[of 8 u] that by argo
qed (simp_all add: ascii_def)

lemma scheme_chars: "c \<in> set (ascii ''http://'') \<union> set (ascii ''https://'') \<Longrightarrow> \<not> iscntrl c \<and> \<not> isspace c"
  by (auto simp: ascii_def iscntrl_def isspace_def)

text \<open>The rest of the URL after its scheme, as the code checks it.\<close>

definition url_rest_ok :: "byte list \<Rightarrow> bool" where
  "url_rest_ok rest \<longleftrightarrow> rest \<noteq> [] \<and> {0x40, 0x3F, 0x23, 0x5C} \<inter> set rest = {} \<and> authorityValid (takeWhile (\<lambda>c. c \<noteq> 0x2F) rest) \<and>
     \<not> list_ex (\<lambda>c. iscntrl c \<or> isspace c) rest \<and> last rest \<noteq> 0x2F"

lemma url_rest:
  assumes "rest = a @ p" "a = takeWhile (\<lambda>c. c \<noteq> 0x2F) rest"
  shows "url_authority a \<and> (p = [] \<or> hd p = 0x2F \<and> last p \<noteq> 0x2F \<and> list_all url_path_char p) \<longleftrightarrow>
    url_rest_ok rest"
proof (cases "url_authority a")
  case True
  then have a: "a \<noteq> []" by (auto simp: url_authority_def ip_literal_def dest: dns_host_start)
  have chars: "url_path_char c \<and> c \<noteq> 0x2F" if "c \<in> set a" for c using url_authority_chars[OF True that] .
  have "a @ p = a @ dropWhile (\<lambda>c. c \<noteq> 0x2F) rest"
    using takeWhile_dropWhile_id[of "\<lambda>c. c \<noteq> 0x2F" rest] unfolding assms(1)[symmetric] assms(2)[symmetric] by simp
  then have p: "p = dropWhile (\<lambda>c. c \<noteq> 0x2F) rest" by simp
  have hd: "p \<noteq> [] \<Longrightarrow> hd p = 0x2F" unfolding p using hd_dropWhile[of "\<lambda>c. c \<noteq> 0x2F" rest] by blast
  have "list_all url_path_char p \<longleftrightarrow> {0x40, 0x3F, 0x23, 0x5C} \<inter> set rest = {} \<and> \<not> list_ex (\<lambda>c. iscntrl c \<or> isspace c) rest"
    using chars unfolding assms(1) list_all_iff list_ex_iff set_append url_path_char_def by blast
  moreover have "last rest \<noteq> 0x2F \<longleftrightarrow> p = [] \<or> last p \<noteq> 0x2F"
    using chars[of "last a"] a unfolding assms(1) by (cases "p = []") auto
  ultimately show ?thesis using True a hd assms(1)
    unfolding url_rest_ok_def assms(2)[symmetric] by (auto simp: authorityValid_iff)
qed (simp add: url_rest_ok_def assms(2)[symmetric] authorityValid_iff)

lemma backend_url_rest:
  "backend_url u \<longleftrightarrow> (\<exists>scheme rest. u = scheme @ rest \<and> scheme \<in> {ascii ''http://'', ascii ''https://''} \<and> url_rest_ok rest)"
  (is "_ \<longleftrightarrow> ?r")
proof
  assume "backend_url u"
  then obtain scheme a p where u: "u = scheme @ a @ p" "scheme \<in> {ascii ''http://'', ascii ''https://''}" "url_authority a"
      "p = [] \<or> hd p = 0x2F \<and> last p \<noteq> 0x2F \<and> list_all url_path_char p" unfolding backend_url_def by blast
  have "0x2F \<notin> set a" using url_authority_chars[OF u(3)] by blast
  then have all: "takeWhile (\<lambda>c. c \<noteq> 0x2F) a = a" "\<forall>c \<in> set a. c \<noteq> 0x2F" unfolding takeWhile_eq_all_conv by blast+
  have "a = takeWhile (\<lambda>c. c \<noteq> 0x2F) (a @ p)"
  proof (cases p)
    case Nil then show ?thesis using all(1) by (simp only: append_Nil2)
  next
    case (Cons x xs)
    then have "x = 0x2F" using u(4) by simp
    then show ?thesis using all(2) Cons by (simp add: takeWhile_append2)
  qed
  from url_rest[OF refl this] u(3,4) have "url_rest_ok (a @ p)" by blast
  then show ?r using u(1,2) by blast
next
  assume ?r
  then obtain scheme rest where u: "u = scheme @ rest" "scheme \<in> {ascii ''http://'', ascii ''https://''}" "url_rest_ok rest" by blast
  have split: "rest = takeWhile (\<lambda>c. c \<noteq> 0x2F) rest @ dropWhile (\<lambda>c. c \<noteq> 0x2F) rest" by simp
  with u(1) have "u = scheme @ takeWhile (\<lambda>c. c \<noteq> 0x2F) rest @ dropWhile (\<lambda>c. c \<noteq> 0x2F) rest" by (simp only:)
  then show "backend_url u" unfolding backend_url_def using url_rest[OF split refl] u(2,3) by blast
qed

lemma backend_url_scheme:
  assumes "u = sch @ rest" "sch \<in> {ascii ''http://'', ascii ''https://''}"
  shows "backend_url u \<longleftrightarrow> url_rest_ok rest"
proof -
  have "rest' = rest" if "u = sch' @ rest'" "sch' \<in> {ascii ''http://'', ascii ''https://''}" for sch' rest'
    using that assms by (auto simp: ascii_def)
  then show ?thesis unfolding backend_url_rest using assms by blast
qed

lemma backendUrlValid_scheme:
  assumes u: "cstr s = sch @ rest" and sch: "sch \<in> {ascii ''http://'', ascii ''https://''}"
  shows "backendUrlValid (Some s) \<longleftrightarrow> length (cstr s) < kBackendUrlCapacity \<and> 10 \<le> length (cstr s) \<and> url_rest_ok rest"
proof -
  have pick: "(take 7 (cstr s) = ascii ''http://'' \<or> take 8 (cstr s) = ascii ''https://'') \<and>
      drop (if take 8 (cstr s) = ascii ''https://'' then 8 else 7) (cstr s) = rest"
    using assms by (auto simp: ascii_def)
  have ne: "rest \<noteq> [] \<Longrightarrow> last (cstr s) = last rest" using u by simp
  have c: "list_ex (\<lambda>c. iscntrl c \<or> isspace c) (cstr s) = list_ex (\<lambda>c. iscntrl c \<or> isspace c) rest"
    using sch scheme_chars unfolding u list_ex_iff set_append by blast
  have bounded: "boundedCString (Some s) kBackendUrlCapacity \<longleftrightarrow> length (cstr s) < kBackendUrlCapacity"
    by (simp add: boundedCString_def strnlen_less)
  have "backendUrlValid (Some s) \<longleftrightarrow> length (cstr s) < kBackendUrlCapacity \<and> 10 \<le> length (cstr s) \<and>
      \<not> (rest = [] \<or> 0x40 \<in> set rest \<or> 0x3F \<in> set rest \<or> 0x23 \<in> set rest) \<and>
      \<not> (\<not> authorityValid (takeWhile (\<lambda>c. c \<noteq> 0x2F) rest) \<or> 0x5C \<in> set rest) \<and>
      \<not> list_ex (\<lambda>c. iscntrl c \<or> isspace c) rest \<and> last (cstr s) \<noteq> 0x2F"
    using pick c bounded unfolding backendUrlValid_def Let_def option.sel by (auto split: if_splits)
  also have "\<dots> \<longleftrightarrow> length (cstr s) < kBackendUrlCapacity \<and> 10 \<le> length (cstr s) \<and> url_rest_ok rest"
    using ne by (cases "rest = []") (simp_all add: url_rest_ok_def conj_ac)
  finally show ?thesis .
qed

text \<open>C26: the backend URL check accepts exactly the C strings of 10 to 160 bytes that are \<open>http://\<close> or \<open>https://\<close>, then a
  host of dot-separated labels or a bracketed address literal, an optional port between 1 and 65535, and an optional path
  that starts with a slash, does not end with one and holds no user-info, query, fragment, backslash, blank or control
  character.\<close>
theorem backendUrlValid_grammar:
  "backendUrlValid url \<longleftrightarrow> (\<exists>s. url = Some s \<and> 10 \<le> length (cstr s) \<and> length (cstr s) < kBackendUrlCapacity \<and> backend_url (cstr s))"
proof (cases url)
  case (Some s)
  show ?thesis
  proof (cases "take 7 (cstr s) = ascii ''http://'' \<or> take 8 (cstr s) = ascii ''https://''")
    case True
    then obtain sch rest where sr: "cstr s = sch @ rest" "sch \<in> {ascii ''http://'', ascii ''https://''}"
      using scheme_split(1,2)[of "cstr s"] by blast
    show ?thesis using backend_url_scheme[OF sr] backendUrlValid_scheme[OF sr] Some by auto
  next
    case False
    then have "\<not> backendUrlValid url" by (simp add: backendUrlValid_def Some Let_def)
    moreover have "\<not> backend_url (cstr s)" using False unfolding backend_url_def by (auto simp: ascii_def)
    ultimately show ?thesis using Some by simp
  qed
qed (simp add: backendUrlValid_def boundedCString_def)


end
