(* ===== verification/Config_Store.thy ===== *)
theory Config_Store
  imports Gateway_Config
begin

text \<open>
  What loading and saving the configuration guarantees: the memory image of the struct determines it, an
  accepted configuration is the one found in NVS after every later start, a schema-1 blob is carried over
  field by field, and the boot counter grows by one per start until it saturates.
\<close>

section \<open>The image determines the configuration\<close>

definition config_wf :: "GatewayConfig \<Rightarrow> bool" where
  "config_wf c \<longleftrightarrow> length (gc_gatewayId c) = 49 \<and> length (gc_wifiSsid c) = 33 \<and> length (gc_wifiPassword c) = 65 \<and>
     length (gc_pairedNodeId c) = 25 \<and> length (gc_backendBaseUrl c) = 161 \<and> length (gc_backendBearerToken c) = 129 \<and>
     length (gc_pad c) = 3"

named_theorems image_simps "reading fields out of a memory image"

lemma slice_skip [image_simps]: "length a \<le> i \<Longrightarrow> slice (a @ b) i n = slice b (i - length a) n"
  by (simp add: slice_def)
lemma slice_hit [image_simps]: "length a = n \<Longrightarrow> slice (a @ b) 0 n = a"
  by (simp add: slice_def)
lemma slice_skip1 [image_simps]: "0 < i \<Longrightarrow> slice (x # b) i n = slice b (i - 1) n"
  by (cases i) (simp_all add: slice_def)
lemma nth_skip [image_simps]: "length a \<le> i \<Longrightarrow> (a @ b) ! i = b ! (i - length a)"
  by (simp add: nth_append)

lemma le16_skip [image_simps]: "length a \<le> i \<Longrightarrow> le16_at (a @ b) i = le16_at b (i - length a)"
  by (simp add: le16_at_def nth_append Suc_diff_le)
lemma le32_skip [image_simps]: "length a \<le> i \<Longrightarrow> le32_at (a @ b) i = le32_at b (i - length a)"
  by (simp add: le32_at_def nth_append Suc_diff_le)
lemma le32_skip1 [image_simps]: "0 < i \<Longrightarrow> le32_at (x # b) i = le32_at b (i - 1)"
  by (cases i) (simp_all add: le32_at_def add.commute[of 3])
lemma le16_hit [image_simps]: "le16_at (le16 v @ b) 0 = v"
  using le16_at_image[of "[]" 0 v b] by simp
lemma le32_hit [image_simps]: "le32_at (le32 v @ b) 0 = v" "le32_at (le32 v) 0 = v"
  using le32_at_image[of "[]" 0 v b] le32_at_image[of "[]" 0 v "[]"] by simp_all

lemma config_image_length: "config_wf c \<Longrightarrow> length (config_image c) = sizeof_GatewayConfig"
  by (simp add: config_image_def radio_image_def config_wf_def sizeof_GatewayConfig_def)

lemma config_image_roundtrip: "config_wf c \<Longrightarrow> image_config (config_image c) = c"
  by (intro GatewayConfig.equality RadioConfig.equality)
     (simp_all add: image_config_def image_configV1_def config_image_def radio_image_def config_wf_def image_simps GatewayConfigV1.extend_def)


lemma image_config_wf: "length b = sizeof_GatewayConfig \<Longrightarrow> config_wf (image_config b)"
  by (simp add: config_wf_def image_config_def image_configV1_def slice_def sizeof_GatewayConfig_def GatewayConfigV1.extend_def)

lemma setDefaults_wf: "config_wf (setDefaults d)"
  by (simp add: config_wf_def setDefaults_def GatewayConfig_init_def config_sizes)

lemma migrate_outcome:
  assumes "migrateConfigV1 fsub (image_configV1 b) = Some c" "length b = sizeof_GatewayConfigV1"
  shows "configOk fsub c \<and> config_wf c \<and> gc_heartbeatIntervalSeconds c = kDefaultHeartbeatIntervalSeconds \<and>
    GatewayConfigV1.truncate c = (image_configV1 b)\<lparr>gc_schemaVersion := kConfigSchemaVersion, gc_pad := [0, 0, 0]\<rparr>"
proof -
  have "configOk fsub c" using assms(1) by (auto simp: migrateConfigV1_def Let_def split: if_splits)
  moreover have "c = GatewayConfig_init
        \<lparr>gc_schemaVersion := kConfigSchemaVersion, gc_gatewayId := slice b 2 49, gc_wifiSsid := slice b 51 33,
         gc_wifiPassword := slice b 84 65, gc_pairedNodeId := slice b 149 25, gc_backendBaseUrl := slice b 174 161,
         gc_backendBearerToken := slice b 335 129, gc_radio := gc_radio (image_configV1 b),
         gc_backendBatchSize := b ! 476, gc_backendHttpTimeoutMs := le32_at b 480, gc_backendInitialBackoffMs := le32_at b 484,
         gc_backendMaximumBackoffMs := le32_at b 488, gc_wifiReconnectIntervalMs := le32_at b 492,
         gc_wifiFallbackAfterMs := le32_at b 496, gc_wifiApGraceMs := le32_at b 500,
         gc_heartbeatIntervalSeconds := kDefaultHeartbeatIntervalSeconds\<rparr>"
    using assms(1) by (simp add: migrateConfigV1_def Let_def image_configV1_def split: if_splits)
  ultimately show ?thesis using assms(2)
    by (simp add: config_wf_def slice_def sizeof_GatewayConfigV1_def GatewayConfig_init_def GatewayConfigV1.truncate_def image_configV1_def)
qed


section \<open>The store over NVS\<close>

abbreviation config_ns :: string where "config_ns \<equiv> ''gathra-gw''"


context preferences
begin

lemma save_outcome:
  assumes "config_save fsub P c (s, n) = (ok, s', n')" "config_wf c"
  shows "number n' = number n \<and> opened n' = opened n \<and>
    (if ok then configOk fsub c \<and> s' = s\<lparr>cs_config := c\<rparr> \<and> stored n' = (stored n)(opened n := (stored n (opened n))(''config'' \<mapsto> config_image c))
     else s' = s \<and> stored n' = stored n)"
proof (cases "configOk fsub c")
  case True
  obtain w n1 where p: "pf_putBytes P ''config'' (config_image c) n = (w, n1)" by fastforce
  have len: "length (config_image c) = sizeof_GatewayConfig" "config_image c \<noteq> []"
    using config_image_length[OF assms(2)] by (auto simp: sizeof_GatewayConfig_def)
  show ?thesis
  proof (cases "w = sizeof_GatewayConfig")
    case w: True
    then show ?thesis using assms(1) True p putBytes_ok[OF p[unfolded w len(1)[symmetric]] len(2)] by (auto simp: config_save_def)
  next
    case False
    then show ?thesis using assms(1) True p putBytes_failed[OF p] len by (auto simp: config_save_def)
  qed
qed (use assms in \<open>auto simp: config_save_def\<close>)

text \<open>What the three branches of the start leave: a valid configuration that is the one in NVS.\<close>

lemma load_outcome:
  assumes "config_load fsub P d (s, n) = (True, s', n')"
  shows "number n' = number n \<and> opened n' = opened n \<and> configOk fsub (cs_config s') \<and>
    (\<exists>b. stored n' (opened n) ''config'' = Some b \<and> length b = sizeof_GatewayConfig \<and> image_config b = cs_config s') \<and>
    (case stored n (opened n) ''config'' of
       Some b \<Rightarrow>
         if length b = sizeof_GatewayConfig \<and> configOk fsub (image_config b) then cs_config s' = image_config b \<and> n' = n
         else if length b = sizeof_GatewayConfigV1 then migrateConfigV1 fsub (image_configV1 b) = Some (cs_config s')
         else cs_config s' = setDefaults d
     | None \<Rightarrow> cs_config s' = setDefaults d)"
proof -
  let ?b = "stored n (opened n) ''config''"
  have fresh: ?thesis if run: "config_save fsub P c (s1, n) = (True, s2, n')" "cs_config s' = cs_config s2" "config_wf c"
      and br: "(case ?b of Some b \<Rightarrow>
         if length b = sizeof_GatewayConfig \<and> configOk fsub (image_config b) then c = image_config b \<and> n' = n
         else if length b = sizeof_GatewayConfigV1 then migrateConfigV1 fsub (image_configV1 b) = Some c
         else c = setDefaults d
     | None \<Rightarrow> c = setDefaults d)" for c s1 s2
    using save_outcome[OF run(1,3)] run(2) br config_image_length[OF run(3)] config_image_roundtrip[OF run(3)]
    by (auto split del: if_split)
  consider (current) b where "?b = Some b" "length b = sizeof_GatewayConfig" "configOk fsub (image_config b)"
    | (legacy) b where "?b = Some b" "length b = sizeof_GatewayConfigV1"
    | (default) "?b = None \<or> (\<exists>b. ?b = Some b \<and> length b \<noteq> sizeof_GatewayConfigV1 \<and>
        \<not> (length b = sizeof_GatewayConfig \<and> configOk fsub (image_config b)))"
    by (cases ?b) auto
  then show ?thesis
  proof cases
    case current
    then have "cs_config s' = image_config b" "n' = n"
      using assms by (auto simp: config_load_def Let_def getBytesLength getBytes)
    then show ?thesis using current by simp
  next
    case legacy
    have ne: "sizeof_GatewayConfigV1 \<noteq> sizeof_GatewayConfig" by (simp add: sizeof_GatewayConfigV1_def sizeof_GatewayConfig_def)
    then obtain c s2 where mig: "migrateConfigV1 fsub (image_configV1 b) = Some c" and
        run: "config_save fsub P c (s, n) = (True, s2, n')" and "cs_config s' = cs_config s2"
      using assms legacy
      by (auto simp: config_load_def Let_def getBytesLength getBytes split: option.splits prod.splits bool.splits)
    then show ?thesis using fresh[of c s s2] migrate_outcome[OF mig legacy(2)] legacy ne by simp
  next
    case default
    have len: "pf_getBytesLength P ''config'' n \<noteq> sizeof_GatewayConfigV1"
      using default by (auto simp: getBytesLength sizeof_GatewayConfigV1_def)
    have cur: "\<not> (pf_getBytesLength P ''config'' n = sizeof_GatewayConfig \<and>
        length (pf_getBytes P ''config'' sizeof_GatewayConfig n) = sizeof_GatewayConfig \<and>
        configOk fsub (image_config (pf_getBytes P ''config'' sizeof_GatewayConfig n)))"
      using default by (auto simp: getBytesLength getBytes sizeof_GatewayConfig_def)
    have run: "config_save fsub P (setDefaults d) (s\<lparr>cs_config := setDefaults d\<rparr>, n) = (True, s', n')"
      using assms unfolding config_load_def Let_def prod.case if_not_P[OF cur] if_not_P[OF len] by simp
    show ?thesis using fresh[OF run refl setDefaults_wf] default by auto
  qed
qed

lemma begin_config:
  assumes "config_begin fsub P d (s, n) = (True, s', n')"
  obtains n1 s1 n2 where "pf_begin P config_ns False n = (True, n1)" "config_load fsub P d (s, n1) = (True, s1, n2)"
    "cs_config s' = cs_config s1" "stored n' = stored n2"
    "cs_bootCount s' = (case number n config_ns ''boot-count'' of None \<Rightarrow> 1 | Some v \<Rightarrow> if v = UINT32_MAX then UINT32_MAX else v + 1)"
    "cs_bootCountHealthy s' \<Longrightarrow> number n' config_ns ''boot-count'' = Some (cs_bootCount s')"
proof -
  obtain n1 where b: "pf_begin P config_ns False n = (True, n1)"
    using assms by (auto simp: config_begin_def split: prod.splits bool.splits)
  obtain s1 n2 where l: "config_load fsub P d (s, n1) = (True, s1, n2)"
    using assms b by (auto simp: config_begin_def split: prod.splits bool.splits)
  have op: "opened n2 = config_ns" "number n2 = number n"
    using begin_opens[OF b] begin_keeps[OF b] load_outcome[OF l] by auto
  define prev where "prev = pf_getUInt P ''boot-count'' 0 n2"
  have prev: "prev = (case number n config_ns ''boot-count'' of None \<Rightarrow> 0 | Some v \<Rightarrow> v)" by (simp add: prev_def getUInt op)
  show thesis
  proof (cases "prev = UINT32_MAX")
    case True
    then have "s' = s1\<lparr>cs_bootCount := UINT32_MAX, cs_bootCountHealthy := True, cs_healthy := True\<rparr>" "n' = n2"
      using assms b l by (auto simp: config_begin_def Let_def prev_def)
    moreover have "number n config_ns ''boot-count'' = Some UINT32_MAX"
      using prev True by (cases "number n config_ns ''boot-count''") (auto simp: UINT32_MAX_def)
    ultimately show thesis using that[OF b l] op by simp
  next
    case False
    obtain w n3 where p: "pf_putUInt P ''boot-count'' (prev + 1) n2 = (w, n3)" by fastforce
    have "s' = s1\<lparr>cs_bootCount := prev + 1, cs_bootCountHealthy := (w = 4), cs_healthy := True\<rparr>" "n' = n3"
      using assms b l p False by (auto simp: config_begin_def Let_def prev_def)
    moreover have "stored n3 = stored n2" "w = 4 \<Longrightarrow> number n3 config_ns ''boot-count'' = Some (prev + 1)"
      using putUInt_ok[of "''boot-count''" "prev + 1" n2 n3] putUInt_failed[OF p] p op by (cases "w = 4"; auto)+
    ultimately show thesis using that[OF b l] prev False by (auto split: option.splits)
  qed
qed


text \<open>A later start finds the configuration that was saved, and cannot fail on it.\<close>

lemma begin_after_save:
  assumes save: "config_save fsub P c (s, n) = (True, s1, n1)" "config_wf c" "opened n = config_ns"
    and boot: "config_begin fsub P d (s0, n1) = (ok, s2, n2)"
  shows "ok = fst (pf_begin P config_ns False n1) \<and> (ok \<longrightarrow> cs_config s2 = c)"
proof -
  note out = save_outcome[OF save(1,2)]
  then have st: "stored n1 config_ns ''config'' = Some (config_image c)" "configOk fsub c" using save(3) by auto
  obtain b n3 where o: "pf_begin P config_ns False n1 = (b, n3)" by fastforce
  show ?thesis
  proof (cases b)
    case False
    then show ?thesis using boot o by (auto simp: config_begin_def)
  next
    case True
    then have o: "pf_begin P config_ns False n1 = (True, n3)" using o by simp
    have "pf_getBytesLength P ''config'' n3 = sizeof_GatewayConfig" "pf_getBytes P ''config'' sizeof_GatewayConfig n3 = config_image c"
      using begin_opens[OF o] begin_keeps[OF o] st(1) config_image_length[OF save(2)] by (simp_all add: getBytesLength getBytes)
    then have "config_load fsub P d (s0, n3) = (True, s0\<lparr>cs_config := c\<rparr>, n3)"
      using config_image_length[OF save(2)] config_image_roundtrip[OF save(2)] st(2) by (simp add: config_load_def Let_def)
    then show ?thesis using boot o by (auto simp: config_begin_def Let_def split: prod.splits if_splits)
  qed
qed

end


section \<open>Properties\<close>

text \<open>C27: a successful start leaves a validated configuration in memory that is byte for byte the one in NVS. A valid
  schema-2 blob is used as it is, with NVS untouched; a schema-1 blob is carried over field by field with the default
  heartbeat interval; anything else is replaced by the defaults. The boot counter is one more than the stored one,
  saturating at its maximum, and a healthy counter is the one in NVS.\<close>
theorem config_start:
  assumes "preferences P stored number opened" "config_begin fsub P d (s, n) = (True, s', n')"
  shows "configOk fsub (cs_config s') \<and>
    (\<exists>b. stored n' config_ns ''config'' = Some b \<and> image_config b = cs_config s') \<and>
    (case stored n config_ns ''config'' of
       None \<Rightarrow> cs_config s' = setDefaults d
     | Some b \<Rightarrow>
         if length b = sizeof_GatewayConfig \<and> configOk fsub (image_config b)
         then cs_config s' = image_config b \<and> stored n' = stored n
         else if length b = sizeof_GatewayConfigV1
         then gc_heartbeatIntervalSeconds (cs_config s') = kDefaultHeartbeatIntervalSeconds \<and>
              GatewayConfigV1.truncate (cs_config s') = (image_configV1 b)\<lparr>gc_schemaVersion := kConfigSchemaVersion, gc_pad := [0, 0, 0]\<rparr>
         else cs_config s' = setDefaults d) \<and>
    cs_bootCount s' = (case number n config_ns ''boot-count'' of None \<Rightarrow> 1
      | Some v \<Rightarrow> if v = UINT32_MAX then UINT32_MAX else v + 1) \<and>
    (cs_bootCountHealthy s' \<longrightarrow> number n' config_ns ''boot-count'' = Some (cs_bootCount s'))"
proof -
  obtain n1 s1 n2 where run: "pf_begin P config_ns False n = (True, n1)" "config_load fsub P d (s, n1) = (True, s1, n2)"
    and cfg: "cs_config s' = cs_config s1" "stored n' = stored n2"
    and boot: "cs_bootCount s' = (case number n config_ns ''boot-count'' of None \<Rightarrow> 1 | Some v \<Rightarrow> if v = UINT32_MAX then UINT32_MAX else v + 1)"
      "cs_bootCountHealthy s' \<Longrightarrow> number n' config_ns ''boot-count'' = Some (cs_bootCount s')"
    by (rule preferences.begin_config[OF assms]) blast
  have n1: "opened n1 = config_ns" "stored n1 = stored n"
    using preferences.begin_opens[OF assms(1) run(1)] preferences.begin_keeps[OF assms(1) run(1)] by auto
  note load = preferences.load_outcome[OF assms(1) run(2), unfolded n1 cfg(1)[symmetric] cfg(2)[symmetric]]
  have "(case stored n config_ns ''config'' of
       None \<Rightarrow> cs_config s' = setDefaults d
     | Some b \<Rightarrow>
         if length b = sizeof_GatewayConfig \<and> configOk fsub (image_config b)
         then cs_config s' = image_config b \<and> stored n' = stored n
         else if length b = sizeof_GatewayConfigV1
         then gc_heartbeatIntervalSeconds (cs_config s') = kDefaultHeartbeatIntervalSeconds \<and>
              GatewayConfigV1.truncate (cs_config s') = (image_configV1 b)\<lparr>gc_schemaVersion := kConfigSchemaVersion, gc_pad := [0, 0, 0]\<rparr>
         else cs_config s' = setDefaults d)"
    using load migrate_outcome[of fsub] n1(2) cfg(2) by (auto split: option.splits if_splits)
  then show ?thesis using load boot by blast
qed

text \<open>After a successful save, the next start either fails to open NVS or loads exactly the saved configuration.\<close>
theorem config_survives_restart:
  assumes "preferences P stored number opened" "opened n = config_ns" "config_wf c"
    and "config_save fsub P c (s, n) = (True, s1, n1)" "config_begin fsub P d (s0, n1) = (ok, s2, n2)"
  shows "ok = fst (pf_begin P config_ns False n1) \<and> (ok \<longrightarrow> cs_config s2 = c)"
  by (rule preferences.begin_after_save[OF assms(1,4,3,2,5)])

definition exact_sub :: "f32 \<Rightarrow> f32 \<Rightarrow> f32" where
  "exact_sub a b = (if a = b then 0 else 0x3F800000)"

definition example_config :: GatewayConfig where
  "example_config = (setDefaults (Some (ascii ''GTH-GW-1'')))\<lparr>gc_backendBatchSize := 7\<rparr>"

definition legacy_blob :: "byte list" where
  "legacy_blob = take sizeof_GatewayConfigV1 (config_image (example_config\<lparr>gc_schemaVersion := 1\<rparr>))"

definition legacy_nvs :: nvs_map where
  "legacy_nvs = (nvs_empty [])\<lparr>nv_blobs := (\<lambda>_ _. None)(config_ns := [''config'' \<mapsto> legacy_blob])\<rparr>"

definition open_nvs :: nvs_map where "open_nvs = (nvs_empty [])\<lparr>nv_opened := config_ns\<rparr>"

lemma legacy_blob_facts: "length legacy_blob = sizeof_GatewayConfigV1" "legacy_blob ! 476 = 7"
  by code_simp+

theorem config_start_witness:
  "\<exists>s' n'. config_begin exact_sub nvs_map_api None (ConfigStore_init, legacy_nvs) = (True, s', n') \<and>
     gc_backendBatchSize (cs_config s') = 7 \<and> gc_heartbeatIntervalSeconds (cs_config s') = 60 \<and> cs_bootCount s' = 1"
proof -
  have "fst (config_begin exact_sub nvs_map_api None (ConfigStore_init, legacy_nvs))" by code_simp
  then obtain s' n' where run: "config_begin exact_sub nvs_map_api None (ConfigStore_init, legacy_nvs) = (True, s', n')"
    by (cases "config_begin exact_sub nvs_map_api None (ConfigStore_init, legacy_nvs)") auto
  have nvs: "nv_blobs legacy_nvs config_ns ''config'' = Some legacy_blob" "nv_numbers legacy_nvs config_ns ''boot-count'' = None"
    by (simp_all add: legacy_nvs_def nvs_empty_def)
  have "sizeof_GatewayConfigV1 \<noteq> sizeof_GatewayConfig" by (simp add: sizeof_GatewayConfigV1_def sizeof_GatewayConfig_def)
  with config_start[OF nvs.preferences_axioms run] nvs legacy_blob_facts(1)
  have "gc_heartbeatIntervalSeconds (cs_config s') = 60" "cs_bootCount s' = 1"
    and tr: "GatewayConfigV1.truncate (cs_config s') = (image_configV1 legacy_blob)\<lparr>gc_schemaVersion := kConfigSchemaVersion, gc_pad := [0, 0, 0]\<rparr>"
    by (simp_all add: kDefaultHeartbeatIntervalSeconds_def)
  moreover have "gc_backendBatchSize (cs_config s') = 7"
    using arg_cong[OF tr, of gc_backendBatchSize] legacy_blob_facts(2) by (simp add: GatewayConfigV1.truncate_def image_configV1_def)
  ultimately show ?thesis using run by blast
qed

theorem config_survives_restart_witness:
  "\<exists>s1 n1 s2 n2. config_save exact_sub nvs_map_api example_config (ConfigStore_init, open_nvs) = (True, s1, n1) \<and>
     config_begin exact_sub nvs_map_api None (ConfigStore_init, n1) = (True, s2, n2) \<and> cs_config s2 = example_config"
proof -
  have "fst (config_save exact_sub nvs_map_api example_config (ConfigStore_init, open_nvs))" by code_simp
  then obtain s1 n1 where save: "config_save exact_sub nvs_map_api example_config (ConfigStore_init, open_nvs) = (True, s1, n1)"
    by (cases "config_save exact_sub nvs_map_api example_config (ConfigStore_init, open_nvs)") auto
  obtain ok s2 n2 where boot: "config_begin exact_sub nvs_map_api None (ConfigStore_init, n1) = (ok, s2, n2)"
    by (cases "config_begin exact_sub nvs_map_api None (ConfigStore_init, n1)") auto
  have "config_wf example_config" by code_simp
  moreover have "nv_opened open_nvs = config_ns" by (simp add: open_nvs_def)
  moreover have "fst (pf_begin nvs_map_api config_ns False n1)" by (simp add: nvs_map_api_def)
  ultimately show ?thesis
    using config_survives_restart[OF nvs.preferences_axioms _ _ save boot] save boot by auto
qed

end
