(* ===== verification/Time_Manager.thy ===== *)
theory Time_Manager
  imports Gateway_Prelude
begin

text \<open>
  The trusted clock (\<open>lib/time/time_manager.cpp\<close>): the SNTP callback leaves the time of the last
  synchronisation in a global, a task copies it and marks the clock trusted, and \<open>now\<close> reads the
  system clock only once it is. The system clock, SNTP and the task are the platform's: their results
  are arguments of the definitions. The three run concurrently; each access to the shared state is one
  critical section, so a run is a sequence of the steps below.
\<close>

section \<open>State and operations\<close>

type_synonym i64 = "64 word"

record timeval =
  tv_sec :: i64
  tv_usec :: "32 word"

definition c_div :: "int \<Rightarrow> int \<Rightarrow> int" where
  "c_div a b = sgn a * sgn b * (\<bar>a\<bar> div \<bar>b\<bar>)"

definition unixMs_of :: "timeval \<Rightarrow> i64" where
  "unixMs_of v = tv_sec v * 1000 + word_of_int (c_div (sint (tv_usec v)) 1000)"

definition kEarliestPlausible :: int where "kEarliestPlausible = 1700000000"

record TrustedTimeSnapshot =
  ts_trusted :: bool
  ts_unixMs :: i64

definition TrustedTimeSnapshot_init :: TrustedTimeSnapshot where
  "TrustedTimeSnapshot_init = \<lparr>ts_trusted = False, ts_unixMs = -1\<rparr>"

record TimeStatus =
  tst_trusted :: bool
  tst_currentUnixMs :: i64
  tst_lastSyncUnixMs :: i64

text \<open>\<open>gLastSntpSyncUnixMs\<close>, the two members, and the local \<open>observedSync\<close> of the task.\<close>

record TimeManager =
  tm_lastSntpSyncUnixMs :: i64
  tm_trusted :: bool
  tm_lastSyncUnixMs :: i64
  tm_observedSync :: i64

definition TimeManager_init :: TimeManager where
  "TimeManager_init = \<lparr>tm_lastSntpSyncUnixMs = -1, tm_trusted = False, tm_lastSyncUnixMs = -1, tm_observedSync = -1\<rparr>"

definition onSntpTimeSync :: "timeval option \<Rightarrow> TimeManager \<Rightarrow> TimeManager" where
  "onSntpTimeSync value s =
     (case value of None \<Rightarrow> s
      | Some v \<Rightarrow> if sint (tv_sec v) < kEarliestPlausible then s else s\<lparr>tm_lastSntpSyncUnixMs := unixMs_of v\<rparr>)"

text \<open>One round of the task's loop.\<close>

definition time_poll :: "TimeManager \<Rightarrow> TimeManager" where
  "time_poll s =
     (let sync = tm_lastSntpSyncUnixMs s in
      if 0 \<le> sint sync \<and> sync \<noteq> tm_observedSync s
      then s\<lparr>tm_trusted := True, tm_lastSyncUnixMs := sync, tm_observedSync := sync\<rparr>
      else s)"

text \<open>\<open>clock\<close> is what \<open>gettimeofday\<close> returns: \<open>None\<close> for a failure.\<close>

definition time_now :: "timeval option \<Rightarrow> TimeManager \<Rightarrow> TrustedTimeSnapshot" where
  "time_now clock s =
     (if \<not> tm_trusted s then TrustedTimeSnapshot_init
      else case clock of None \<Rightarrow> TrustedTimeSnapshot_init
      | Some v \<Rightarrow> if sint (tv_sec v) < kEarliestPlausible then TrustedTimeSnapshot_init
                 else \<lparr>ts_trusted = True, ts_unixMs = unixMs_of v\<rparr>)"

definition time_status :: "timeval option \<Rightarrow> TimeManager \<Rightarrow> TimeStatus" where
  "time_status clock s = (let current = time_now clock s in
     \<lparr>tst_trusted = ts_trusted current, tst_currentUnixMs = ts_unixMs current, tst_lastSyncUnixMs = tm_lastSyncUnixMs s\<rparr>)"

text \<open>\<open>begin\<close> registers the callback, configures the time zone and the servers, and starts the task.\<close>

record 'o sntp_platform =
  sn_setNotificationCb :: "'o \<Rightarrow> 'o"
  sn_configTzTime :: "string \<Rightarrow> string list \<Rightarrow> 'o \<Rightarrow> 'o"
  sn_createTask :: "'o \<Rightarrow> bool \<times> 'o"

definition time_begin :: "'o sntp_platform \<Rightarrow> 'o \<Rightarrow> bool \<times> 'o" where
  "time_begin P h = sn_createTask P
     (sn_configTzTime P ''UTC0'' [''pool.ntp.org'', ''time.cloudflare.com'', ''time.google.com''] (sn_setNotificationCb P h))"


section \<open>Runs\<close>

datatype time_step = SntpSync "timeval option" | TaskRound

fun time_exec :: "time_step \<Rightarrow> TimeManager \<Rightarrow> TimeManager" where
  "time_exec (SntpSync v) s = onSntpTimeSync v s"
| "time_exec TaskRound s = time_poll s"

inductive time_reachable :: "time_step list \<Rightarrow> TimeManager \<Rightarrow> bool" where
  start: "time_reachable [] TimeManager_init"
| step: "time_reachable es s \<Longrightarrow> time_reachable (es @ [e]) (time_exec e s)"

text \<open>What the platform's clocks deliver: microseconds below a million, seconds far below overflow.\<close>

definition sane_timeval :: "timeval \<Rightarrow> bool" where
  "sane_timeval v \<longleftrightarrow> 0 \<le> sint (tv_usec v) \<and> sint (tv_usec v) < 1000000 \<and> sint (tv_sec v) < 2 ^ 50"

definition plausible_sync :: "time_step \<Rightarrow> i64 \<Rightarrow> bool" where
  "plausible_sync e t \<longleftrightarrow> (\<exists>v. e = SntpSync (Some v) \<and> kEarliestPlausible \<le> sint (tv_sec v) \<and> unixMs_of v = t)"

lemma sint_word_of_int_64: "-(2^63) \<le> k \<Longrightarrow> k < 2^63 \<Longrightarrow> sint (word_of_int k :: 64 word) = k"
  by (simp add: signed_take_bit_int_eq_self sint_sbintrunc')

lemma sint_unixMs:
  assumes "sane_timeval v" "kEarliestPlausible \<le> sint (tv_sec v)"
  shows "sint (unixMs_of v) = sint (tv_sec v) * 1000 + sint (tv_usec v) div 1000"
    and "1000 * kEarliestPlausible \<le> sint (unixMs_of v)"
proof -
  have d: "c_div (sint (tv_usec v)) 1000 = sint (tv_usec v) div 1000"
    using assms(1) by (cases "sint (tv_usec v) = 0") (auto simp: c_div_def sane_timeval_def sgn_if)
  have b: "0 \<le> sint (tv_usec v) div 1000" "sint (tv_usec v) div 1000 < 1000"
    using assms(1) by (auto simp: sane_timeval_def)
  have "unixMs_of v = word_of_int (sint (tv_sec v) * 1000 + sint (tv_usec v) div 1000)"
    by (simp add: unixMs_of_def d)
  moreover have "- (2 ^ 63) \<le> sint (tv_sec v) * 1000 + sint (tv_usec v) div 1000"
      "sint (tv_sec v) * 1000 + sint (tv_usec v) div 1000 < 2 ^ 63"
    using assms b by (auto simp: sane_timeval_def kEarliestPlausible_def)
  ultimately show eq: "sint (unixMs_of v) = sint (tv_sec v) * 1000 + sint (tv_usec v) div 1000"
    using sint_word_of_int_64[of "sint (tv_sec v) * 1000 + sint (tv_usec v) div 1000"] by (simp only:)
  show "1000 * kEarliestPlausible \<le> sint (unixMs_of v)" using eq b assms(2) by simp
qed

lemma reachable_sync:
  assumes "time_reachable es s"
  shows "(tm_lastSntpSyncUnixMs s \<noteq> -1 \<longrightarrow> (\<exists>e \<in> set es. plausible_sync e (tm_lastSntpSyncUnixMs s))) \<and>
    (tm_trusted s \<longrightarrow> 0 \<le> sint (tm_lastSyncUnixMs s) \<and> (\<exists>e \<in> set es. plausible_sync e (tm_lastSyncUnixMs s)))"
  using assms
proof (induction rule: time_reachable.induct)
  case (step es s e)
  show ?case
  proof (cases e)
    case (SntpSync v)
    then show ?thesis using step.IH
      by (auto simp: onSntpTimeSync_def plausible_sync_def split: option.splits)
  next
    case TaskRound
    have "sint (tm_lastSntpSyncUnixMs s) \<ge> 0 \<Longrightarrow> tm_lastSntpSyncUnixMs s \<noteq> -1" by auto
    then show ?thesis using step.IH TaskRound by (auto simp: time_poll_def Let_def)
  qed
qed (simp add: TimeManager_init_def)

text \<open>C28: in every interleaving of SNTP callbacks and rounds of the clock task, a trusted time is reported only after a
  plausible synchronisation was delivered; it is then the system clock in milliseconds, at least the earliest plausible
  instant, and an untrusted time is reported as -1.\<close>
theorem trusted_time_synchronised:
  assumes "time_reachable es s" "\<forall>v. clock = Some v \<longrightarrow> sane_timeval v"
  shows "if ts_trusted (time_now clock s)
    then (\<exists>e \<in> set es. plausible_sync e (tm_lastSyncUnixMs s)) \<and>
         (\<exists>v. clock = Some v \<and> sint (ts_unixMs (time_now clock s)) = sint (tv_sec v) * 1000 + sint (tv_usec v) div 1000) \<and>
         1000 * kEarliestPlausible \<le> sint (ts_unixMs (time_now clock s))
    else ts_unixMs (time_now clock s) = -1"
proof (cases "ts_trusted (time_now clock s)")
  case True
  then obtain v where v: "clock = Some v" "kEarliestPlausible \<le> sint (tv_sec v)" "tm_trusted s" "ts_unixMs (time_now clock s) = unixMs_of v"
    by (auto simp: time_now_def TrustedTimeSnapshot_init_def split: if_splits option.splits)
  then show ?thesis using True reachable_sync[OF assms(1)] sint_unixMs[of v] assms(2) by auto
qed (auto simp: time_now_def TrustedTimeSnapshot_init_def split: if_splits option.splits)

definition example_timeval :: timeval where "example_timeval = \<lparr>tv_sec = 1770000000, tv_usec = 250000\<rparr>"

theorem trusted_time_synchronised_witness:
  "\<exists>s. time_reachable [SntpSync (Some example_timeval), TaskRound] s \<and>
     ts_trusted (time_now (Some example_timeval) s) \<and> sint (ts_unixMs (time_now (Some example_timeval) s)) = 1770000000250"
proof -
  let ?s = "time_exec TaskRound (time_exec (SntpSync (Some example_timeval)) TimeManager_init)"
  have r: "time_reachable [SntpSync (Some example_timeval), TaskRound] ?s"
    using time_reachable.step[OF time_reachable.step[OF time_reachable.start, of "SntpSync (Some example_timeval)"], of TaskRound] by simp
  have t: "ts_trusted (time_now (Some example_timeval) ?s)" by code_simp
  have "sane_timeval example_timeval" by code_simp
  with trusted_time_synchronised[OF r, of "Some example_timeval"] t
  have "sint (ts_unixMs (time_now (Some example_timeval) ?s)) = 1770000000250" by (auto simp: example_timeval_def)
  then show ?thesis using r t by blast
qed

end
