(* ===== verification/Radio_Service.thy ===== *)
theory Radio_Service
  imports Packet_Processor Durable_Queue_Properties Config_Store Time_Manager Protocol_Commands
begin

text \<open>
  The radio worker (\<open>lib/radio/radio_service.cpp\<close>) in the production build: configuring the SX1278,
  continuous reception, handing a frame to the packet processor, sending the acknowledgement, and the
  pairing calls of the dashboard. The processor, the queue, the command store and the clock of the
  worker are the components modelled before; \<open>Gateway\<close> holds them together.

  RadioLib, FreeRTOS, the SPI bus, the system clocks and the log output are parameters
  (\<open>radio_platform\<close>, on a state of type \<open>'r\<close>); flash and NVS are those of the queue (\<open>'q\<close>) and of the
  command store (\<open>'c\<close>). A log message is the value \<open>RadioLog\<close> of its arguments. Every public method
  takes the radio mutex first; its body runs alone.
\<close>

section \<open>Platform and state\<close>

type_synonym i16 = "16 word"

datatype RadioLog =
    LogWorkerStarted | LogCandidateFailed i16 | LogRollbackFailed i16 | LogRadioReady RadioConfig | LogConfigFailed i16
  | LogInvalidLength nat | LogCrcMismatch nat | LogReadFailed i16 | LogDroppedOldest u32 bool
  | LogCommandResult CommandResultPacket string | LogTelemetryRx bool TelemetryPacket f32 f32 string
  | LogDecodeRejected string nat | LogPersisted u32 u64 u64 | LogAckSent u32 u64 u64 | LogDuplicate u32
  | LogEnqueueFailed u32 | LogAckFailed u32 i16 bool

record 'r radio_platform =
  RADIOLIB_ERR_NONE :: i16
  RADIOLIB_ERR_CRC_MISMATCH :: i16
  RADIOLIB_ERR_TX_TIMEOUT :: i16
  rp_createMutex :: "'r \<Rightarrow> bool \<times> 'r"
  rp_createTask :: "'r \<Rightarrow> bool \<times> 'r"
  rp_spiBegin :: "'r \<Rightarrow> 'r"
  rp_begin :: "RadioConfig \<Rightarrow> 'r \<Rightarrow> i16 \<times> 'r"
  rp_setCRC :: "bool \<Rightarrow> 'r \<Rightarrow> i16 \<times> 'r"
  rp_standby :: "'r \<Rightarrow> i16 \<times> 'r"
  rp_startReceive :: "'r \<Rightarrow> i16 \<times> 'r"
  rp_startTransmit :: "byte list \<Rightarrow> 'r \<Rightarrow> i16 \<times> 'r"
  rp_finishTransmit :: "'r \<Rightarrow> i16 \<times> 'r"
  rp_getTimeOnAir :: "nat \<Rightarrow> 'r \<Rightarrow> u32"
  rp_getPacketLength :: "'r \<Rightarrow> nat \<times> 'r"
  rp_readData :: "nat \<Rightarrow> 'r \<Rightarrow> (i16 \<times> byte list) \<times> 'r"
  rp_getRSSI :: "'r \<Rightarrow> f32 \<times> 'r"
  rp_getSNR :: "'r \<Rightarrow> f32 \<times> 'r"
  rp_getFrequencyError :: "'r \<Rightarrow> f32 \<times> 'r"
  rp_toInt32 :: "f32 \<Rightarrow> u32"
  rp_setPacketSentAction :: "'r \<Rightarrow> 'r"
  rp_clearPacketSentAction :: "'r \<Rightarrow> 'r"
  rp_setPacketReceivedAction :: "'r \<Rightarrow> 'r"
  rp_clearPacketReceivedAction :: "'r \<Rightarrow> 'r"
  rp_notifyTake :: "u32 \<Rightarrow> 'r \<Rightarrow> u32 \<times> 'r"
  rp_nowUs :: "'r \<Rightarrow> u64 \<times> 'r"
  rp_gettimeofday :: "'r \<Rightarrow> timeval option \<times> 'r"
  rp_log :: "RadioLog \<Rightarrow> 'r \<Rightarrow> 'r"

record 'd RadioDiagnostics =
  rd_ready :: bool
  rd_state :: "byte list"
  rd_lastCode :: i16
  rd_config :: RadioConfig
  rd_receivedPackets :: u64
  rd_crcErrors :: u64
  rd_invalidLengthPackets :: u64
  rd_readErrors :: u64
  rd_processing :: "'d PacketProcessingStats"
  rd_lastRssiDbm :: f32
  rd_lastSnrDb :: f32
  rd_lastFrequencyErrorHz :: u32
  rd_lastPacketLength :: u16
  rd_lastRxUptimeUs :: u64
  rd_lastRxUnixMs :: i64
  rd_commandsSentCount :: u64

definition RadioDiagnostics_init :: "'d double_ops \<Rightarrow> i16 \<Rightarrow> 'd RadioDiagnostics" where
  "RadioDiagnostics_init D none = \<lparr>rd_ready = False, rd_state = replicate 20 0, rd_lastCode = none, rd_config = RadioConfig_init,
     rd_receivedPackets = 0, rd_crcErrors = 0, rd_invalidLengthPackets = 0, rd_readErrors = 0,
     rd_processing = PacketProcessingStats_init D, rd_lastRssiDbm = 0, rd_lastSnrDb = 0, rd_lastFrequencyErrorHz = 0,
     rd_lastPacketLength = 0, rd_lastRxUptimeUs = 0, rd_lastRxUnixMs = -1, rd_commandsSentCount = 0\<rparr>"

datatype Dio0Action = Dio0Action_kNone | Dio0Action_kReceive | Dio0Action_kTransmit

record 'd RadioService =
  rv_radioMutex :: bool
  rv_task :: bool
  rv_commands :: bool
  rv_diagnostics :: "'d RadioDiagnostics"
  rv_gatewayBootSessionId :: u32
  rv_spiStarted :: bool
  rv_dio0Action :: Dio0Action

definition RadioService_init :: "'d double_ops \<Rightarrow> i16 \<Rightarrow> 'd RadioService" where
  "RadioService_init D none = \<lparr>rv_radioMutex = False, rv_task = False, rv_commands = False,
     rv_diagnostics = RadioDiagnostics_init D none, rv_gatewayBootSessionId = 0, rv_spiStarted = False,
     rv_dio0Action = Dio0Action_kNone\<rparr>"

text \<open>The objects the worker reaches. \<open>processor_\<close> and \<open>pairing_\<close> are set by the same call, and the
  pairing manager is part of the processor here: both are null exactly when \<open>gw_processor\<close> is \<open>None\<close>.\<close>

record ('d, 'q, 'c, 'r) Gateway =
  gw_processor :: "'d PacketProcessor option"
  gw_radio :: "'d RadioService"
  gw_queue :: DurableQueue
  gw_commands :: CommandStore
  gw_time :: TimeManager
  gw_flash :: 'q
  gw_nvs :: 'c
  gw_air :: 'r


section \<open>The radio\<close>

definition with_diag :: "('d RadioDiagnostics \<Rightarrow> 'd RadioDiagnostics) \<Rightarrow> 'd RadioService \<Rightarrow> 'd RadioService" where
  "with_diag f s = s\<lparr>rv_diagnostics := f (rv_diagnostics s)\<rparr>"

definition setState :: "string \<Rightarrow> 'd RadioDiagnostics \<Rightarrow> 'd RadioDiagnostics" where
  "setState name d = d\<lparr>rd_state := strncpy ((rd_state d)[0 := 0]) (ascii name) 19\<rparr>"

definition configureUnlocked ::
  "'r radio_platform \<Rightarrow> RadioConfig \<Rightarrow> 'd RadioService \<times> 'r \<Rightarrow> bool \<times> 'd RadioService \<times> 'r" where
  "configureUnlocked R config = (\<lambda>(s, r).
     let s = with_diag (setState ''CONFIGURING'') s in
     case rp_begin R config r of (code, r) \<Rightarrow>
     let s = with_diag (\<lambda>d. d\<lparr>rd_lastCode := code, rd_ready := (code = RADIOLIB_ERR_NONE R)\<rparr>) s;
         (s, r) = (if rd_ready (rv_diagnostics s)
                   then case rp_setCRC R True r of (code, r) \<Rightarrow>
                     (with_diag (\<lambda>d. d\<lparr>rd_lastCode := code, rd_ready := (code = RADIOLIB_ERR_NONE R)\<rparr>) s, r)
                   else (s, r));
         (s, r) = (if rd_ready (rv_diagnostics s)
                   then (with_diag (\<lambda>d. d\<lparr>rd_config := config\<rparr>) s, rp_log R (LogRadioReady config) r)
                   else (with_diag (\<lambda>d. d\<lparr>rd_state := strncpy (rd_state d) (ascii ''ERROR'') 19\<rparr>) s,
                         rp_log R (LogConfigFailed (rd_lastCode (rv_diagnostics s))) r))
     in (rd_ready (rv_diagnostics s), s, r))"

definition startReceiveUnlocked :: "'r radio_platform \<Rightarrow> 'd RadioService \<times> 'r \<Rightarrow> bool \<times> 'd RadioService \<times> 'r" where
  "startReceiveUnlocked R = (\<lambda>(s, r).
     let (s, r) = (if rv_dio0Action s = Dio0Action_kTransmit
                   then (s\<lparr>rv_dio0Action := Dio0Action_kNone\<rparr>, rp_clearPacketSentAction R r) else (s, r));
         (s, r) = (if rv_dio0Action s = Dio0Action_kNone
                   then (s\<lparr>rv_dio0Action := Dio0Action_kReceive\<rparr>, rp_setPacketReceivedAction R r) else (s, r));
         r = snd (rp_notifyTake R 0 r) in
     case rp_startReceive R r of (code, r) \<Rightarrow>
     let okay = (code = RADIOLIB_ERR_NONE R) in
     (okay, with_diag (\<lambda>d. setState (if okay then ''RECEIVING'' else ''RX_ERROR'') (d\<lparr>rd_lastCode := code, rd_ready := okay\<rparr>)) s, r))"

text \<open>\<open>a && b\<close> on the radio.\<close>

definition configureAndReceive ::
  "'r radio_platform \<Rightarrow> RadioConfig \<Rightarrow> 'd RadioService \<times> 'r \<Rightarrow> bool \<times> 'd RadioService \<times> 'r" where
  "configureAndReceive R config sr =
     (case configureUnlocked R config sr of (False, sr) \<Rightarrow> (False, sr) | (True, sr) \<Rightarrow> startReceiveUnlocked R sr)"

definition applyConfig ::
  "'r radio_platform \<Rightarrow> RadioConfig \<Rightarrow> 'd RadioService \<times> 'r \<Rightarrow> bool \<times> 'd RadioService \<times> 'r" where
  "applyConfig R candidate = (\<lambda>(s, r).
     if \<not> rv_radioMutex s then (False, s, r)
     else let previous = rd_config (rv_diagnostics s); r = snd (rp_standby R r) in
     case configureAndReceive R candidate (s, r) of
       (True, s, r) \<Rightarrow> (True, s, r)
     | (False, s, r) \<Rightarrow>
        let r = rp_log R (LogCandidateFailed (rd_lastCode (rv_diagnostics s))) r in
        (case configureAndReceive R previous (s, r) of
           (True, s, r) \<Rightarrow> (False, s, r)
         | (False, s, r) \<Rightarrow> (False, s, rp_log R (LogRollbackFailed (rd_lastCode (rv_diagnostics s))) r)))"

definition radio_restart :: "'r radio_platform \<Rightarrow> 'd RadioService \<times> 'r \<Rightarrow> bool \<times> 'd RadioService \<times> 'r" where
  "radio_restart R = (\<lambda>(s, r).
     if \<not> rv_radioMutex s then (False, s, r)
     else let current = rd_config (rv_diagnostics s) in configureAndReceive R current (s, snd (rp_standby R r)))"

text \<open>The part of \<open>transmitAck\<close> between the encoding and the command store: the interrupt is armed for
  the transmission, the transmission started and awaited, reception restored.\<close>

definition armTransmit :: "'r radio_platform \<Rightarrow> 'd RadioService \<times> 'r \<Rightarrow> 'd RadioService \<times> 'r" where
  "armTransmit R = (\<lambda>(s, r).
     let r = snd (rp_notifyTake R 0 r);
         (s, r) = (if rv_dio0Action s \<noteq> Dio0Action_kNone
                   then (s\<lparr>rv_dio0Action := Dio0Action_kNone\<rparr>, rp_clearPacketReceivedAction R r) else (s, r))
     in (s\<lparr>rv_dio0Action := Dio0Action_kTransmit\<rparr>, rp_setPacketSentAction R r))"

definition awaitTransmit :: "'r radio_platform \<Rightarrow> nat \<Rightarrow> 'd RadioService \<times> 'r \<Rightarrow> bool \<times> 'd RadioService \<times> 'r" where
  "awaitTransmit R len = (\<lambda>(s, r).
     if rd_lastCode (rv_diagnostics s) \<noteq> RADIOLIB_ERR_NONE R then (False, s, r)
     else let timeoutMs = rp_getTimeOnAir R len r div 1000 + 1000;
              timeoutMs = (if timeoutMs < 1500 then 1500 else timeoutMs) in
       case rp_notifyTake R timeoutMs r of (n, r) \<Rightarrow>
       if 0 < n
       then case rp_finishTransmit R r of (code, r) \<Rightarrow>
         (code = RADIOLIB_ERR_NONE R, with_diag (\<lambda>d. d\<lparr>rd_lastCode := code\<rparr>) s, r)
       else (False, with_diag (\<lambda>d. d\<lparr>rd_lastCode := RADIOLIB_ERR_TX_TIMEOUT R\<rparr>) s, snd (rp_standby R r)))"

definition sendAck ::
  "'r radio_platform \<Rightarrow> byte list \<Rightarrow> 'd RadioService \<times> 'r \<Rightarrow> AckTransmission \<times> 'd RadioService \<times> 'r" where
  "sendAck R bytes sr =
     (case armTransmit R sr of (s, r) \<Rightarrow>
      case rp_nowUs R r of (startUs, r) \<Rightarrow>
      let s = with_diag (setState ''ACK_TX'') s in
      case rp_startTransmit R bytes r of (code, r) \<Rightarrow>
      let s = with_diag (\<lambda>d. d\<lparr>rd_lastCode := code\<rparr>) s in
      case awaitTransmit R (length bytes) (s, r) of (success, s, r) \<Rightarrow>
      case rp_nowUs R r of (completedUs, r) \<Rightarrow>
      case startReceiveUnlocked R (s, r) of (restored, s, r) \<Rightarrow>
      (\<lparr>at_attempted = True, at_success = success, at_receiveRestored = restored, at_startUs = startUs,
        at_completedUs = completedUs\<rparr>, s, r))"


section \<open>Acknowledging\<close>

text \<open>\<open>time_->now()\<close>: the system clock is read only when the time is trusted.\<close>

definition gateway_now :: "'r radio_platform \<Rightarrow> ('d, 'q, 'c, 'r) Gateway \<Rightarrow> TrustedTimeSnapshot \<times> ('d, 'q, 'c, 'r) Gateway" where
  "gateway_now R g =
     (if \<not> tm_trusted (gw_time g) then (time_now None (gw_time g), g)
      else case rp_gettimeofday R (gw_air g) of (clock, r) \<Rightarrow> (time_now clock (gw_time g), g\<lparr>gw_air := r\<rparr>))"

definition ackFor :: "TelemetryPacket \<Rightarrow> TrustedTimeSnapshot \<Rightarrow> GatewayCommand option \<Rightarrow> AckCommandPacket" where
  "ackFor packet timestamp pending =
     (let seconds = c_div (sint (ts_unixMs timestamp)) 1000;
          trusted = (ts_trusted timestamp \<and> 0 \<le> sint (ts_unixMs timestamp) \<and> seconds \<le> uint UINT32_MAX);
          ack = makeAck packet (if trusted then word_of_int seconds else 0) trusted
      in case pending of None \<Rightarrow> ack
         | Some c \<Rightarrow> ack\<lparr>a_commandId := g_commandId c, a_commandType := CommandType_cast (g_type c),
             a_pollIntervalMinutes := g_pollIntervalMinutes c, a_scheduledMaintenanceUnix := g_scheduledMaintenanceUnix c\<rparr>)"

definition transmitAck ::
  "'c command_backend_ops \<Rightarrow> 'r radio_platform \<Rightarrow> TelemetryPacket \<Rightarrow> ('d, 'q, 'c, 'r) Gateway \<Rightarrow>
     AckTransmission \<times> ('d, 'q, 'c, 'r) Gateway" where
  "transmitAck B R packet g =
     (case gateway_now R g of (timestamp, g) \<Rightarrow>
      let pending = (if rv_commands (gw_radio g) then pendingForAck (gw_commands g) else None);
          ack = ackFor packet timestamp pending in
      case encodeAckCommand ack (Some (replicate kRadioPacketCapacity 0)) kRadioPacketCapacity of
        (False, _) \<Rightarrow>
          (case startReceiveUnlocked R (gw_radio g, gw_air g) of (restored, s, r) \<Rightarrow>
             (AckTransmission_init\<lparr>at_receiveRestored := restored\<rparr>, g\<lparr>gw_radio := s, gw_air := r\<rparr>))
      | (True, bytes, len) \<Rightarrow>
          (case sendAck R (take len (the bytes)) (gw_radio g, gw_air g) of (report, s, r) \<Rightarrow>
           let g = g\<lparr>gw_radio := s, gw_air := r\<rparr> in
           if at_success report \<and> at_receiveRestored report \<and> a_commandId ack \<noteq> 0 \<and> rv_commands s
           then let g = g\<lparr>gw_radio := with_diag (\<lambda>d. d\<lparr>rd_commandsSentCount := rd_commandsSentCount d + 1\<rparr>) s\<rparr> in
             (case gateway_now R g of (sentAt, g) \<Rightarrow>
              case store_markSent B (a_commandId ack) (if ts_trusted sentAt then ts_unixMs sentAt else -1) (gw_commands g, gw_nvs g) of
                (_, cs, n) \<Rightarrow> (report, g\<lparr>gw_commands := cs, gw_nvs := n\<rparr>))
           else (report, g)))"


section \<open>Receiving\<close>

text \<open>The collaborators of the packet processor: \<open>DurableQueue\<close>, this object, the command store, the clock.\<close>

definition gateway_env ::
  "'q queue_platform \<Rightarrow> 'c command_backend_ops \<Rightarrow> 'r radio_platform \<Rightarrow> ('d, 'q, 'c, 'r) Gateway packet_env" where
  "gateway_env Q B R =
    \<lparr>pe_containsKey = (\<lambda>k g. case DurableQueue_contains Q k (gw_queue g, gw_flash g) of
        (found, q, h) \<Rightarrow> (found, g\<lparr>gw_queue := q, gw_flash := h\<rparr>)),
     pe_durablyEnqueue = (\<lambda>record g. case DurableQueue_enqueue Q record (gw_queue g, gw_flash g) of
        (((persisted, dropped), _), q, h) \<Rightarrow>
          (\<lparr>eo_persisted = persisted, eo_droppedOldest = dropped\<rparr>, g\<lparr>gw_queue := q, gw_flash := h\<rparr>)),
     pe_noteDuplicate = (\<lambda>g. g\<lparr>gw_queue := recordDuplicate (gw_queue g)\<rparr>),
     pe_transmitAck = transmitAck B R,
     pe_confirm = (\<lambda>result g. case store_confirm B result False (gw_commands g, gw_nvs g) of
        (x, cs, n) \<Rightarrow> (x, g\<lparr>gw_commands := cs, gw_nvs := n\<rparr>)),
     pe_nowUs = (\<lambda>g. case rp_nowUs R (gw_air g) of (t, r) \<Rightarrow> (t, g\<lparr>gw_air := r\<rparr>))\<rparr>"

fun dispositionName :: "PacketDisposition \<Rightarrow> string" where
  "dispositionName PacketDisposition_kDecodeRejected = ''DECODE_REJECTED''"
| "dispositionName PacketDisposition_kPairingCandidate = ''PAIRING_CANDIDATE''"
| "dispositionName PacketDisposition_kUnpairedIgnored = ''UNPAIRED_IGNORED''"
| "dispositionName PacketDisposition_kUnknownNodeIgnored = ''UNKNOWN_NODE_IGNORED''"
| "dispositionName PacketDisposition_kDurableEnqueueFailed = ''ENQUEUE_FAILED''"
| "dispositionName PacketDisposition_kNewAcknowledged = ''NEW_ACKNOWLEDGED''"
| "dispositionName PacketDisposition_kDuplicateAcknowledged = ''DUPLICATE_REACK''"
| "dispositionName PacketDisposition_kAckFailed = ''ACK_FAILED''"
| "dispositionName PacketDisposition_kCommandResultConfirmed = ''COMMAND_CONFIRMED''"
| "dispositionName PacketDisposition_kCommandResultDuplicate = ''COMMAND_RESULT_DUPLICATE''"
| "dispositionName PacketDisposition_kCommandResultIgnored = ''COMMAND_RESULT_IGNORED''"

text \<open>What \<open>handleFrame\<close> logs about a processed frame, in order.\<close>

definition frameLogs ::
  "ReceivedFrame \<Rightarrow> bool \<Rightarrow> PacketProcessingResult \<Rightarrow> 'd PacketProcessingStats \<Rightarrow> i16 \<Rightarrow> RadioLog list" where
  "frameLogs frame synthetic result stats lastCode =
     (let seq = t_sequence (pr_telemetry result); d = pr_disposition result in
      (if pr_droppedOldest result then [LogDroppedOldest seq (d \<noteq> PacketDisposition_kDurableEnqueueFailed)] else []) @
      (if pr_decodeStatus result = DecodeStatus_kOk
       then if pr_isCommandResult result
            then [LogCommandResult (pr_commandResult result) (dispositionName d)]
            else [LogTelemetryRx synthetic (pr_telemetry result) (rm_rssiDbm (fr_reception frame))
                    (rm_snrDb (fr_reception frame)) (dispositionName d)]
       else [LogDecodeRejected (decodeStatusName (pr_decodeStatus result)) (fr_length frame)]) @
      (if d = PacketDisposition_kNewAcknowledged
       then [LogPersisted seq (ps_lastQueueWriteUs stats) (ps_lastRxToDurableEnqueueUs stats),
             LogAckSent seq (ps_lastRxToAckStartUs stats) (ps_lastRxToAckCompleteUs stats)]
       else if d = PacketDisposition_kDuplicateAcknowledged then [LogDuplicate seq]
       else if d = PacketDisposition_kDurableEnqueueFailed then [LogEnqueueFailed seq]
       else if d = PacketDisposition_kAckFailed then [LogAckFailed seq lastCode (at_receiveRestored (pr_ack result))]
       else []))"

definition receiveAgain :: "'r radio_platform \<Rightarrow> ('d, 'q, 'c, 'r) Gateway \<Rightarrow> ('d, 'q, 'c, 'r) Gateway" where
  "receiveAgain R g = (case startReceiveUnlocked R (gw_radio g, gw_air g) of (_, s, r) \<Rightarrow> g\<lparr>gw_radio := s, gw_air := r\<rparr>)"

definition handleFrame ::
  "'d double_ops \<Rightarrow> 'q queue_platform \<Rightarrow> 'c command_backend_ops \<Rightarrow> 'r radio_platform \<Rightarrow> ReceivedFrame \<Rightarrow> bool \<Rightarrow>
     ('d, 'q, 'c, 'r) Gateway \<Rightarrow> ('d, 'q, 'c, 'r) Gateway" where
  "handleFrame D Q B R frame synthetic g =
     (case gw_processor g of None \<Rightarrow> receiveAgain R g
      | Some p \<Rightarrow>
         (case process D (gateway_env Q B R) frame (p, g) of (result, p, g) \<Rightarrow>
          let g = g\<lparr>gw_processor := Some p\<rparr>;
              g = (if \<not> at_receiveRestored (pr_ack result) then receiveAgain R g else g) in
          g\<lparr>gw_air := fold (rp_log R)
               (frameLogs frame synthetic result (pp_stats p) (rd_lastCode (rv_diagnostics (gw_radio g)))) (gw_air g)\<rparr>))"

text \<open>\<open>readData\<close> into the zeroed frame: bytes it does not write stay zero.\<close>

definition frameBytes :: "byte list \<Rightarrow> nat \<Rightarrow> byte list" where
  "frameBytes data len = take len data @ drop (length (take len data)) (replicate kRadioPacketCapacity 0)"

text \<open>The end of \<open>handlePhysicalReceive\<close>, once the bytes are read.\<close>

definition receivedFrame ::
  "'r radio_platform \<Rightarrow> byte list \<Rightarrow> nat \<Rightarrow> u64 \<Rightarrow> ('d, 'q, 'c, 'r) Gateway \<Rightarrow> ReceivedFrame \<times> ('d, 'q, 'c, 'r) Gateway" where
  "receivedFrame R data len observedUs g =
     (case rp_getRSSI R (gw_air g) of (rssi, r) \<Rightarrow>
      case rp_getSNR R r of (snr, r) \<Rightarrow>
      case rp_getFrequencyError R r of (fe, r) \<Rightarrow>
      case gateway_now R (g\<lparr>gw_air := r\<rparr>) of (timestamp, g) \<Rightarrow>
      let unixMs = (if ts_trusted timestamp then ts_unixMs timestamp else -1);
          reception = \<lparr>rm_gatewayReceivedUnixMs = unixMs, rm_gatewayTimeTrusted = ts_trusted timestamp,
            rm_gatewayUptimeMs = observedUs div 1000, rm_gatewayBootSessionId = rv_gatewayBootSessionId (gw_radio g),
            rm_rssiDbm = rssi, rm_snrDb = snr, rm_frequencyErrorHz = rp_toInt32 R fe, rm_packetLength = of_nat len\<rparr> in
      (\<lparr>fr_bytes = frameBytes data len, fr_length = len, fr_reception = reception, fr_observedUs = observedUs\<rparr>,
       g\<lparr>gw_radio := with_diag (\<lambda>d. d\<lparr>rd_lastRssiDbm := rssi, rd_lastSnrDb := snr, rd_lastFrequencyErrorHz := rp_toInt32 R fe,
            rd_lastRxUptimeUs := observedUs, rd_lastRxUnixMs := unixMs\<rparr>) (gw_radio g)\<rparr>))"

definition handlePhysicalReceive ::
  "'d double_ops \<Rightarrow> 'q queue_platform \<Rightarrow> 'c command_backend_ops \<Rightarrow> 'r radio_platform \<Rightarrow>
     ('d, 'q, 'c, 'r) Gateway \<Rightarrow> ('d, 'q, 'c, 'r) Gateway" where
  "handlePhysicalReceive D Q B R g =
     (if \<not> rd_ready (rv_diagnostics (gw_radio g)) then g
      else case rp_nowUs R (gw_air g) of (observedUs, r) \<Rightarrow>
      case rp_getPacketLength R r of (len, r) \<Rightarrow>
      let s = with_diag (\<lambda>d. d\<lparr>rd_receivedPackets := rd_receivedPackets d + 1, rd_lastPacketLength := of_nat len\<rparr>) (gw_radio g) in
      if len = 0 \<or> kRadioPacketCapacity < len
      then let g = receiveAgain R (g\<lparr>gw_radio := with_diag (\<lambda>d. d\<lparr>rd_invalidLengthPackets := rd_invalidLengthPackets d + 1\<rparr>) s,
                                    gw_air := snd (rp_standby R r)\<rparr>)
           in g\<lparr>gw_air := rp_log R (LogInvalidLength len) (gw_air g)\<rparr>
      else case rp_readData R len r of ((code, data), r) \<Rightarrow>
      let s = with_diag (\<lambda>d. d\<lparr>rd_lastCode := code\<rparr>) s in
      if code = RADIOLIB_ERR_CRC_MISMATCH R
      then let g = receiveAgain R (g\<lparr>gw_radio := with_diag (\<lambda>d. d\<lparr>rd_crcErrors := rd_crcErrors d + 1\<rparr>) s, gw_air := r\<rparr>)
           in g\<lparr>gw_air := rp_log R (LogCrcMismatch len) (gw_air g)\<rparr>
      else if code \<noteq> RADIOLIB_ERR_NONE R
      then let g = receiveAgain R (g\<lparr>gw_radio := with_diag (\<lambda>d. d\<lparr>rd_readErrors := rd_readErrors d + 1\<rparr>) s, gw_air := r\<rparr>)
           in g\<lparr>gw_air := rp_log R (LogReadFailed code) (gw_air g)\<rparr>
      else case receivedFrame R data len observedUs (g\<lparr>gw_radio := s, gw_air := r\<rparr>) of (frame, g) \<Rightarrow>
        handleFrame D Q B R frame False g)"

text \<open>One round of the worker's loop.\<close>

definition radio_round ::
  "'d double_ops \<Rightarrow> 'q queue_platform \<Rightarrow> 'c command_backend_ops \<Rightarrow> 'r radio_platform \<Rightarrow> u32 \<Rightarrow>
     ('d, 'q, 'c, 'r) Gateway \<Rightarrow> ('d, 'q, 'c, 'r) Gateway" where
  "radio_round D Q B R portMAX_DELAY g =
     (let g = g\<lparr>gw_air := snd (rp_notifyTake R portMAX_DELAY (gw_air g))\<rparr> in
      if rv_radioMutex (gw_radio g) then handlePhysicalReceive D Q B R g else g)"


section \<open>The public methods\<close>

definition radio_begin ::
  "'d double_ops \<Rightarrow> 'r radio_platform \<Rightarrow> RadioConfig \<Rightarrow> PairingManager \<Rightarrow> u32 \<Rightarrow> ('d, 'q, 'c, 'r) Gateway \<Rightarrow>
     bool \<times> ('d, 'q, 'c, 'r) Gateway" where
  "radio_begin D R config pairing gatewayBootSessionId g =
     (case rp_createMutex R (gw_air g) of (created, r) \<Rightarrow>
      let s = (gw_radio g)\<lparr>rv_radioMutex := created\<rparr> in
      if \<not> created then (False, g\<lparr>gw_radio := s, gw_air := r\<rparr>)
      else let s = s\<lparr>rv_commands := True, rv_gatewayBootSessionId := gatewayBootSessionId\<rparr>;
        g = g\<lparr>gw_processor := Some (PacketProcessor_init D pairing)\<rparr>;
        (s, r) = (if \<not> rv_spiStarted s then (s\<lparr>rv_spiStarted := True\<rparr>, rp_spiBegin R r) else (s, r));
        s = with_diag (\<lambda>d. d\<lparr>rd_config := config\<rparr>) s in
      case rp_createTask R r of
        (False, r) \<Rightarrow> (False, g\<lparr>gw_radio := s, gw_air := r\<rparr>)
      | (True, r) \<Rightarrow>
        (case configureAndReceive R config (s\<lparr>rv_task := True\<rparr>, r) of
           (False, s, r) \<Rightarrow> (False, g\<lparr>gw_radio := s, gw_air := r\<rparr>)
         | (True, s, r) \<Rightarrow> (True, g\<lparr>gw_radio := s, gw_air := rp_log R LogWorkerStarted r\<rparr>)))"

definition radio_diagnostics :: "('d, 'q, 'c, 'r) Gateway \<Rightarrow> 'd RadioDiagnostics" where
  "radio_diagnostics g = (let copy = rv_diagnostics (gw_radio g) in
     case gw_processor g of
       Some p \<Rightarrow> if rv_radioMutex (gw_radio g) then copy\<lparr>rd_processing := pp_stats p\<rparr> else copy
     | None \<Rightarrow> copy)"

definition latestTelemetry :: "('d, 'q, 'c, 'r) Gateway \<Rightarrow> LatestTelemetry" where
  "latestTelemetry g = (case gw_processor g of
     Some p \<Rightarrow> if rv_radioMutex (gw_radio g) then pp_latest p else LatestTelemetry_init | None \<Rightarrow> LatestTelemetry_init)"

text \<open>\<open>if (lock && pairing_ != nullptr)\<close> around a call on the pairing manager.\<close>

definition lockedPairing :: "('d, 'q, 'c, 'r) Gateway \<Rightarrow> PairingManager option" where
  "lockedPairing g = (if rv_radioMutex (gw_radio g) then map_option pp_pairing (gw_processor g) else None)"

definition putPairing :: "PairingManager \<Rightarrow> ('d, 'q, 'c, 'r) Gateway \<Rightarrow> ('d, 'q, 'c, 'r) Gateway" where
  "putPairing m g = g\<lparr>gw_processor := map_option (\<lambda>p. p\<lparr>pp_pairing := m\<rparr>) (gw_processor g)\<rparr>"

definition startPairing :: "('d, 'q, 'c, 'r) Gateway \<Rightarrow> bool \<times> ('d, 'q, 'c, 'r) Gateway" where
  "startPairing g = (case lockedPairing g of None \<Rightarrow> (False, g)
     | Some m \<Rightarrow> (case pairing_start m of (ok, m) \<Rightarrow> (ok, putPairing m g)))"

definition cancelPairing :: "('d, 'q, 'c, 'r) Gateway \<Rightarrow> bool \<times> ('d, 'q, 'c, 'r) Gateway" where
  "cancelPairing g = (case lockedPairing g of None \<Rightarrow> (False, g) | Some m \<Rightarrow> (True, putPairing (pairing_cancel m) g))"

text \<open>The buffer the caller passes is \<open>output\<close>, of its capacity; \<open>None\<close> is a null pointer.\<close>

definition copyNodeId :: "byte list option \<Rightarrow> PairingManager \<Rightarrow> byte list option" where
  "copyNodeId output m = map_option (\<lambda>out. if out = [] then out
     else (strncpy out (pm_pairedNodeId m) (length out - 1))[length out - 1 := 0]) output"

definition confirmPairing ::
  "byte list option \<Rightarrow> ('d, 'q, 'c, 'r) Gateway \<Rightarrow> (bool \<times> byte list option) \<times> ('d, 'q, 'c, 'r) Gateway" where
  "confirmPairing output g = (case lockedPairing g of None \<Rightarrow> ((False, output), g)
     | Some m \<Rightarrow> (case confirmCandidate m of
         (False, m) \<Rightarrow> ((False, output), putPairing m g)
       | (True, m) \<Rightarrow> ((True, copyNodeId output m), putPairing m g)))"

definition radio_pairManual :: "byte list option \<Rightarrow> ('d, 'q, 'c, 'r) Gateway \<Rightarrow> bool \<times> ('d, 'q, 'c, 'r) Gateway" where
  "radio_pairManual nodeId g = (case lockedPairing g of None \<Rightarrow> (False, g)
     | Some m \<Rightarrow> (case pairManual nodeId m of (ok, m) \<Rightarrow> (ok, putPairing m g)))"

definition radio_unpair :: "('d, 'q, 'c, 'r) Gateway \<Rightarrow> ('d, 'q, 'c, 'r) Gateway" where
  "radio_unpair g = (case lockedPairing g of None \<Rightarrow> g | Some m \<Rightarrow> putPairing (unpair m) g)"

definition pairingCandidate :: "('d, 'q, 'c, 'r) Gateway \<Rightarrow> PairingCandidate" where
  "pairingCandidate g = (case lockedPairing g of None \<Rightarrow> PairingCandidate_init | Some m \<Rightarrow> pm_candidate m)"

definition radio_pairingMode :: "('d, 'q, 'c, 'r) Gateway \<Rightarrow> bool" where
  "radio_pairingMode g = (case lockedPairing g of None \<Rightarrow> False | Some m \<Rightarrow> pm_pairingMode m)"

definition radio_paired :: "('d, 'q, 'c, 'r) Gateway \<Rightarrow> bool" where
  "radio_paired g = (case lockedPairing g of None \<Rightarrow> False | Some m \<Rightarrow> paired m)"

definition radio_pairedNodeId :: "byte list option \<Rightarrow> ('d, 'q, 'c, 'r) Gateway \<Rightarrow> byte list option" where
  "radio_pairedNodeId output g = (case output of None \<Rightarrow> None
     | Some out \<Rightarrow> if out = [] then output
        else let out = out[0 := 0] in case lockedPairing g of None \<Rightarrow> Some out | Some m \<Rightarrow> copyNodeId (Some out) m)"



section \<open>Configuration\<close>

lemma with_diag_simps [simp]:
  "rv_diagnostics (with_diag f s) = f (rv_diagnostics s)" "rv_dio0Action (with_diag f s) = rv_dio0Action s"
  "rv_radioMutex (with_diag f s) = rv_radioMutex s" "rv_commands (with_diag f s) = rv_commands s"
  by (simp_all add: with_diag_def)

lemma setState_simps [simp]:
  "rd_ready (setState x d) = rd_ready d" "rd_config (setState x d) = rd_config d" "rd_lastCode (setState x d) = rd_lastCode d"
  by (simp_all add: setState_def)

lemma configureUnlocked_outcome:
  assumes "configureUnlocked R config (s, r) = (ok, s', r')"
  shows "rd_config (rv_diagnostics s') = (if ok then config else rd_config (rv_diagnostics s)) \<and>
    rd_ready (rv_diagnostics s') = ok \<and> rv_dio0Action s' = rv_dio0Action s"
  using assms by (auto simp: configureUnlocked_def Let_def split: prod.splits if_splits)

lemma startReceiveUnlocked_outcome:
  assumes "startReceiveUnlocked R (s, r) = (ok, s', r')"
  shows "rd_config (rv_diagnostics s') = rd_config (rv_diagnostics s) \<and> rd_ready (rv_diagnostics s') = ok \<and>
    rv_dio0Action s' = Dio0Action_kReceive \<and> rv_commands s' = rv_commands s"
  using assms by (cases "rv_dio0Action s") (auto simp: startReceiveUnlocked_def Let_def split: prod.splits)

lemma configureAndReceive_outcome:
  assumes "configureAndReceive R config (s, r) = (ok, s', r')"
  shows "rd_ready (rv_diagnostics s') = ok \<and>
    (if ok then rd_config (rv_diagnostics s') = config \<and> rv_dio0Action s' = Dio0Action_kReceive
     else rd_config (rv_diagnostics s') \<in> {config, rd_config (rv_diagnostics s)})"
proof -
  obtain ok1 s1 r1 where c: "configureUnlocked R config (s, r) = (ok1, s1, r1)" by (metis prod_cases3)
  show ?thesis
  proof (cases ok1)
    case True
    then have "startReceiveUnlocked R (s1, r1) = (ok, s', r')" using assms c by (simp add: configureAndReceive_def)
    from startReceiveUnlocked_outcome[OF this] configureUnlocked_outcome[OF c] True show ?thesis by auto
  next
    case False
    then show ?thesis using assms c configureUnlocked_outcome[OF c] by (auto simp: configureAndReceive_def)
  qed
qed

text \<open>The contract of the radio's settings: \<open>programmed\<close> is the configuration the chip works with. A \<open>begin\<close> that
  succeeds programs its argument; starting reception, the interrupt, standby and logging leave it.\<close>
locale radio_settings =
  fixes R :: "'r radio_platform" and programmed :: "'r \<Rightarrow> RadioConfig"
  assumes begin_programs: "rp_begin R c r = (RADIOLIB_ERR_NONE R, r') \<Longrightarrow> programmed r' = c"
    and settings_kept: "programmed (snd (rp_setCRC R e r)) = programmed r" "programmed (snd (rp_startReceive R r)) = programmed r"
      "programmed (snd (rp_standby R r)) = programmed r" "programmed (snd (rp_notifyTake R ms r)) = programmed r"
      "programmed (rp_clearPacketSentAction R r) = programmed r" "programmed (rp_setPacketReceivedAction R r) = programmed r"
      "programmed (rp_log R l r) = programmed r"

text \<open>The radio can work with a configuration: it accepts it, and with it set the CRC and reception can be turned on.\<close>
definition radio_accepts :: "'r radio_platform \<Rightarrow> ('r \<Rightarrow> RadioConfig) \<Rightarrow> RadioConfig \<Rightarrow> bool" where
  "radio_accepts R programmed c \<longleftrightarrow> (\<forall>r. fst (rp_begin R c r) = RADIOLIB_ERR_NONE R \<and>
     (programmed r = c \<longrightarrow> fst (rp_setCRC R True r) = RADIOLIB_ERR_NONE R \<and> fst (rp_startReceive R r) = RADIOLIB_ERR_NONE R))"

context radio_settings
begin

lemma settings_kept_eq:
  "rp_setCRC R e r = (x, r') \<Longrightarrow> programmed r' = programmed r" "rp_startReceive R r = (x, r') \<Longrightarrow> programmed r' = programmed r"
  using settings_kept by (metis snd_conv)+

lemma configureUnlocked_programs:
  assumes "configureUnlocked R config (s, r) = (ok, s', r')"
  shows "(ok \<longrightarrow> programmed r' = config) \<and> (radio_accepts R programmed config \<longrightarrow> ok)"
proof -
  obtain code r1 where 1: "rp_begin R config r = (code, r1)" by fastforce
  obtain code2 r2 where 2: "rp_setCRC R True r1 = (code2, r2)" by fastforce
  have ok: "ok \<longleftrightarrow> code = RADIOLIB_ERR_NONE R \<and> code2 = RADIOLIB_ERR_NONE R" and r': "ok \<longrightarrow> r' = rp_log R (LogRadioReady config) r2"
    using assms 1 2 by (auto simp: configureUnlocked_def Let_def split: if_splits)
  have "programmed r1 = config" if "code = RADIOLIB_ERR_NONE R" using begin_programs 1 that by simp
  moreover have "programmed r2 = programmed r1" using settings_kept_eq(1)[OF 2] .
  moreover have "code = RADIOLIB_ERR_NONE R" if "radio_accepts R programmed config"
    using that 1 unfolding radio_accepts_def by (metis fst_conv)
  moreover have "code2 = RADIOLIB_ERR_NONE R" if "radio_accepts R programmed config" "programmed r1 = config"
    using that 2 unfolding radio_accepts_def by (metis fst_conv)
  ultimately show ?thesis using ok r' by (auto simp: settings_kept)
qed

lemma startReceiveUnlocked_programs:
  assumes "startReceiveUnlocked R (s, r) = (ok, s', r')"
  shows "programmed r' = programmed r \<and> (radio_accepts R programmed (programmed r) \<longrightarrow> ok)"
proof -
  define r1 where "r1 = (if rv_dio0Action s = Dio0Action_kTransmit then rp_clearPacketSentAction R r else r)"
  define r2 where "r2 = (if rv_dio0Action s = Dio0Action_kReceive then r1 else rp_setPacketReceivedAction R r1)"
  obtain code r3 where 3: "rp_startReceive R (snd (rp_notifyTake R 0 r2)) = (code, r3)" by fastforce
  have ok: "ok \<longleftrightarrow> code = RADIOLIB_ERR_NONE R" and r': "r' = r3"
    using assms 3 by (cases "rv_dio0Action s"; simp add: startReceiveUnlocked_def Let_def r1_def r2_def split: prod.splits)+
  have keep: "programmed (snd (rp_notifyTake R 0 r2)) = programmed r" by (simp add: r1_def r2_def settings_kept)
  moreover have "code = RADIOLIB_ERR_NONE R" if "radio_accepts R programmed (programmed r)"
    using that 3 keep unfolding radio_accepts_def by (metis fst_conv)
  ultimately show ?thesis using settings_kept_eq(2)[OF 3] ok r' by simp
qed

lemma configureAndReceive_programs:
  assumes "configureAndReceive R config (s, r) = (ok, s', r')"
  shows "(ok \<longrightarrow> programmed r' = config) \<and> (radio_accepts R programmed config \<longrightarrow> ok)"
proof -
  obtain ok1 s1 r1 where c: "configureUnlocked R config (s, r) = (ok1, s1, r1)" by (metis prod_cases3)
  show ?thesis
  proof (cases ok1)
    case True
    then have "startReceiveUnlocked R (s1, r1) = (ok, s', r')" using assms c by (simp add: configureAndReceive_def)
    from startReceiveUnlocked_programs[OF this] configureUnlocked_programs[OF c] True show ?thesis by auto
  next
    case False
    then show ?thesis using assms c configureUnlocked_programs[OF c] by (simp add: configureAndReceive_def)
  qed
qed

end

text \<open>C25: Applying a radio configuration is all or nothing. If the radio can work with the candidate, the call succeeds. A
  call that succeeds leaves the radio programmed with the candidate and receiving. A call that fails while the radio can
  work with the previous configuration leaves the radio programmed with the previous configuration, ready and receiving,
  and that is what the diagnostics report; if even the previous configuration cannot be restored, the radio is reported as
  not ready. In no case does it receive with any other configuration.\<close>
theorem applyConfig_rolls_back:
  assumes "radio_settings R programmed" "rv_radioMutex s" "applyConfig R candidate (s, r) = (ok, s', r')"
  shows "let previous = rd_config (rv_diagnostics s); receiving = (\<lambda>c. rd_ready (rv_diagnostics s') \<and>
       rd_config (rv_diagnostics s') = c \<and> programmed r' = c \<and> rv_dio0Action s' = Dio0Action_kReceive) in
     (radio_accepts R programmed candidate \<longrightarrow> ok) \<and> (ok \<longrightarrow> receiving candidate) \<and>
     (\<not> ok \<and> radio_accepts R programmed previous \<longrightarrow> receiving previous) \<and>
     (\<not> ok \<and> rd_ready (rv_diagnostics s') \<longrightarrow> receiving previous)"
proof -
  define r0 where "r0 = snd (rp_standby R r)"
  obtain ok1 s1 r1 where c: "configureAndReceive R candidate (s, r0) = (ok1, s1, r1)" by (metis prod_cases3)
  note programs = radio_settings.configureAndReceive_programs[OF assms(1)]
  show ?thesis
  proof (cases ok1)
    case True
    then show ?thesis using assms(2,3) c r0_def configureAndReceive_outcome[OF c] programs[OF c] by (simp add: applyConfig_def Let_def)
  next
    case False
    define previous where "previous = rd_config (rv_diagnostics s)"
    define r2 where "r2 = rp_log R (LogCandidateFailed (rd_lastCode (rv_diagnostics s1))) r1"
    obtain ok3 s3 r3 where p: "configureAndReceive R previous (s1, r2) = (ok3, s3, r3)" by (metis prod_cases3)
    have "\<not> ok" "s' = s3" "ok3 \<longrightarrow> r' = r3"
      using assms(2,3) c False p by (auto simp: applyConfig_def Let_def r0_def r2_def previous_def split: bool.splits)
    then show ?thesis using configureAndReceive_outcome[OF p] programs[OF p] programs[OF c] False
      by (simp add: Let_def previous_def[symmetric])
  qed
qed


section \<open>What goes on air\<close>

text \<open>The contract of the radio: \<open>on_air\<close> lists the frames handed to it for transmission.\<close>

locale radio_hardware =
  fixes R :: "'r radio_platform" and on_air :: "'r \<Rightarrow> byte list list"
  assumes transmit_on_air: "on_air (snd (rp_startTransmit R b r)) = on_air r @ [b]"
    and quiet: "on_air (snd (rp_createMutex R r)) = on_air r" "on_air (snd (rp_createTask R r)) = on_air r"
      "on_air (rp_spiBegin R r) = on_air r" "on_air (snd (rp_begin R c r)) = on_air r" "on_air (snd (rp_setCRC R e r)) = on_air r"
      "on_air (snd (rp_standby R r)) = on_air r" "on_air (snd (rp_startReceive R r)) = on_air r"
      "on_air (snd (rp_finishTransmit R r)) = on_air r" "on_air (snd (rp_getPacketLength R r)) = on_air r"
      "on_air (snd (rp_readData R n r)) = on_air r" "on_air (snd (rp_getRSSI R r)) = on_air r"
      "on_air (snd (rp_getSNR R r)) = on_air r" "on_air (snd (rp_getFrequencyError R r)) = on_air r"
      "on_air (rp_setPacketSentAction R r) = on_air r" "on_air (rp_clearPacketSentAction R r) = on_air r"
      "on_air (rp_setPacketReceivedAction R r) = on_air r" "on_air (rp_clearPacketReceivedAction R r) = on_air r"
      "on_air (snd (rp_notifyTake R ms r)) = on_air r" "on_air (snd (rp_nowUs R r)) = on_air r"
      "on_air (snd (rp_gettimeofday R r)) = on_air r" "on_air (rp_log R l r) = on_air r"
begin

lemma quiet_eq:
  "rp_standby R r = (x, r') \<Longrightarrow> on_air r' = on_air r" "rp_startReceive R r = (x, r') \<Longrightarrow> on_air r' = on_air r"
  "rp_finishTransmit R r = (x, r') \<Longrightarrow> on_air r' = on_air r" "rp_notifyTake R ms r = (m, r') \<Longrightarrow> on_air r' = on_air r"
  "rp_nowUs R r = (t, r') \<Longrightarrow> on_air r' = on_air r" "rp_gettimeofday R r = (v, r') \<Longrightarrow> on_air r' = on_air r"
  "rp_getPacketLength R r = (len, r') \<Longrightarrow> on_air r' = on_air r" "rp_readData R n r = (y, r') \<Longrightarrow> on_air r' = on_air r"
  "rp_getRSSI R r = (z, r') \<Longrightarrow> on_air r' = on_air r" "rp_getSNR R r = (z, r') \<Longrightarrow> on_air r' = on_air r"
  "rp_getFrequencyError R r = (z, r') \<Longrightarrow> on_air r' = on_air r"
  using quiet by (metis snd_conv)+

lemma logs_quiet: "on_air (fold (rp_log R) ls r) = on_air r"
  by (induction ls arbitrary: r) (simp_all add: quiet)

lemma startReceive_quiet: "startReceiveUnlocked R (s, r) = (ok, s', r') \<Longrightarrow> on_air r' = on_air r"
  by (cases "rv_dio0Action s")
     (auto simp: startReceiveUnlocked_def Let_def quiet dest: quiet_eq split: prod.splits)

lemma armTransmit_quiet: "armTransmit R (s, r) = (s', r') \<Longrightarrow> on_air r' = on_air r \<and> rv_commands s' = rv_commands s"
  by (auto simp: armTransmit_def Let_def quiet split: if_splits)

lemma awaitTransmit_quiet: "awaitTransmit R len (s, r) = (ok, s', r') \<Longrightarrow> on_air r' = on_air r \<and> rv_commands s' = rv_commands s"
  by (auto simp: awaitTransmit_def Let_def quiet dest!: quiet_eq(3,4) split: prod.splits if_splits)

lemma sendAck_on_air:
  assumes "sendAck R bytes (s, r) = (report, s', r')"
  shows "on_air r' = on_air r @ [bytes] \<and> at_attempted report \<and> rv_commands s' = rv_commands s"
proof -
  obtain s0 r0 where arm: "armTransmit R (s, r) = (s0, r0)" by fastforce
  obtain startUs r1 where n1: "rp_nowUs R r0 = (startUs, r1)" by fastforce
  obtain code r2 where t: "rp_startTransmit R bytes r1 = (code, r2)" by fastforce
  obtain s1 where s1: "s1 = with_diag (\<lambda>d. d\<lparr>rd_lastCode := code\<rparr>) (with_diag (setState ''ACK_TX'') s0)" by blast
  obtain ok s2 r3 where w: "awaitTransmit R (length bytes) (s1, r2) = (ok, s2, r3)" by (metis prod_cases3)
  obtain endUs r4 where n2: "rp_nowUs R r3 = (endUs, r4)" by fastforce
  obtain restored s3 r5 where sr: "startReceiveUnlocked R (s2, r4) = (restored, s3, r5)" by (metis prod_cases3)
  have "report = \<lparr>at_attempted = True, at_success = ok, at_receiveRestored = restored, at_startUs = startUs, at_completedUs = endUs\<rparr> \<and>
      s' = s3 \<and> r' = r5"
    using assms arm n1 t w n2 sr by (simp add: sendAck_def Let_def s1)
  moreover have "on_air r2 = on_air r @ [bytes]"
    using transmit_on_air[of bytes r1] quiet_eq(5)[OF n1] t armTransmit_quiet[OF arm] by simp
  moreover have "on_air r5 = on_air r2" "rv_commands s3 = rv_commands s1"
    using startReceive_quiet[OF sr] quiet_eq(5)[OF n2] awaitTransmit_quiet[OF w] startReceiveUnlocked_outcome[OF sr] by simp_all
  ultimately show ?thesis using armTransmit_quiet[OF arm] by (simp add: s1)
qed

lemma gateway_now_quiet:
  assumes "gateway_now R g = (ts, g')"
  shows "on_air (gw_air g') = on_air (gw_air g)" "gw_queue g' = gw_queue g" "gw_flash g' = gw_flash g"
    "gw_processor g' = gw_processor g" "gw_radio g' = gw_radio g" "gw_commands g' = gw_commands g" "gw_nvs g' = gw_nvs g"
  using assms by (auto simp: gateway_now_def dest: quiet_eq split: prod.splits if_splits)

lemma receiveAgain_quiet:
  "on_air (gw_air (receiveAgain R g)) = on_air (gw_air g)" "gw_queue (receiveAgain R g) = gw_queue g"
  "gw_flash (receiveAgain R g) = gw_flash g" "gw_processor (receiveAgain R g) = gw_processor g"
  by (auto simp: receiveAgain_def dest: startReceive_quiet split: prod.splits)

end

text \<open>A radio in memory: it receives what is in its inbox, refuses a spreading factor below 6, and its
  clock ticks.\<close>

record mem_air =
  ma_sent :: "byte list list"
  ma_inbox :: "byte list"
  ma_clock :: u64
  ma_logs :: "RadioLog list"
  ma_config :: RadioConfig

definition mem_radio :: "mem_air radio_platform" where
  "mem_radio = \<lparr>RADIOLIB_ERR_NONE = 0, RADIOLIB_ERR_CRC_MISMATCH = -7, RADIOLIB_ERR_TX_TIMEOUT = -5,
     rp_createMutex = Pair True, rp_createTask = Pair True, rp_spiBegin = id,
     rp_begin = (\<lambda>c r. if r_spreadingFactor c < 6 then (-8, r) else (0, r\<lparr>ma_config := c\<rparr>)), rp_setCRC = (\<lambda>_. Pair 0), rp_standby = Pair 0,
     rp_startReceive = Pair 0, rp_startTransmit = (\<lambda>b r. (0, r\<lparr>ma_sent := ma_sent r @ [b]\<rparr>)), rp_finishTransmit = Pair 0,
     rp_getTimeOnAir = (\<lambda>_ _. 400000), rp_getPacketLength = (\<lambda>r. (length (ma_inbox r), r)),
     rp_readData = (\<lambda>n r. ((0, take n (ma_inbox r)), r\<lparr>ma_inbox := []\<rparr>)), rp_getRSSI = Pair 0xC2280000, rp_getSNR = Pair 0x41180000,
     rp_getFrequencyError = Pair 0, rp_toInt32 = (\<lambda>_. 0), rp_setPacketSentAction = id, rp_clearPacketSentAction = id,
     rp_setPacketReceivedAction = id, rp_clearPacketReceivedAction = id, rp_notifyTake = (\<lambda>_. Pair 1),
     rp_nowUs = (\<lambda>r. (ma_clock r, r\<lparr>ma_clock := ma_clock r + 1000\<rparr>)), rp_gettimeofday = Pair (Some example_timeval),
     rp_log = (\<lambda>l r. r\<lparr>ma_logs := ma_logs r @ [l]\<rparr>)\<rparr>"

interpretation mem_radio: radio_hardware mem_radio ma_sent
  by unfold_locales (simp_all add: mem_radio_def)

interpretation mem_radio: radio_settings mem_radio ma_config
  by unfold_locales (auto simp: mem_radio_def split: if_splits)

definition quiet_air :: mem_air where "quiet_air = \<lparr>ma_sent = [], ma_inbox = [], ma_clock = 0, ma_logs = [], ma_config = RadioConfig_init\<rparr>"

definition idle_radio :: "real RadioService" where
  "idle_radio = (RadioService_init real_ops 0)\<lparr>rv_radioMutex := True\<rparr>"

theorem applyConfig_rolls_back_witness:
  "\<exists>s' r'. applyConfig mem_radio (RadioConfig_init\<lparr>r_spreadingFactor := 5\<rparr>) (idle_radio, quiet_air) = (False, s', r') \<and>
     rd_ready (rv_diagnostics s') \<and> rd_config (rv_diagnostics s') = RadioConfig_init \<and> ma_config r' = RadioConfig_init"
proof -
  let ?run = "applyConfig mem_radio (RadioConfig_init\<lparr>r_spreadingFactor := 5\<rparr>) (idle_radio, quiet_air)"
  obtain s' r' where run: "?run = (False, s', r')"
    by (simp add: applyConfig_def configureAndReceive_def configureUnlocked_def startReceiveUnlocked_def mem_radio_def idle_radio_def
        RadioService_init_def RadioDiagnostics_init_def RadioConfig_init_def quiet_air_def with_diag_def setState_def Let_def)
  have start: "rv_radioMutex idle_radio" "rd_config (rv_diagnostics idle_radio) = RadioConfig_init"
    by (simp_all add: idle_radio_def RadioService_init_def RadioDiagnostics_init_def)
  have "radio_accepts mem_radio ma_config RadioConfig_init" by (simp add: radio_accepts_def mem_radio_def RadioConfig_init_def)
  with applyConfig_rolls_back[OF mem_radio.radio_settings_axioms start(1) run] show ?thesis using run start(2) by (simp add: Let_def)
qed

end
