(* ===== verification/Gateway_Receive.thy ===== *)
theory Gateway_Receive
  imports Radio_Service
begin

text \<open>
  The receive path put together: the packet processor on the real queue, the real command store and the
  real radio worker keeps the contract \<open>packet_sinks\<close>, so whatever the gateway puts on air in answer to a
  frame acknowledges a telemetry packet that is on stable storage.
\<close>

section \<open>Durability and acknowledgements of the gateway\<close>

definition queue_ok :: "('q \<Rightarrow> string \<Rightarrow> byte list option) \<Rightarrow> DurableQueue \<Rightarrow> 'q \<Rightarrow> bool" where
  "queue_ok content q h \<longleftrightarrow> (\<forall>core. usable q = Some core \<longrightarrow> core_inv core (record_files content h))"

text \<open>The packet is in a valid record file of the queue, or among the packets finished recently.\<close>

definition queue_durable :: "('q \<Rightarrow> string \<Rightarrow> byte list option) \<Rightarrow> DurableQueue \<Rightarrow> 'q \<Rightarrow> TelemetryKey \<Rightarrow> bool" where
  "queue_durable content q h k \<longleftrightarrow>
     (\<exists>core. usable q = Some core \<and> queue_has core (record_files content h) k) \<or> dedup_contains (dq_recent q) k"

text \<open>What holds of two states of the queue, the second later than the first: in the second every indexed record has its
  valid file, and a record indexed there was in the first queue, with the same number and file, or has a number the first
  queue had not given out. Over the states of a run this is a transitive relation between every two of them.\<close>

definition numbered_after :: "u64 \<Rightarrow> (u64 \<times> byte list option) list \<Rightarrow> u64 \<Rightarrow> (u64 \<times> byte list option) list \<Rightarrow> bool" where
  "numbered_after n v n' v' \<longleftrightarrow> (n = 0 \<longrightarrow> n' = 0) \<and> (n' = 0 \<or> n \<le> n') \<and> (\<forall>x \<in> set v'. x \<in> set v \<or> n \<noteq> 0 \<and> n \<le> fst x)"

lemma numbered_after_refl: "set v' \<subseteq> set v \<Longrightarrow> numbered_after n v n v'"
  by (auto simp: numbered_after_def)

lemma numbered_after_trans: "numbered_after n v n' v' \<Longrightarrow> numbered_after n' v' n'' v'' \<Longrightarrow> numbered_after n v n'' v''"
proof -
  assume a: "numbered_after n v n' v'" and b: "numbered_after n' v' n'' v''"
  then have n: "n' = 0 \<or> n \<le> n'" "n' = 0 \<longrightarrow> n'' = 0" "n'' = 0 \<or> n' \<le> n''" "n = 0 \<longrightarrow> n' = 0" by (auto simp: numbered_after_def)
  have "x \<in> set v \<or> n \<noteq> 0 \<and> n \<le> fst x" if "x \<in> set v''" for x
  proof (cases "x \<in> set v'")
    case False
    then have "n' \<noteq> 0" "n' \<le> fst x" using b that by (auto simp: numbered_after_def)
    then show ?thesis using n(1,4) by (auto intro: order_trans)
  qed (use a in \<open>auto simp: numbered_after_def\<close>)
  then show ?thesis using n order_trans[of n n' n''] unfolding numbered_after_def by metis
qed

lemma set_tl_subset: "set (tl xs) \<subseteq> set xs"
  by (cases xs) auto

lemma numbered_after_push:
  assumes "n \<noteq> 0" "set v \<subseteq> set v0"
  shows "numbered_after n v0 (n + 1) (v @ [(n, b)])"
proof -
  have "n + 1 = 0 \<or> n \<le> n + 1"
  proof (cases "unat n + 1 < 2 ^ 64")
    case True
    then show ?thesis by (simp add: word_le_nat_alt unat_word_ariths)
  next
    case False
    moreover have "unat n < 2 ^ LENGTH(64)" by (rule unsigned_less)
    ultimately have "unat n + 1 = 2 ^ 64" by simp
    then have "unat (n + 1) = 0" by (simp add: unat_word_ariths)
    then show ?thesis by (simp add: unat_eq_zero)
  qed
  then show ?thesis using assms by (auto simp: numbered_after_def)
qed

definition queue_after ::
  "('q \<Rightarrow> string \<Rightarrow> byte list option) \<Rightarrow> DurableQueue \<times> 'q \<Rightarrow> DurableQueue \<times> 'q \<Rightarrow> bool" where
  "queue_after content = (\<lambda>(q, h) (q', h'). queue_ok content q' h' \<and>
     (\<forall>core. usable q = Some core \<longrightarrow> (\<exists>core'. usable q' = Some core' \<and>
        numbered_after (qc_nextRecordId core) (queue_view core (record_files content h))
          (qc_nextRecordId core') (queue_view core' (record_files content h')))))"

lemma queue_after_same:
  assumes "queue_ok content q h" "usable q' = usable q" "record_files content h' = record_files content h"
  shows "queue_after content (q, h) (q', h')"
  using assms by (auto simp: queue_after_def queue_ok_def numbered_after_refl)

lemma queue_after_ok: "queue_after content s (q, h) \<Longrightarrow> queue_ok content q h"
  by (cases s) (simp add: queue_after_def)

lemma queue_after_trans: "queue_after content a b \<Longrightarrow> queue_after content b c \<Longrightarrow> queue_after content a c"
  unfolding queue_after_def case_prod_beta by (meson numbered_after_trans)

lemma queue_afterI:
  assumes "usable q = Some core" "usable q' = Some core'" "core_inv core' (record_files content h')"
    "numbered_after (qc_nextRecordId core) (queue_view core (record_files content h)) (qc_nextRecordId core') (queue_view core' (record_files content h'))"
  shows "queue_after content (q, h) (q', h')"
  using assms by (simp add: queue_after_def queue_ok_def)

definition gw_inv :: "(DurableQueue \<Rightarrow> 'q \<Rightarrow> bool) \<Rightarrow> ('d, 'q, 'c, 'r) Gateway \<Rightarrow> bool" where
  "gw_inv I g = I (gw_queue g) (gw_flash g)"

definition gw_durable :: "('q \<Rightarrow> string \<Rightarrow> byte list option) \<Rightarrow> ('d, 'q, 'c, 'r) Gateway \<Rightarrow> TelemetryKey \<Rightarrow> bool" where
  "gw_durable content g = queue_durable content (gw_queue g) (gw_flash g)"

text \<open>A frame on air acknowledges \<open>t\<close>: the node decodes it to an ACK that matches \<open>t\<close>.\<close>

definition ack_answers :: "byte list \<Rightarrow> TelemetryPacket \<Rightarrow> bool" where
  "ack_answers x t \<longleftrightarrow> (\<exists>ack. decodeAckCommand (Some x) (length x) AckCommandPacket_init = (DecodeStatus_kOk, ack) \<and> ackMatches ack t)"


section \<open>The acknowledgement frame\<close>

text \<open>An ACK without the payload fields its command does not carry: what the node decodes.\<close>

definition ack_canonical :: "AckCommandPacket \<Rightarrow> AckCommandPacket" where
  "ack_canonical a = a\<lparr>a_pollIntervalMinutes := (if a_commandType a = CommandType_kSetPollIntervalMinutes then a_pollIntervalMinutes a else 0),
     a_scheduledMaintenanceUnix := (if a_commandType a = CommandType_kScheduleMaintenanceAt then a_scheduledMaintenanceUnix a else 0)\<rparr>"

lemma ack_canonical_bytes: "ack_bytes (ack_canonical a) = ack_bytes a"
  by (cases "a_commandType a") (simp_all add: ack_canonical_def ack_bytes_def ack_payload_def ack_tail_def)

lemma ack_canonical_fields:
  "a_nodeId (ack_canonical a) = a_nodeId a" "ackValid (ack_canonical a) = ackValid a"
  "ackMatches (ack_canonical a) t = ackMatches a t"
  by (cases "a_commandType a"; simp add: ack_canonical_def ackValid_def ackMatches_def)+

lemma encoded_ack_answers:
  assumes "telemetry_wf t" "a_nodeId a = t_nodeId t" "a_persistentSessionId a = t_persistentSessionId t" "a_sequence a = t_sequence t"
    and "encodeAckCommand a (Some (replicate kRadioPacketCapacity 0)) kRadioPacketCapacity = (True, bytes, len)"
  shows "ack_answers (take len (the bytes)) t"
proof -
  have valid: "ackValid a" using assms(5) by (auto simp: encodeAckCommand_def split: if_splits)
  then have wf: "ack_wf (ack_canonical a)"
    using assms(1,2) by (simp add: ack_wf_def ack_canonical_fields telemetry_wf_def) (simp add: ack_canonical_def)
  have "encodeAckCommand a (Some (replicate kRadioPacketCapacity 0)) kRadioPacketCapacity =
      (True, Some (ack_bytes a @ drop (length (ack_bytes a)) (replicate kRadioPacketCapacity 0)), length (ack_bytes a))"
    using wf valid ack_fits[OF wf]
    by (intro encodeAckCommand_ok) (simp_all add: ack_wf_def ack_canonical_fields ack_canonical_bytes capacity_defs)
  then have bytes: "take len (the bytes) = ack_bytes (ack_canonical a)" using assms(5) by (simp add: ack_canonical_bytes)
  have "decodeAckCommand (Some (ack_bytes (ack_canonical a))) (length (ack_bytes (ack_canonical a))) AckCommandPacket_init
      = (DecodeStatus_kOk, ack_canonical a)"
    using wf by (intro decodeAckCommand_accepts) auto
  moreover have "ackMatches (ack_canonical a) t" 
    unfolding ack_canonical_fields(3) using assms by (simp add: ackMatches_def strncmp_eq_def)
  ultimately show ?thesis by (auto simp: ack_answers_def bytes)
qed

lemma ackFor_fields:
  assumes "telemetry_wf t"
  shows "a_nodeId (ackFor t ts c) = t_nodeId t" "a_persistentSessionId (ackFor t ts c) = t_persistentSessionId t"
    "a_sequence (ackFor t ts c) = t_sequence t"
  using makeAck_node[OF assms] by (simp_all add: ackFor_def Let_def makeAck_def AckCommandPacket_init_def split: option.splits)


section \<open>The collaborators keep the contract\<close>

context queue_hardware
begin

lemma enqueue_keeps:
  assumes "DurableQueue_enqueue P rec0 (q, h) = (((ok, dropped), rec1), q', h')" "length (q_rawPayload rec0) = kRadioPacketCapacity"
    and "queue_ok content q h"
  shows "queue_after content (q, h) (q', h') \<and>
    (ok \<longrightarrow> (\<exists>t. recordTelemetry rec0 = Some t \<and> queue_durable content q' h' (packetKey t)))"
proof (cases "usable q")
  case None
  then show ?thesis using assms(1) queue_after_same[OF assms(3)] by (auto simp: DurableQueue_enqueue_def)
next
  case (Some core)
  note st = storage_contract
  obtain ok1 r1 core' h1 where e: "core_enqueue (littlefs_queue_storage (qp_fs P)) rec0 (core, h) = ((ok1, r1), core', h1)"
    by (metis prod_cases3 surj_pair)
  have inv: "core_inv core (record_files content h)" using assms(3) Some by (simp add: queue_ok_def)
  note out = queue_storage.enqueue_outcome[OF st inv assms(2) e]
  define q1 where "q1 = addErrors (ucast (st_storageErrors (qc_stats core') - st_storageErrors (qc_stats core)))
    (addDropped (ucast (st_droppedOldest (qc_stats core') - st_droppedOldest (qc_stats core))) (q\<lparr>dq_core := Some core'\<rparr>))"
  have q1: "usable q1 = Some core'" using Some by (auto simp: q1_def addErrors_def addDropped_def usable_def split: if_splits)
  obtain ok2 q2 h2 where p: "persistCounters P (q1, h1) = (ok2, q2, h2)" by (metis prod_cases3)
  have "usable q2 = Some core'" "content h2 = content h1" using persistCounters_keeps[OF p] q1 by (auto simp: usable_def)
  then have fin: "ok = ok1" "usable q' = Some core'" "content h' = content h1"
    using assms(1) Some e p q1 by (auto simp: DurableQueue_enqueue_def Let_def q1_def split: if_splits)
  then have files: "record_files content h' = record_files content h1" using files_content by blast
  show ?thesis
  proof (cases ok)
    case True
    then obtain t where t: "recordTelemetry rec0 = Some t" "record_ok r1" "r1 = rec0\<lparr>q_recordId := qc_nextRecordId core\<rparr>" "qc_nextRecordId core \<noteq> 0"
      and enq: "queue_storage.enqueued (record_files content) core h r1 t core' h1"
      using out fin by (auto simp: record_ok_def)
    have "recordTelemetry r1 = Some t" using t by (simp add: recordTelemetry_def)
    then have f: "file_record (record_encoding r1) (qc_nextRecordId core) = Some (canonical r1, t)"
      using file_record_encoding[OF t(2)] t(3) by simp
    have v: "core_inv core' (record_files content h1)"
        "(qc_nextRecordId core, Some (record_encoding r1)) \<in> set (queue_view core' (record_files content h1))"
      using enq by (simp_all add: queue_storage.enqueued_def[OF st])
    then obtain e where e: "e \<in> set (qc_entries core')" "en_recordId e = qc_nextRecordId core"
        "record_files content h1 (en_recordId e) = Some (record_encoding r1)"
      by (auto simp: queue_view_def)
    have "queue_has core' (record_files content h1) (packetKey t)"
      unfolding queue_has_def using e f telemetryKeyEqual_refl[of "packetKey t"] by metis
    moreover have "queue_after content (q, h) (q', h')"
    proof (rule queue_afterI[OF Some fin(2)])
      show "core_inv core' (record_files content h')" using v(1) files by simp
      show "numbered_after (qc_nextRecordId core) (queue_view core (record_files content h)) (qc_nextRecordId core') (queue_view core' (record_files content h'))"
        using enq files t(4) numbered_after_push[OF t(4) set_tl_subset] numbered_after_push[OF t(4) order_refl]
        by (auto simp: queue_storage.enqueued_def[OF st])
    qed
    ultimately show ?thesis using fin(2) v(1) t(1) files by (auto simp: queue_durable_def)
  next
    case False
    then have r: "core_inv core' (record_files content h1)" "qc_nextRecordId core' = qc_nextRecordId core"
        "set (queue_view core' (record_files content h1)) \<subseteq> set (queue_view core (record_files content h))"
      using out fin by (auto simp: queue_storage.refused_def[OF st] dest: set_tl_subset[THEN subsetD])
    then have "queue_after content (q, h) (q', h')"
      using files numbered_after_refl by (intro queue_afterI[OF Some fin(2)]) simp_all
    then show ?thesis using False by simp
  qed
qed

lemma contains_keeps:
  assumes "DurableQueue_contains P k (q, h) = (found, q', h')"
    and "queue_ok content q h"
  shows "queue_after content (q, h) (q', h') \<and>
    (found \<longrightarrow> queue_durable content q' h' k)"
proof (cases "usable q")
  case None
  then show ?thesis using assms queue_after_same[OF assms(2)] by (auto simp: DurableQueue_contains_def)
next
  case (Some core)
  show ?thesis
  proof (cases "dedup_contains (dq_recent q) k")
    case True
    then show ?thesis using assms Some queue_after_same[OF assms(2) refl refl] by (auto simp: DurableQueue_contains_def queue_durable_def)
  next
    case False
    obtain f1 core' h1 where c: "core_contains (littlefs_queue_storage (qp_fs P)) k (core, h) = (f1, core', h1)" by (metis prod_cases3)
    have inv: "core_inv core (record_files content h)" using assms(2) Some by (simp add: queue_ok_def)
    have "found = f1" "usable q' = Some core'" "h' = h1"
      using assms(1) Some False c by (auto simp: DurableQueue_contains_def addErrors_def usable_def split: if_splits)
    moreover note out = queue_storage.contains_sound[OF storage_contract inv c]
    moreover have "queue_view core' (record_files content h1) = queue_view core (record_files content h)"
      using out by (simp add: queue_view_def)
    ultimately have "queue_after content (q, h) (q', h')"
      using numbered_after_refl by (intro queue_afterI[OF Some, of _ core']) auto
    then show ?thesis using out \<open>found = f1\<close> \<open>usable q' = Some core'\<close> \<open>h' = h1\<close> by (auto simp: queue_has_def queue_durable_def)
  qed
qed

end

text \<open>\<open>I\<close> is any invariant of the queue that other tasks and this one keep.\<close>

locale receive_path =
  queue_hardware Q content number flag + radio_hardware R on_air
  for Q :: "'q queue_platform" and content number flag and R :: "'r radio_platform" and on_air +
  fixes D :: "'d double_ops" and B :: "'c command_backend_ops" and I :: "DurableQueue \<Rightarrow> 'q \<Rightarrow> bool"
  assumes I_ok: "I q h \<Longrightarrow> queue_ok content q h"
    and I_after: "I q h \<Longrightarrow> queue_after content (q, h) (q', h') \<Longrightarrow> I q' h'"
begin

lemma transmitAck_outcome:
  assumes "telemetry_wf t" "transmitAck B R t g = (report, g')"
  shows "gw_queue g' = gw_queue g \<and> gw_flash g' = gw_flash g \<and> (at_success report \<longrightarrow> at_attempted report) \<and>
    (if at_attempted report then \<exists>x. on_air (gw_air g') = on_air (gw_air g) @ [x] \<and> ack_answers x t
     else on_air (gw_air g') = on_air (gw_air g))"
proof -
  obtain ts g1 where n1: "gateway_now R g = (ts, g1)" by fastforce
  define ack where "ack = ackFor t ts (if rv_commands (gw_radio g1) then pendingForAck (gw_commands g1) else None)"
  obtain ok bytes len where enc: "encodeAckCommand ack (Some (replicate kRadioPacketCapacity 0)) kRadioPacketCapacity = (ok, bytes, len)"
    by (metis prod_cases3)
  have g1: "on_air (gw_air g1) = on_air (gw_air g)" "gw_queue g1 = gw_queue g" "gw_flash g1 = gw_flash g"
    using gateway_now_quiet[OF n1] by simp_all
  show ?thesis
  proof (cases ok)
    case False
    obtain restored s r where sr: "startReceiveUnlocked R (gw_radio g1, gw_air g1) = (restored, s, r)" by (metis prod_cases3)
    have "report = AckTransmission_init\<lparr>at_receiveRestored := restored\<rparr>" "g' = g1\<lparr>gw_radio := s, gw_air := r\<rparr>"
      using assms(2) n1 enc sr False by (auto simp: transmitAck_def Let_def ack_def)
    then show ?thesis using startReceive_quiet[OF sr] g1 by (simp add: AckTransmission_init_def)
  next
    case True
    have ans: "ack_answers (take len (the bytes)) t"
      using encoded_ack_answers[OF assms(1), of ack bytes len] ackFor_fields[OF assms(1)] enc True unfolding ack_def by simp
    obtain rep s r where sa: "sendAck R (take len (the bytes)) (gw_radio g1, gw_air g1) = (rep, s, r)" by (metis prod_cases3)
    note air = sendAck_on_air[OF sa]
    define g2 where "g2 = g1\<lparr>gw_radio := s, gw_air := r\<rparr>"
    define g3 where "g3 = g2\<lparr>gw_radio := with_diag (\<lambda>d. d\<lparr>rd_commandsSentCount := rd_commandsSentCount d + 1\<rparr>) s\<rparr>"
    obtain ts2 g4 where n2: "gateway_now R g3 = (ts2, g4)" by fastforce
    have g4: "on_air (gw_air g4) = on_air r" "gw_queue g4 = gw_queue g" "gw_flash g4 = gw_flash g"
      using gateway_now_quiet[OF n2] g1(2,3) by (simp_all add: g3_def g2_def)
    have "report = rep \<and> on_air (gw_air g') = on_air r \<and> gw_queue g' = gw_queue g \<and> gw_flash g' = gw_flash g"
    proof (cases "at_success rep \<and> at_receiveRestored rep \<and> a_commandId ack \<noteq> 0 \<and> rv_commands s")
      case True
      then show ?thesis
        using assms(2) n1 enc \<open>ok\<close> sa n2[unfolded g3_def g2_def] g4
        by (auto simp: transmitAck_def Let_def simp flip: ack_def split: prod.splits)
    next
      case False
      then have "g' = g2" "report = rep"
        using assms(2) n1 enc \<open>ok\<close> sa by (auto simp: transmitAck_def Let_def simp flip: ack_def g2_def)
      then show ?thesis using g1 by (simp add: g2_def)
    qed
    then show ?thesis using air ans g1(1) by auto
  qed
qed

sublocale sinks: packet_sinks "gateway_env Q B R :: ('d, 'q, 'c, 'r) Gateway packet_env" "gw_inv I" "gw_durable content"
    "\<lambda>g. on_air (gw_air g)" ack_answers
proof (unfold_locales, goal_cases)
  case (1 w k found w')
  obtain f q' h' where c: "DurableQueue_contains Q k (gw_queue w, gw_flash w) = (f, q', h')" by (metis prod_cases3)
  then have "w' = w\<lparr>gw_queue := q', gw_flash := h'\<rparr>" "found = f" using 1(2) by (auto simp: gateway_env_def)
  then show ?case using contains_keeps[OF c I_ok] I_after 1(1) by (auto simp: gw_inv_def gw_durable_def)
next
  case (2 w r out w')
  obtain ok dropped r1 q' h' where e: "DurableQueue_enqueue Q r (gw_queue w, gw_flash w) = (((ok, dropped), r1), q', h')"
    by (metis prod_cases3 surj_pair)
  have w': "w' = w\<lparr>gw_queue := q', gw_flash := h'\<rparr>" "eo_persisted out = ok" using 2(3) e by (auto simp: gateway_env_def)
  have "recordTelemetry r = Some t \<Longrightarrow>
      decodeTelemetry (Some (q_rawPayload r)) (unat (q_payloadLength r)) TelemetryPacket_init = (DecodeStatus_kOk, t)" for t
    by (auto simp: recordTelemetry_def split: prod.splits if_splits)
  moreover have "packetKey t = telemetry_key t" for t by (simp add: packetKey_def telemetry_key_def)
  ultimately show ?case using enqueue_keeps[OF e 2(2) I_ok] I_after 2(1) w' by (auto simp: gw_inv_def gw_durable_def)
next
  case (3 w)
  have "usable (recordDuplicate q) = usable q" "dq_recent (recordDuplicate q) = dq_recent q" for q
    by (simp_all add: recordDuplicate_def noteMutation_def usable_def)
  then show ?case using 3 I_after[OF _ queue_after_same[OF I_ok]] by (simp add: gateway_env_def gw_inv_def gw_durable_def queue_durable_def fun_eq_iff)
next
  case (4 w t w')
  then show ?case by (auto simp: gateway_env_def gw_inv_def gw_durable_def fun_eq_iff dest: quiet_eq split: prod.splits)
next
  case (5 w p a w')
  have "transmitAck B R p w = (a, w')" using 5(3) by (simp add: gateway_env_def)
  from transmitAck_outcome[OF 5(2) this] 5(1) show ?case by (simp add: gw_inv_def gw_durable_def fun_eq_iff)
next
  case (6 w c x w')
  then show ?case by (auto simp: gateway_env_def gw_inv_def gw_durable_def fun_eq_iff split: prod.splits)
qed

text \<open>The frame built from what the radio read, and the whole reception.\<close>

lemma frame_well_framed:
  assumes "receivedFrame R data len us g = (frame, g')" "len \<le> kRadioPacketCapacity"
  shows "well_framed frame" "fr_bytes frame = frameBytes data len" "fr_length frame = len"
    "on_air (gw_air g') = on_air (gw_air g)" "gw_queue g' = gw_queue g" "gw_flash g' = gw_flash g" "gw_processor g' = gw_processor g"
proof -
  obtain rssi r1 where 1: "rp_getRSSI R (gw_air g) = (rssi, r1)" by fastforce
  obtain snr r2 where 2: "rp_getSNR R r1 = (snr, r2)" by fastforce
  obtain fe r3 where 3: "rp_getFrequencyError R r2 = (fe, r3)" by fastforce
  obtain ts g1 where 4: "gateway_now R (g\<lparr>gw_air := r3\<rparr>) = (ts, g1)" by fastforce
  note q = gateway_now_quiet[OF 4, simplified]
  have air: "on_air (gw_air g1) = on_air (gw_air g)" using q(1) quiet_eq(9-11) 1 2 3 by simp
  have len: "length (frameBytes data len) = kRadioPacketCapacity" using assms(2) by (simp add: frameBytes_def)
  show "well_framed frame" "fr_bytes frame = frameBytes data len" "fr_length frame = len"
    "on_air (gw_air g') = on_air (gw_air g)" "gw_queue g' = gw_queue g" "gw_flash g' = gw_flash g" "gw_processor g' = gw_processor g"
    using assms 1 2 3 4 q(2-4) air len by (auto simp: receivedFrame_def Let_def well_framed_def)
qed

lemma handleFrame_durable:
  assumes "gw_inv I g" "well_framed frame" "g' = handleFrame D Q B R frame synthetic g"
  shows "gw_inv I g' \<and> (on_air (gw_air g') = on_air (gw_air g) \<or>
     (\<exists>p t x. gw_processor g = Some p \<and>
        decodeTelemetry (Some (fr_bytes frame)) (fr_length frame) TelemetryPacket_init = (DecodeStatus_kOk, t) \<and>
        \<not> pm_pairingMode (pp_pairing p) \<and> pairing_matches (pp_pairing p) (Some (t_nodeId t)) \<and>
        on_air (gw_air g') = on_air (gw_air g) @ [x] \<and> ack_answers x t \<and> gw_durable content g' (telemetry_key t)))"
proof (cases "gw_processor g")
  case None
  then show ?thesis using assms receiveAgain_quiet[of g] by (simp add: handleFrame_def gw_inv_def)
next
  case (Some p)
  obtain res p' g1 where run: "process D (gateway_env Q B R) frame (p, g) = (res, p', g1)" by (metis prod_cases3)
  note dur = sinks.process_durable[OF assms(1,2) run]
  define g2 where "g2 = (if \<not> at_receiveRestored (pr_ack res) then receiveAgain R (g1\<lparr>gw_processor := Some p'\<rparr>) else g1\<lparr>gw_processor := Some p'\<rparr>)"
  have g2: "on_air (gw_air g2) = on_air (gw_air g1)" "gw_queue g2 = gw_queue g1" "gw_flash g2 = gw_flash g1"
    using receiveAgain_quiet[of "g1\<lparr>gw_processor := Some p'\<rparr>"] by (simp_all add: g2_def)
  have g': "g' = g2\<lparr>gw_air := fold (rp_log R)
      (frameLogs frame synthetic res (pp_stats p') (rd_lastCode (rv_diagnostics (gw_radio g2)))) (gw_air g2)\<rparr>"
    unfolding assms(3) handleFrame_def Some using run by (simp add: Let_def flip: g2_def)
  have "on_air (gw_air g') = on_air (gw_air g1)" "gw_inv I g' = gw_inv I g1" "gw_durable content g' = gw_durable content g1"
    using g2 by (simp_all add: g' logs_quiet gw_inv_def gw_durable_def)
  then show ?thesis using dur Some by auto
qed

lemma receive_durable:
  assumes "gw_inv I g" "g' = handlePhysicalReceive D Q B R g"
  shows "gw_inv I g' \<and> (on_air (gw_air g') = on_air (gw_air g) \<or>
     (\<exists>p t x. gw_processor g = Some p \<and> telemetry_wf t \<and>
        \<not> pm_pairingMode (pp_pairing p) \<and> pairing_matches (pp_pairing p) (Some (t_nodeId t)) \<and>
        on_air (gw_air g') = on_air (gw_air g) @ [x] \<and> ack_answers x t \<and> gw_durable content g' (telemetry_key t)))"
proof (cases "rd_ready (rv_diagnostics (gw_radio g))")
  case False
  then show ?thesis using assms by (simp add: handlePhysicalReceive_def)
next
  case True
  obtain us r1 where n: "rp_nowUs R (gw_air g) = (us, r1)" by fastforce
  obtain len r2 where l: "rp_getPacketLength R r1 = (len, r2)" by fastforce
  obtain code data r3 where d: "rp_readData R len r2 = ((code, data), r3)" by (metis surj_pair)
  have air: "on_air r2 = on_air (gw_air g)" "on_air r3 = on_air (gw_air g)"
    using quiet_eq(5)[OF n] quiet_eq(7)[OF l] quiet_eq(8)[OF d] by simp_all
  define s where "s = with_diag (\<lambda>z. z\<lparr>rd_receivedPackets := rd_receivedPackets z + 1, rd_lastPacketLength := of_nat len\<rparr>) (gw_radio g)"
  define s1 where "s1 = with_diag (\<lambda>z. z\<lparr>rd_lastCode := code\<rparr>) s"
  have again: ?thesis if "g' = (receiveAgain R (g\<lparr>gw_radio := s', gw_air := r'\<rparr>))\<lparr>gw_air := rp_log R m (gw_air (receiveAgain R (g\<lparr>gw_radio := s', gw_air := r'\<rparr>)))\<rparr>"
      "on_air r' = on_air (gw_air g)" for s' r' m
    using that assms(1) receiveAgain_quiet[of "g\<lparr>gw_radio := s', gw_air := r'\<rparr>"] by (simp add: quiet gw_inv_def)
  consider (bad) "len = 0 \<or> kRadioPacketCapacity < len" | (crc) "\<not> (len = 0 \<or> kRadioPacketCapacity < len)" "code = RADIOLIB_ERR_CRC_MISMATCH R"
    | (err) "\<not> (len = 0 \<or> kRadioPacketCapacity < len)" "code \<noteq> RADIOLIB_ERR_CRC_MISMATCH R" "code \<noteq> RADIOLIB_ERR_NONE R"
    | (okay) "\<not> (len = 0 \<or> kRadioPacketCapacity < len)" "code \<noteq> RADIOLIB_ERR_CRC_MISMATCH R" "code = RADIOLIB_ERR_NONE R" by blast
  then show ?thesis
  proof cases
    case bad
    then show ?thesis
      using again[where s' = "with_diag (\<lambda>z. z\<lparr>rd_invalidLengthPackets := rd_invalidLengthPackets z + 1\<rparr>) s" and r' = "snd (rp_standby R r2)" and m = "LogInvalidLength len"]
        assms(2) True n l air by (simp add: handlePhysicalReceive_def Let_def quiet s_def)
  next
    case crc
    then show ?thesis
      using again[where s' = "with_diag (\<lambda>z. z\<lparr>rd_crcErrors := rd_crcErrors z + 1\<rparr>) s1" and r' = r3 and m = "LogCrcMismatch len"]
        assms(2) True n l d air by (simp add: handlePhysicalReceive_def Let_def s_def s1_def)
  next
    case err
    then show ?thesis
      using again[where s' = "with_diag (\<lambda>z. z\<lparr>rd_readErrors := rd_readErrors z + 1\<rparr>) s1" and r' = r3 and m = "LogReadFailed code"]
        assms(2) True n l d air by (simp add: handlePhysicalReceive_def Let_def s_def s1_def)
  next
    case okay
    obtain frame g1 where f: "receivedFrame R data len us (g\<lparr>gw_radio := s1, gw_air := r3\<rparr>) = (frame, g1)" by fastforce
    have le: "len \<le> kRadioPacketCapacity" using okay(1) by simp
    note fr = frame_well_framed[OF f le, simplified]
    have g': "g' = handleFrame D Q B R frame False g1"
      using assms(2) True n l d okay f by (simp add: handlePhysicalReceive_def Let_def s_def s1_def)
    have inv: "gw_inv I g1" using assms(1) fr(5,6) by (simp add: gw_inv_def)
    have wf: "telemetry_wf t" if "decodeTelemetry (Some (fr_bytes frame)) (fr_length frame) TelemetryPacket_init = (DecodeStatus_kOk, t)" for t
      using decodeTelemetry_sound[OF that] fr(1) by (simp add: well_framed_def)
    show ?thesis using handleFrame_durable[OF inv fr(1) g'] fr(4,7) air(2) wf by metis
  qed
qed

end


text \<open>Whatever the radio task does, another task that saw the queue before finds it \<open>queue_after\<close>.\<close>

lemma radio_round_after:
  assumes "queue_hardware Q content number flag" "radio_hardware R on_air" "queue_ok content (gw_queue g) (gw_flash g)"
    and "g' = radio_round D Q B R delay g"
  shows "queue_after content (gw_queue g, gw_flash g) (gw_queue g', gw_flash g')"
proof -
  let ?I = "\<lambda>q h. queue_after content (gw_queue g, gw_flash g) (q, h)"
  have path: "receive_path Q content number flag R on_air ?I"
    by (intro receive_path.intro receive_path_axioms.intro assms(1,2)) (erule queue_after_ok, erule (1) queue_after_trans)
  let ?g = "g\<lparr>gw_air := snd (rp_notifyTake R delay (gw_air g))\<rparr>"
  have start: "gw_inv ?I ?g" using queue_after_same[OF assms(3) refl refl] by (simp add: gw_inv_def)
  show ?thesis
    using receive_path.receive_durable[OF path start refl, of D B] start unfolding assms(4) radio_round_def Let_def
    by (auto simp: gw_inv_def)
qed


section \<open>Properties\<close>

text \<open>The receive path on the hardware in memory and the NVS backend of the command store.\<close>

definition unit_ops :: "unit double_ops" where
  "unit_ops = \<lparr>d_of_u64 = (\<lambda>_. ()), d_zero = (), d_add = (\<lambda>_ _. ()), d_sub = (\<lambda>_ _. ()), d_div = (\<lambda>_ _. ())\<rparr>"

interpretation gateway: receive_path mem_platform "\<lambda>h. mf_content (fst h)" "\<lambda>h. mp_numbers (snd h)" "\<lambda>h. mp_flags (snd h)"
    mem_radio ma_sent unit_ops "nvs_command_backend nvs_map_api" "queue_ok (\<lambda>h. mf_content (fst h))"
  by unfold_locales (auto simp: queue_after_def)

text \<open>C1: the gateway acknowledges nothing that is not on stable storage. For every hardware that keeps the contracts of
  the file system and of the radio, one round of the radio worker puts at most one frame on air; if it does, that frame
  is one the node decodes as the acknowledgement of a well-formed telemetry packet (same node, session and sequence
  number), the packet is from the paired node and pairing mode is off, and when the round ends the packet is in a valid
  record file of the queue or among the packets finished before. The queue's index stays in step with its files.\<close>
theorem ack_only_after_durable:
  assumes "queue_hardware Q content number flag" "radio_hardware R on_air" "queue_ok content (gw_queue g) (gw_flash g)"
  shows "let g' = radio_round D Q B R delay g in
    queue_ok content (gw_queue g') (gw_flash g') \<and>
    (on_air (gw_air g') = on_air (gw_air g) \<or>
     (\<exists>p t x. gw_processor g = Some p \<and> telemetry_wf t \<and>
        \<not> pm_pairingMode (pp_pairing p) \<and> pairing_matches (pp_pairing p) (Some (t_nodeId t)) \<and>
        on_air (gw_air g') = on_air (gw_air g) @ [x] \<and> ack_answers x t \<and>
        queue_durable content (gw_queue g') (gw_flash g') (telemetry_key t)))"
proof -
  have path: "receive_path Q content number flag R on_air (queue_ok content)"
    by (intro receive_path.intro receive_path_axioms.intro assms(1,2)) (auto simp: queue_after_def)
  let ?g = "g\<lparr>gw_air := snd (rp_notifyTake R delay (gw_air g))\<rparr>"
  have air: "on_air (gw_air ?g) = on_air (gw_air g)" using radio_hardware.quiet(18)[OF assms(2)] by simp
  have "gw_inv (queue_ok content) ?g" using assms(3) by (simp add: gw_inv_def)
  note rec = receive_path.receive_durable[OF path this refl, of D B, unfolded air, unfolded gw_inv_def gw_durable_def]
  show ?thesis using rec air assms(3) unfolding radio_round_def Let_def by auto
qed

definition paired_example :: PairingManager where
  "paired_example = snd (pairManual (Some (ascii ''N1'')) PairingManager_init)"

definition listening :: "(unit, mem_hw, nvs_map, mem_air) Gateway" where
  "listening = \<lparr>gw_processor = Some (PacketProcessor_init unit_ops paired_example),
     gw_radio = with_diag (\<lambda>d. d\<lparr>rd_ready := True\<rparr>) ((RadioService_init unit_ops 0)
       \<lparr>rv_radioMutex := True, rv_commands := True, rv_dio0Action := Dio0Action_kReceive\<rparr>),
     gw_queue = DurableQueue_init\<lparr>dq_core := Some (DurableQueueCore_init 2), dq_mutex := True, dq_healthy := True, dq_recent := example_ring\<rparr>,
     gw_commands = CommandStore_init, gw_time = TimeManager_init, gw_flash = empty_hw, gw_nvs = nvs_empty [],
     gw_air = quiet_air\<lparr>ma_inbox := telemetry_bytes example_telemetry\<rparr>\<rparr>"

definition heard :: "(unit, mem_hw, nvs_map, mem_air) Gateway" where
  "heard = radio_round unit_ops mem_platform (nvs_command_backend nvs_map_api) mem_radio 0 listening"

theorem ack_only_after_durable_witness:
  "\<exists>t x. ma_sent (gw_air heard) = [x] \<and> ack_answers x t \<and>
     queue_durable (\<lambda>h. mf_content (fst h)) (gw_queue heard) (gw_flash heard) (telemetry_key t)"
proof -
  have ok: "queue_ok (\<lambda>h. mf_content (fst h)) (gw_queue listening) (gw_flash listening)"
    by (simp add: queue_ok_def listening_def usable_def empty_core_inv)
  have "length (ma_sent (gw_air heard)) = 1" by code_simp
  moreover have "ma_sent (gw_air listening) = []" by (simp add: listening_def quiet_air_def)
  ultimately show ?thesis
    using ack_only_after_durable[OF hw.queue_hardware_axioms mem_radio.radio_hardware_axioms ok, of unit_ops "nvs_command_backend nvs_map_api" 0]
    unfolding heard_def[symmetric] Let_def by auto
qed

end
