(* ===== verification/Utc_Time.thy ===== *)
theory Utc_Time
  imports Time_Manager
begin

text \<open>
  Calendar time in the documents sent to the backend: the function \<open>formatUtc\<close>, which
  src/lib/backend/backend_contract.cpp and src/lib/heartbeat/heartbeat_contract.cpp both declare, with the
  part of the C library it uses, \<open>gmtime_r\<close> on the proleptic Gregorian calendar and the zero-padded
  decimal conversions of \<open>snprintf\<close>.
\<close>

section \<open>The C library\<close>

record tm =
  tm_year :: nat
  tm_mon :: nat
  tm_mday :: nat
  tm_hour :: nat
  tm_min :: nat
  tm_sec :: nat

definition leap_year :: "nat \<Rightarrow> bool" where
  "leap_year y \<longleftrightarrow> y mod 4 = 0 \<and> (y mod 100 \<noteq> 0 \<or> y mod 400 = 0)"

definition year_days :: "nat \<Rightarrow> nat" where "year_days y = (if leap_year y then 366 else 365)"

definition month_days :: "nat \<Rightarrow> nat list" where
  "month_days y = [31, if leap_year y then 29 else 28, 31, 30, 31, 30, 31, 31, 30, 31, 30, 31]"

function year_of :: "nat \<Rightarrow> nat \<Rightarrow> nat \<times> nat" where
  "year_of y d = (if d < year_days y then (y, d) else year_of (Suc y) (d - year_days y))"
  by pat_completeness auto
termination by (relation "measure snd") (auto simp: year_days_def)

declare year_of.simps [simp del]

fun month_of :: "nat \<Rightarrow> nat list \<Rightarrow> nat \<Rightarrow> nat \<times> nat" where
  "month_of m [] d = (m, d)"
| "month_of m (l # ls) d = (if d < l then (m, d) else month_of (Suc m) ls (d - l))"

text \<open>Seconds since 1970 to the broken-down time; \<open>tm_year\<close> counts from 1900, \<open>tm_mon\<close> from 0.\<close>
definition gmtime :: "nat \<Rightarrow> tm" where
  "gmtime seconds =
     (case year_of 1970 (seconds div 86400) of (y, yday) \<Rightarrow>
      case month_of 0 (month_days y) yday of (mon, mday) \<Rightarrow>
      \<lparr>tm_year = y - 1900, tm_mon = mon, tm_mday = mday + 1, tm_hour = seconds mod 86400 div 3600,
       tm_min = seconds mod 3600 div 60, tm_sec = seconds mod 60\<rparr>)"

fun dec_digits :: "nat \<Rightarrow> byte list" where
  "dec_digits n = (if n < 10 then [0x30 + of_nat n] else dec_digits (n div 10) @ [0x30 + of_nat (n mod 10)])"

declare dec_digits.simps [simp del]

definition zero_padded :: "nat \<Rightarrow> nat \<Rightarrow> byte list" where
  "zero_padded width n = replicate (width - length (dec_digits n)) 0x30 @ dec_digits n"


section \<open>The code\<close>

text \<open>The format string on its arguments.\<close>
definition utcText :: "tm \<Rightarrow> nat \<Rightarrow> byte list" where
  "utcText utc ms =
     zero_padded 4 (tm_year utc + 1900) @ ascii ''-'' @ zero_padded 2 (tm_mon utc + 1) @ ascii ''-'' @
     zero_padded 2 (tm_mday utc) @ ascii ''T'' @ zero_padded 2 (tm_hour utc) @ ascii '':'' @
     zero_padded 2 (tm_min utc) @ ascii '':'' @ zero_padded 2 (tm_sec utc) @ ascii ''.'' @
     zero_padded 3 ms @ ascii ''Z''"

text \<open>The text left in the buffer, or \<open>None\<close> for the result \<open>false\<close>; \<open>gmtime_r\<close> cannot fail here, since the year of
  any millisecond count fits an \<open>int\<close>. The conversion to \<open>time_t\<close> keeps the value: \<open>time_t\<close> has 64 bits on the target.\<close>
definition formatUtc :: "i64 \<Rightarrow> nat \<Rightarrow> byte list option" where
  "formatUtc unixMs capacity =
     (if sint unixMs < 0 \<or> capacity < 25 then None
      else let written = utcText (gmtime (nat (sint unixMs) div 1000)) (nat (sint unixMs) mod 1000) in
           if length written < capacity then Some written else None)"


section \<open>The calendar is exact\<close>

text \<open>The days before a year, in closed form.\<close>
definition days_before :: "nat \<Rightarrow> nat" where
  "days_before y = 365 * y + (y + 3) div 4 - (y + 99) div 100 + (y + 399) div 400"

lemma centuries_le: "(y + 99) div 100 \<le> (y + 3) div 4" for y :: nat
proof -
  have "(y + 99) div 100 * 100 \<le> y + 99" by simp
  then have "(y + 99) div 100 * 4 \<le> y + 3" by linarith
  then show ?thesis by (simp add: less_eq_div_iff_mult_less_eq)
qed

lemma ceiling_Suc: "0 < k \<Longrightarrow> (Suc y + (k - 1)) div k = (y + (k - 1)) div k + (if y mod k = 0 then 1 else 0)" for k :: nat
  using div_Suc[of "y + (k - 1)" k] by simp

lemma leap_count:
  "c \<le> q \<Longrightarrow> l400 \<longrightarrow> l100 \<Longrightarrow> l100 \<longrightarrow> l4 \<Longrightarrow>
     365 * Suc y + (q + (if l4 then 1 else 0)) - (c + (if l100 then 1 else 0)) + (f + (if l400 then 1 else 0))
     = 365 * y + q - c + f + (if l4 \<and> (\<not> l100 \<or> l400) then 366 else 365)" for c q f y :: nat
  by (cases l4; cases l100; cases l400) simp_all

lemma days_before_Suc: "days_before (Suc y) = days_before y + year_days y"
proof -
  have "(Suc y + 3) div 4 = (y + 3) div 4 + (if y mod 4 = 0 then 1 else 0)"
      "(Suc y + 99) div 100 = (y + 99) div 100 + (if y mod 100 = 0 then 1 else 0)"
      "(Suc y + 399) div 400 = (y + 399) div 400 + (if y mod 400 = 0 then 1 else 0)"
    using ceiling_Suc[of 4 y] ceiling_Suc[of 100 y] ceiling_Suc[of 400 y] by simp_all
  moreover have "y mod 400 = 0 \<longrightarrow> y mod 100 = 0" "y mod 100 = 0 \<longrightarrow> y mod 4 = 0"
    using dvd_trans[of 100 400 y] dvd_trans[of 4 100 y] by (simp_all add: mod_eq_0_iff_dvd)
  note leap_count[OF centuries_le this, where f = "(y + 399) div 400"]
  ultimately show ?thesis unfolding days_before_def year_days_def leap_year_def by (simp only:)
qed

lemma year_of_exact:
  "year_of y d = (y', d') \<Longrightarrow> y \<le> y' \<and> d' < year_days y' \<and> days_before y' + d' = days_before y + d"
proof (induction y d arbitrary: y' d' rule: year_of.induct)
  case (1 y d)
  show ?case
  proof (cases "d < year_days y")
    case True
    then show ?thesis using 1(2) by (simp add: year_of.simps)
  next
    case False
    then show ?thesis using 1(1)[OF False] 1(2) days_before_Suc[of y] by (subst (asm) (2) year_of.simps) fastforce
  qed
qed

lemma month_of_exact:
  "month_of m ls d = (m', d') \<Longrightarrow> d < sum_list ls \<Longrightarrow>
     m \<le> m' \<and> m' < m + length ls \<and> d' < ls ! (m' - m) \<and> sum_list (take (m' - m) ls) + d' = d"
proof (induction m ls d rule: month_of.induct)
  case (2 m l ls d)
  show ?case
  proof (cases "d < l")
    case False
    then have "Suc m \<le> m' \<and> m' < Suc m + length ls \<and> d' < ls ! (m' - Suc m) \<and> sum_list (take (m' - Suc m) ls) + d' = d - l"
      using 2 by auto
    moreover from this have "m' - m = Suc (m' - Suc m)" by auto
    ultimately show ?thesis using False by auto
  qed (use 2 in auto)
qed simp

lemma sum_month_days: "sum_list (month_days y) = year_days y" by (simp add: month_days_def year_days_def)

text \<open>The seconds of a broken-down time.\<close>
definition seconds_of :: "nat \<Rightarrow> nat \<Rightarrow> nat \<Rightarrow> nat \<Rightarrow> nat \<Rightarrow> nat \<Rightarrow> nat" where
  "seconds_of y mo d h mi s =
     ((days_before y + sum_list (take (mo - 1) (month_days y)) + (d - 1) - days_before 1970) * 24 + h) * 3600 + mi * 60 + s"

lemma mixed_radix: "d * 86400 + r = t \<Longrightarrow> h * 3600 + r1 = r \<Longrightarrow> m * 60 + s = r1 \<Longrightarrow> (d * 24 + h) * 3600 + m * 60 + s = t"
  for t :: nat by simp

lemma gmtime_exact:
  assumes "t = gmtime seconds"
  shows "1970 \<le> tm_year t + 1900 \<and> tm_mon t < 12 \<and> 1 \<le> tm_mday t \<and> tm_mday t \<le> month_days (tm_year t + 1900) ! tm_mon t \<and>
    tm_hour t < 24 \<and> tm_min t < 60 \<and> tm_sec t < 60 \<and>
    seconds_of (tm_year t + 1900) (tm_mon t + 1) (tm_mday t) (tm_hour t) (tm_min t) (tm_sec t) = seconds"
proof -
  obtain y yd where y: "year_of 1970 (seconds div 86400) = (y, yd)" by fastforce
  obtain mo md where mo: "month_of 0 (month_days y) yd = (mo, md)" by fastforce
  from year_of_exact[OF y] have ye: "1970 \<le> y" "yd < year_days y" "days_before y + yd = days_before 1970 + seconds div 86400" by auto
  from month_of_exact[OF mo] ye(2) have me: "mo < 12" "md < month_days y ! mo" "sum_list (take mo (month_days y)) + md = yd"
    by (auto simp: sum_month_days) (simp add: month_days_def)
  have t: "t = \<lparr>tm_year = y - 1900, tm_mon = mo, tm_mday = md + 1, tm_hour = seconds mod 86400 div 3600,
       tm_min = seconds mod 3600 div 60, tm_sec = seconds mod 60\<rparr>" using assms y mo by (simp add: gmtime_def)
  have days: "days_before y + sum_list (take mo (month_days y)) + md - days_before 1970 = seconds div 86400" using ye(3) me(3) by linarith
  have "seconds mod 86400 mod 3600 = seconds mod 3600" "seconds mod 3600 mod 60 = seconds mod 60"
    by (simp_all add: mod_mod_cancel)
  then have sum: "(seconds div 86400 * 24 + seconds mod 86400 div 3600) * 3600 + seconds mod 3600 div 60 * 60 + seconds mod 60 = seconds"
    using mixed_radix[OF div_mult_mod_eq div_mult_mod_eq div_mult_mod_eq, of seconds] by simp
  have "seconds mod 86400 div 3600 < 24" "seconds mod 3600 div 60 < 60" "seconds mod 60 < 60"
    by (simp_all add: less_mult_imp_div_less)
  then show ?thesis using ye(1) me(1,2) days sum by (simp add: t seconds_of_def)
qed


section \<open>The text reads back\<close>

definition decimal_value :: "byte list \<Rightarrow> nat" where
  "decimal_value s = foldl (\<lambda>a c. a * 10 + unat (c - 0x30)) 0 s"

lemma digit_value: "n < 10 \<Longrightarrow> unat (of_nat n :: byte) = n"
  by (rule unat_of_nat_less) simp

lemma decimal_value_digits: "decimal_value (dec_digits n) = n"
  by (induction n rule: dec_digits.induct) (subst dec_digits.simps, auto simp: decimal_value_def digit_value)

lemma decimal_value_zeros: "decimal_value (replicate k 0x30 @ s) = decimal_value s"
  by (induction k) (simp_all add: decimal_value_def)

lemma length_dec_digits: "0 < w \<Longrightarrow> n < 10 ^ w \<Longrightarrow> length (dec_digits n) \<le> w"
proof (induction n arbitrary: w rule: dec_digits.induct)
  case (1 n)
  then obtain v where w: "w = Suc v" by (cases w) auto
  show ?case
  proof (cases "n < 10")
    case False
    then have "0 < v" "n div 10 < 10 ^ v" using 1(3) w by (auto simp: less_mult_imp_div_less intro: gr0I)
    from 1(1)[OF False this] False w show ?thesis by (simp add: dec_digits.simps[of n])
  qed (simp add: dec_digits.simps w)
qed

lemma zero_padded_reads:
  assumes "0 < w" "n < 10 ^ w"
  shows "length (zero_padded w n) = w" "decimal_value (zero_padded w n) = n"
  using length_dec_digits[OF assms] by (simp_all add: zero_padded_def decimal_value_zeros decimal_value_digits)

text \<open>Reading an ISO 8601 text by the positions of its fields, to milliseconds since 1970.\<close>
definition field :: "nat \<Rightarrow> nat \<Rightarrow> byte list \<Rightarrow> nat" where
  "field from w s = decimal_value (take w (drop from s))"

definition read_utc :: "byte list \<Rightarrow> nat" where
  "read_utc s = seconds_of (field 0 4 s) (field 5 2 s) (field 8 2 s) (field 11 2 s) (field 14 2 s) (field 17 2 s) * 1000
     + field 20 3 s"

lemma days_before_mono: "y \<le> z \<Longrightarrow> days_before y \<le> days_before z"
  by (induction z) (auto simp: le_Suc_eq days_before_Suc)

lemma year_bound:
  assumes "seconds < 253402300800"
  shows "tm_year (gmtime seconds) + 1900 < 10000"
proof (rule ccontr)
  let ?t = "gmtime seconds"
  assume "\<not> ?thesis"
  then have "days_before 10000 \<le> days_before (tm_year ?t + 1900)" by (intro days_before_mono) simp
  moreover have "days_before 10000 = 3652425" "days_before 1970 = 719528" by (simp_all add: days_before_def)
  ultimately have "2932897 \<le> days_before (tm_year ?t + 1900) + sum_list (take (tm_mon ?t + 1 - 1) (month_days (tm_year ?t + 1900)))
      + (tm_mday ?t - 1) - days_before 1970" (is "_ \<le> ?days") by simp
  then have "2932897 * 86400 \<le> ?days * 86400" by (rule mult_le_mono1)
  also have "\<dots> \<le> seconds_of (tm_year ?t + 1900) (tm_mon ?t + 1) (tm_mday ?t) (tm_hour ?t) (tm_min ?t) (tm_sec ?t)"
    unfolding seconds_of_def by simp
  also have "\<dots> = seconds" using gmtime_exact[OF refl, of seconds] by blast
  finally show False using assms by simp
qed

lemma month_days_bound: "m < 12 \<Longrightarrow> month_days y ! m < 100"
proof -
  assume "m < 12"
  then have "month_days y ! m \<in> set (month_days y)" by (intro nth_mem) (simp add: month_days_def)
  moreover have "\<forall>d \<in> set (month_days y). d < 100" by (simp add: month_days_def)
  ultimately show ?thesis by blast
qed

text \<open>C38: Timestamps in the documents sent to the backend are exact. For every non-negative millisecond count before the
  year 10000, \<open>formatUtc\<close> with the 32-byte buffer the callers pass succeeds with a text of 24 characters, and reading
  the fields of that text on the Gregorian calendar gives the same millisecond count; a negative count (no trusted time)
  is refused.\<close>
theorem formatUtc_exact:
  assumes "sint unixMs < 253402300800000"
  shows "if sint unixMs < 0 then formatUtc unixMs 32 = None
    else \<exists>s. formatUtc unixMs 32 = Some s \<and> length s = 24 \<and> int (read_utc s) = sint unixMs"
proof (cases "sint unixMs < 0")
  case True
  then show ?thesis by (simp add: formatUtc_def)
next
  case False
  define ms where "ms = nat (sint unixMs)"
  define t where "t = gmtime (ms div 1000)"
  have ms: "int ms = sint unixMs" using False by (simp add: ms_def)
  have "ms div 1000 < 253402300800" using assms ms by (simp add: less_mult_imp_div_less)
  note yb = year_bound[OF this, folded t_def]
  note ex = gmtime_exact[OF t_def]
  have md: "tm_mday t < 100" using ex month_days_bound[of "tm_mon t" "tm_year t + 1900"] by linarith
  note z = zero_padded_reads
  have reads: "length (zero_padded 4 (tm_year t + 1900)) = 4" "decimal_value (zero_padded 4 (tm_year t + 1900)) = tm_year t + 1900"
    "length (zero_padded 2 (tm_mon t + 1)) = 2" "decimal_value (zero_padded 2 (tm_mon t + 1)) = tm_mon t + 1"
    "length (zero_padded 2 (tm_mday t)) = 2" "decimal_value (zero_padded 2 (tm_mday t)) = tm_mday t"
    "length (zero_padded 2 (tm_hour t)) = 2" "decimal_value (zero_padded 2 (tm_hour t)) = tm_hour t"
    "length (zero_padded 2 (tm_min t)) = 2" "decimal_value (zero_padded 2 (tm_min t)) = tm_min t"
    "length (zero_padded 2 (tm_sec t)) = 2" "decimal_value (zero_padded 2 (tm_sec t)) = tm_sec t"
    "length (zero_padded 3 (ms mod 1000)) = 3" "decimal_value (zero_padded 3 (ms mod 1000)) = ms mod 1000"
    using yb ex md by (auto intro!: z)
  define s where "s = utcText t (ms mod 1000)"
  have len: "length s = 24" using reads by (simp add: s_def utcText_def ascii_def)
  have "read_utc s = ms div 1000 * 1000 + ms mod 1000"
    using ex reads by (simp add: read_utc_def field_def s_def utcText_def ascii_def)
  then have "int (read_utc s) = sint unixMs" using ms by simp
  moreover have "formatUtc unixMs 32 = Some s"
    using False len by (simp add: formatUtc_def Let_def flip: ms_def t_def s_def)
  ultimately show ?thesis using False len by auto
qed

theorem formatUtc_exact_witness:
  "\<exists>s. formatUtc 1700000000123 32 = Some s \<and> length s = 24 \<and> read_utc s = 1700000000123"
  using formatUtc_exact[of 1700000000123] by simp

end
