(* ===== verification/Json_Document.thy ===== *)
theory Json_Document
  imports Gateway_Config
begin

text \<open>
  The JSON documents of the program and its use of the ArduinoJson library. A document is built by assigning
  members one after the other; \<open>json\<close> is the tree of those assignments, with the numbers kept in the type the
  code assigns. Building a document always succeeds here: the code never asks whether the library ran out of memory, which
  would drop members, and that case is not represented. Printing and parsing belong to the library and are the operations of \<open>arduino_json\<close>: a parsed
  document is a value of the abstract type \<open>'j\<close>, read only through the accessors the code calls.
\<close>

datatype 'd json =
    Json_null | Json_bool bool | Json_int int | Json_float f32 | Json_double 'd | Json_string "byte list"
  | Json_array "'d json list" | Json_object "(string \<times> 'd json) list"

text \<open>A member of a document that was built.\<close>
fun json_member :: "string \<Rightarrow> 'd json \<Rightarrow> 'd json option" where
  "json_member k (Json_object ms) = map_of ms k"
| "json_member k _ = None"

fun json_items :: "'d json \<Rightarrow> 'd json list" where
  "json_items (Json_array xs) = xs"
| "json_items _ = []"

text \<open>\<open>aj_array\<close> is \<open>as<JsonArrayConst>()\<close>, \<open>None\<close> when \<open>isNull()\<close>; \<open>aj_member\<close> is \<open>operator[]\<close>, which gives an
  unbound value for a missing member or a value that is no object.\<close>
record ('d, 'j) arduino_json =
  aj_serialize :: "'d json \<Rightarrow> byte list"
  aj_deserialize :: "byte list \<Rightarrow> 'j option"
  aj_member :: "string \<Rightarrow> 'j \<Rightarrow> 'j"
  aj_array :: "'j \<Rightarrow> 'j list option"
  aj_is_size :: "'j \<Rightarrow> bool"
  aj_as_size :: "'j \<Rightarrow> nat"
  aj_is_string :: "'j \<Rightarrow> bool"
  aj_as_string :: "'j \<Rightarrow> byte list"

text \<open>An instance for concrete runs: the text of a document names the document in a table, and the accessors
  read the tree.\<close>
definition table_json :: "(byte list \<times> 'd json) list \<Rightarrow> ('d, 'd json) arduino_json" where
  "table_json tbl = \<lparr>aj_serialize = (\<lambda>_. ascii ''{}''), aj_deserialize = map_of tbl,
     aj_member = (\<lambda>k v. case json_member k v of None \<Rightarrow> Json_null | Some m \<Rightarrow> m),
     aj_array = (\<lambda>v. case v of Json_array xs \<Rightarrow> Some xs | _ \<Rightarrow> None),
     aj_is_size = (\<lambda>v. case v of Json_int i \<Rightarrow> 0 \<le> i \<and> i < 2 ^ 32 | _ \<Rightarrow> False),
     aj_as_size = (\<lambda>v. case v of Json_int i \<Rightarrow> nat i | _ \<Rightarrow> 0),
     aj_is_string = (\<lambda>v. case v of Json_string s \<Rightarrow> True | _ \<Rightarrow> False),
     aj_as_string = (\<lambda>v. case v of Json_string s \<Rightarrow> s | _ \<Rightarrow> [])\<rparr>"

end
