(* ===== verification/Heartbeat_Contract.thy ===== *)
theory Heartbeat_Contract
  imports Utc_Time Json_Document Running_Statistics
begin

text \<open>
  The heartbeat contract (src/lib/heartbeat/heartbeat_contract.cpp): which intervals and HTTP results count, the
  connectivity classification, the schedule of attempts, and the document built from a snapshot of the gateway.
  Floating point is the parameter \<open>double_ops\<close>.
\<close>

section \<open>Predicates and classification\<close>

definition kHeartbeatSchemaVersion :: u8 where "kHeartbeatSchemaVersion = 1"
definition kHeartbeatEndpoint :: string where "kHeartbeatEndpoint = ''/api/v1/iot/gateway/heartbeat''"

definition heartbeatIntervalValid :: "u32 \<Rightarrow> bool" where
  "heartbeatIntervalValid seconds \<longleftrightarrow> kMinimumHeartbeatIntervalSeconds \<le> seconds \<and> seconds \<le> kMaximumHeartbeatIntervalSeconds"

definition heartbeatHttpSucceeded :: "int \<Rightarrow> bool" where
  "heartbeatHttpSucceeded httpStatus \<longleftrightarrow> 200 \<le> httpStatus \<and> httpStatus < 300"

datatype BackendConnectivityState =
    BackendConnectivityState_kUnknown | BackendConnectivityState_kHealthy
  | BackendConnectivityState_kDegraded | BackendConnectivityState_kOffline

definition classifyBackendConnectivity :: "u64 \<Rightarrow> u32 \<Rightarrow> BackendConnectivityState" where
  "classifyBackendConnectivity successfulOperations consecutiveFailures =
     (if successfulOperations = 0 \<and> consecutiveFailures = 0 then BackendConnectivityState_kUnknown
      else if consecutiveFailures = 0 then BackendConnectivityState_kHealthy
      else if consecutiveFailures < 3 then BackendConnectivityState_kDegraded
      else BackendConnectivityState_kOffline)"

fun backendConnectivityStateName :: "BackendConnectivityState \<Rightarrow> string" where
  "backendConnectivityStateName BackendConnectivityState_kUnknown = ''UNKNOWN''"
| "backendConnectivityStateName BackendConnectivityState_kHealthy = ''HEALTHY''"
| "backendConnectivityStateName BackendConnectivityState_kDegraded = ''DEGRADED''"
| "backendConnectivityStateName BackendConnectivityState_kOffline = ''OFFLINE''"


section \<open>The schedule\<close>

record HeartbeatScheduler =
  hb_intervalSeconds :: u32
  hb_nextDueUs :: u64

definition HeartbeatScheduler_init :: HeartbeatScheduler where
  "HeartbeatScheduler_init = \<lparr>hb_intervalSeconds = kDefaultHeartbeatIntervalSeconds, hb_nextDueUs = 0\<rparr>"

definition scheduler_configure :: "u32 \<Rightarrow> u64 \<Rightarrow> HeartbeatScheduler \<Rightarrow> bool \<times> HeartbeatScheduler" where
  "scheduler_configure intervalSeconds nowUs s =
     (if \<not> heartbeatIntervalValid intervalSeconds then (False, s)
      else (True, s\<lparr>hb_intervalSeconds := intervalSeconds, hb_nextDueUs := nowUs + ucast intervalSeconds * 1000000\<rparr>))"

definition scheduler_due :: "u64 \<Rightarrow> HeartbeatScheduler \<Rightarrow> bool" where
  "scheduler_due nowUs s \<longleftrightarrow> hb_nextDueUs s \<noteq> 0 \<and> hb_nextDueUs s \<le> nowUs"

definition markAttempt :: "u64 \<Rightarrow> HeartbeatScheduler \<Rightarrow> HeartbeatScheduler" where
  "markAttempt nowUs s = s\<lparr>hb_nextDueUs := nowUs + ucast (hb_intervalSeconds s) * 1000000\<rparr>"


section \<open>The snapshot\<close>

record HeartbeatGateway =
  hg_gatewayId :: "byte list"
  hg_mac :: "byte list"
  hg_firmwareVersion :: "byte list"
  hg_protocolVersion :: u8
  hg_buildFlavor :: "byte list"

record HeartbeatRuntime =
  hr_uptimeSeconds :: u64
  hr_resetReason :: "byte list"
  hr_bootCount :: u32
  hr_freeHeapBytes :: u32
  hr_minFreeHeapBytes :: u32
  hr_largestFreeHeapBlockBytes :: u32
  hr_sketchSizeBytes :: u32
  hr_freeSketchSpaceBytes :: u32
  hr_flashSizeBytes :: u32

record HeartbeatNetwork =
  hn_wifiConnected :: bool
  hn_ssid :: "byte list"
  hn_wifiRssiDbm :: u32
  hn_localIp :: "byte list"
  hn_backendConnectivityState :: BackendConnectivityState
  hn_lastBackendSuccessUnixMs :: i64
  hn_lastBackendErrorUnixMs :: i64
  hn_consecutiveBackendFailures :: u32

record HeartbeatTime =
  ht_valid :: bool
  ht_currentUnixMs :: i64
  ht_lastNtpSyncUnixMs :: i64

record HeartbeatLora =
  hl_paired :: bool
  hl_pairedNodeId :: "byte list"
  hl_latestReceptionAvailable :: bool
  hl_lastRxUnixMs :: i64
  hl_latestRssiDbm :: f32
  hl_latestSnrDb :: f32
  hl_latestFrequencyErrorHz :: u32
  hl_receivedPacketCount :: u64
  hl_validTelemetryCount :: u64
  hl_invalidPacketCount :: u64
  hl_crcErrorCount :: u64
  hl_protocolRejectedPacketCount :: u64
  hl_unpairedRejectedPacketCount :: u64

record 'd HeartbeatAck =
  ha_count :: u64
  ha_successCount :: u64
  ha_failureCount :: u64
  ha_latestAvailable :: bool
  ha_latestRxToStartUs :: u64
  ha_latestRxToCompleteUs :: u64
  ha_rxToStart :: "'d RunningStatistics"
  ha_rxToComplete :: "'d RunningStatistics"
  ha_txDuration :: "'d RunningStatistics"

record HeartbeatQueue =
  hq_depth :: u32
  hq_capacity :: u32
  hq_oldestAgeAvailable :: bool
  hq_oldestRecordAgeSeconds :: u64
  hq_telemetryUploadSuccessCount :: u64
  hq_telemetryUploadFailureCount :: u64

record HeartbeatCommands =
  hc_pending :: bool
  hc_pendingCommandId :: u32
  hc_pendingCommandType :: "byte list"
  hc_pendingCommandState :: "byte list"
  hc_lastAvailable :: bool
  hc_lastCommandId :: u32
  hc_lastCommandResult :: "byte list"
  hc_commandsSentCount :: u64
  hc_commandResultsReceivedCount :: u64

record 'd HeartbeatSnapshot =
  hs_heartbeatIntervalSeconds :: u32
  hs_gateway :: HeartbeatGateway
  hs_runtime :: HeartbeatRuntime
  hs_network :: HeartbeatNetwork
  hs_time :: HeartbeatTime
  hs_lora :: HeartbeatLora
  hs_ack :: "'d HeartbeatAck"
  hs_queue :: HeartbeatQueue
  hs_commands :: HeartbeatCommands


section \<open>The document\<close>

definition str :: "byte list \<Rightarrow> 'd json" where "str a = Json_string (cstr a)"
definition num :: "'a::len word \<Rightarrow> 'd json" where "num v = Json_int (uint v)"

definition timestampJson :: "i64 \<Rightarrow> 'd json" where
  "timestampJson unixMs = (case formatUtc unixMs 32 of Some timestamp \<Rightarrow> Json_string timestamp | None \<Rightarrow> Json_null)"

definition to_ms :: "'d double_ops \<Rightarrow> 'd \<Rightarrow> 'd" where "to_ms D v = d_div D v (d_of_u64 D 1000)"

definition millisecondsJson :: "'d double_ops \<Rightarrow> bool \<Rightarrow> u64 \<Rightarrow> 'd json" where
  "millisecondsJson D available microseconds = (if available then Json_double (to_ms D (d_of_u64 D microseconds)) else Json_null)"

definition statisticsJson ::
  "'d double_ops \<Rightarrow> string \<Rightarrow> string \<Rightarrow> string \<Rightarrow> 'd RunningStatistics \<Rightarrow> (string \<times> 'd json) list" where
  "statisticsJson D minimumField maximumField averageField s =
     (if rs_count s = 0 then [(minimumField, Json_null), (maximumField, Json_null), (averageField, Json_null)]
      else [(minimumField, Json_double (to_ms D (d_of_u64 D (rs_minimum s)))),
            (maximumField, Json_double (to_ms D (d_of_u64 D (rs_maximum s)))),
            (averageField, Json_double (to_ms D (rs_average s)))])"

definition hbGatewayJson :: "HeartbeatGateway \<Rightarrow> 'd json" where
  "hbGatewayJson g = Json_object [(''gatewayId'', str (hg_gatewayId g)), (''mac'', str (hg_mac g)),
     (''firmwareVersion'', str (hg_firmwareVersion g)), (''protocolVersion'', num (hg_protocolVersion g)),
     (''buildFlavor'', str (hg_buildFlavor g))]"

definition hbRuntimeJson :: "HeartbeatRuntime \<Rightarrow> 'd json" where
  "hbRuntimeJson r = Json_object [(''uptimeSeconds'', num (hr_uptimeSeconds r)), (''resetReason'', str (hr_resetReason r)),
     (''bootCount'', num (hr_bootCount r)), (''freeHeapBytes'', num (hr_freeHeapBytes r)),
     (''minFreeHeapBytes'', num (hr_minFreeHeapBytes r)), (''largestFreeHeapBlockBytes'', num (hr_largestFreeHeapBlockBytes r)),
     (''sketchSizeBytes'', num (hr_sketchSizeBytes r)), (''freeSketchSpaceBytes'', num (hr_freeSketchSpaceBytes r)),
     (''flashSizeBytes'', num (hr_flashSizeBytes r))]"

definition hbNetworkJson :: "HeartbeatNetwork \<Rightarrow> 'd json" where
  "hbNetworkJson n = Json_object
     ([(''wifiConnected'', Json_bool (hn_wifiConnected n)), (''ssid'', str (hn_ssid n))] @
      (if hn_wifiConnected n
       then [(''wifiRssiDbm'', Json_int (sint (hn_wifiRssiDbm n))), (''localIp'', str (hn_localIp n))]
       else [(''wifiRssiDbm'', Json_null), (''localIp'', Json_null)]) @
      [(''backendConnectivityState'', Json_string (ascii (backendConnectivityStateName (hn_backendConnectivityState n)))),
       (''lastBackendSuccessAt'', timestampJson (hn_lastBackendSuccessUnixMs n)),
       (''lastBackendErrorAt'', timestampJson (hn_lastBackendErrorUnixMs n)),
       (''consecutiveBackendFailures'', num (hn_consecutiveBackendFailures n))])"

definition hbTimeJson :: "HeartbeatTime \<Rightarrow> 'd json" where
  "hbTimeJson t = Json_object ((''timeValid'', Json_bool (ht_valid t)) #
     (if ht_valid t
      then [(''currentUtc'', timestampJson (ht_currentUnixMs t)), (''lastNtpSyncAt'', timestampJson (ht_lastNtpSyncUnixMs t)),
            (''ntpAgeSeconds'',
             if 0 \<le> sint (ht_lastNtpSyncUnixMs t) \<and> sint (ht_lastNtpSyncUnixMs t) \<le> sint (ht_currentUnixMs t)
             then Json_int (c_div (sint (ht_currentUnixMs t) - sint (ht_lastNtpSyncUnixMs t)) 1000)
             else Json_null)]
      else [(''currentUtc'', Json_null), (''lastNtpSyncAt'', Json_null), (''ntpAgeSeconds'', Json_null)]))"

definition hbLoraJson :: "HeartbeatLora \<Rightarrow> 'd json" where
  "hbLoraJson l = Json_object
     ([(''pairedNodeId'', if hl_paired l then str (hl_pairedNodeId l) else Json_null),
       (''lastLoRaRxAt'', timestampJson (hl_lastRxUnixMs l))] @
      (if hl_latestReceptionAvailable l
       then [(''latestRssiDbm'', Json_float (hl_latestRssiDbm l)), (''latestSnrDb'', Json_float (hl_latestSnrDb l)),
             (''latestFrequencyErrorHz'', Json_int (sint (hl_latestFrequencyErrorHz l)))]
       else [(''latestRssiDbm'', Json_null), (''latestSnrDb'', Json_null), (''latestFrequencyErrorHz'', Json_null)]) @
      [(''receivedPacketCount'', num (hl_receivedPacketCount l)), (''validTelemetryCount'', num (hl_validTelemetryCount l)),
       (''invalidPacketCount'', num (hl_invalidPacketCount l)), (''crcErrorCount'', num (hl_crcErrorCount l)),
       (''protocolRejectedPacketCount'', num (hl_protocolRejectedPacketCount l)),
       (''unpairedRejectedPacketCount'', num (hl_unpairedRejectedPacketCount l))])"

definition hbAckJson :: "'d double_ops \<Rightarrow> 'd HeartbeatAck \<Rightarrow> 'd json" where
  "hbAckJson D a = Json_object
     ([(''ackCount'', num (ha_count a)), (''ackSuccessCount'', num (ha_successCount a)), (''ackFailureCount'', num (ha_failureCount a)),
       (''latencySampleCount'', num (rs_count (ha_rxToStart a))),
       (''latestRxToAckStartMs'', millisecondsJson D (ha_latestAvailable a) (ha_latestRxToStartUs a)),
       (''latestRxToAckCompleteMs'', millisecondsJson D (ha_latestAvailable a) (ha_latestRxToCompleteUs a)),
       (''latestAckTxDurationMs'', millisecondsJson D (ha_latestAvailable a)
          (if ha_latestAvailable a then ha_latestRxToCompleteUs a - ha_latestRxToStartUs a else 0))] @
      statisticsJson D ''minRxToAckStartMs'' ''maxRxToAckStartMs'' ''avgRxToAckStartMs'' (ha_rxToStart a) @
      statisticsJson D ''minRxToAckCompleteMs'' ''maxRxToAckCompleteMs'' ''avgRxToAckCompleteMs'' (ha_rxToComplete a) @
      statisticsJson D ''minAckTxDurationMs'' ''maxAckTxDurationMs'' ''avgAckTxDurationMs'' (ha_txDuration a))"

definition hbQueueJson :: "HeartbeatQueue \<Rightarrow> 'd json" where
  "hbQueueJson q = Json_object [(''depth'', num (hq_depth q)), (''capacity'', num (hq_capacity q)),
     (''oldestRecordAgeSeconds'', if hq_oldestAgeAvailable q then num (hq_oldestRecordAgeSeconds q) else Json_null),
     (''telemetryUploadSuccessCount'', num (hq_telemetryUploadSuccessCount q)),
     (''telemetryUploadFailureCount'', num (hq_telemetryUploadFailureCount q))]"

definition hbCommandsJson :: "HeartbeatCommands \<Rightarrow> 'd json" where
  "hbCommandsJson c = Json_object
     ((if hc_pending c
       then [(''pendingCommandId'', num (hc_pendingCommandId c)), (''pendingCommandType'', str (hc_pendingCommandType c)),
             (''pendingCommandState'', str (hc_pendingCommandState c))]
       else [(''pendingCommandId'', Json_null), (''pendingCommandType'', Json_null), (''pendingCommandState'', Json_null)]) @
      (if hc_lastAvailable c
       then [(''lastCommandId'', num (hc_lastCommandId c)), (''lastCommandResult'', str (hc_lastCommandResult c))]
       else [(''lastCommandId'', Json_null), (''lastCommandResult'', Json_null)]) @
      [(''commandsSentCount'', num (hc_commandsSentCount c)),
       (''commandResultsReceivedCount'', num (hc_commandResultsReceivedCount c))])"

definition heartbeatJson :: "'d double_ops \<Rightarrow> 'd HeartbeatSnapshot \<Rightarrow> 'd json" where
  "heartbeatJson D s = Json_object
     [(''schemaVersion'', num kHeartbeatSchemaVersion), (''heartbeatIntervalSeconds'', num (hs_heartbeatIntervalSeconds s)),
      (''gateway'', hbGatewayJson (hs_gateway s)), (''runtime'', hbRuntimeJson (hs_runtime s)),
      (''network'', hbNetworkJson (hs_network s)), (''time'', hbTimeJson (hs_time s)), (''lora'', hbLoraJson (hs_lora s)),
      (''ack'', hbAckJson D (hs_ack s)), (''queue'', hbQueueJson (hs_queue s)), (''commands'', hbCommandsJson (hs_commands s))]"

definition serializeHeartbeat :: "('d, 'j) arduino_json \<Rightarrow> 'd double_ops \<Rightarrow> 'd HeartbeatSnapshot \<Rightarrow> bool \<times> byte list" where
  "serializeHeartbeat J D s = (let json = aj_serialize J (heartbeatJson D s) in (json \<noteq> [], json))"


section \<open>The schedule in microseconds\<close>

definition interval_us :: "HeartbeatScheduler \<Rightarrow> nat" where "interval_us s = unat (hb_intervalSeconds s) * 1000000"

lemma deadline_nat:
  fixes now :: u64 and i :: u32
  assumes "unat now + unat i * 1000000 < 2 ^ 64"
  shows "unat (now + ucast i * 1000000) = unat now + unat i * 1000000"
proof -
  have "unat i < 2 ^ LENGTH(32)" by (rule unsigned_less)
  then have u: "unat (ucast i :: u64) = unat i" using assms by (simp add: unsigned_ucast_eq take_bit_nat_eq_self)
  show ?thesis using assms by (simp add: unat_word_ariths u)
qed

text \<open>After an attempt the next one becomes due exactly when the interval has passed.\<close>
lemma markAttempt_progress:
  assumes "heartbeatIntervalValid (hb_intervalSeconds s)" "unat started + interval_us s < 2 ^ 64"
  shows "scheduler_due t (markAttempt started s) \<longleftrightarrow> unat started + interval_us s \<le> unat t"
proof -
  have d: "unat (hb_nextDueUs (markAttempt started s)) = unat started + interval_us s"
    using deadline_nat assms(2) by (simp add: markAttempt_def interval_us_def)
  have "15 \<le> unat (hb_intervalSeconds s)"
    using assms(1) by (simp add: heartbeatIntervalValid_def kMinimumHeartbeatIntervalSeconds_def word_le_nat_alt)
  then have "0 < unat (hb_nextDueUs (markAttempt started s))" by (simp add: d interval_us_def)
  then have "hb_nextDueUs (markAttempt started s) \<noteq> 0" by auto
  then show ?thesis by (simp add: scheduler_due_def word_le_nat_alt d)
qed

end
