(* ===== verification/Logger.thy ===== *)
theory Logger
  imports Gateway_Prelude
begin

text \<open>
  The bounded log (src/lib/logging/logger.cpp): a ring of 96 entries written by every task and copied out for the
  dashboard. The formatted text is an argument (the result of \<open>vsnprintf\<close> before truncation), and so is whether
  the mutex was obtained in time: a message whose turn does not come within 10 ms is printed but not kept.
\<close>

section \<open>Data and operations\<close>

definition kLogCapacity :: nat where "kLogCapacity = 96"
definition kLogMessageCapacity :: nat where "kLogMessageCapacity = 176"

datatype LogLevel = LogLevel_kDebug | LogLevel_kInfo | LogLevel_kWarn | LogLevel_kError

fun levelName :: "LogLevel \<Rightarrow> string" where
  "levelName LogLevel_kDebug = ''DEBUG''"
| "levelName LogLevel_kInfo = ''INFO''"
| "levelName LogLevel_kWarn = ''WARN''"
| "levelName LogLevel_kError = ''ERROR''"

record LogEntry =
  le_uptimeMs :: u64
  le_level :: LogLevel
  le_subsystem :: "byte list"
  le_message :: "byte list"

definition LogEntry_init :: LogEntry where
  "LogEntry_init = \<lparr>le_uptimeMs = 0, le_level = LogLevel_kInfo, le_subsystem = replicate 9 0, le_message = replicate kLogMessageCapacity 0\<rparr>"

record Logger =
  lg_mutex :: bool
  lg_entries :: "LogEntry list"
  lg_size :: nat
  lg_next :: nat

definition Logger_init :: Logger where
  "Logger_init = \<lparr>lg_mutex = False, lg_entries = replicate kLogCapacity LogEntry_init, lg_size = 0, lg_next = 0\<rparr>"

definition logger_begin :: "bool \<Rightarrow> Logger \<Rightarrow> bool \<times> Logger" where
  "logger_begin created l = (created, l\<lparr>lg_mutex := created\<rparr>)"

text \<open>\<open>vsnprintf\<close> keeps what fits in front of the terminator.\<close>
definition logEntry :: "u64 \<Rightarrow> LogLevel \<Rightarrow> byte list option \<Rightarrow> byte list \<Rightarrow> LogEntry" where
  "logEntry nowUs level subsystem formatted = LogEntry_init
     \<lparr>le_uptimeMs := nowUs div 1000, le_level := level,
      le_subsystem := strncpy (le_subsystem LogEntry_init) (case subsystem of None \<Rightarrow> ascii ''APP'' | Some s \<Rightarrow> s) 8,
      le_message := char_array kLogMessageCapacity (take (kLogMessageCapacity - 1) (cstr formatted))\<rparr>"

definition serialLine :: "LogEntry \<Rightarrow> byte list" where
  "serialLine e = ascii ''['' @ ascii (levelName (le_level e)) @ ascii ''][''  @ cstr (le_subsystem e) @ ascii ''] ''
     @ cstr (le_message e) @ [0x0A]"

text \<open>The line printed, and the state after the call.\<close>
definition logger_log ::
  "u64 \<Rightarrow> bool \<Rightarrow> LogLevel \<Rightarrow> byte list option \<Rightarrow> byte list \<Rightarrow> Logger \<Rightarrow> byte list \<times> Logger" where
  "logger_log nowUs taken level subsystem formatted l =
     (let entry = logEntry nowUs level subsystem formatted in
      (serialLine entry,
       if \<not> lg_mutex l \<or> \<not> taken then l
       else l\<lparr>lg_entries := (lg_entries l)[lg_next l := entry],
              lg_next := (lg_next l + 1) mod kLogCapacity,
              lg_size := (if lg_size l < kLogCapacity then lg_size l + 1 else lg_size l)\<rparr>))"

text \<open>The entries copied to the output array, whose length is the result.\<close>
definition logger_snapshot :: "bool \<Rightarrow> nat \<Rightarrow> Logger \<Rightarrow> LogEntry list" where
  "logger_snapshot taken capacity l =
     (if capacity = 0 \<or> \<not> lg_mutex l \<or> \<not> taken then []
      else let count = (if lg_size l < capacity then lg_size l else capacity);
               oldest = (if lg_size l < kLogCapacity then 0 else lg_next l);
               skip = lg_size l - count in
           map (\<lambda>index. lg_entries l ! ((oldest + skip + index) mod kLogCapacity)) [0..<count])"


section \<open>The ring is the end of the log\<close>

text \<open>A ring that holds the last entries of a sequence: entry \<open>i\<close> of the sequence is at \<open>i mod capacity\<close>.\<close>
definition holds_last :: "LogEntry list \<Rightarrow> Logger \<Rightarrow> bool" where
  "holds_last es l \<longleftrightarrow> length (lg_entries l) = kLogCapacity \<and> lg_size l = min (length es) kLogCapacity \<and>
     lg_next l = length es mod kLogCapacity \<and>
     (\<forall>i < length es. length es \<le> i + kLogCapacity \<longrightarrow> lg_entries l ! (i mod kLogCapacity) = es ! i)"

lemma kLogCapacity_pos [simp]: "0 < kLogCapacity" by (simp add: kLogCapacity_def)

lemma mod_inj_window: "i mod k = n mod k \<Longrightarrow> i < n \<Longrightarrow> n < i + k \<Longrightarrow> False" for k :: nat
proof -
  assume *: "i mod k = n mod k" "i < n" "n < i + k"
  then have "k dvd n - i" using mod_eq_dvd_iff_nat[of i n k] by simp
  with * show False by (auto dest: dvd_imp_le)
qed

lemma holds_last_init: "holds_last [] (Logger_init\<lparr>lg_mutex := b\<rparr>)"
  by (simp add: holds_last_def Logger_init_def)

lemma holds_last_log:
  assumes "holds_last es l" "lg_mutex l" "taken"
  shows "holds_last (es @ [logEntry nowUs level sub text]) (snd (logger_log nowUs taken level sub text l))"
proof -
  let ?e = "logEntry nowUs level sub text" and ?l = "snd (logger_log nowUs taken level sub text l)"
  have l: "?l = l\<lparr>lg_entries := (lg_entries l)[length es mod kLogCapacity := ?e], lg_next := (lg_next l + 1) mod kLogCapacity,
              lg_size := (if lg_size l < kLogCapacity then lg_size l + 1 else lg_size l)\<rparr>"
    using assms by (simp add: logger_log_def Let_def holds_last_def)
  have next_slot: "(lg_next l + 1) mod kLogCapacity = length (es @ [?e]) mod kLogCapacity"
    using assms(1) by (simp add: holds_last_def mod_Suc_eq)
  have "lg_entries ?l ! (i mod kLogCapacity) = (es @ [?e]) ! i"
    if "i < length (es @ [?e])" "length (es @ [?e]) \<le> i + kLogCapacity" for i
  proof (cases "i = length es")
    case True
    then show ?thesis using assms(1) by (simp add: l holds_last_def)
  next
    case False
    with that have i: "i < length es" "length es < i + kLogCapacity" by auto
    then have "i mod kLogCapacity \<noteq> length es mod kLogCapacity" using mod_inj_window by blast
    then show ?thesis using assms(1) i by (simp add: l holds_last_def nth_append)
  qed
  then show ?thesis using assms(1) next_slot by (auto simp: holds_last_def l)
qed

lemma snapshot_last:
  assumes "holds_last es l" "lg_mutex l" "taken" "0 < capacity"
  shows "logger_snapshot taken capacity l = drop (length es - min capacity kLogCapacity) es"
proof (rule nth_equalityI)
  let ?c = "min (min (length es) kLogCapacity) capacity"
  have size: "lg_size l = min (length es) kLogCapacity" using assms(1) by (simp add: holds_last_def)
  have count: "(if lg_size l < capacity then lg_size l else capacity) = ?c" by (simp add: size min_def)
  show len: "length (logger_snapshot taken capacity l) = length (drop (length es - min capacity kLogCapacity) es)"
    using assms by (auto simp: logger_snapshot_def Let_def count)
  fix i assume "i < length (logger_snapshot taken capacity l)"
  then have i: "i < ?c" using assms by (simp add: logger_snapshot_def Let_def count)
  define j where "j = length es - ?c + i"
  have j: "j < length es" "length es \<le> j + kLogCapacity" using i by (auto simp: j_def)
  have "((if lg_size l < kLogCapacity then 0 else lg_next l) + (lg_size l - ?c) + i) mod kLogCapacity = j mod kLogCapacity"
  proof (cases "length es < kLogCapacity")
    case True
    then show ?thesis using i by (simp add: size j_def)
  next
    case False
    have "(length es mod kLogCapacity + (kLogCapacity - ?c + i)) mod kLogCapacity = (length es + (kLogCapacity - ?c + i)) mod kLogCapacity"
      by (rule mod_add_left_eq)
    moreover have "lg_next l = length es mod kLogCapacity" using assms(1) by (simp add: holds_last_def)
    ultimately have "(lg_next l + (kLogCapacity - ?c) + i) mod kLogCapacity = (length es + (kLogCapacity - ?c) + i) mod kLogCapacity"
      by (simp only: add.assoc)
    also have "length es + (kLogCapacity - ?c) + i = j + kLogCapacity" using False i by (simp add: j_def)
    finally show ?thesis using False by (simp add: size)
  qed
  then have "logger_snapshot taken capacity l ! i = lg_entries l ! (j mod kLogCapacity)"
    using assms i by (simp add: logger_snapshot_def Let_def count)
  also have "\<dots> = es ! j" using assms(1) j by (simp add: holds_last_def)
  also have "\<dots> = drop (length es - min capacity kLogCapacity) es ! i"
    using i by (simp add: j_def nth_drop min_def)
  finally show "logger_snapshot taken capacity l ! i = drop (length es - min capacity kLogCapacity) es ! i" .
qed

text \<open>A run of log calls: the entries kept are those whose call obtained the mutex.\<close>
record LogCall =
  lc_nowUs :: u64
  lc_taken :: bool
  lc_level :: LogLevel
  lc_subsystem :: "byte list option"
  lc_text :: "byte list"

definition logger_calls :: "LogCall list \<Rightarrow> Logger \<Rightarrow> Logger" where
  "logger_calls cs l = fold (\<lambda>c l. snd (logger_log (lc_nowUs c) (lc_taken c) (lc_level c) (lc_subsystem c) (lc_text c) l)) cs l"

definition kept_entries :: "LogCall list \<Rightarrow> LogEntry list" where
  "kept_entries cs = map (\<lambda>c. logEntry (lc_nowUs c) (lc_level c) (lc_subsystem c) (lc_text c)) (filter lc_taken cs)"

lemma logger_calls_hold:
  "holds_last (kept_entries cs) (logger_calls cs (Logger_init\<lparr>lg_mutex := True\<rparr>)) \<and> lg_mutex (logger_calls cs (Logger_init\<lparr>lg_mutex := True\<rparr>))"
proof (induction cs rule: rev_induct)
  case (snoc c cs)
  let ?l = "logger_calls cs (Logger_init\<lparr>lg_mutex := True\<rparr>)"
  have step: "logger_calls (cs @ [c]) (Logger_init\<lparr>lg_mutex := True\<rparr>) =
      snd (logger_log (lc_nowUs c) (lc_taken c) (lc_level c) (lc_subsystem c) (lc_text c) ?l)" by (simp add: logger_calls_def)
  show ?case
  proof (cases "lc_taken c")
    case True
    then show ?thesis using snoc holds_last_log[of "kept_entries cs" ?l True] unfolding step
      by (simp add: kept_entries_def) (simp add: logger_log_def Let_def)
  next
    case False
    then show ?thesis using snoc unfolding step by (simp add: kept_entries_def logger_log_def Let_def)
  qed
qed (simp add: kept_entries_def logger_calls_def holds_last_init)

text \<open>C36: The log keeps the newest messages in order. After any sequence of log calls on a started logger, a snapshot
  with room for \<open>capacity\<close> entries holds exactly the last \<open>min capacity 96\<close> of the messages whose call obtained the
  mutex, oldest first and unchanged, however often the ring has wrapped.\<close>
theorem log_snapshot_newest:
  assumes "0 < capacity"
  shows "logger_snapshot True capacity (logger_calls cs (snd (logger_begin True Logger_init))) =
    (let kept = kept_entries cs in drop (length kept - min capacity kLogCapacity) kept)"
  using snapshot_last[OF conjunct1[OF logger_calls_hold] conjunct2[OF logger_calls_hold], of True capacity cs] assms
  by (simp add: logger_begin_def Let_def)

definition example_log :: "LogCall list" where
  "example_log = map (\<lambda>i. \<lparr>lc_nowUs = of_nat i * 1000, lc_taken = (i \<noteq> 1), lc_level = LogLevel_kInfo,
     lc_subsystem = None, lc_text = ascii ''x''\<rparr>) [0..<3]"

theorem log_snapshot_newest_witness:
  "map le_uptimeMs (logger_snapshot True 1 (logger_calls example_log (snd (logger_begin True Logger_init)))) = [2]"
  using log_snapshot_newest[of 1 example_log]
  by (simp add: example_log_def kept_entries_def logEntry_def kLogCapacity_def upt_rec Let_def)

end
