(* ===== verification/Ota_Manager.thy ===== *)
theory Ota_Manager
  imports Gateway_Prelude
begin

text \<open>
  The OTA boot validation (src/lib/ota/ota_manager.cpp). The ESP-IDF calls (running partition, image state, partition
  table, marking the image valid, rolling back) are the operations of \<open>ota_platform\<close>. The build with
  \<open>GATHRA_ROLLBACK_TEST_FAIL\<close>, a test image that restarts on purpose, is left out.
\<close>

section \<open>Data and operations\<close>

datatype esp_ota_img_states =
    ESP_OTA_IMG_NEW | ESP_OTA_IMG_PENDING_VERIFY | ESP_OTA_IMG_VALID | ESP_OTA_IMG_INVALID | ESP_OTA_IMG_ABORTED
  | ESP_OTA_IMG_UNDEFINED | ESP_OTA_IMG_OTHER u32

fun stateName :: "esp_ota_img_states \<Rightarrow> string" where
  "stateName ESP_OTA_IMG_NEW = ''NEW''"
| "stateName ESP_OTA_IMG_PENDING_VERIFY = ''PENDING_VERIFY''"
| "stateName ESP_OTA_IMG_VALID = ''VALID''"
| "stateName ESP_OTA_IMG_INVALID = ''INVALID''"
| "stateName ESP_OTA_IMG_ABORTED = ''ABORTED''"
| "stateName ESP_OTA_IMG_UNDEFINED = ''UNDEFINED''"
| "stateName (ESP_OTA_IMG_OTHER _) = ''UNKNOWN''"

record esp_partition =
  ep_label :: "byte list"
  ep_address :: u32
  ep_size :: u32

text \<open>The four partitions the code looks for; \<open>op_runningState\<close> is \<open>None\<close> when the call does not return \<open>ESP_OK\<close>.\<close>
record 'o ota_platform =
  op_running :: "'o \<Rightarrow> esp_partition option"
  op_runningState :: "'o \<Rightarrow> esp_ota_img_states option"
  op_ota0 :: "'o \<Rightarrow> esp_partition option"
  op_ota1 :: "'o \<Rightarrow> esp_partition option"
  op_otaData :: "'o \<Rightarrow> esp_partition option"
  op_littlefs :: "'o \<Rightarrow> esp_partition option"
  op_markValid :: "'o \<Rightarrow> bool \<times> 'o"
  op_rollbackAndReboot :: "'o \<Rightarrow> 'o"

record OtaManager =
  om_pendingVerification :: bool
  om_uploadInProgress :: bool
  om_runningPartition :: "byte list"
  om_imageStateName :: string
  om_lastStatus :: string

definition OtaManager_init :: OtaManager where
  "OtaManager_init = \<lparr>om_pendingVerification = False, om_uploadInProgress = False,
     om_runningPartition = char_array 17 (ascii ''unknown''), om_imageStateName = ''UNDEFINED'', om_lastStatus = ''not checked''\<rparr>"

definition setUploadInProgress :: "bool \<Rightarrow> OtaManager \<Rightarrow> OtaManager" where
  "setUploadInProgress value m = m\<lparr>om_uploadInProgress := value\<rparr>"

definition ota_begin :: "'o ota_platform \<Rightarrow> OtaManager \<times> 'o \<Rightarrow> OtaManager \<times> 'o" where
  "ota_begin P = (\<lambda>(m, h).
     case op_running P h of None \<Rightarrow> (m, h)
     | Some running \<Rightarrow>
        let m = m\<lparr>om_runningPartition := strncpy (om_runningPartition m) (ep_label running) 16\<rparr> in
        (case op_runningState P h of None \<Rightarrow> (m, h)
         | Some state \<Rightarrow> (m\<lparr>om_imageStateName := stateName state, om_pendingVerification := (state = ESP_OTA_IMG_PENDING_VERIFY)\<rparr>, h)))"

definition partitionLayoutSane :: "'o ota_platform \<Rightarrow> 'o \<Rightarrow> bool" where
  "partitionLayoutSane P h =
     (case (op_ota0 P h, op_ota1 P h, op_otaData P h, op_littlefs P h) of
        (Some ota0, Some ota1, Some otaData, Some filesystem) \<Rightarrow>
          ep_size ota0 = ep_size ota1 \<and> ep_size ota0 = 0x160000 \<and> ep_size filesystem = 0x120000 \<and>
          ep_address filesystem + ep_size filesystem \<le> 0x400000
      | _ \<Rightarrow> False)"

definition completeBootValidation :: "'o ota_platform \<Rightarrow> bool \<Rightarrow> bool \<Rightarrow> bool \<Rightarrow> OtaManager \<times> 'o \<Rightarrow> bool \<times> OtaManager \<times> 'o" where
  "completeBootValidation P configurationSane queueSane nvsSane = (\<lambda>(m, h).
     let sane = (configurationSane \<and> queueSane \<and> nvsSane \<and> partitionLayoutSane P h) in
     if \<not> om_pendingVerification m
     then (sane, m\<lparr>om_lastStatus := (if sane then ''boot checks passed; image was not pending''
                                     else ''boot checks failed; image was not pending'')\<rparr>, h)
     else if \<not> sane
     then (False, m\<lparr>om_lastStatus := ''boot validation failed; requesting rollback''\<rparr>, op_rollbackAndReboot P h)
     else case op_markValid P h of
       (True, h) \<Rightarrow> (True, m\<lparr>om_pendingVerification := False, om_imageStateName := ''VALID'',
                             om_lastStatus := ''pending image marked valid after internal boot checks''\<rparr>, h)
     | (False, h) \<Rightarrow> (False, m\<lparr>om_lastStatus := ''failed to mark pending image valid''\<rparr>, h))"


section \<open>An image is kept only after the checks\<close>

text \<open>What the bootloader is told: nothing, that the image is valid, or to go back to the other one.\<close>
datatype ota_verdict = MarkedValid | RolledBack

text \<open>The platform that records the verdicts it is given.\<close>
locale ota_hardware =
  fixes P :: "'o ota_platform" and verdicts :: "'o \<Rightarrow> ota_verdict list"
  assumes mark_valid: "op_markValid P h = (okay, h') \<Longrightarrow> verdicts h' = (if okay then verdicts h @ [MarkedValid] else verdicts h)"
    and roll_back: "verdicts (op_rollbackAndReboot P h) = verdicts h @ [RolledBack]"
begin

lemma validation_verdict:
  assumes "completeBootValidation P c q n (m, h) = (okay, m', h')"
  shows "verdicts h' = verdicts h @
    (if \<not> om_pendingVerification m then [] else if \<not> (c \<and> q \<and> n \<and> partitionLayoutSane P h) then [RolledBack]
     else if okay then [MarkedValid] else [])"
  using assms mark_valid[of h] roll_back[of h]
  by (auto simp: completeBootValidation_def Let_def split: if_splits prod.splits bool.splits)

end

record mem_ota =
  mo_parts :: "esp_partition option list"
  mo_state :: "esp_ota_img_states option"
  mo_fault :: bool
  mo_verdicts :: "ota_verdict list"

definition mem_ota_api :: "mem_ota ota_platform" where
  "mem_ota_api = \<lparr>op_running = (\<lambda>h. mo_parts h ! 0), op_runningState = mo_state, op_ota0 = (\<lambda>h. mo_parts h ! 0),
     op_ota1 = (\<lambda>h. mo_parts h ! 1), op_otaData = (\<lambda>h. mo_parts h ! 2), op_littlefs = (\<lambda>h. mo_parts h ! 3),
     op_markValid = (\<lambda>h. if mo_fault h then (False, h) else (True, h\<lparr>mo_verdicts := mo_verdicts h @ [MarkedValid]\<rparr>)),
     op_rollbackAndReboot = (\<lambda>h. h\<lparr>mo_verdicts := mo_verdicts h @ [RolledBack]\<rparr>)\<rparr>"

interpretation mem_ota: ota_hardware mem_ota_api mo_verdicts
  by unfold_locales (auto simp: mem_ota_api_def split: if_splits)

text \<open>C4: A new firmware image survives its first boot only if the boot checks pass. When the running image is pending
  verification, boot validation tells the bootloader to keep it only if the configuration, the queue, the NVS state and
  the partition layout (two OTA slots of 0x160000 bytes, their data partition, a file system of 0x120000 bytes inside
  the 4 MB flash) are all sane, and otherwise asks for the rollback; an image that is not pending is never touched. The
  manager reports the image as no longer pending exactly when it was marked.\<close>
theorem image_kept_only_if_sane:
  assumes "ota_hardware P verdicts" "ota_begin P (OtaManager_init, h) = (m, h1)"
    and "completeBootValidation P c q n (m, h1) = (okay, m', h')"
  shows "let pending = (op_running P h \<noteq> None \<and> op_runningState P h = Some ESP_OTA_IMG_PENDING_VERIFY);
             sane = (c \<and> q \<and> n \<and> partitionLayoutSane P h) in
    (okay \<longrightarrow> sane) \<and>
    verdicts h' = verdicts h @ (if \<not> pending then [] else if \<not> sane then [RolledBack] else if okay then [MarkedValid] else []) \<and>
    (om_pendingVerification m' \<longleftrightarrow> pending \<and> \<not> okay)"
proof -
  have m: "h1 = h" "om_pendingVerification m \<longleftrightarrow> op_running P h \<noteq> None \<and> op_runningState P h = Some ESP_OTA_IMG_PENDING_VERIFY"
    using assms(2) by (auto simp: ota_begin_def OtaManager_init_def Let_def split: option.splits)
  have "okay \<longrightarrow> c \<and> q \<and> n \<and> partitionLayoutSane P h" "om_pendingVerification m' \<longleftrightarrow> om_pendingVerification m \<and> \<not> okay"
    using assms(3) m(1) by (auto simp: completeBootValidation_def Let_def split: if_splits prod.splits bool.splits)
  then show ?thesis using ota_hardware.validation_verdict[OF assms(1,3)] m by (simp add: Let_def)
qed

definition example_partitions :: "esp_partition option list" where
  "example_partitions = map (\<lambda>(a, s). Some \<lparr>ep_label = ascii ''p'', ep_address = a, ep_size = s\<rparr>)
     [(0x10000, 0x160000), (0x170000, 0x160000), (0xE000, 0x2000), (0x2D0000, 0x120000)]"

definition pending_boot :: mem_ota where
  "pending_boot = \<lparr>mo_parts = example_partitions, mo_state = Some ESP_OTA_IMG_PENDING_VERIFY, mo_fault = False, mo_verdicts = []\<rparr>"

theorem image_kept_only_if_sane_witness:
  "mo_verdicts (snd (snd (completeBootValidation mem_ota_api True True True (ota_begin mem_ota_api (OtaManager_init, pending_boot))))) = [MarkedValid] \<and>
   mo_verdicts (snd (snd (completeBootValidation mem_ota_api True False True (ota_begin mem_ota_api (OtaManager_init, pending_boot))))) = [RolledBack]"
proof -
  obtain m h1 where b: "ota_begin mem_ota_api (OtaManager_init, pending_boot) = (m, h1)" by fastforce
  obtain o1 m1 h2 where r1: "completeBootValidation mem_ota_api True True True (m, h1) = (o1, m1, h2)" by (metis prod_cases3)
  obtain o2 m2 h3 where r2: "completeBootValidation mem_ota_api True False True (m, h1) = (o2, m2, h3)" by (metis prod_cases3)
  have sane: "partitionLayoutSane mem_ota_api pending_boot"
    by (simp add: partitionLayoutSane_def mem_ota_api_def pending_boot_def example_partitions_def)
  have "fst (completeBootValidation mem_ota_api True True True (ota_begin mem_ota_api (OtaManager_init, pending_boot)))"
    by (simp add: completeBootValidation_def ota_begin_def partitionLayoutSane_def mem_ota_api_def pending_boot_def
        example_partitions_def OtaManager_init_def Let_def)
  then have "o1" using b r1 by simp
  then show ?thesis
    using image_kept_only_if_sane[OF mem_ota.ota_hardware_axioms b r1] image_kept_only_if_sane[OF mem_ota.ota_hardware_axioms b r2] b r1 r2 sane
    by (simp add: Let_def) (simp add: mem_ota_api_def pending_boot_def example_partitions_def)
qed

end
