(* ===== verification/Wifi_Manager.thy ===== *)
theory Wifi_Manager
  imports Gateway_Config
begin

text \<open>
  The Wi-Fi manager (src/lib/wifi/wifi_manager.cpp): the station connection with its reconnect timer and the fallback
  access point through which the operator reaches the dashboard when the station has no network. The Arduino Wi-Fi
  driver, mDNS, the clock and the task are the operations of \<open>wifi_platform\<close>. A round of the task is one step: what
  other tasks may change during it (credentials, the reconnect request) is read once, at its start.
\<close>

section \<open>Platform, data and state\<close>

definition kFallbackApPassword :: "byte list" where "kFallbackApPassword = ascii ''sman35jakarta''"
definition kMdnsHost :: "byte list" where "kMdnsHost = ascii ''gathra-gateway''"

datatype wifi_mode = WIFI_STA | WIFI_AP | WIFI_AP_STA | WIFI_OTHER nat

datatype WifiLog =
    LogStaConnected "byte list" "byte list" u32 | LogStaLost | LogApActive "byte list" | LogApFailed | LogApStopped
  | LogStaAttempt "byte list"

record 'x wifi_platform =
  wp_createMutex :: "'x \<Rightarrow> bool \<times> 'x"
  wp_createTask :: "'x \<Rightarrow> bool \<times> 'x"
  wp_driverSetup :: "byte list \<Rightarrow> 'x \<Rightarrow> 'x"
  wp_millis :: "'x \<Rightarrow> u32 \<times> 'x"
  wp_connected :: "'x \<Rightarrow> bool \<times> 'x"
  wp_localIP :: "'x \<Rightarrow> byte list \<times> 'x"
  wp_RSSI :: "'x \<Rightarrow> u32 \<times> 'x"
  wp_mode :: "wifi_mode \<Rightarrow> 'x \<Rightarrow> 'x"
  wp_getMode :: "'x \<Rightarrow> wifi_mode \<times> 'x"
  wp_stationNum :: "'x \<Rightarrow> nat \<times> 'x"
  wp_softAP :: "byte list \<Rightarrow> byte list \<Rightarrow> 'x \<Rightarrow> bool \<times> 'x"
  wp_softAPdisconnect :: "'x \<Rightarrow> 'x"
  wp_disconnect :: "'x \<Rightarrow> 'x"
  wp_begin :: "byte list \<Rightarrow> byte list \<Rightarrow> 'x \<Rightarrow> 'x"
  wp_mdnsBegin :: "byte list \<Rightarrow> 'x \<Rightarrow> bool \<times> 'x"
  wp_mdnsAddService :: "'x \<Rightarrow> 'x"
  wp_mdnsEnd :: "'x \<Rightarrow> 'x"
  wp_log :: "WifiLog \<Rightarrow> 'x \<Rightarrow> 'x"

record WifiStatus =
  ws_configured :: bool
  ws_connected :: bool
  ws_ssid :: "byte list"
  ws_localIp :: "byte list"
  ws_rssiDbm :: u32
  ws_reconnecting :: bool
  ws_fallbackApActive :: bool
  ws_fallbackApSsid :: "byte list"

definition WifiStatus_init :: WifiStatus where
  "WifiStatus_init = \<lparr>ws_configured = False, ws_connected = False, ws_ssid = replicate kWifiSsidCapacity 0,
     ws_localIp = replicate 16 0, ws_rssiDbm = 0, ws_reconnecting = False, ws_fallbackApActive = False,
     ws_fallbackApSsid = replicate 33 0\<rparr>"

text \<open>The members, and the local \<open>wasConnected\<close> of the task.\<close>
record WifiManager =
  wm_mutex :: bool
  wm_ssid :: "byte list"
  wm_password :: "byte list"
  wm_fallbackApSsid :: "byte list"
  wm_reconnectIntervalMs :: u32
  wm_fallbackAfterMs :: u32
  wm_apGraceMs :: u32
  wm_reconnectRequested :: bool
  wm_apActive :: bool
  wm_reconnecting :: bool
  wm_disconnectedSinceMs :: u32
  wm_connectedSinceMs :: u32
  wm_lastReconnectMs :: u32
  wm_wasConnected :: bool

definition WifiManager_init :: WifiManager where
  "WifiManager_init = \<lparr>wm_mutex = False, wm_ssid = replicate kWifiSsidCapacity 0, wm_password = replicate kWifiPasswordCapacity 0,
     wm_fallbackApSsid = replicate 33 0, wm_reconnectIntervalMs = 15000, wm_fallbackAfterMs = 60000, wm_apGraceMs = 30000,
     wm_reconnectRequested = False, wm_apActive = False, wm_reconnecting = False, wm_disconnectedSinceMs = 0,
     wm_connectedSinceMs = 0, wm_lastReconnectMs = 0, wm_wasConnected = False\<rparr>"


section \<open>Operations\<close>

definition copy_array :: "nat \<Rightarrow> byte list \<Rightarrow> byte list \<Rightarrow> byte list" where
  "copy_array n dst src = (strncpy dst src (n - 1))[n - 1 := 0]"

definition wifi_applyConfig :: "GatewayConfig \<Rightarrow> WifiManager \<Rightarrow> WifiManager" where
  "wifi_applyConfig config m =
     (if \<not> wm_mutex m then m
      else m\<lparr>wm_ssid := copy_array kWifiSsidCapacity (wm_ssid m) (gc_wifiSsid config),
             wm_password := copy_array kWifiPasswordCapacity (wm_password m) (gc_wifiPassword config),
             wm_reconnectIntervalMs := gc_wifiReconnectIntervalMs config,
             wm_fallbackAfterMs := gc_wifiFallbackAfterMs config,
             wm_apGraceMs := gc_wifiApGraceMs config,
             wm_reconnectRequested := True\<rparr>)"

definition requestReconnect :: "WifiManager \<Rightarrow> WifiManager" where
  "requestReconnect m = (if wm_mutex m then m\<lparr>wm_reconnectRequested := True\<rparr> else m)"

definition wifi_status :: "'x wifi_platform \<Rightarrow> WifiManager \<times> 'x \<Rightarrow> WifiStatus \<times> 'x" where
  "wifi_status W = (\<lambda>(m, x).
     if \<not> wm_mutex m then (WifiStatus_init, x)
     else case wp_connected W x of (connected, x) \<Rightarrow>
       let v = WifiStatus_init\<lparr>ws_configured := hd (wm_ssid m) \<noteq> 0, ws_connected := connected,
                 ws_ssid := strncpy (ws_ssid WifiStatus_init) (wm_ssid m) (kWifiSsidCapacity - 1),
                 ws_reconnecting := wm_reconnecting m, ws_fallbackApActive := wm_apActive m,
                 ws_fallbackApSsid := strncpy (ws_fallbackApSsid WifiStatus_init) (wm_fallbackApSsid m) 32\<rparr> in
       if \<not> connected then (v, x)
       else case wp_localIP W x of (ip, x) \<Rightarrow>
            case wp_RSSI W x of (rssi, x) \<Rightarrow>
              (v\<lparr>ws_localIp := strncpy (ws_localIp v) ip 15, ws_rssiDbm := rssi\<rparr>, x))"

definition startFallbackAp :: "'x wifi_platform \<Rightarrow> WifiManager \<times> 'x \<Rightarrow> WifiManager \<times> 'x" where
  "startFallbackAp W = (\<lambda>(m, x).
     if \<not> wm_mutex m \<or> wm_apActive m then (m, x)
     else case wp_softAP W (wm_fallbackApSsid m) kFallbackApPassword (wp_mode W WIFI_AP_STA x) of
       (True, x) \<Rightarrow> (m\<lparr>wm_apActive := True\<rparr>, wp_log W (LogApActive (wm_fallbackApSsid m)) x)
     | (False, x) \<Rightarrow> (m, wp_log W LogApFailed x))"

definition stopFallbackAp :: "'x wifi_platform \<Rightarrow> WifiManager \<times> 'x \<Rightarrow> WifiManager \<times> 'x" where
  "stopFallbackAp W = (\<lambda>(m, x).
     if \<not> wm_mutex m \<or> \<not> wm_apActive m then (m, x)
     else (m\<lparr>wm_apActive := False\<rparr>, wp_log W LogApStopped (wp_mode W WIFI_STA (wp_softAPdisconnect W x))))"

definition setReconnecting :: "bool \<Rightarrow> WifiManager \<Rightarrow> WifiManager" where
  "setReconnecting b m = (if wm_mutex m then m\<lparr>wm_reconnecting := b\<rparr> else m)"

lemma setReconnecting_fields [simp]:
  "wm_mutex (setReconnecting b m) = wm_mutex m" "wm_fallbackAfterMs (setReconnecting b m) = wm_fallbackAfterMs m"
  "wm_apActive (setReconnecting b m) = wm_apActive m" "wm_disconnectedSinceMs (setReconnecting b m) = wm_disconnectedSinceMs m"
  "wm_wasConnected (setReconnecting b m) = wm_wasConnected m" "wm_ssid (setReconnecting b m) = wm_ssid m"
  by (simp_all add: setReconnecting_def)

definition sinceIfUnset :: "u32 \<Rightarrow> WifiManager \<Rightarrow> WifiManager" where
  "sinceIfUnset now m = (if wm_disconnectedSinceMs m = 0 then m\<lparr>wm_disconnectedSinceMs := now\<rparr> else m)"

text \<open>Both callers pass character arrays, never a null pointer.\<close>
definition beginSta :: "'x wifi_platform \<Rightarrow> byte list \<Rightarrow> byte list \<Rightarrow> WifiManager \<times> 'x \<Rightarrow> WifiManager \<times> 'x" where
  "beginSta W ssid password = (\<lambda>(m, x).
     case wp_millis W x of (now, x) \<Rightarrow>
     let m = m\<lparr>wm_lastReconnectMs := now\<rparr> in
     if hd ssid = 0
     then startFallbackAp W (setReconnecting False m, wp_disconnect W x)
     else let apActive = (wm_mutex m \<and> wm_apActive m);
              x = wp_mode W (if apActive then WIFI_AP_STA else WIFI_STA) x;
              x = wp_begin W ssid password (wp_disconnect W x);
              m = setReconnecting True m in
          if wm_disconnectedSinceMs m = 0
          then case wp_millis W x of (now, x) \<Rightarrow> (sinceIfUnset now m, wp_log W (LogStaAttempt ssid) x)
          else (m, wp_log W (LogStaAttempt ssid) x))"

definition fallbackSsid :: "byte list option \<Rightarrow> byte list" where
  "fallbackSsid hardwareMacCompact = char_array 33 (take 32 (ascii ''GATHRA-GW-'' @
     (case hardwareMacCompact of None \<Rightarrow> ascii ''UNKNOWN'' | Some mac \<Rightarrow> cstr (drop 6 mac))))"

definition wifi_begin ::
  "'x wifi_platform \<Rightarrow> GatewayConfig \<Rightarrow> byte list option \<Rightarrow> WifiManager \<times> 'x \<Rightarrow> bool \<times> WifiManager \<times> 'x" where
  "wifi_begin W config hardwareMacCompact = (\<lambda>(m, x).
     case wp_createMutex W x of (created, x) \<Rightarrow>
     let m = m\<lparr>wm_mutex := created\<rparr> in
     if \<not> created then (False, m, x)
     else let m = wifi_applyConfig config (m\<lparr>wm_fallbackApSsid := fallbackSsid hardwareMacCompact\<rparr>) in
       case wp_millis W (wp_driverSetup W kMdnsHost x) of (now, x) \<Rightarrow>
       let m = m\<lparr>wm_disconnectedSinceMs := now\<rparr> in
       case (if hd (wm_ssid m) = 0 then startFallbackAp W (m, x) else beginSta W (wm_ssid m) (wm_password m) (m, x)) of (m, x) \<Rightarrow>
       case wp_createTask W x of (task, x) \<Rightarrow> (task, m, x))"

text \<open>The parts of a round of the task: the transitions of the connection, and what is done while it is down or up.\<close>
definition noteTransition :: "'x wifi_platform \<Rightarrow> byte list \<Rightarrow> u32 \<Rightarrow> bool \<Rightarrow> WifiManager \<times> 'x \<Rightarrow> WifiManager \<times> 'x" where
  "noteTransition W ssid now connected = (\<lambda>(m, x).
     if connected \<and> \<not> wm_wasConnected m
     then case wp_localIP W x of (ip, x) \<Rightarrow>
          case wp_RSSI W x of (rssi, x) \<Rightarrow>
          case wp_mdnsBegin W kMdnsHost (wp_log W (LogStaConnected ssid ip rssi) x) of (up, x) \<Rightarrow>
            (setReconnecting False (m\<lparr>wm_connectedSinceMs := now\<rparr>), if up then wp_mdnsAddService W x else x)
     else if \<not> connected \<and> wm_wasConnected m
     then (m\<lparr>wm_disconnectedSinceMs := now\<rparr>, wp_log W LogStaLost (wp_mdnsEnd W x))
     else (m, x))"

definition whileDisconnected ::
  "'x wifi_platform \<Rightarrow> byte list \<Rightarrow> byte list \<Rightarrow> u32 \<Rightarrow> u32 \<Rightarrow> u32 \<Rightarrow> WifiManager \<times> 'x \<Rightarrow> WifiManager \<times> 'x" where
  "whileDisconnected W ssid password reconnectIntervalMs fallbackAfterMs now = (\<lambda>(m, x).
     let m = sinceIfUnset now m in
     case (if hd ssid \<noteq> 0 \<and> reconnectIntervalMs \<le> now - wm_lastReconnectMs m then beginSta W ssid password (m, x) else (m, x)) of (m, x) \<Rightarrow>
     if hd ssid = 0 \<or> fallbackAfterMs \<le> now - wm_disconnectedSinceMs m then startFallbackAp W (m, x) else (m, x))"

definition whileConnected :: "'x wifi_platform \<Rightarrow> u32 \<Rightarrow> u32 \<Rightarrow> WifiManager \<times> 'x \<Rightarrow> WifiManager \<times> 'x" where
  "whileConnected W apGraceMs now = (\<lambda>(m, x).
     let m = m\<lparr>wm_disconnectedSinceMs := 0\<rparr> in
     if wm_mutex m \<and> wm_apActive m \<and> apGraceMs \<le> now - wm_connectedSinceMs m then stopFallbackAp W (m, x) else (m, x))"

text \<open>One round of \<open>run\<close>; without the mutex the locals keep their zero initialisers.\<close>
definition wifi_round :: "'x wifi_platform \<Rightarrow> WifiManager \<times> 'x \<Rightarrow> WifiManager \<times> 'x" where
  "wifi_round W = (\<lambda>(m, x).
     let locked = wm_mutex m;
         ssid = (if locked then wm_ssid m else replicate kWifiSsidCapacity 0);
         password = (if locked then wm_password m else replicate kWifiPasswordCapacity 0);
         reconnectIntervalMs = (if locked then wm_reconnectIntervalMs m else 0);
         fallbackAfterMs = (if locked then wm_fallbackAfterMs m else 0);
         apGraceMs = (if locked then wm_apGraceMs m else 0);
         reconnectRequested = (locked \<and> wm_reconnectRequested m);
         m = (if locked then m\<lparr>wm_reconnectRequested := False\<rparr> else m) in
     case wp_millis W x of (now, x) \<Rightarrow>
     case wp_connected W x of (connected, x) \<Rightarrow>
     case noteTransition W ssid now connected (m, x) of (m, x) \<Rightarrow>
     let m = m\<lparr>wm_wasConnected := connected\<rparr> in
     case (if reconnectRequested then beginSta W ssid password (m, x) else (m, x)) of (m, x) \<Rightarrow>
     if \<not> connected then whileDisconnected W ssid password reconnectIntervalMs fallbackAfterMs now (m, x)
     else whileConnected W apGraceMs now (m, x))"


text \<open>A step of a running manager: a round of its task, or one of the two calls other tasks make between rounds.\<close>
inductive wifi_step :: "'x wifi_platform \<Rightarrow> WifiManager \<times> 'x \<Rightarrow> WifiManager \<times> 'x \<Rightarrow> bool" for W :: "'x wifi_platform" where
  wifi_step_round: "wifi_step W s (wifi_round W s)"
| wifi_step_config: "wifi_step W (m, x) (wifi_applyConfig config m, x)"
| wifi_step_reconnect: "wifi_step W (m, x) (requestReconnect m, x)"

text \<open>The states of a manager that was started.\<close>
inductive wifi_runs :: "'x wifi_platform \<Rightarrow> WifiManager \<times> 'x \<Rightarrow> bool" for W :: "'x wifi_platform" where
  runs_begin: "wifi_begin W config mac (WifiManager_init, x) = (True, s) \<Longrightarrow> wifi_runs W s"
| runs_step: "wifi_runs W s \<Longrightarrow> wifi_step W s s' \<Longrightarrow> wifi_runs W s'"


section \<open>A gateway without network offers its access point\<close>

text \<open>The driver with its clock in milliseconds, which is past zero when the program runs; \<open>dead\<close> says that from here on
  the station does not connect and the access point can be started.\<close>
locale wifi_hardware =
  fixes W :: "'x wifi_platform" and clock :: "'x \<Rightarrow> nat" and dead :: "'x \<Rightarrow> bool"
  assumes clock_pos: "0 < clock x"
    and millis: "wp_millis W x = (t, x') \<Longrightarrow> t = of_nat (clock x') \<and> clock x \<le> clock x' \<and> (dead x \<longrightarrow> dead x')"
    and connected: "wp_connected W x = (c, x') \<Longrightarrow> clock x \<le> clock x' \<and> (dead x \<longrightarrow> dead x' \<and> \<not> c)"
    and softAP: "wp_softAP W s p x = (okay, x') \<Longrightarrow> clock x \<le> clock x' \<and> (dead x \<longrightarrow> dead x' \<and> okay)"
    and acts: "clock x \<le> clock (wp_mode W mode x) \<and> (dead x \<longrightarrow> dead (wp_mode W mode x))"
      "clock x \<le> clock (wp_disconnect W x) \<and> (dead x \<longrightarrow> dead (wp_disconnect W x))"
      "clock x \<le> clock (wp_begin W s p x) \<and> (dead x \<longrightarrow> dead (wp_begin W s p x))"
      "clock x \<le> clock (wp_mdnsEnd W x) \<and> (dead x \<longrightarrow> dead (wp_mdnsEnd W x))"
      "clock x \<le> clock (wp_log W l x) \<and> (dead x \<longrightarrow> dead (wp_log W l x))"
      "clock x \<le> clock (wp_mdnsAddService W x) \<and> (dead x \<longrightarrow> dead (wp_mdnsAddService W x))"
      "clock x \<le> clock (wp_softAPdisconnect W x) \<and> (dead x \<longrightarrow> dead (wp_softAPdisconnect W x))"
      "clock x \<le> clock (wp_driverSetup W h x) \<and> (dead x \<longrightarrow> dead (wp_driverSetup W h x))"
    and reads: "clock x \<le> clock (snd (wp_localIP W x)) \<and> (dead x \<longrightarrow> dead (snd (wp_localIP W x)))"
      "clock x \<le> clock (snd (wp_RSSI W x)) \<and> (dead x \<longrightarrow> dead (snd (wp_RSSI W x)))"
      "clock x \<le> clock (snd (wp_mdnsBegin W h x)) \<and> (dead x \<longrightarrow> dead (snd (wp_mdnsBegin W h x)))"
      "clock x \<le> clock (snd (wp_createMutex W x)) \<and> (dead x \<longrightarrow> dead (snd (wp_createMutex W x)))"
      "clock x \<le> clock (snd (wp_createTask W x)) \<and> (dead x \<longrightarrow> dead (snd (wp_createTask W x)))"
begin

definition later :: "'x \<Rightarrow> 'x \<Rightarrow> bool" where "later x x' \<longleftrightarrow> clock x \<le> clock x' \<and> (dead x \<longrightarrow> dead x')"

lemma later_refl [simp]: "later x x" by (simp add: later_def)

lemma later_trans: "later x y \<Longrightarrow> later y z \<Longrightarrow> later x z" by (auto simp: later_def)

lemma later_acts:
  assumes "later x0 x"
  shows "later x0 (wp_mode W mode x)" "later x0 (wp_disconnect W x)" "later x0 (wp_begin W s p x)" "later x0 (wp_mdnsEnd W x)"
    "later x0 (wp_log W l x)" "later x0 (wp_mdnsAddService W x)" "later x0 (wp_softAPdisconnect W x)" "later x0 (wp_driverSetup W h x)"
  using assms acts[of x] by (auto simp: later_def intro: le_trans)

lemma later_reads:
  assumes "later x0 x"
  shows "wp_localIP W x = (ip, x') \<Longrightarrow> later x0 x'" "wp_RSSI W x = (r, x') \<Longrightarrow> later x0 x'" "wp_mdnsBegin W h x = (c, x') \<Longrightarrow> later x0 x'"
    "wp_createMutex W x = (c, x') \<Longrightarrow> later x0 x'" "wp_createTask W x = (c, x') \<Longrightarrow> later x0 x'"
  using assms reads[of x] reads(3)[of x h] by (auto simp: later_def intro: le_trans)

text \<open>What a step keeps of the manager: the lock, the policy, a running access point, and the time the station went down.\<close>
definition keeps :: "WifiManager \<Rightarrow> WifiManager \<times> 'x \<Rightarrow> bool" where
  "keeps m = (\<lambda>(m', x'). (wm_mutex m \<longrightarrow> wm_mutex m') \<and> wm_fallbackAfterMs m' = wm_fallbackAfterMs m \<and> wm_wasConnected m' = wm_wasConnected m \<and>
     (wm_apActive m \<longrightarrow> wm_apActive m') \<and>
     (if wm_disconnectedSinceMs m \<noteq> 0 then wm_disconnectedSinceMs m' = wm_disconnectedSinceMs m
      else unat (wm_disconnectedSinceMs m') \<le> clock x'))"

lemma keeps_trans: "keeps a (b, y) \<Longrightarrow> keeps b (c, z) \<Longrightarrow> clock y \<le> clock z \<Longrightarrow> keeps a (c, z)"
  by (auto simp: keeps_def split: if_splits)

lemma startFallbackAp_keeps:
  assumes "startFallbackAp W (m, x) = (m', x')" "later x0 x"
  shows "keeps m (m', x') \<and> later x0 x' \<and> clock x \<le> clock x' \<and> wm_disconnectedSinceMs m' = wm_disconnectedSinceMs m \<and>
    (wm_mutex m \<and> dead x0 \<longrightarrow> wm_apActive m')"
proof (cases "wm_mutex m \<and> \<not> wm_apActive m")
  case False
  then show ?thesis using assms by (auto simp: startFallbackAp_def keeps_def)
next
  case True
  obtain okay x1 where ap: "wp_softAP W (wm_fallbackApSsid m) kFallbackApPassword (wp_mode W WIFI_AP_STA x) = (okay, x1)" by fastforce
  have "later x0 (wp_mode W WIFI_AP_STA x)" "clock x \<le> clock (wp_mode W WIFI_AP_STA x)"
    using later_acts(1)[OF assms(2)] acts(1) by simp_all
  then have x1: "dead x0 \<longrightarrow> okay" "later x0 x1" "clock x \<le> clock x1" using softAP[OF ap] by (auto simp: later_def)
  define l where "l = (if okay then LogApActive (wm_fallbackApSsid m) else LogApFailed)"
  have "later x0 (wp_log W l x1)" "clock x \<le> clock (wp_log W l x1)"
    by (rule later_acts(5)[OF x1(2)], rule le_trans[OF x1(3) conjunct1[OF acts(5)]])
  moreover have "m' = m\<lparr>wm_apActive := okay\<rparr>" "x' = wp_log W l x1"
    using assms(1) True ap by (auto simp: startFallbackAp_def l_def split: bool.splits)
  ultimately show ?thesis using True \<open>dead x0 \<longrightarrow> okay\<close> by (auto simp: keeps_def)
qed

lemma unat_of_nat_le: "unat (of_nat n :: u32) \<le> n" by (simp add: unat_of_nat)

lemma beginSta_keeps:
  assumes "beginSta W ssid password (m, x) = (m', x')" "later x0 x"
  shows "keeps m (m', x') \<and> later x0 x' \<and> clock x \<le> clock x'"
proof -
  obtain t x1 where ms: "wp_millis W x = (t, x1)" by fastforce
  have x1: "later x0 x1" "later x x1" using millis[OF ms] assms(2) by (auto simp: later_def)
  show ?thesis
  proof (cases "hd ssid = 0")
    case True
    then have s: "startFallbackAp W (setReconnecting False (m\<lparr>wm_lastReconnectMs := t\<rparr>), wp_disconnect W x1) = (m', x')"
      using assms(1) ms by (simp add: beginSta_def)
    from startFallbackAp_keeps[OF s later_acts(2)[OF x1(1)]] startFallbackAp_keeps[OF s later_acts(2)[OF x1(2)]]
    show ?thesis by (auto simp: keeps_def setReconnecting_def later_def split: if_splits)
  next
    case False
    define x2 where "x2 = wp_begin W ssid password (wp_disconnect W (wp_mode W (if wm_mutex m \<and> wm_apActive m then WIFI_AP_STA else WIFI_STA) x1))"
    obtain t2 x3 where ms2: "wp_millis W x2 = (t2, x3)" by fastforce
    have x2: "later x0 x2" "later x x2" using x1 by (simp_all add: x2_def later_acts)
    have x3: "later x0 x3" "later x x3" "t2 = of_nat (clock x3)" using millis[OF ms2] x2 by (auto simp: later_def)
    have since: "unat t2 \<le> clock (wp_log W l x3)" for l
      using le_trans[OF unat_of_nat_le conjunct1[OF acts(5)]] x3(3) by simp
    have "(m', x') = (let m1 = setReconnecting True (m\<lparr>wm_lastReconnectMs := t\<rparr>) in
        if wm_disconnectedSinceMs m = 0 then (m1\<lparr>wm_disconnectedSinceMs := t2\<rparr>, wp_log W (LogStaAttempt ssid) x3)
        else (m1, wp_log W (LogStaAttempt ssid) x2))"
      using assms(1) ms False ms2
      by (cases "wm_disconnectedSinceMs m = 0") (simp_all add: beginSta_def Let_def x2_def sinceIfUnset_def split del: if_split)
    then show ?thesis
      using since later_acts(5)[OF x3(1)] later_acts(5)[OF x3(2)] later_acts(5)[OF x2(1)] later_acts(5)[OF x2(2)]
      by (simp add: Let_def keeps_def later_def split: if_splits)
  qed
qed

lemma whileDisconnected_later:
  assumes "whileDisconnected W ssid password interval after now (m, x) = (m', x')"
  shows "clock x \<le> clock x' \<and> (wm_mutex m \<longrightarrow> wm_mutex m')"
proof -
  let ?m = "sinceIfUnset now m"
  obtain m1 x1 where b: "(if hd ssid \<noteq> 0 \<and> interval \<le> now - wm_lastReconnectMs ?m then beginSta W ssid password (?m, x) else (?m, x)) = (m1, x1)"
    by fastforce
  have "clock x \<le> clock x1 \<and> (wm_mutex m \<longrightarrow> wm_mutex m1)"
    using beginSta_keeps[of ssid password ?m x m1 x1 x] b by (auto simp: keeps_def sinceIfUnset_def split: if_splits)
  moreover obtain m2 x2 where s: "startFallbackAp W (m1, x1) = (m2, x2)" by fastforce
  moreover have "(m', x') = (m2, x2) \<or> (m', x') = (m1, x1)" using assms b s by (auto simp: whileDisconnected_def Let_def split: if_splits)
  ultimately show ?thesis using startFallbackAp_keeps[OF s later_refl] by (auto simp: keeps_def)
qed

lemma whileDisconnected_keeps:
  assumes "whileDisconnected W ssid password interval after now (m, x) = (m', x')" "later x0 x" "now \<noteq> 0"
  shows "keeps (sinceIfUnset now m) (m', x') \<and> later x0 x' \<and> clock x \<le> clock x' \<and> wm_disconnectedSinceMs m' = wm_disconnectedSinceMs (sinceIfUnset now m) \<and>
    (wm_mutex m \<and> dead x0 \<and> after \<le> now - wm_disconnectedSinceMs m' \<longrightarrow> wm_apActive m')"
proof -
  let ?m = "sinceIfUnset now m"
  obtain m1 x1 where b: "(if hd ssid \<noteq> 0 \<and> interval \<le> now - wm_lastReconnectMs ?m then beginSta W ssid password (?m, x) else (?m, x)) = (m1, x1)"
    by fastforce
  have set: "wm_disconnectedSinceMs ?m \<noteq> 0" "wm_mutex ?m = wm_mutex m" using assms(3) by (simp_all add: sinceIfUnset_def)
  have k1: "keeps ?m (m1, x1)" "later x0 x1" "clock x \<le> clock x1"
    using beginSta_keeps[of ssid password ?m x m1 x1 x0] b set assms(2) by (auto simp: keeps_def split: if_splits)
  have same: "wm_disconnectedSinceMs m1 = wm_disconnectedSinceMs ?m" "wm_mutex m \<longrightarrow> wm_mutex m1" using k1 set by (auto simp: keeps_def)
  obtain m2 x2 where s: "startFallbackAp W (m1, x1) = (m2, x2)" by fastforce
  note ap = startFallbackAp_keeps[OF s k1(2)]
  have eq: "(m', x') = (if hd ssid = 0 \<or> after \<le> now - wm_disconnectedSinceMs m1 then (m2, x2) else (m1, x1))"
    using assms(1) b s by (auto simp: whileDisconnected_def Let_def split: if_splits)
  show ?thesis
  proof (cases "hd ssid = 0 \<or> after \<le> now - wm_disconnectedSinceMs m1")
    case True
    then have "m' = m2" "x' = x2" using eq by simp_all
    then show ?thesis using ap k1 same keeps_trans[of ?m m1 x1 m2 x2] by auto
  next
    case False
    then have "m' = m1" "x' = x1" using eq by simp_all
    then show ?thesis using False k1 same by auto
  qed
qed

text \<open>The invariant of the manager: a station that is down has the time it went down.\<close>
definition wifi_inv :: "WifiManager \<times> 'x \<Rightarrow> bool" where
  "wifi_inv = (\<lambda>(m, x). wm_mutex m \<and> unat (wm_disconnectedSinceMs m) \<le> clock x \<and>
     (clock x < 2 ^ 32 \<longrightarrow> wm_wasConnected m \<or> wm_disconnectedSinceMs m \<noteq> 0))"

lemma clock_word: "clock x < 2 ^ 32 \<Longrightarrow> unat (of_nat (clock x) :: u32) = clock x \<and> (of_nat (clock x) :: u32) \<noteq> 0"
proof -
  assume "clock x < 2 ^ 32"
  then have "unat (of_nat (clock x) :: u32) = clock x" by (intro unat_of_nat_less) simp
  then show ?thesis using clock_pos[of x] by auto
qed

lemma noteTransition_keeps:
  assumes "noteTransition W ssid now c (m, x) = (m', x')" "later x0 x"
  shows "later x0 x' \<and> clock x \<le> clock x' \<and> wm_mutex m' = wm_mutex m \<and> wm_fallbackAfterMs m' = wm_fallbackAfterMs m \<and> wm_apActive m' = wm_apActive m \<and>
    wm_disconnectedSinceMs m' = (if \<not> c \<and> wm_wasConnected m then now else wm_disconnectedSinceMs m)"
proof -
  obtain ip x1 where 1: "wp_localIP W x = (ip, x1)" by fastforce
  obtain r x2 where 2: "wp_RSSI W x1 = (r, x2)" by fastforce
  obtain u x3 where 3: "wp_mdnsBegin W kMdnsHost (wp_log W (LogStaConnected ssid ip r) x2) = (u, x3)" by fastforce
  have up: "later y x3" if "later y x" for y
    using later_reads(3)[OF later_acts(5)[OF later_reads(2)[OF later_reads(1)[OF that 1] 2]] 3] .
  have fin: "later y x'" if "later y x" for y
    using assms(1) 1 2 3 that up[OF that] by (auto simp: noteTransition_def later_acts split: if_splits)
  from fin[OF assms(2)] fin[OF later_refl] show ?thesis
    using assms(1) 1 2 3 by (auto simp: noteTransition_def later_def split: if_splits)
qed

lemma round_parts:
  assumes "wifi_round W (m, x) = (m', x')" "wm_mutex m"
  obtains t x1 c x2 m1 x3 m3 x4 where
    "later x x1" "t = clock x1" "wp_connected W x1 = (c, x2)" "later x1 x2"
    "noteTransition W (wm_ssid m) (of_nat t) c (m\<lparr>wm_reconnectRequested := False\<rparr>, x2) = (m1, x3)"
    "(if wm_reconnectRequested m then beginSta W (wm_ssid m) (wm_password m) (m1\<lparr>wm_wasConnected := c\<rparr>, x3) else (m1\<lparr>wm_wasConnected := c\<rparr>, x3)) = (m3, x4)"
    "(m', x') = (if \<not> c then whileDisconnected W (wm_ssid m) (wm_password m) (wm_reconnectIntervalMs m) (wm_fallbackAfterMs m) (of_nat t) (m3, x4)
      else whileConnected W (wm_apGraceMs m) (of_nat t) (m3, x4))"
proof -
  obtain now x1 where ms: "wp_millis W x = (now, x1)" by fastforce
  obtain c x2 where co: "wp_connected W x1 = (c, x2)" by fastforce
  obtain m1 x3 where tr: "noteTransition W (wm_ssid m) now c (m\<lparr>wm_reconnectRequested := False\<rparr>, x2) = (m1, x3)" by fastforce
  obtain m3 x4 where b: "(if wm_reconnectRequested m then beginSta W (wm_ssid m) (wm_password m) (m1\<lparr>wm_wasConnected := c\<rparr>, x3) else (m1\<lparr>wm_wasConnected := c\<rparr>, x3)) = (m3, x4)"
    by fastforce
  have "(m', x') = (if \<not> c then whileDisconnected W (wm_ssid m) (wm_password m) (wm_reconnectIntervalMs m) (wm_fallbackAfterMs m) now (m3, x4)
      else whileConnected W (wm_apGraceMs m) now (m3, x4))"
    using assms ms co tr b by (cases c) (simp_all add: wifi_round_def Let_def cong: if_cong)
  then show ?thesis using that[of x1 "clock x1" c x2 m1 x3 m3 x4] millis[OF ms] connected[OF co] co tr b by (auto simp: later_def)
qed

lemma whileConnected_was:
  "whileConnected W g now (m, x) = (m', x') \<Longrightarrow> wm_wasConnected m' = wm_wasConnected m \<and> wm_mutex m' = wm_mutex m \<and>
     wm_disconnectedSinceMs m' = 0 \<and> later x x'"
  by (auto simp: whileConnected_def stopFallbackAp_def Let_def later_acts split: if_splits)

lemma round_clock:
  assumes "wifi_round W (m, x) = (m', x')" "wm_mutex m"
  shows "clock x \<le> clock x' \<and> wm_mutex m'"
proof -
  obtain t x1 c x2 m1 x3 m3 x4 where p: "later x x1" "t = clock x1" "wp_connected W x1 = (c, x2)" "later x1 x2"
    "noteTransition W (wm_ssid m) (of_nat t) c (m\<lparr>wm_reconnectRequested := False\<rparr>, x2) = (m1, x3)"
    "(if wm_reconnectRequested m then beginSta W (wm_ssid m) (wm_password m) (m1\<lparr>wm_wasConnected := c\<rparr>, x3) else (m1\<lparr>wm_wasConnected := c\<rparr>, x3)) = (m3, x4)"
    "(m', x') = (if \<not> c then whileDisconnected W (wm_ssid m) (wm_password m) (wm_reconnectIntervalMs m) (wm_fallbackAfterMs m) (of_nat t) (m3, x4)
      else whileConnected W (wm_apGraceMs m) (of_nat t) (m3, x4))"
    by (rule round_parts[OF assms])
  note tr = noteTransition_keeps[OF p(5) later_trans[OF p(1,4)]]
  have b: "clock x \<le> clock x4" "wm_mutex m3"
    using beginSta_keeps[of "wm_ssid m" "wm_password m" "m1\<lparr>wm_wasConnected := c\<rparr>" x3 m3 x4 x] p(6) tr assms(2)
    by (auto simp: keeps_def later_def split: if_splits)
  show ?thesis
  proof (cases c)
    case True
    with p(7) have "whileConnected W (wm_apGraceMs m) (of_nat t) (m3, x4) = (m', x')" by simp
    from whileConnected_was[OF this] b show ?thesis by (auto simp: later_def)
  next
    case False
    with p(7) have "whileDisconnected W (wm_ssid m) (wm_password m) (wm_reconnectIntervalMs m) (wm_fallbackAfterMs m) (of_nat t) (m3, x4) = (m', x')"
      by simp
    from whileDisconnected_later[OF this] b show ?thesis by simp
  qed
qed

lemma round_wasConnected:
  assumes "wifi_round W (m, x) = (m', x')" "wm_mutex m" "clock x' < 2 ^ 32"
  shows "wm_mutex m' \<and> later x x' \<and>
    (if wm_wasConnected m' then wm_disconnectedSinceMs m' = 0
     else \<exists>t. clock x \<le> t \<and> t \<le> clock x' \<and> wm_fallbackAfterMs m' = wm_fallbackAfterMs m \<and> (wm_apActive m \<longrightarrow> wm_apActive m') \<and>
      (wm_wasConnected m \<longrightarrow> wm_disconnectedSinceMs m' = of_nat t) \<and>
      (\<not> wm_wasConnected m \<and> wm_disconnectedSinceMs m \<noteq> 0 \<longrightarrow> wm_disconnectedSinceMs m' = wm_disconnectedSinceMs m) \<and>
      wm_disconnectedSinceMs m' \<noteq> 0 \<and> unat (wm_disconnectedSinceMs m') \<le> max (unat (wm_disconnectedSinceMs m)) (clock x') \<and>
      (dead x \<and> wm_fallbackAfterMs m \<le> of_nat t - wm_disconnectedSinceMs m' \<longrightarrow> wm_apActive m')) \<and> (dead x \<longrightarrow> \<not> wm_wasConnected m')"
proof -
  obtain t x1 c x2 m1 x3 m3 x4 where p: "later x x1" "t = clock x1" "wp_connected W x1 = (c, x2)" "later x1 x2"
    "noteTransition W (wm_ssid m) (of_nat t) c (m\<lparr>wm_reconnectRequested := False\<rparr>, x2) = (m1, x3)"
    "(if wm_reconnectRequested m then beginSta W (wm_ssid m) (wm_password m) (m1\<lparr>wm_wasConnected := c\<rparr>, x3) else (m1\<lparr>wm_wasConnected := c\<rparr>, x3)) = (m3, x4)"
    "(m', x') = (if \<not> c then whileDisconnected W (wm_ssid m) (wm_password m) (wm_reconnectIntervalMs m) (wm_fallbackAfterMs m) (of_nat t) (m3, x4)
      else whileConnected W (wm_apGraceMs m) (of_nat t) (m3, x4))"
    by (rule round_parts[OF assms(1,2)])
  define m2 where "m2 = m1\<lparr>wm_wasConnected := c\<rparr>"
  have x2: "later x x2" using p(1,4) by (rule later_trans)
  note tr = noteTransition_keeps[OF p(5) x2]
  have x3: "later x1 x3" using noteTransition_keeps[OF p(5) p(4)] by simp
  have b: "keeps m2 (m3, x4)" "later x x4" "clock x3 \<le> clock x4"
    using beginSta_keeps[of "wm_ssid m" "wm_password m" m2 x3 m3 x4 x] p(6) tr
    by (auto simp: m2_def keeps_def split: if_splits)
  have m3: "wm_mutex m3" "wm_wasConnected m3 = c" "wm_fallbackAfterMs m3 = wm_fallbackAfterMs m" "wm_apActive m \<longrightarrow> wm_apActive m3"
    using b(1) tr assms(2) by (auto simp: keeps_def m2_def)
  have deadc: "dead x \<longrightarrow> \<not> c" using connected[OF p(3)] p(1) by (auto simp: later_def)
  show ?thesis
  proof (cases c)
    case True
    with p(7) have "whileConnected W (wm_apGraceMs m) (of_nat t) (m3, x4) = (m', x')" by simp
    from whileConnected_was[OF this] show ?thesis using True m3 deadc later_trans[OF b(2)] by simp
  next
    case False
    with p(7) have w: "whileDisconnected W (wm_ssid m) (wm_password m) (wm_reconnectIntervalMs m) (wm_fallbackAfterMs m) (of_nat t) (m3, x4) = (m', x')"
      by simp
    have tx: "clock x \<le> t" "t \<le> clock x4" using p(1,2) x3 b(3) by (auto simp: later_def)
    have tx': "t \<le> clock x'" using whileDisconnected_later[OF w] tx(2) by simp
    have now: "(of_nat t :: u32) \<noteq> 0" "unat (of_nat t :: u32) = t" using clock_word[of x1] p(2) tx' assms(3) by auto
    note d = whileDisconnected_keeps[OF w b(2) now(1)]
    have since: "wm_disconnectedSinceMs m2 = (if wm_wasConnected m then of_nat t else wm_disconnectedSinceMs m)"
      using tr False by (simp add: m2_def)
    have "unat (wm_disconnectedSinceMs m3) \<le> max (unat (wm_disconnectedSinceMs m2)) (clock x4)"
        "wm_disconnectedSinceMs m2 \<noteq> 0 \<longrightarrow> wm_disconnectedSinceMs m3 = wm_disconnectedSinceMs m2"
      using b(1) by (auto simp: keeps_def split: if_splits)
    moreover have "wm_disconnectedSinceMs m' = (if wm_disconnectedSinceMs m3 = 0 then of_nat t else wm_disconnectedSinceMs m3)"
      using d by (simp add: sinceIfUnset_def)
    ultimately have s: "wm_disconnectedSinceMs m' \<noteq> 0" "unat (wm_disconnectedSinceMs m') \<le> max (unat (wm_disconnectedSinceMs m)) (clock x')"
        "wm_wasConnected m \<longrightarrow> wm_disconnectedSinceMs m' = of_nat t"
        "\<not> wm_wasConnected m \<and> wm_disconnectedSinceMs m \<noteq> 0 \<longrightarrow> wm_disconnectedSinceMs m' = wm_disconnectedSinceMs m"
      using since now tx' d by (auto split: if_splits)
    have k: "wm_mutex m'" "\<not> wm_wasConnected m'" "wm_fallbackAfterMs m' = wm_fallbackAfterMs m" "wm_apActive m \<longrightarrow> wm_apActive m'"
      using d m3 False by (auto simp: keeps_def sinceIfUnset_def split: if_splits)
    have ap: "dead x \<and> wm_fallbackAfterMs m \<le> of_nat t - wm_disconnectedSinceMs m' \<longrightarrow> wm_apActive m'" using d m3(1) by blast
    show ?thesis using k s ap tx(1) tx' d by auto
  qed
qed

lemma round_inv:
  assumes "wifi_round W (m, x) = (m', x')" "wifi_inv (m, x)" "clock x' < 2 ^ 32"
  shows "wifi_inv (m', x')"
proof -
  have mx: "wm_mutex m" "unat (wm_disconnectedSinceMs m) \<le> clock x" using assms(2) by (auto simp: wifi_inv_def)
  from round_wasConnected[OF assms(1) mx(1) assms(3)] mx(2) show ?thesis
    by (auto simp: wifi_inv_def later_def split: if_splits)
qed

text \<open>Any number of steps with a dead station.\<close>
lemma step_clock:
  assumes "wifi_step W s s'" "wm_mutex (fst s)"
  shows "clock (snd s) \<le> clock (snd s') \<and> wm_mutex (fst s')"
  using assms
proof cases
  case wifi_step_round
  then show ?thesis using round_clock[of "fst s" "snd s" "fst s'" "snd s'"] assms(2) by simp
qed (use assms(2) in \<open>auto simp: wifi_applyConfig_def requestReconnect_def\<close>)

lemma steps_clock: "(wifi_step W)\<^sup>*\<^sup>* s s' \<Longrightarrow> wm_mutex (fst s) \<Longrightarrow> clock (snd s) \<le> clock (snd s') \<and> wm_mutex (fst s')"
  by (induction rule: rtranclp_induct) (auto dest: step_clock)

definition down :: "u32 \<Rightarrow> WifiManager \<times> 'x \<Rightarrow> bool" where
  "down since = (\<lambda>(m, x). wm_mutex m \<and> dead x \<and> \<not> wm_wasConnected m \<and> wm_disconnectedSinceMs m = since)"

lemma step_down:
  assumes "wifi_step W s s'" "down since s" "since \<noteq> 0" "clock (snd s') < 2 ^ 32"
  shows "down since s' \<and> (wm_apActive (fst s) \<longrightarrow> wm_apActive (fst s'))"
  using assms
proof cases
  case wifi_step_round
  obtain m x m' x' where e: "s = (m, x)" "s' = (m', x')" by fastforce
  have r: "wifi_round W (m, x) = (m', x')" using wifi_step_round e by simp
  have "wm_mutex m" "clock x' < 2 ^ 32" using assms(2,4) by (simp_all add: e down_def)
  from round_wasConnected[OF r this] show ?thesis using assms(2,3) by (auto simp: e down_def later_def)
qed (use assms(2) in \<open>auto simp: wifi_applyConfig_def requestReconnect_def down_def\<close>)

lemma steps_down:
  assumes "(wifi_step W)\<^sup>*\<^sup>* s s'" "down since s" "since \<noteq> 0" "clock (snd s') < 2 ^ 32"
  shows "down since s' \<and> (wm_apActive (fst s) \<longrightarrow> wm_apActive (fst s'))"
  using assms
proof (induction rule: rtranclp_induct)
  case (step u v)
  have "wm_mutex (fst u)" using steps_clock[OF step.hyps(1)] step.prems(1) by (auto simp: down_def)
  then have "clock (snd u) < 2 ^ 32" using step_clock[OF step.hyps(2)] step.prems(3) by simp
  then have "down since u \<and> (wm_apActive (fst s) \<longrightarrow> wm_apActive (fst u))" using step.IH step.prems(1,2) by simp
  with step_down[OF step.hyps(2) _ step.prems(2,3)] show ?case by auto
qed simp

text \<open>The access point comes up once the station has been down for the configured time.\<close>
lemma fallback_comes_up:
  assumes "wifi_inv (m, x)" "dead x" "wifi_round W (m, x) = (m1, x1)" "(wifi_step W)\<^sup>*\<^sup>* (m1, x1) (m2, x2)"
    and "clock x1 + unat (wm_fallbackAfterMs m2) \<le> clock x2" "wifi_round W (m2, x2) = (m3, x3)" "clock x3 < 2 ^ 32"
  shows "wm_apActive m3 \<and> down (wm_disconnectedSinceMs m1) (m3, x3) \<and> wm_disconnectedSinceMs m1 \<noteq> 0"
proof -
  have mx: "wm_mutex m" "unat (wm_disconnectedSinceMs m) \<le> clock x" using assms(1) by (auto simp: wifi_inv_def)
  have m1: "wm_mutex m1" "clock x \<le> clock x1" using round_clock[OF assms(3) mx(1)] by simp_all
  have x12: "clock x1 \<le> clock x2" using assms(5) by simp
  have "wm_mutex m2" using steps_clock[OF assms(4)] m1(1) by simp
  then have x23: "clock x2 \<le> clock x3" using round_clock[OF assms(6)] by simp
  have b: "clock x1 < 2 ^ 32" "clock x2 < 2 ^ 32" using x12 x23 assms(7) by simp_all
  have one: "dead x1" "\<not> wm_wasConnected m1" "wm_disconnectedSinceMs m1 \<noteq> 0" "unat (wm_disconnectedSinceMs m1) \<le> clock x1"
    using round_wasConnected[OF assms(3) mx(1) b(1)] assms(2) mx(2) m1(2) b(1) assms(1)
    by (auto simp: later_def split: if_splits)
  have "down (wm_disconnectedSinceMs m1) (m1, x1)" using one m1 by (simp add: down_def)
  with steps_down[OF assms(4) _ one(3)] b(2) have two: "down (wm_disconnectedSinceMs m1) (m2, x2)" by simp
  then have m2: "wm_mutex m2" "dead x2" "\<not> wm_wasConnected m2" "wm_disconnectedSinceMs m2 = wm_disconnectedSinceMs m1" by (simp_all add: down_def)
  have three: "down (wm_disconnectedSinceMs m1) (m3, x3)"
    using step_down[OF wifi_step_round two one(3)] assms(6,7) by simp
  then have m3: "\<not> wm_wasConnected m3" "wm_disconnectedSinceMs m3 = wm_disconnectedSinceMs m1" by (simp_all add: down_def)
  from conjunct1[OF conjunct2[OF conjunct2[OF round_wasConnected[OF assms(6) m2(1) assms(7)]]], unfolded if_not_P[OF m3(1)] m3(2)]
  obtain t where t: "clock x2 \<le> t" "t \<le> clock x3" "wm_fallbackAfterMs m2 \<le> of_nat t - wm_disconnectedSinceMs m1 \<longrightarrow> wm_apActive m3"
    using m2(2) by (elim exE conjE) (rule that; simp)
  have "unat (of_nat t :: u32) = t" using t(2) assms(7) by (intro unat_of_nat_less) simp
  moreover have "unat (wm_disconnectedSinceMs m1) \<le> t" using one(4) x12 t(1) by simp
  ultimately have "unat (of_nat t - wm_disconnectedSinceMs m1) = t - unat (wm_disconnectedSinceMs m1)"
    by (simp add: unat_sub word_le_nat_alt)
  then have "wm_fallbackAfterMs m2 \<le> of_nat t - wm_disconnectedSinceMs m1"
    using assms(5) one(4) t(1) by (simp add: word_le_nat_alt)
  then show ?thesis using t(3) three one(3) by simp
qed

lemma begin_inv:
  assumes "wifi_begin W config mac (WifiManager_init, x) = (True, m, x')"
  shows "wifi_inv (m, x')"
proof -
  obtain c x1 where c: "wp_createMutex W x = (c, x1)" by fastforce
  define m0 where "m0 = wifi_applyConfig config (WifiManager_init\<lparr>wm_mutex := True, wm_fallbackApSsid := fallbackSsid mac\<rparr>)"
  obtain now x2 where ms: "wp_millis W (wp_driverSetup W kMdnsHost x1) = (now, x2)" by fastforce
  define m1 where "m1 = m0\<lparr>wm_disconnectedSinceMs := now\<rparr>"
  obtain m2 x3 where b: "(if hd (wm_ssid m1) = 0 then startFallbackAp W (m1, x2) else beginSta W (wm_ssid m1) (wm_password m1) (m1, x2)) = (m2, x3)"
    by fastforce
  obtain okay x4 where t: "wp_createTask W x3 = (okay, x4)" by fastforce
  have eq: "m = m2" "x' = x4" using assms c ms b t
    by (auto simp: wifi_begin_def Let_def m1_def m0_def cong: if_cong split: if_splits)
  have m1: "wm_mutex m1" "wm_disconnectedSinceMs m1 = now" by (simp_all add: m1_def m0_def wifi_applyConfig_def)
  have k: "keeps m1 (m2, x3)" "clock x2 \<le> clock x3"
    using b startFallbackAp_keeps[OF _ later_refl] beginSta_keeps[OF _ later_refl] by (auto split: if_splits)
  have x4: "clock x3 \<le> clock x4" using later_reads(5)[OF later_refl t] by (simp add: later_def)
  have now: "now = of_nat (clock x2)" using millis[OF ms] by simp
  have "unat now \<le> clock x2" using unat_of_nat_le now by simp
  moreover have "clock x4 < 2 ^ 32 \<longrightarrow> now \<noteq> 0" using clock_word[of x2] k(2) x4 now by auto
  ultimately show ?thesis using k m1 x4 by (auto simp: wifi_inv_def eq keeps_def split: if_splits)
qed

lemma runs_inv: "wifi_runs W s \<Longrightarrow> wm_mutex (fst s) \<and> (clock (snd s) < 2 ^ 32 \<longrightarrow> wifi_inv s)"
proof (induction rule: wifi_runs.induct)
  case (runs_begin config mac x s)
  then show ?case using begin_inv[of config mac x "fst s" "snd s"] by (auto simp: wifi_inv_def)
next
  case (runs_step s s')
  have c: "clock (snd s) \<le> clock (snd s')" "wm_mutex (fst s')" using step_clock[OF runs_step.hyps(2)] runs_step.IH by simp_all
  from runs_step.hyps(2) have "wifi_inv s' \<or> 2 ^ 32 \<le> clock (snd s')"
  proof cases
    case wifi_step_round
    then show ?thesis using round_inv[of "fst s" "snd s" "fst s'" "snd s'"] runs_step.IH c by (auto simp: not_le)
  qed (use runs_step.IH in \<open>auto simp: wifi_applyConfig_def requestReconnect_def wifi_inv_def not_le\<close>)
  then show ?case using c(2) by auto
qed

end


section \<open>The access point of the driver\<close>

text \<open>The driver with its access point: \<open>softAP\<close> starts it when it succeeds, the mode with both interfaces keeps it, the
  station-only mode and \<open>softAPdisconnect\<close> stop it, and the other operations leave it as it is.\<close>
locale wifi_access_point = wifi_hardware W clock dead
  for W :: "'x wifi_platform" and clock dead +
  fixes ap :: "'x \<Rightarrow> bool"
  assumes ap_start: "wp_softAP W s p x = (True, x') \<Longrightarrow> ap x'"
    and ap_both: "ap x \<Longrightarrow> ap (wp_mode W WIFI_AP_STA x)"
    and ap_station: "\<not> ap (wp_mode W WIFI_STA x)" "\<not> ap (wp_softAPdisconnect W x)"
    and ap_acts: "ap (wp_disconnect W x) = ap x" "ap (wp_begin W s p x) = ap x" "ap (wp_mdnsEnd W x) = ap x" "ap (wp_log W l x) = ap x"
      "ap (wp_mdnsAddService W x) = ap x"
    and ap_reads: "wp_millis W x = (t, x') \<Longrightarrow> ap x' = ap x" "wp_connected W x = (c, x') \<Longrightarrow> ap x' = ap x"
      "wp_localIP W x = (ip, x') \<Longrightarrow> ap x' = ap x" "wp_RSSI W x = (r, x') \<Longrightarrow> ap x' = ap x" "wp_mdnsBegin W h x = (b, x') \<Longrightarrow> ap x' = ap x"
      "wp_createTask W x = (b, x') \<Longrightarrow> ap x' = ap x"
begin

text \<open>The flag of the manager tells the truth about the driver: while it is set, the access point runs.\<close>
definition ap_shown :: "WifiManager \<times> 'x \<Rightarrow> bool" where
  "ap_shown = (\<lambda>(m, x). wm_mutex m \<and> (wm_apActive m \<longrightarrow> ap x))"

lemma startFallbackAp_shown: "ap_shown s \<Longrightarrow> ap_shown (startFallbackAp W s)"
  by (cases s) (auto simp: ap_shown_def startFallbackAp_def ap_acts dest: ap_start split: prod.split bool.split)

lemma stopFallbackAp_off: "wm_mutex m \<Longrightarrow> wm_apActive m \<Longrightarrow> stopFallbackAp W (m, x) = (m', x') \<Longrightarrow> \<not> wm_apActive m' \<and> \<not> ap x'"
  by (auto simp: stopFallbackAp_def ap_acts ap_station)

lemma beginSta_shown:
  assumes "ap_shown s"
  shows "ap_shown (beginSta W ssid password s)"
proof -
  obtain m x where s: "s = (m, x)" by fastforce
  obtain now x1 where 1: "wp_millis W x = (now, x1)" by fastforce
  define x2 where "x2 = wp_begin W ssid password (wp_disconnect W (wp_mode W (if wm_mutex m \<and> wm_apActive m then WIFI_AP_STA else WIFI_STA) x1))"
  obtain t x3 where 3: "wp_millis W x2 = (t, x3)" by fastforce
  have inv: "wm_mutex m" "wm_apActive m \<longrightarrow> ap x1" using assms ap_reads(1)[OF 1] by (simp_all add: ap_shown_def s)
  then have "wm_apActive m \<longrightarrow> ap x2" "wm_apActive m \<longrightarrow> ap x3" using ap_reads(1)[OF 3] by (auto simp: x2_def ap_acts ap_both)
  moreover have "ap_shown (setReconnecting False (m\<lparr>wm_lastReconnectMs := now\<rparr>), wp_disconnect W x1)" using inv by (simp add: ap_shown_def ap_acts)
  moreover have "beginSta W ssid password s = (let m1 = setReconnecting True (m\<lparr>wm_lastReconnectMs := now\<rparr>) in
      if hd ssid = 0 then startFallbackAp W (setReconnecting False (m\<lparr>wm_lastReconnectMs := now\<rparr>), wp_disconnect W x1)
      else if wm_disconnectedSinceMs m = 0 then (m1\<lparr>wm_disconnectedSinceMs := t\<rparr>, wp_log W (LogStaAttempt ssid) x3)
      else (m1, wp_log W (LogStaAttempt ssid) x2))"
    using 1 3 by (cases "hd ssid = 0"; cases "wm_disconnectedSinceMs m = 0") (simp_all add: s beginSta_def Let_def x2_def sinceIfUnset_def split del: if_split)
  ultimately show ?thesis using inv startFallbackAp_shown by (simp add: Let_def) (simp add: ap_shown_def ap_acts)
qed

lemma noteTransition_shown: "ap_shown s \<Longrightarrow> ap_shown (noteTransition W ssid now c s)"
  by (cases s) (auto simp: ap_shown_def noteTransition_def ap_acts dest!: ap_reads split: prod.split)

lemma whileDisconnected_shown:
  assumes "ap_shown s"
  shows "ap_shown (whileDisconnected W ssid password interval after now s)"
proof -
  obtain m x where s: "s = (m, x)" by fastforce
  have i: "ap_shown (sinceIfUnset now m, x)" using assms by (simp add: s ap_shown_def sinceIfUnset_def)
  obtain m1 x1 where b: "(if hd ssid \<noteq> 0 \<and> interval \<le> now - wm_lastReconnectMs (sinceIfUnset now m)
      then beginSta W ssid password (sinceIfUnset now m, x) else (sinceIfUnset now m, x)) = (m1, x1)" by fastforce
  have "ap_shown (m1, x1)" unfolding b[symmetric] using i beginSta_shown[OF i] by simp
  from this startFallbackAp_shown[OF this] show ?thesis
    unfolding s whileDisconnected_def Let_def prod.case b by simp
qed

lemma whileConnected_shown: "ap_shown s \<Longrightarrow> ap_shown (whileConnected W g now s)"
  by (cases s) (auto simp: ap_shown_def whileConnected_def stopFallbackAp_def Let_def)

lemma round_shown:
  assumes "ap_shown s"
  shows "ap_shown (wifi_round W s)"
proof -
  obtain m x where s: "s = (m, x)" by fastforce
  obtain now x1 where 1: "wp_millis W x = (now, x1)" by fastforce
  obtain c x2 where 2: "wp_connected W x1 = (c, x2)" by fastforce
  obtain m3 x3 where 3: "noteTransition W (wm_ssid m) now c (m\<lparr>wm_reconnectRequested := False\<rparr>, x2) = (m3, x3)" by fastforce
  obtain m4 x4 where 4: "(if wm_reconnectRequested m then beginSta W (wm_ssid m) (wm_password m) (m3\<lparr>wm_wasConnected := c\<rparr>, x3)
      else (m3\<lparr>wm_wasConnected := c\<rparr>, x3)) = (m4, x4)" by fastforce
  have "ap_shown (m\<lparr>wm_reconnectRequested := False\<rparr>, x2)" using assms ap_reads(1)[OF 1] ap_reads(2)[OF 2] by (simp add: s ap_shown_def)
  from noteTransition_shown[OF this, of "wm_ssid m" now c] have i3: "ap_shown (m3\<lparr>wm_wasConnected := c\<rparr>, x3)"
    unfolding 3 by (simp add: ap_shown_def)
  then have i4: "ap_shown (m4, x4)" using beginSta_shown[OF i3] 4 by (metis (full_types))
  have d: "ap_shown (whileDisconnected W ssid pw i a t (m4, x4))" "ap_shown (whileConnected W g t (m4, x4))" for ssid pw i a t g
    using whileDisconnected_shown[OF i4] whileConnected_shown[OF i4] .
  have "wm_mutex m" using assms by (simp add: s ap_shown_def)
  then have "wifi_round W s = (if \<not> c then whileDisconnected W (wm_ssid m) (wm_password m) (wm_reconnectIntervalMs m) (wm_fallbackAfterMs m) now (m4, x4)
     else whileConnected W (wm_apGraceMs m) now (m4, x4))" using 1 2 3 4 by (cases c) (simp_all add: s wifi_round_def Let_def cong: if_cong)
  then show ?thesis using d by simp
qed

lemma steps_shown: "(wifi_step W)\<^sup>*\<^sup>* s s' \<Longrightarrow> ap_shown s \<Longrightarrow> ap_shown s'"
proof (induction rule: rtranclp_induct)
  case (step u v)
  then have "ap_shown u" by simp
  with step.hyps(2) show ?case
    by cases (auto simp: round_shown, auto simp: ap_shown_def wifi_applyConfig_def requestReconnect_def)
qed simp

lemma begin_shown:
  assumes "wifi_begin W config mac (WifiManager_init, x) = (True, s)"
  shows "ap_shown s"
proof -
  obtain c x1 where c: "wp_createMutex W x = (c, x1)" by fastforce
  have c using assms c by (rule_tac ccontr) (simp add: wifi_begin_def Let_def)
  then have 1: "wp_createMutex W x = (True, x1)" using c by simp
  define m where "m = wifi_applyConfig config (WifiManager_init\<lparr>wm_mutex := True, wm_fallbackApSsid := fallbackSsid mac\<rparr>)"
  obtain now x2 where 2: "wp_millis W (wp_driverSetup W kMdnsHost x1) = (now, x2)" by fastforce
  define m1 where "m1 = m\<lparr>wm_disconnectedSinceMs := now\<rparr>"
  obtain m2 x3 where 3: "(if hd (wm_ssid m1) = 0 then startFallbackAp W (m1, x2) else beginSta W (wm_ssid m1) (wm_password m1) (m1, x2)) = (m2, x3)"
    by fastforce
  have m1: "ap_shown (m1, x2)" by (simp add: ap_shown_def m1_def m_def wifi_applyConfig_def WifiManager_init_def)
  then have "ap_shown (m2, x3)" using 3 startFallbackAp_shown[OF m1] beginSta_shown[OF m1] by (metis (full_types))
  moreover obtain x4 where "wp_createTask W x3 = (True, x4)" "s = (m2, x4)"
    using assms 1 2 3 by (auto simp: wifi_begin_def Let_def m_def m1_def cong: if_cong split: prod.splits)
  ultimately show ?thesis using ap_reads(6)[of x3 True x4] by (simp add: ap_shown_def)
qed

lemma runs_shown: "wifi_runs W s \<Longrightarrow> ap_shown s"
  by (induction rule: wifi_runs.induct) (auto intro: begin_shown steps_shown[OF r_into_rtranclp])

end


section \<open>A driver in memory\<close>

record mem_wifi =
  mw_clock :: nat
  mw_up :: bool
  mw_ap :: bool

definition mem_wifi_api :: "mem_wifi wifi_platform" where
  "mem_wifi_api = \<lparr>wp_createMutex = (\<lambda>x. (True, x)), wp_createTask = (\<lambda>x. (True, x)), wp_driverSetup = (\<lambda>_ x. x),
     wp_millis = (\<lambda>x. let x = x\<lparr>mw_clock := mw_clock x + 5\<rparr> in (of_nat (Suc (mw_clock x)), x)),
     wp_connected = (\<lambda>x. (mw_up x, x)), wp_localIP = (\<lambda>x. ([], x)), wp_RSSI = (\<lambda>x. (0, x)),
     wp_mode = (\<lambda>mode x. if mode = WIFI_STA then x\<lparr>mw_ap := False\<rparr> else x),
     wp_getMode = (\<lambda>x. (if mw_ap x then WIFI_AP_STA else WIFI_STA, x)), wp_stationNum = (\<lambda>x. (0, x)),
     wp_softAP = (\<lambda>_ _ x. (True, x\<lparr>mw_ap := True\<rparr>)), wp_softAPdisconnect = (\<lambda>x. x\<lparr>mw_ap := False\<rparr>), wp_disconnect = (\<lambda>x. x),
     wp_begin = (\<lambda>_ _ x. x),
     wp_mdnsBegin = (\<lambda>_ x. (True, x)), wp_mdnsAddService = (\<lambda>x. x), wp_mdnsEnd = (\<lambda>x. x), wp_log = (\<lambda>_ x. x)\<rparr>"

interpretation mem_wifi: wifi_access_point mem_wifi_api "\<lambda>x. Suc (mw_clock x)" "\<lambda>x. \<not> mw_up x" mw_ap
  by unfold_locales (auto simp: mem_wifi_api_def Let_def)

text \<open>C32: A gateway that cannot join its network becomes reachable on its own access point. Take any state of a started
  manager, and suppose that from a round on the station does not connect and the driver can start the access point. Then a
  later round that starts at least the time \<open>wifiFallbackAfterMs\<close> configured by then after the first one leaves the
  driver's access point running (and the manager reports it), and it keeps running in every later state while the station
  is down. Before and after that round the task runs any number of rounds, with its reconnect attempts, and other tasks may
  change the Wi-Fi configuration or request a reconnect at any time between rounds. The millisecond counter is taken not to
  wrap (49 days).\<close>
theorem fallback_ap_comes_up:
  assumes "wifi_access_point W clock dead ap" "wifi_runs W (m, x)" "dead x"
    and "wifi_round W (m, x) = (m1, x1)" "(wifi_step W)\<^sup>*\<^sup>* (m1, x1) (m2, x2)"
    and "clock x1 + unat (wm_fallbackAfterMs m2) \<le> clock x2" "wifi_round W (m2, x2) = (m3, x3)"
    and "(wifi_step W)\<^sup>*\<^sup>* (m3, x3) (m4, x4)" "clock x4 < 2 ^ 32"
  shows "wm_apActive m3 \<and> ap x3 \<and> wm_apActive m4 \<and> ap x4"
proof -
  have hw: "wifi_hardware W clock dead" using assms(1) by (rule wifi_access_point.axioms(1))
  note clock = wifi_hardware.steps_clock[OF hw]
  have one: "(wifi_step W)\<^sup>*\<^sup>* (m, x) (m1, x1)" "(wifi_step W)\<^sup>*\<^sup>* (m2, x2) (m3, x3)"
    using wifi_step_round[of W "(m, x)"] wifi_step_round[of W "(m2, x2)"] assms(4,7) by (auto intro: r_into_rtranclp)
  then have two: "(wifi_step W)\<^sup>*\<^sup>* (m, x) (m2, x2)" using assms(5) by simp
  then have all: "(wifi_step W)\<^sup>*\<^sup>* (m, x) (m3, x3)" using one(2) by simp
  note runs = wifi_hardware.runs_inv[OF hw assms(2), simplified]
  have x: "clock x \<le> clock x3" "clock x3 \<le> clock x4" using clock[OF all] clock[OF assms(8)] runs by simp_all
  then have "wifi_hardware.wifi_inv clock (m, x)" "clock x3 < 2 ^ 32" using runs assms(9) by simp_all
  note up = wifi_hardware.fallback_comes_up[OF hw this(1) assms(3-7) this(2)]
  have "wifi_access_point.ap_shown ap (m3, x3)" "wifi_access_point.ap_shown ap (m4, x4)"
    using wifi_access_point.steps_shown[OF assms(1)] wifi_access_point.runs_shown[OF assms(1,2)] all assms(8) by simp_all
  then have "wm_apActive m3 \<longrightarrow> ap x3" "wm_apActive m4 \<longrightarrow> ap x4" by (simp_all add: wifi_access_point.ap_shown_def[OF assms(1)])
  then show ?thesis using wifi_hardware.steps_down[OF hw assms(8)] up assms(9) by auto
qed

definition example_wifi_config :: GatewayConfig where
  "example_wifi_config = (setDefaults None)\<lparr>gc_wifiSsid := char_array kWifiSsidCapacity (ascii ''net''), gc_wifiFallbackAfterMs := 5\<rparr>"

definition example_wifi :: "bool \<times> WifiManager \<times> mem_wifi" where
  "example_wifi = wifi_begin mem_wifi_api example_wifi_config None (WifiManager_init, \<lparr>mw_clock = 5, mw_up = False, mw_ap = False\<rparr>)"

theorem fallback_ap_comes_up_witness:
  "\<not> mw_ap (snd (snd example_wifi)) \<and> mw_ap (snd (((wifi_round mem_wifi_api) ^^ 3) (snd example_wifi))) \<and>
   mw_ap (snd (wifi_round mem_wifi_api (requestReconnect (fst (((wifi_round mem_wifi_api) ^^ 3) (snd example_wifi))),
     snd (((wifi_round mem_wifi_api) ^^ 3) (snd example_wifi)))))"
proof -
  let ?r = "wifi_round mem_wifi_api"
  define m x where "m = fst (snd example_wifi)" and "x = snd (snd example_wifi)"
  have e: "snd example_wifi = (m, x)" by (simp add: m_def x_def)
  have "fst example_wifi" "\<not> mw_ap x" "\<not> mw_up x" unfolding x_def by code_simp+
  then have start: "wifi_runs mem_wifi_api (m, x)" "\<not> mw_up x" "\<not> mw_ap x"
    using e by (auto intro!: runs_begin simp: example_wifi_def prod_eq_iff)
  obtain m1 x1 where r1: "?r (m, x) = (m1, x1)" by fastforce
  obtain m2 x2 where r2: "?r (m1, x1) = (m2, x2)" by fastforce
  obtain m3 x3 where r3: "?r (m2, x2) = (m3, x3)" by fastforce
  obtain m4 x4 where r4: "?r (requestReconnect m3, x3) = (m4, x4)" by fastforce
  have mid: "(wifi_step mem_wifi_api)\<^sup>*\<^sup>* (m1, x1) (m2, x2)"
    using wifi_step_round[of mem_wifi_api "(m1, x1)"] r2 by (metis r_into_rtranclp)
  have tail: "(wifi_step mem_wifi_api)\<^sup>*\<^sup>* (m3, x3) (m4, x4)"
    using wifi_step_reconnect[of mem_wifi_api m3 x3] wifi_step_round[of mem_wifi_api "(requestReconnect m3, x3)"] r4
    by (metis converse_rtranclp_into_rtranclp r_into_rtranclp)
  have eval1: "mw_clock (snd (?r (snd example_wifi))) = 30" "mw_clock (snd ((?r ^^ 2) (snd example_wifi))) = 35"
      "wm_fallbackAfterMs (fst ((?r ^^ 2) (snd example_wifi))) = 5" by code_simp+
  have eval2: "case (?r ^^ 3) (snd example_wifi) of (m, x) \<Rightarrow> mw_clock (snd (?r (requestReconnect m, x))) < 100" by code_simp+
  have all: "(?r ^^ 2) (m, x) = (m2, x2)" "(?r ^^ 3) (m, x) = (m3, x3)"
    using r1 r2 r3 by (simp_all add: numeral_eq_Suc funpow_swap1)
  then have t: "mw_clock x1 = 30" "mw_clock x2 = 35" "wm_fallbackAfterMs m2 = 5" "mw_clock x4 < 100"
    using eval1 eval2 r1 r4 by (simp_all add: e)
  have "wm_apActive m3 \<and> mw_ap x3 \<and> wm_apActive m4 \<and> mw_ap x4"
    using fallback_ap_comes_up[OF mem_wifi.wifi_access_point_axioms start(1,2) r1 mid _ r3 tail] t by simp
  then show ?thesis using all start(3) r4 by (simp add: e)
qed

end
