(* ===== verification/Base64.thy ===== *)
theory Base64
  imports Gateway_Prelude
begin

text \<open>
  The base64 codec of the upload path (src/lib/backend/base64.cpp): the encoder and the decoder
  with their index loops, related to a grouping of the input into triples.  The decoder accepts
  exactly the canonical encodings.
\<close>

unbundle bit_operations_syntax


section \<open>The code\<close>

definition kAlphabet :: "byte list" where
  "kAlphabet = ascii ''ABCDEFGHIJKLMNOPQRSTUVWXYZabcdefghijklmnopqrstuvwxyz0123456789+/''"

definition decodeValue :: "byte \<Rightarrow> int" where
  "decodeValue c =
     (if 0x41 \<le> c \<and> c \<le> 0x5A then uint c - 0x41
      else if 0x61 \<le> c \<and> c \<le> 0x7A then uint c - 0x61 + 26
      else if 0x30 \<le> c \<and> c \<le> 0x39 then uint c - 0x30 + 52
      else if c = 0x2B then 62
      else if c = 0x2F then 63
      else - 1)"

text \<open>Six bits of the group, and the element of the alphabet they select.\<close>
definition six :: "nat \<Rightarrow> u32 \<Rightarrow> u32" where "six shift v = drop_bit shift v AND 0x3F"

definition sextet :: "nat \<Rightarrow> u32 \<Rightarrow> byte" where "sextet shift v = kAlphabet ! unat (six shift v)"

definition encode_group :: "u32 \<Rightarrow> bool \<Rightarrow> bool \<Rightarrow> byte list" where
  "encode_group v second third =
     [sextet 18 v, sextet 12 v, if second then sextet 6 v else 0x3D, if third then sextet 0 v else 0x3D]"

function encode_loop :: "byte list \<Rightarrow> nat \<Rightarrow> nat \<Rightarrow> byte list \<Rightarrow> byte list" where
  "encode_loop input len index output =
     (if index < len
      then let a = ucast (input ! index) :: u32;
               b = if index + 1 < len then ucast (input ! (index + 1)) else 0 :: u32;
               c = if index + 2 < len then ucast (input ! (index + 2)) else 0 :: u32;
               v = push_bit 16 a OR push_bit 8 b OR c in
           encode_loop input len (index + 3) (output @ encode_group v (index + 1 < len) (index + 2 < len))
      else output)"
  by pat_completeness auto
termination by (relation "measure (\<lambda>(input, len, index, output). len - index)") auto

definition base64Encode :: "byte list option \<Rightarrow> nat \<Rightarrow> byte list" where
  "base64Encode input len =
     (case input of None \<Rightarrow> [] | Some bytes \<Rightarrow> encode_loop bytes len 0 [])"

text \<open>A padding character is the value -2, a character outside the alphabet -1.\<close>
definition paddedValue :: "byte \<Rightarrow> int" where
  "paddedValue c = (if c = 0x3D then - 2 else decodeValue c)"

function decode_loop :: "byte list \<Rightarrow> nat \<Rightarrow> nat \<Rightarrow> byte list \<Rightarrow> byte list option" where
  "decode_loop input len index output =
     (if index < len
      then let final = index + 4 = len;
               a = decodeValue (input ! index); b = decodeValue (input ! (index + 1));
               c = paddedValue (input ! (index + 2)); d = paddedValue (input ! (index + 3)) in
           if a < 0 \<or> b < 0 \<or> c = - 1 \<or> d = - 1 \<or> \<not> final \<and> (c = - 2 \<or> d = - 2) \<or> c = - 2 \<and> d \<noteq> - 2
           then None
           else let v = push_bit 18 (of_int a :: u32) OR push_bit 12 (of_int b) OR
                        push_bit 6 (of_int (if c < 0 then 0 else c)) OR of_int (if d < 0 then 0 else d) in
             decode_loop input len (index + 4)
               (output @ [ucast (drop_bit 16 v)] @
                (if c \<noteq> - 2 then [ucast (drop_bit 8 v)] else []) @
                (if d \<noteq> - 2 then [ucast v] else []))
      else Some output)"
  by pat_completeness auto
termination by (relation "measure (\<lambda>(input, len, index, output). len - index)") auto

text \<open>The result and the output vector; only a rejected character clears what was decoded so far.\<close>
definition base64Decode :: "byte list option \<Rightarrow> bool \<times> byte list" where
  "base64Decode input =
     (case input of None \<Rightarrow> (False, [])
      | Some chars \<Rightarrow> let text = cstr chars; len = length text in
         if len = 0 \<or> len mod 4 \<noteq> 0 then (False, [])
         else case decode_loop text len 0 [] of
                None \<Rightarrow> (False, [])
              | Some output \<Rightarrow> (base64Encode (Some output) (length output) = text, output))"

declare encode_loop.simps [simp del] decode_loop.simps [simp del]


section \<open>The reference: an encoding by triples\<close>

definition triple :: "byte \<Rightarrow> byte \<Rightarrow> byte \<Rightarrow> u32" where
  "triple a b c = push_bit 16 (ucast a) OR push_bit 8 (ucast b) OR ucast c"

fun b64 :: "byte list \<Rightarrow> byte list" where
  "b64 [] = []"
| "b64 [a] = encode_group (triple a 0 0) False False"
| "b64 [a, b] = encode_group (triple a b 0) True False"
| "b64 (a # b # c # rest) = encode_group (triple a b c) True True @ b64 rest"

lemma encode_loop_b64:
  "encode_loop (pre @ xs @ rest) (length pre + length xs) (length pre) out = out @ b64 xs"
proof (induction xs arbitrary: pre out rule: b64.induct)
  case (4 a b c tl)
  from 4[of "pre @ [a, b, c]"] show ?case
    by (subst encode_loop.simps) (simp add: Let_def triple_def nth_append add.commute numeral_3_eq_3)
qed (subst encode_loop.simps; simp add: triple_def nth_append encode_loop.simps)+

lemma base64Encode_prefix: "base64Encode (Some (xs @ rest)) (length xs) = b64 xs"
  using encode_loop_b64[of "[]" xs rest "[]"] by (simp add: base64Encode_def)

lemma base64Encode_b64: "base64Encode (Some xs) (length xs) = b64 xs"
  using base64Encode_prefix[of xs "[]"] by simp


section \<open>Decoding what was encoded\<close>

lemma kAlphabet_bytes:
  "kAlphabet =
    [0x41, 0x42, 0x43, 0x44, 0x45, 0x46, 0x47, 0x48, 0x49, 0x4A, 0x4B, 0x4C, 0x4D, 0x4E, 0x4F, 0x50,
     0x51, 0x52, 0x53, 0x54, 0x55, 0x56, 0x57, 0x58, 0x59, 0x5A, 0x61, 0x62, 0x63, 0x64, 0x65, 0x66,
     0x67, 0x68, 0x69, 0x6A, 0x6B, 0x6C, 0x6D, 0x6E, 0x6F, 0x70, 0x71, 0x72, 0x73, 0x74, 0x75, 0x76,
     0x77, 0x78, 0x79, 0x7A, 0x30, 0x31, 0x32, 0x33, 0x34, 0x35, 0x36, 0x37, 0x38, 0x39, 0x2B, 0x2F]"
  by (simp add: kAlphabet_def ascii_def)

lemma alphabet_values: "map decodeValue kAlphabet = map int [0..<64]"
  by (simp add: kAlphabet_bytes decodeValue_def upt_rec)

lemma alphabet_plain: "list_all (\<lambda>c. c \<noteq> 0x3D \<and> c \<noteq> 0) kAlphabet"
  by (simp add: kAlphabet_bytes)

lemma length_kAlphabet [simp]: "length kAlphabet = 64" by (simp add: kAlphabet_bytes)

lemma alphabet_nth:
  assumes "n < 64"
  shows "decodeValue (kAlphabet ! n) = int n" "kAlphabet ! n \<noteq> 0x3D" "kAlphabet ! n \<noteq> 0"
proof -
  from assms show "decodeValue (kAlphabet ! n) = int n"
    using arg_cong[OF alphabet_values, of "\<lambda>l. l ! n"] by simp
  from assms alphabet_plain show "kAlphabet ! n \<noteq> 0x3D" "kAlphabet ! n \<noteq> 0"
    by (auto simp: list_all_length)
qed

lemma sextet_value [simp]:
  "decodeValue (sextet k v) = uint (six k v)" "paddedValue (sextet k v) = uint (six k v)"
  "sextet k v \<noteq> 0x3D" "sextet k v \<noteq> 0"
proof -
  have "unat (six k v) < 64"
    using word_and_le1[of "drop_bit k v" "0x3F"] by (simp add: six_def word_le_nat_alt)
  note * = alphabet_nth[OF this]
  from * show "decodeValue (sextet k v) = uint (six k v)" "sextet k v \<noteq> 0x3D" "sextet k v \<noteq> 0"
    by (simp_all add: sextet_def)
  with * show "paddedValue (sextet k v) = uint (six k v)"
    by (simp add: paddedValue_def sextet_def)
qed

lemma six_take_bit: "six k v = take_bit 6 (drop_bit k v)"
  by (simp add: six_def take_bit_eq_mask mask_eq_exp_minus_1)

lemma bit_triple:
  "bit (triple a b c) n \<longleftrightarrow> (if n < 8 then bit c n else if n < 16 then bit b (n - 8) else bit a (n - 16))"
  by (auto simp: triple_def bit_simps dest: bit_imp_le_length)

lemma regroup:
  "push_bit 18 (six 18 (triple a b c)) OR push_bit 12 (six 12 (triple a b c)) OR
   push_bit 6 (six 6 (triple a b c)) OR (six 0 (triple a b c)) = triple a b c"
proof (rule bit_word_eqI)
  fix n assume "n < LENGTH(32)"
  then consider "n < 6" | "6 \<le> n" "n < 12" | "12 \<le> n" "n < 18" | "18 \<le> n" "n < 24" | "24 \<le> n" "n < 32" by force
  then show "bit (push_bit 18 (six 18 (triple a b c)) OR push_bit 12 (six 12 (triple a b c)) OR
       push_bit 6 (six 6 (triple a b c)) OR (six 0 (triple a b c))) n = bit (triple a b c) n"
    unfolding six_take_bit by cases (auto simp: bit_simps bit_triple dest: bit_imp_le_length)
qed

lemma triple_bytes:
  "(ucast (drop_bit 16 (triple a b c)) :: byte) = a" "(ucast (drop_bit 8 (triple a b c)) :: byte) = b"
  "(ucast (triple a b c) :: byte) = c"
  by (rule bit_word_eqI; simp add: bit_simps bit_triple)+

lemma padding_zero: "six 6 (triple a 0 0) = 0" "six 0 (triple a b 0) = 0"
  unfolding six_take_bit by (rule bit_word_eqI; auto simp: bit_simps bit_triple)+

lemma length_encode_group [simp]: "length (encode_group v s t) = 4" by (simp add: encode_group_def)

lemma length_b64_mod: "length (b64 xs) mod 4 = 0"
  by (induction xs rule: b64.induct) simp_all

lemma b64_empty [simp]: "b64 xs = [] \<longleftrightarrow> xs = []"
  by (cases xs rule: b64.cases) (simp_all add: encode_group_def)

lemma b64_no_nul: "0 \<notin> set (b64 xs)"
  by (induction xs rule: b64.induct) (auto simp: encode_group_def dest: sym)


lemma uint_plain [simp]: "uint x \<noteq> - 1" "uint x \<noteq> - 2" "\<not> uint x < 0"
  using uint_ge_0[of x] by linarith+

lemma padding: "paddedValue 0x3D = - 2" by (simp add: paddedValue_def)

lemma decode_group:
  "decode_loop (pre @ encode_group (triple a b c) True True @ rest) (length pre + 4 + length rest) (length pre) out =
   decode_loop (pre @ encode_group (triple a b c) True True @ rest) (length pre + 4 + length rest) (length pre + 4) (out @ [a, b, c])"
  by (subst decode_loop.simps)
     (simp add: encode_group_def nth_append Let_def regroup triple_bytes)

lemma decode_loop_b64:
  "decode_loop (pre @ b64 xs) (length pre + length (b64 xs)) (length pre) out = Some (out @ xs)"
proof (induction xs arbitrary: pre out rule: b64.induct)
  case 1
  then show ?case by (simp add: decode_loop.simps)
next
  case (2 a)
  then show ?case using regroup[of a 0 0] padding_zero(1)[of a] padding_zero(2)[of a 0]
    by (subst decode_loop.simps)
       (simp add: encode_group_def nth_append padding triple_bytes decode_loop.simps
             del: drop_bit_or)
next
  case (3 a b)
  then show ?case using regroup[of a b 0] padding_zero(2)[of a b]
    by (subst decode_loop.simps)
       (simp add: encode_group_def nth_append padding triple_bytes decode_loop.simps
             del: drop_bit_or)
next
  case (4 a b c rest)
  from 4[of "pre @ encode_group (triple a b c) True True" "out @ [a, b, c]"] show ?case
    using decode_group[of pre a b c "b64 rest" out] by (simp add: add.assoc)
qed

lemma decode_loop_grows:
  "decode_loop chs len i out = Some bs \<Longrightarrow> length out \<le> length bs \<and> (i < len \<longrightarrow> length out < length bs)"
proof (induction chs len i out arbitrary: bs rule: decode_loop.induct)
  case (1 chs len i out)
  show ?case
  proof (cases "i < len")
    case True
    with 1(2) 1(1)[OF True refl refl refl refl refl] show ?thesis
      by (subst (asm) decode_loop.simps) (fastforce simp: Let_def split: if_splits)
  next
    case False
    with 1(2) show ?thesis by (simp add: decode_loop.simps)
  qed
qed

lemma decode_b64:
  assumes "bs \<noteq> []" "cstr chars = b64 bs"
  shows "base64Decode (Some chars) = (True, bs)"
  using decode_loop_b64[of "[]" bs "[]"] length_b64_mod[of bs] assms by (simp add: base64Decode_def Let_def base64Encode_b64)

text \<open>C37: The base64 decoder accepts exactly the canonical encodings of the non-empty byte strings, and
  what it returns is the string that was encoded: every other text (a bad length, a character outside the
  alphabet, misplaced padding, non-zero bits under the padding) is refused.\<close>
theorem base64Decode_canonical:
  "base64Decode (Some chars) = (True, bytes) \<longleftrightarrow>
     bytes \<noteq> [] \<and> base64Encode (Some bytes) (length bytes) = cstr chars"
proof
  assume "base64Decode (Some chars) = (True, bytes)"
  then show "bytes \<noteq> [] \<and> base64Encode (Some bytes) (length bytes) = cstr chars"
    using decode_loop_grows[of "cstr chars" "length (cstr chars)" 0 "[]"]
    by (auto simp: base64Decode_def Let_def split: if_splits option.splits)
next
  assume *: "bytes \<noteq> [] \<and> base64Encode (Some bytes) (length bytes) = cstr chars"
  then have "cstr chars = b64 bytes" by (simp add: base64Encode_b64)
  with * show "base64Decode (Some chars) = (True, bytes)"
    by (simp add: decode_b64)
qed

end
