(* ===== verification/Backend_Contract.thy ===== *)
theory Backend_Contract
  imports Base64 Utc_Time Json_Document Queue_Record
begin

text \<open>
  The batch upload contract (src/lib/backend/backend_contract.cpp): the document built from a batch of queue
  records, the reading of the per-record results, and the two predicates that decide what may leave the queue.
\<close>

section \<open>Data\<close>

record GatewayIdentity =
  gi_gatewayId :: "byte list"
  gi_hardwareMac :: "byte list"
  gi_firmwareVersion :: "byte list"
  gi_bootSessionId :: u32

definition GatewayIdentity_init :: GatewayIdentity where
  "GatewayIdentity_init = \<lparr>gi_gatewayId = replicate kGatewayIdCapacity 0, gi_hardwareMac = replicate 18 0,
     gi_firmwareVersion = replicate 17 0, gi_bootSessionId = 0\<rparr>"

datatype BackendRecordStatus =
  BackendRecordStatus_kInserted | BackendRecordStatus_kDuplicate | BackendRecordStatus_kRejectedInvalid

record BackendRecordResult =
  br_index :: nat
  br_status :: BackendRecordStatus
  br_reason :: "byte list"

definition BackendRecordResult_init :: BackendRecordResult where
  "BackendRecordResult_init = \<lparr>br_index = 0, br_status = BackendRecordStatus_kRejectedInvalid, br_reason = replicate 97 0\<rparr>"


section \<open>The request document\<close>

definition gatewayJson :: "GatewayIdentity \<Rightarrow> 'd json" where
  "gatewayJson identity = Json_object
     [(''gatewayId'', Json_string (cstr (gi_gatewayId identity))),
      (''hardwareMac'', Json_string (cstr (gi_hardwareMac identity))),
      (''firmwareVersion'', Json_string (cstr (gi_firmwareVersion identity))),
      (''bootSessionId'', Json_int (uint (gi_bootSessionId identity)))]"

text \<open>One reading, or \<open>None\<close> where the loop returns \<open>false\<close>.\<close>
definition readingJson :: "QueueRecord \<Rightarrow> 'd json option" where
  "readingJson r =
     (if unat (q_payloadLength r) = 0 \<or> kRadioPacketCapacity < unat (q_payloadLength r) then None
      else let m = q_reception r in
        case (if rm_gatewayTimeTrusted m
              then (case formatUtc (rm_gatewayReceivedUnixMs m) 32 of None \<Rightarrow> None | Some timestamp \<Rightarrow> Some (Json_string timestamp))
              else Some Json_null) of
          None \<Rightarrow> None
        | Some receivedAt \<Rightarrow> Some (Json_object
            [(''gatewayReceivedAt'', receivedAt),
             (''gatewayTimeTrusted'', Json_bool (rm_gatewayTimeTrusted m)),
             (''gatewayUptimeMs'', Json_int (uint (rm_gatewayUptimeMs m))),
             (''gatewayBootSessionId'', Json_int (uint (rm_gatewayBootSessionId m))),
             (''rssiDbm'', Json_float (rm_rssiDbm m)),
             (''snrDb'', Json_float (rm_snrDb m)),
             (''frequencyErrorHz'', Json_int (sint (rm_frequencyErrorHz m))),
             (''packetLength'', Json_int (uint (rm_packetLength m))),
             (''rawPayloadBase64'', Json_string (base64Encode (Some (q_rawPayload r)) (unat (q_payloadLength r))))]))"

fun readingsJson :: "QueueRecord list \<Rightarrow> 'd json list option" where
  "readingsJson [] = Some []"
| "readingsJson (r # rs) =
     (case readingJson r of None \<Rightarrow> None
      | Some x \<Rightarrow> (case readingsJson rs of None \<Rightarrow> None | Some xs \<Rightarrow> Some (x # xs)))"

text \<open>The result and the text left in \<open>json\<close>.\<close>
definition serializeBackendBatch ::
  "('d, 'j) arduino_json \<Rightarrow> GatewayIdentity \<Rightarrow> QueueRecord list \<Rightarrow> bool \<times> byte list" where
  "serializeBackendBatch J identity records =
     (if records = [] \<or> kBackendMaximumBatchSize < length records then (False, [])
      else case readingsJson records of None \<Rightarrow> (False, [])
      | Some readings \<Rightarrow>
          let json = aj_serialize J (Json_object
                [(''schemaVersion'', Json_int 1), (''gateway'', gatewayJson identity), (''readings'', Json_array readings)])
          in (json \<noteq> [], json))"


section \<open>The response\<close>

fun backendRecordStatusName :: "BackendRecordStatus \<Rightarrow> string" where
  "backendRecordStatusName BackendRecordStatus_kInserted = ''INSERTED''"
| "backendRecordStatusName BackendRecordStatus_kDuplicate = ''DUPLICATE''"
| "backendRecordStatusName BackendRecordStatus_kRejectedInvalid = ''REJECTED_INVALID''"

definition parseStatus :: "byte list \<Rightarrow> BackendRecordStatus option" where
  "parseStatus v =
     (if cstr v = ascii ''INSERTED'' then Some BackendRecordStatus_kInserted
      else if cstr v = ascii ''DUPLICATE'' then Some BackendRecordStatus_kDuplicate
      else if cstr v = ascii ''REJECTED_INVALID'' then Some BackendRecordStatus_kRejectedInvalid
      else None)"

definition recordResult :: "nat \<Rightarrow> BackendRecordStatus \<Rightarrow> byte list \<Rightarrow> BackendRecordResult" where
  "recordResult index status reason = BackendRecordResult_init\<lparr>br_index := index, br_status := status,
     br_reason := strncpy (br_reason BackendRecordResult_init) reason 96\<rparr>"

lemma br_index_recordResult [simp]: "br_index (recordResult i s r) = i" by (simp add: recordResult_def)

text \<open>The loop over the array, with \<open>seen\<close> and the results so far; \<open>None\<close> where it returns \<open>false\<close>.\<close>
fun parseResults ::
  "('d, 'j) arduino_json \<Rightarrow> nat \<Rightarrow> bool list \<Rightarrow> BackendRecordResult list \<Rightarrow> 'j list \<Rightarrow> BackendRecordResult list option" where
  "parseResults J expected seen results [] = Some results"
| "parseResults J expected seen results (v # vs) =
     (if \<not> aj_is_size J (aj_member J ''index'' v) \<or> \<not> aj_is_string J (aj_member J ''status'' v) then None
      else let index = aj_as_size J (aj_member J ''index'' v) in
        if expected \<le> index \<or> seen ! index then None
        else case parseStatus (aj_as_string J (aj_member J ''status'' v)) of None \<Rightarrow> None
          | Some status \<Rightarrow>
              let reason = (if aj_is_string J (aj_member J ''reason'' v) then aj_as_string J (aj_member J ''reason'' v) else []);
                  result = recordResult index status reason
              in parseResults J expected (seen[index := True]) (results @ [result]) vs)"

definition parseBackendBatchResponse ::
  "('d, 'j) arduino_json \<Rightarrow> byte list option \<Rightarrow> nat \<Rightarrow> BackendRecordResult list option" where
  "parseBackendBatchResponse J json expected =
     (case json of None \<Rightarrow> None
      | Some text \<Rightarrow>
         if expected = 0 then None
         else case aj_deserialize J text of None \<Rightarrow> None
         | Some document \<Rightarrow>
            (case aj_array J (aj_member J ''results'' document) of None \<Rightarrow> None
             | Some array \<Rightarrow>
                if expected < length array then None
                else parseResults J expected (replicate kBackendMaximumBatchSize False) [] array))"

definition backendHttpResponseMayDequeue :: "int \<Rightarrow> bool" where
  "backendHttpResponseMayDequeue httpStatus \<longleftrightarrow> httpStatus = 200"

definition backendBatchResponseComplete :: "nat \<Rightarrow> BackendRecordResult list \<Rightarrow> bool" where
  "backendBatchResponseComplete expected results \<longleftrightarrow> 0 < expected \<and> length results = expected"


section \<open>The request carries the batch\<close>

lemma readingsJson_map: "readingsJson rs = Some xs \<Longrightarrow> map readingJson rs = map Some xs"
  by (induction rs arbitrary: xs) (auto split: option.splits)

text \<open>What a reading says of a record: its payload, the boot session it was received in, and the trusted time
  or null.\<close>
definition reading_of :: "QueueRecord \<Rightarrow> 'd json \<Rightarrow> bool" where
  "reading_of r x \<longleftrightarrow>
     (\<exists>b. json_member ''rawPayloadBase64'' x = Some (Json_string b) \<and>
          base64Decode (Some b) = (True, take (unat (q_payloadLength r)) (q_rawPayload r))) \<and>
     json_member ''gatewayBootSessionId'' x = Some (Json_int (uint (rm_gatewayBootSessionId (q_reception r)))) \<and>
     (if rm_gatewayTimeTrusted (q_reception r)
      then \<exists>t. json_member ''gatewayReceivedAt'' x = Some (Json_string t) \<and> formatUtc (rm_gatewayReceivedUnixMs (q_reception r)) 32 = Some t
      else json_member ''gatewayReceivedAt'' x = Some Json_null)"

lemma readingJson_of:
  assumes "readingJson r = Some x" "length (q_rawPayload r) = kRadioPacketCapacity"
  shows "reading_of r x"
proof -
  let ?n = "unat (q_payloadLength r)"
  have n: "0 < ?n" "?n \<le> length (q_rawPayload r)" using assms by (auto simp: readingJson_def split: if_splits)
  then have "take ?n (q_rawPayload r) \<noteq> []" by auto
  moreover have enc: "base64Encode (Some (q_rawPayload r)) ?n = b64 (take ?n (q_rawPayload r))"
    using base64Encode_prefix[of "take ?n (q_rawPayload r)" "drop ?n (q_rawPayload r)"] n(2) by simp
  ultimately have trip: "base64Decode (Some (base64Encode (Some (q_rawPayload r)) ?n)) = (True, take ?n (q_rawPayload r))"
    by (intro decode_b64) (simp_all add: cstr_no_nul b64_no_nul)
  show ?thesis using assms(1) trip by (auto simp: readingJson_def reading_of_def Let_def split: if_splits option.splits)
qed

text \<open>C30: A batch request carries the whole batch. When \<open>serializeBackendBatch\<close> succeeds the batch has 1 to 50 records
  and the text sent is that of a document with one reading per record, in order; every reading decodes (by the
  base64 decoder) to exactly the received radio payload, names the boot session the record was received in, and has
  the exact UTC time if the time was trusted and null otherwise.\<close>
theorem batch_carries_records:
  assumes "serializeBackendBatch J identity records = (True, json)"
    and "\<forall>r \<in> set records. length (q_rawPayload r) = kRadioPacketCapacity"
  shows "\<exists>doc readings. json = aj_serialize J doc \<and> json_member ''readings'' doc = Some (Json_array readings) \<and>
    1 \<le> length records \<and> length records \<le> kBackendMaximumBatchSize \<and> list_all2 reading_of records readings"
proof -
  obtain readings where r: "readingsJson records = Some readings"
    and j: "json = aj_serialize J (Json_object
                [(''schemaVersion'', Json_int 1), (''gateway'', gatewayJson identity), (''readings'', Json_array readings)])"
    and n: "records \<noteq> []" "length records \<le> kBackendMaximumBatchSize"
    using assms(1) by (auto simp: serializeBackendBatch_def Let_def split: if_splits option.splits)
  have "map readingJson records = map Some readings" using r by (rule readingsJson_map)
  then have "list_all2 (\<lambda>r x. readingJson r = Some x) records readings"
    by (simp add: list_all2_conv_all_nth list_eq_iff_nth_eq)
  then have "list_all2 reading_of records readings"
    using assms(2) by (auto simp: readingJson_of list_all2_conv_all_nth)
  then show ?thesis using j n by (intro exI[of _ "Json_object
                [(''schemaVersion'', Json_int 1), (''gateway'', gatewayJson identity), (''readings'', Json_array readings)]"] exI[of _ readings])
      (auto simp: Suc_le_eq)
qed

definition example_reading :: QueueRecord where
  "example_reading = QueueRecord_init\<lparr>q_payloadLength := 2, q_rawPayload := [0x47, 0x54] @ replicate 94 0\<rparr>"

theorem batch_carries_records_witness:
  "\<exists>readings :: unit json list. list_all2 reading_of [example_reading] readings \<and> length readings = 1"
proof -
  have "fst (serializeBackendBatch (table_json [] :: (unit, unit json) arduino_json) GatewayIdentity_init [example_reading])"
    by (simp add: serializeBackendBatch_def example_reading_def readingJson_def QueueRecord_init_def ReceptionMetadata_init_def
        capacity_defs table_json_def ascii_def Let_def)
  then obtain json where "serializeBackendBatch (table_json [] :: (unit, unit json) arduino_json) GatewayIdentity_init [example_reading] = (True, json)"
    by (cases "serializeBackendBatch (table_json [] :: (unit, unit json) arduino_json) GatewayIdentity_init [example_reading]") auto
  moreover have "\<forall>r \<in> set [example_reading]. length (q_rawPayload r) = kRadioPacketCapacity"
    by (simp add: example_reading_def capacity_defs)
  ultimately obtain readings :: "unit json list" where "list_all2 reading_of [example_reading] readings"
    using batch_carries_records[of "table_json []" GatewayIdentity_init "[example_reading]"] by blast
  then have "list_all2 reading_of [example_reading] readings \<and> length readings = 1" using list_all2_lengthD by fastforce
  then show ?thesis ..
qed


section \<open>Results are per record\<close>

lemma parseResults_outcome:
  assumes "parseResults J expected seen results vs = Some out" "length seen = kBackendMaximumBatchSize" "expected \<le> kBackendMaximumBatchSize"
    and "\<And>i. i < length seen \<Longrightarrow> seen ! i \<longleftrightarrow> i \<in> br_index ` set results" "distinct (map br_index results)"
    and "\<forall>r \<in> set results. br_index r < expected"
  shows "distinct (map br_index out) \<and> (\<forall>r \<in> set out. br_index r < expected) \<and> length out = length results + length vs"
  using assms
proof (induction vs arbitrary: seen results)
  case (Cons v vs)
  define index where "index = aj_as_size J (aj_member J ''index'' v)"
  obtain result where step: "index < expected" "\<not> seen ! index" "br_index result = index"
      "parseResults J expected (seen[index := True]) (results @ [result]) vs = Some out"
    using Cons.prems(1) by (auto simp: Let_def index_def not_le split: if_splits option.splits) (metis br_index_recordResult)+
  have i: "index < length seen" using step(1) Cons.prems(2,3) by simp
  have new: "index \<notin> br_index ` set results" using Cons.prems(4)[OF i] step(2) by simp
  have len: "length (seen[index := True]) = kBackendMaximumBatchSize" using Cons.prems(2) by simp
  have marks: "(seen[index := True]) ! j \<longleftrightarrow> j \<in> br_index ` set (results @ [result])" if "j < length (seen[index := True])" for j
    using that Cons.prems(4)[of j] step(3) i by (auto simp: nth_list_update)
  have dist: "distinct (map br_index (results @ [result]))" using new Cons.prems(5) step(3) by simp
  have bound: "\<forall>r \<in> set (results @ [result]). br_index r < expected" using Cons.prems(6) step(1,3) by auto
  from Cons.IH[OF step(4) len Cons.prems(3) marks dist bound] show ?case by simp
qed simp

lemma parse_outcome:
  assumes "parseBackendBatchResponse J json expected = Some results" "expected \<le> kBackendMaximumBatchSize"
  shows "distinct (map br_index results) \<and> (\<forall>r \<in> set results. br_index r < expected) \<and> length results \<le> expected"
proof -
  obtain array where "parseResults J expected (replicate kBackendMaximumBatchSize False) [] array = Some results" "length array \<le> expected"
    using assms(1) by (auto simp: parseBackendBatchResponse_def not_less split: option.splits if_splits)
  then show ?thesis using parseResults_outcome[of J expected "replicate kBackendMaximumBatchSize False" "[]" array results] assms(2) by simp
qed

text \<open>C29: A batch response settles each record at most once. A response that is accepted for a batch of at most 50 records
  names distinct indices inside the batch, whatever the server sent; if it is complete, every index of the batch has
  exactly one result.\<close>
theorem response_settles_once:
  assumes "parseBackendBatchResponse J json expected = Some results" "expected \<le> kBackendMaximumBatchSize"
  shows "distinct (map br_index results) \<and> br_index ` set results \<subseteq> {..<expected} \<and>
    (backendBatchResponseComplete expected results \<longrightarrow> (\<forall>i < expected. \<exists>!r. r \<in> set results \<and> br_index r = i))"
proof -
  note out = parse_outcome[OF assms]
  have "\<forall>i < expected. \<exists>!r. r \<in> set results \<and> br_index r = i" if "backendBatchResponseComplete expected results"
  proof -
    have inj: "inj_on br_index (set results)" and d: "distinct results" using out by (simp_all add: distinct_map)
    have "card (br_index ` set results) = expected"
      using that card_image[OF inj] distinct_card[OF d] by (simp add: backendBatchResponseComplete_def)
    moreover have "br_index ` set results \<subseteq> {..<expected}" using out by auto
    ultimately have "br_index ` set results = {..<expected}" by (simp add: card_subset_eq)
    then have "\<exists>r. r \<in> set results \<and> br_index r = i" if "i < expected" for i using that by (metis imageE lessThan_iff)
    then show ?thesis using inj_onD[OF inj] by (intro allI impI ex_ex1I) auto
  qed
  then show ?thesis using out by auto
qed

definition example_response :: "unit json" where
  "example_response = Json_object [(''results'', Json_array
     [Json_object [(''index'', Json_int 1), (''status'', Json_string (ascii ''DUPLICATE''))],
      Json_object [(''index'', Json_int 0), (''status'', Json_string (ascii ''INSERTED''))]])]"

definition example_json :: "(unit, unit json) arduino_json" where
  "example_json = table_json [(ascii ''R'', example_response)]"

theorem response_settles_once_witness:
  "\<exists>results. parseBackendBatchResponse example_json (Some (ascii ''R'')) 2 = Some results \<and>
     (\<forall>i < 2. \<exists>!r. r \<in> set results \<and> br_index r = i)"
proof -
  define results where "results = the (parseBackendBatchResponse example_json (Some (ascii ''R'')) 2)"
  have run: "parseBackendBatchResponse example_json (Some (ascii ''R'')) 2 = Some results" "length results = 2"
    unfolding results_def by code_simp+
  have "(2 :: nat) \<le> kBackendMaximumBatchSize" by (simp add: capacity_defs)
  from response_settles_once[OF run(1) this] run show ?thesis by (auto simp: backendBatchResponseComplete_def)
qed

end
