(* ===== verification/Backend_Worker.thy ===== *)
theory Backend_Worker
  imports Backend_Contract Heartbeat_Contract Wifi_Manager Gateway_Receive
begin

text \<open>
  The backend worker (src/lib/backend/backend_worker.cpp): the task that uploads the queue in batches, removes the
  records the backend settled, backs off after failures, and sends heartbeats while the queue is empty. The HTTP client,
  the task primitives and the heap figures are the operations of \<open>http_platform\<close>. Other tasks run while this one waits for
  the network or sleeps; what they do to the device is the function \<open>dp_others\<close>, applied at those points.
\<close>

section \<open>Platform, data and state\<close>

datatype BackendLog =
    LogUploadFailed int | LogPermanentRejection "byte list" u32 u32 "byte list" | LogBatchTerminal nat nat
  | LogHeartbeatDeferred | LogHeartbeatDelivered int | LogHeartbeatFailed int

text \<open>\<open>hp_begin\<close> creates the client with both timeouts set and opens the URL: over TLS with the given root certificate, or
  in the clear for \<open>None\<close>. \<open>hp_sleep\<close> is \<open>ulTaskNotifyTake\<close> and \<open>vTaskDelay\<close>, with the time in milliseconds.\<close>
record 'n http_platform =
  hp_createMutex :: "'n \<Rightarrow> bool \<times> 'n"
  hp_createTask :: "'n \<Rightarrow> bool \<times> 'n"
  hp_notify :: "'n \<Rightarrow> 'n"
  hp_sleep :: "u32 \<Rightarrow> 'n \<Rightarrow> 'n"
  hp_random :: "'n \<Rightarrow> u32 \<times> 'n"
  hp_begin :: "byte list option \<Rightarrow> u32 \<Rightarrow> byte list \<Rightarrow> 'n \<Rightarrow> bool \<times> 'n"
  hp_addHeader :: "byte list \<Rightarrow> byte list \<Rightarrow> 'n \<Rightarrow> 'n"
  hp_POST :: "byte list \<Rightarrow> 'n \<Rightarrow> int \<times> 'n"
  hp_GET :: "'n \<Rightarrow> int \<times> 'n"
  hp_getString :: "'n \<Rightarrow> byte list \<times> 'n"
  hp_errorToString :: "int \<Rightarrow> byte list"
  hp_end :: "'n \<Rightarrow> 'n"
  hp_freeHeap :: "'n \<Rightarrow> u32"
  hp_minFreeHeap :: "'n \<Rightarrow> u32"
  hp_largestFreeBlock :: "'n \<Rightarrow> u32"
  hp_sketchSize :: "'n \<Rightarrow> u32"
  hp_freeSketchSpace :: "'n \<Rightarrow> u32"
  hp_flashChipSize :: "'n \<Rightarrow> u32"
  hp_buildFlavor :: "byte list"
  hp_log :: "BackendLog \<Rightarrow> 'n \<Rightarrow> 'n"

definition firmware_kVersion :: "byte list" where "firmware_kVersion = ascii ''2.2.0''"

definition kGtsRootR4Pem :: "byte list" where
  "kGtsRootR4Pem = concat (map (\<lambda>line. ascii line @ [0x0A])
    [''-----BEGIN CERTIFICATE-----'',
     ''MIICCTCCAY6gAwIBAgINAgPlwGjvYxqccpBQUjAKBggqhkjOPQQDAzBHMQswCQYD'',
     ''VQQGEwJVUzEiMCAGA1UEChMZR29vZ2xlIFRydXN0IFNlcnZpY2VzIExMQzEUMBIG'',
     ''A1UEAxMLR1RTIFJvb3QgUjQwHhcNMTYwNjIyMDAwMDAwWhcNMzYwNjIyMDAwMDAw'',
     ''WjBHMQswCQYDVQQGEwJVUzEiMCAGA1UEChMZR29vZ2xlIFRydXN0IFNlcnZpY2Vz'',
     ''IExMQzEUMBIGA1UEAxMLR1RTIFJvb3QgUjQwdjAQBgcqhkjOPQIBBgUrgQQAIgNi'',
     ''AATzdHOnaItgrkO4NcWBMHtLSZ37wWHO5t5GvWvVYRg1rkDdc/eJkTBa6zzuhXyi'',
     ''QHY7qca4R9gq55KRanPpsXI5nymfopjTX15YhmUPoYRlBtHci8nHc8iMai/lxKvR'',
     ''HYqjQjBAMA4GA1UdDwEB/wQEAwIBhjAPBgNVHRMBAf8EBTADAQH/MB0GA1UdDgQW'',
     ''BBSATNbrdP9JNqPV2Py1PsVq8JQdjDAKBggqhkjOPQQDAwNpADBmAjEA6ED/g94D'',
     ''9J+uHXqnLrmvT/aDHQ4thQEd0dlq7A/Cr8deVl5c1RxYIigL9zC2L7F8AjEA8GE8'',
     ''p/SgguMh1YQdc4acLa/KNJvxn7kjNuK8YAOdgLOaVsjh4rsUecrNIdSUtUlD'',
     ''-----END CERTIFICATE-----''])"

record RuntimeConfig =
  rc_baseUrl :: "byte list"
  rc_token :: "byte list"
  rc_batchSize :: u8
  rc_timeoutMs :: u32
  rc_initialBackoffMs :: u32
  rc_maximumBackoffMs :: u32
  rc_heartbeatIntervalSeconds :: u32
  rc_identity :: GatewayIdentity

definition RuntimeConfig_init :: RuntimeConfig where
  "RuntimeConfig_init = \<lparr>rc_baseUrl = replicate kBackendUrlCapacity 0, rc_token = replicate kBearerTokenCapacity 0,
     rc_batchSize = 20, rc_timeoutMs = 10000, rc_initialBackoffMs = 2000, rc_maximumBackoffMs = 300000,
     rc_heartbeatIntervalSeconds = kDefaultHeartbeatIntervalSeconds, rc_identity = GatewayIdentity_init\<rparr>"

record BackendStatus =
  bs_state :: "byte list"
  bs_credentialConfigured :: bool
  bs_tlsEndpoint :: bool
  bs_lastAttemptUptimeMs :: u64
  bs_lastHttpStatus :: int
  bs_lastSuccessUptimeMs :: u64
  bs_lastSuccessUnixMs :: i64
  bs_lastErrorUptimeMs :: u64
  bs_lastErrorUnixMs :: i64
  bs_consecutiveFailures :: u32
  bs_telemetryUploadSuccessCount :: u64
  bs_telemetryUploadFailureCount :: u64
  bs_lastError :: "byte list"
  bs_currentBackoffMs :: u32

definition BackendStatus_init :: BackendStatus where
  "BackendStatus_init = \<lparr>bs_state = replicate 24 0, bs_credentialConfigured = False, bs_tlsEndpoint = True,
     bs_lastAttemptUptimeMs = 0, bs_lastHttpStatus = 0, bs_lastSuccessUptimeMs = 0, bs_lastSuccessUnixMs = -1,
     bs_lastErrorUptimeMs = 0, bs_lastErrorUnixMs = -1, bs_consecutiveFailures = 0, bs_telemetryUploadSuccessCount = 0,
     bs_telemetryUploadFailureCount = 0, bs_lastError = replicate 128 0, bs_currentBackoffMs = 0\<rparr>"

record HeartbeatStatus =
  hst_intervalSeconds :: u32
  hst_inProgress :: bool
  hst_lastAttemptUptimeMs :: u64
  hst_lastAttemptUnixMs :: i64
  hst_lastSuccessUptimeMs :: u64
  hst_lastSuccessUnixMs :: i64
  hst_lastHttpStatus :: int
  hst_lastError :: "byte list"
  hst_successCount :: u64
  hst_failureCount :: u64

definition HeartbeatStatus_init :: HeartbeatStatus where
  "HeartbeatStatus_init = \<lparr>hst_intervalSeconds = kDefaultHeartbeatIntervalSeconds, hst_inProgress = False,
     hst_lastAttemptUptimeMs = 0, hst_lastAttemptUnixMs = -1, hst_lastSuccessUptimeMs = 0, hst_lastSuccessUnixMs = -1,
     hst_lastHttpStatus = 0, hst_lastError = replicate 128 0, hst_successCount = 0, hst_failureCount = 0\<rparr>"

text \<open>\<open>bw_bound\<close>: the five pointers, which \<open>begin\<close> sets together.\<close>
record BackendWorker =
  bw_bound :: bool
  bw_mutex :: bool
  bw_task :: bool
  bw_config :: RuntimeConfig
  bw_status :: BackendStatus
  bw_heartbeatStatus :: HeartbeatStatus
  bw_heartbeatScheduler :: HeartbeatScheduler
  bw_bootCount :: u32
  bw_resetReason :: "byte list"

definition BackendWorker_init :: BackendWorker where
  "BackendWorker_init = \<lparr>bw_bound = False, bw_mutex = False, bw_task = False, bw_config = RuntimeConfig_init,
     bw_status = BackendStatus_init, bw_heartbeatStatus = HeartbeatStatus_init,
     bw_heartbeatScheduler = HeartbeatScheduler_init, bw_bootCount = 0, bw_resetReason = replicate 32 0\<rparr>"

text \<open>The device: the receive path, the Wi-Fi manager on its driver, this worker and its network.\<close>
record ('d, 'q, 'c, 'r, 'x, 'n) Device =
  dv_gateway :: "('d, 'q, 'c, 'r) Gateway"
  dv_wifi :: WifiManager
  dv_driver :: 'x
  dv_backend :: BackendWorker
  dv_net :: 'n

record ('d, 'q, 'c, 'r, 'x, 'n, 'j) device_platform =
  dp_double :: "'d double_ops"
  dp_queue :: "'q queue_platform"
  dp_radio :: "'r radio_platform"
  dp_wifi :: "'x wifi_platform"
  dp_json :: "('d, 'j) arduino_json"
  dp_http :: "'n http_platform"
  dp_others :: "('d, 'q, 'c, 'r, 'x, 'n) Device \<Rightarrow> ('d, 'q, 'c, 'r, 'x, 'n) Device"


section \<open>Small operations\<close>

definition startsWith :: "byte list option \<Rightarrow> byte list option \<Rightarrow> bool" where
  "startsWith val prefix =
     (case (val, prefix) of (Some v, Some p) \<Rightarrow> strncmp_eq v p (length (cstr p)) | _ \<Rightarrow> False)"

definition copyText :: "nat \<Rightarrow> byte list \<Rightarrow> byte list option \<Rightarrow> byte list" where
  "copyText n dst src = copy_array n dst (case src of None \<Rightarrow> [] | Some s \<Rightarrow> s)"

text \<open>\<open>snprintf\<close> of a text into a buffer: truncated, terminated, the bytes after it as they were.\<close>
definition snprintf_text :: "byte list \<Rightarrow> byte list \<Rightarrow> byte list" where
  "snprintf_text buf s = (if buf = [] then []
     else let t = take (length buf - 1) s in t @ 0 # drop (length t + 1) buf)"

definition isTls :: "RuntimeConfig \<Rightarrow> bool" where
  "isTls config = startsWith (Some (rc_baseUrl config)) (Some (ascii ''https://''))"

definition device_uptimeUs ::
  "('d, 'q, 'c, 'r, 'x, 'n, 'j) device_platform \<Rightarrow> ('d, 'q, 'c, 'r, 'x, 'n) Device \<Rightarrow> u64 \<times> ('d, 'q, 'c, 'r, 'x, 'n) Device" where
  "device_uptimeUs P w = (case rp_nowUs (dp_radio P) (gw_air (dv_gateway w)) of (us, r) \<Rightarrow>
     (us, w\<lparr>dv_gateway := (dv_gateway w)\<lparr>gw_air := r\<rparr>\<rparr>))"

definition uptimeMs ::
  "('d, 'q, 'c, 'r, 'x, 'n, 'j) device_platform \<Rightarrow> ('d, 'q, 'c, 'r, 'x, 'n) Device \<Rightarrow> u64 \<times> ('d, 'q, 'c, 'r, 'x, 'n) Device" where
  "uptimeMs P w = (case device_uptimeUs P w of (us, w) \<Rightarrow> (us div 1000, w))"

definition device_now ::
  "('d, 'q, 'c, 'r, 'x, 'n, 'j) device_platform \<Rightarrow> ('d, 'q, 'c, 'r, 'x, 'n) Device \<Rightarrow>
     TrustedTimeSnapshot \<times> ('d, 'q, 'c, 'r, 'x, 'n) Device" where
  "device_now P w = (case gateway_now (dp_radio P) (dv_gateway w) of (t, g) \<Rightarrow> (t, w\<lparr>dv_gateway := g\<rparr>))"

definition backend_log ::
  "('d, 'q, 'c, 'r, 'x, 'n, 'j) device_platform \<Rightarrow> BackendLog \<Rightarrow> ('d, 'q, 'c, 'r, 'x, 'n) Device \<Rightarrow> ('d, 'q, 'c, 'r, 'x, 'n) Device" where
  "backend_log P l w = w\<lparr>dv_net := hp_log (dp_http P) l (dv_net w)\<rparr>"

definition on_worker :: "(BackendWorker \<Rightarrow> BackendWorker) \<Rightarrow> ('d, 'q, 'c, 'r, 'x, 'n) Device \<Rightarrow> ('d, 'q, 'c, 'r, 'x, 'n) Device" where
  "on_worker f w = w\<lparr>dv_backend := f (dv_backend w)\<rparr>"

definition on_status :: "(BackendStatus \<Rightarrow> BackendStatus) \<Rightarrow> ('d, 'q, 'c, 'r, 'x, 'n) Device \<Rightarrow> ('d, 'q, 'c, 'r, 'x, 'n) Device" where
  "on_status f = on_worker (\<lambda>b. b\<lparr>bw_status := f (bw_status b)\<rparr>)"

definition putQueue :: "DurableQueue \<Rightarrow> 'q \<Rightarrow> ('d, 'q, 'c, 'r, 'x, 'n) Device \<Rightarrow> ('d, 'q, 'c, 'r, 'x, 'n) Device" where
  "putQueue q h w = w\<lparr>dv_gateway := (dv_gateway w)\<lparr>gw_queue := q, gw_flash := h\<rparr>\<rparr>"

definition device_queue :: "('d, 'q, 'c, 'r, 'x, 'n) Device \<Rightarrow> DurableQueue \<times> 'q" where
  "device_queue w = (gw_queue (dv_gateway w), gw_flash (dv_gateway w))"

definition noteUploadRetry ::
  "('d, 'q, 'c, 'r, 'x, 'n, 'j) device_platform \<Rightarrow> ('d, 'q, 'c, 'r, 'x, 'n) Device \<Rightarrow> ('d, 'q, 'c, 'r, 'x, 'n) Device" where
  "noteUploadRetry P w = (case recordUploadRetry (dp_queue P) (device_queue w) of (q, h) \<Rightarrow> putQueue q h w)"

definition configSnapshot :: "BackendWorker \<Rightarrow> RuntimeConfig" where
  "configSnapshot b = (if bw_mutex b then bw_config b else RuntimeConfig_init)"

definition backend_status :: "BackendWorker \<Rightarrow> BackendStatus" where
  "backend_status b = (if bw_mutex b then bw_status b else BackendStatus_init)"

definition heartbeatStatus :: "BackendWorker \<Rightarrow> HeartbeatStatus" where
  "heartbeatStatus b = (if bw_mutex b then bw_heartbeatStatus b else HeartbeatStatus_init)"

definition stateText :: "string \<Rightarrow> BackendStatus \<Rightarrow> BackendStatus" where
  "stateText s v = v\<lparr>bs_state := strncpy (bs_state v) (ascii s) 23\<rparr>"

text \<open>The backoff after one more failure.\<close>
definition nextBackoff :: "RuntimeConfig \<Rightarrow> u32 \<Rightarrow> u32" where
  "nextBackoff config current =
     (if current = 0 then rc_initialBackoffMs config
      else let doubled = ucast current * 2 :: u64 in
        ucast (if ucast (rc_maximumBackoffMs config) < doubled then ucast (rc_maximumBackoffMs config) else doubled))"

definition setFailure ::
  "('d, 'q, 'c, 'r, 'x, 'n, 'j) device_platform \<Rightarrow> int \<Rightarrow> byte list option \<Rightarrow> bool \<Rightarrow> bool \<Rightarrow>
     ('d, 'q, 'c, 'r, 'x, 'n) Device \<Rightarrow> ('d, 'q, 'c, 'r, 'x, 'n) Device" where
  "setFailure P httpStatus message advanceBackoff telemetryOperationFailure w =
     (if \<not> bw_mutex (dv_backend w) then w
      else let w = on_status (\<lambda>s. (stateText ''BACKOFF'' s)\<lparr>bs_lastHttpStatus := httpStatus,
                 bs_lastError := copy_array 128 (bs_lastError s) (case message of None \<Rightarrow> ascii ''unknown error'' | Some m \<Rightarrow> m)\<rparr>) w;
             w = (if telemetryOperationFailure
                  then (case uptimeMs P (on_status (\<lambda>s. s\<lparr>bs_telemetryUploadFailureCount := bs_telemetryUploadFailureCount s + 1,
                          bs_consecutiveFailures := (if bs_consecutiveFailures s \<noteq> UINT32_MAX then bs_consecutiveFailures s + 1
                            else bs_consecutiveFailures s)\<rparr>) w) of (up, w) \<Rightarrow>
                        case device_now P (on_status (\<lambda>s. s\<lparr>bs_lastErrorUptimeMs := up\<rparr>) w) of (now, w) \<Rightarrow>
                          on_status (\<lambda>s. s\<lparr>bs_lastErrorUnixMs := (if ts_trusted now then ts_unixMs now else -1)\<rparr>) w)
                  else w)
         in if advanceBackoff
            then on_worker (\<lambda>b. b\<lparr>bw_status := (bw_status b)\<lparr>bs_currentBackoffMs :=
                   nextBackoff (bw_config b) (bs_currentBackoffMs (bw_status b))\<rparr>\<rparr>) w
            else w)"

definition setSuccess ::
  "('d, 'q, 'c, 'r, 'x, 'n, 'j) device_platform \<Rightarrow> int \<Rightarrow> ('d, 'q, 'c, 'r, 'x, 'n) Device \<Rightarrow> ('d, 'q, 'c, 'r, 'x, 'n) Device" where
  "setSuccess P httpStatus w =
     (if \<not> bw_mutex (dv_backend w) then w
      else case uptimeMs P (on_status (\<lambda>s. (stateText ''CONNECTED'' s)\<lparr>bs_lastHttpStatus := httpStatus,
               bs_lastError := (bs_lastError s)[0 := 0], bs_currentBackoffMs := 0\<rparr>) w) of (up, w) \<Rightarrow>
           case device_now P (on_status (\<lambda>s. s\<lparr>bs_lastSuccessUptimeMs := up\<rparr>) w) of (now, w) \<Rightarrow>
             on_status (\<lambda>s. s\<lparr>bs_lastSuccessUnixMs := (if ts_trusted now then ts_unixMs now else -1),
               bs_consecutiveFailures := 0, bs_telemetryUploadSuccessCount := bs_telemetryUploadSuccessCount s + 1\<rparr>) w)"


section \<open>Configuration\<close>

definition notifyTask ::
  "('d, 'q, 'c, 'r, 'x, 'n, 'j) device_platform \<Rightarrow> ('d, 'q, 'c, 'r, 'x, 'n) Device \<Rightarrow> ('d, 'q, 'c, 'r, 'x, 'n) Device" where
  "notifyTask P w = (if bw_task (dv_backend w) then w\<lparr>dv_net := hp_notify (dp_http P) (dv_net w)\<rparr> else w)"

definition backend_applyConfig ::
  "('d, 'q, 'c, 'r, 'x, 'n, 'j) device_platform \<Rightarrow> GatewayConfig \<Rightarrow> GatewayIdentity \<Rightarrow>
     ('d, 'q, 'c, 'r, 'x, 'n) Device \<Rightarrow> ('d, 'q, 'c, 'r, 'x, 'n) Device" where
  "backend_applyConfig P config identity w =
     (if \<not> bw_mutex (dv_backend w) then w
      else let c = bw_config (dv_backend w);
               c = c\<lparr>rc_baseUrl := copy_array kBackendUrlCapacity (rc_baseUrl c) (gc_backendBaseUrl config),
                     rc_token := copy_array kBearerTokenCapacity (rc_token c) (gc_backendBearerToken config),
                     rc_batchSize := gc_backendBatchSize config, rc_timeoutMs := gc_backendHttpTimeoutMs config,
                     rc_initialBackoffMs := gc_backendInitialBackoffMs config,
                     rc_maximumBackoffMs := gc_backendMaximumBackoffMs config,
                     rc_heartbeatIntervalSeconds := gc_heartbeatIntervalSeconds config, rc_identity := identity\<rparr>;
               w = on_worker (\<lambda>b. b\<lparr>bw_config := c, bw_status := (bw_status b)\<lparr>bs_credentialConfigured := hd (rc_token c) \<noteq> 0,
                     bs_tlsEndpoint := isTls c, bs_currentBackoffMs := 0\<rparr>\<rparr>) w
           in case device_uptimeUs P w of (now, w) \<Rightarrow>
             notifyTask P (on_worker (\<lambda>b. b
               \<lparr>bw_heartbeatScheduler := snd (scheduler_configure (rc_heartbeatIntervalSeconds c) now (bw_heartbeatScheduler b)),
                bw_heartbeatStatus := (bw_heartbeatStatus b)\<lparr>hst_intervalSeconds := rc_heartbeatIntervalSeconds c\<rparr>\<rparr>) w))"

definition flushNow ::
  "('d, 'q, 'c, 'r, 'x, 'n, 'j) device_platform \<Rightarrow> ('d, 'q, 'c, 'r, 'x, 'n) Device \<Rightarrow> ('d, 'q, 'c, 'r, 'x, 'n) Device" where
  "flushNow P w = notifyTask P w"

definition backend_begin ::
  "('d, 'q, 'c, 'r, 'x, 'n, 'j) device_platform \<Rightarrow> GatewayConfig \<Rightarrow> GatewayIdentity \<Rightarrow> u32 \<Rightarrow> byte list option \<Rightarrow>
     ('d, 'q, 'c, 'r, 'x, 'n) Device \<Rightarrow> bool \<times> ('d, 'q, 'c, 'r, 'x, 'n) Device" where
  "backend_begin P config identity bootCount resetReason w =
     (case hp_createMutex (dp_http P) (dv_net w) of (created, n) \<Rightarrow>
      let w = on_worker (\<lambda>b. b\<lparr>bw_bound := True, bw_bootCount := bootCount,
            bw_resetReason := copyText 32 (bw_resetReason b) resetReason, bw_mutex := created\<rparr>) (w\<lparr>dv_net := n\<rparr>) in
      if \<not> created then (False, w)
      else let w = on_status (stateText ''IDLE'') (backend_applyConfig P config identity w) in
        case hp_createTask (dp_http P) (dv_net w) of (okay, n) \<Rightarrow>
          (okay, on_worker (\<lambda>b. b\<lparr>bw_task := okay\<rparr>) (w\<lparr>dv_net := n\<rparr>)))"


section \<open>Requests\<close>

definition networkAvailable ::
  "('d, 'q, 'c, 'r, 'x, 'n, 'j) device_platform \<Rightarrow> RuntimeConfig \<Rightarrow> ('d, 'q, 'c, 'r, 'x, 'n) Device \<Rightarrow>
     bool \<times> ('d, 'q, 'c, 'r, 'x, 'n) Device" where
  "networkAvailable P config w =
     (case wp_connected (dp_wifi P) (dv_driver w) of (isConnected, x) \<Rightarrow>
      if isConnected then (True, w\<lparr>dv_driver := x\<rparr>)
      else case wp_getMode (dp_wifi P) x of (mode, x) \<Rightarrow>
        let apActive = (mode = WIFI_AP \<or> mode = WIFI_AP_STA) in
        if startsWith (Some (rc_baseUrl config)) (Some (ascii ''http://'')) \<and> apActive
        then (case wp_stationNum (dp_wifi P) x of (stations, x) \<Rightarrow> (0 < stations, w\<lparr>dv_driver := x\<rparr>))
        else (False, w\<lparr>dv_driver := x\<rparr>))"

datatype http_method = Method_GET | Method_POST "byte list"

text \<open>The status, what is left in \<open>response\<close> and in the caller's \<open>error\<close> buffer, which no caller passes as a null pointer.
  Other tasks run during the exchange.\<close>
definition httpExchange ::
  "('d, 'q, 'c, 'r, 'x, 'n, 'j) device_platform \<Rightarrow> RuntimeConfig \<Rightarrow> http_method \<Rightarrow> byte list \<Rightarrow>
     ('d, 'q, 'c, 'r, 'x, 'n) Device \<Rightarrow> (int \<times> byte list \<times> byte list) \<times> ('d, 'q, 'c, 'r, 'x, 'n) Device" where
  "httpExchange P config method error w =
     (let H = dp_http P;
          n = hp_addHeader H (ascii ''Accept'') (ascii ''application/json'') (dv_net w);
          n = hp_addHeader H (ascii ''Authorization'') (ascii ''Bearer '' @ cstr (rc_token config)) n in
      case (case method of
              Method_POST body \<Rightarrow> hp_POST H body (hp_addHeader H (ascii ''Content-Type'') (ascii ''application/json'') n)
            | Method_GET \<Rightarrow> hp_GET H n) of (status, n) \<Rightarrow>
      case (if 0 < status then (case hp_getString H n of (text, n) \<Rightarrow> ((text, error), n))
            else (([], snprintf_text error (ascii ''transport error '' @ hp_errorToString H status)), n)) of ((response, error), n) \<Rightarrow>
        ((status, response, error), dp_others P (w\<lparr>dv_net := hp_end H n\<rparr>)))"

definition performRequest ::
  "('d, 'q, 'c, 'r, 'x, 'n, 'j) device_platform \<Rightarrow> RuntimeConfig \<Rightarrow> http_method \<Rightarrow> byte list \<Rightarrow> byte list \<Rightarrow> bool \<Rightarrow>
     ('d, 'q, 'c, 'r, 'x, 'n) Device \<Rightarrow> (int \<times> byte list \<times> byte list) \<times> ('d, 'q, 'c, 'r, 'x, 'n) Device" where
  "performRequest P config method path error requireTrustedTime w =
     (let error = error[0 := 0] in
      case networkAvailable P config w of (available, w) \<Rightarrow>
      if \<not> available then ((0, [], snprintf_text error (ascii ''Wi-Fi disconnected'')), w)
      else let tls = isTls config in
        case (if tls \<and> requireTrustedTime
              then (if \<not> bw_bound (dv_backend w) then (True, w)
                    else case device_now P w of (now, w) \<Rightarrow> (\<not> ts_trusted now, w))
              else (False, w)) of (refused, w) \<Rightarrow>
        if refused then ((0, [], snprintf_text error (ascii ''TLS requires trusted time'')), w)
        else case hp_begin (dp_http P) (if tls then Some kGtsRootR4Pem else None) (rc_timeoutMs config)
                    (cstr (rc_baseUrl config) @ path) (dv_net w) of (begun, n) \<Rightarrow>
          let w = w\<lparr>dv_net := n\<rparr> in
          if \<not> begun then ((0, [], snprintf_text error (ascii ''HTTP client initialization failed'')), w)
          else httpExchange P config method error w)"

definition testConnection ::
  "('d, 'q, 'c, 'r, 'x, 'n, 'j) device_platform \<Rightarrow> byte list \<Rightarrow> ('d, 'q, 'c, 'r, 'x, 'n) Device \<Rightarrow>
     (bool \<times> int \<times> byte list) \<times> ('d, 'q, 'c, 'r, 'x, 'n) Device" where
  "testConnection P error w =
     (case performRequest P (configSnapshot (dv_backend w)) Method_GET (ascii ''/api/v1/iot/gateway/ping'') error True w of
        ((httpStatus, _, error), w) \<Rightarrow> ((httpStatus = 200, httpStatus, error), w))"

section \<open>Uploading\<close>

text \<open>The batch and the request that carries it: the records with the answer, or \<open>None\<close> where no request is made.\<close>
definition uploadRequest ::
  "('d, 'q, 'c, 'r, 'x, 'n, 'j) device_platform \<Rightarrow> ('d, 'q, 'c, 'r, 'x, 'n) Device \<Rightarrow>
     (QueueRecord list \<times> int \<times> byte list \<times> byte list) option \<times> ('d, 'q, 'c, 'r, 'x, 'n) Device" where
  "uploadRequest P w =
     (let config = configSnapshot (dv_backend w) in
      case DurableQueue_peek (dp_queue P) (unat (rc_batchSize config)) (device_queue w) of ((okay, records), q, h) \<Rightarrow>
      let w = putQueue q h w in
      if \<not> okay \<or> records = []
      then let w = setFailure P 0 (Some (ascii ''queue batch read failed'')) True False w in
        (None, putQueue (recordFilesystemError (gw_queue (dv_gateway w))) (gw_flash (dv_gateway w)) w)
      else case serializeBackendBatch (dp_json P) (rc_identity config) records of (serialized, payload) \<Rightarrow>
        if \<not> serialized then (None, setFailure P 0 (Some (ascii ''backend batch serialization failed'')) True False w)
        else case (if bw_mutex (dv_backend w)
                   then (case uptimeMs P (on_status (stateText ''UPLOADING'') w) of (up, w) \<Rightarrow>
                           on_status (\<lambda>s. s\<lparr>bs_lastAttemptUptimeMs := up\<rparr>) w)
                   else w) of w \<Rightarrow>
          (case performRequest P config (Method_POST payload) (ascii ''/api/v1/iot/telemetry/batch'') (replicate 128 0) True w of
             ((httpStatus, response, error), w) \<Rightarrow> (Some (records, httpStatus, response, error), w)))"

definition terminalAction :: "QueueRecord \<Rightarrow> TelemetryPacket \<Rightarrow> BackendRecordResult \<Rightarrow> QueueTerminalAction" where
  "terminalAction record telemetry result =
     \<lparr>ta_recordId = q_recordId record,
      ta_key = makeTelemetryKey (Some (t_nodeId telemetry)) (t_persistentSessionId telemetry) (t_sequence telemetry),
      ta_permanentlyRejected = (br_status result = BackendRecordStatus_kRejectedInvalid)\<rparr>"

text \<open>The loop over the results; \<open>None\<close> where a queued payload does not decode.\<close>
fun terminalActions ::
  "('d, 'q, 'c, 'r, 'x, 'n, 'j) device_platform \<Rightarrow> QueueRecord list \<Rightarrow> QueueTerminalAction list \<Rightarrow> BackendRecordResult list \<Rightarrow>
     ('d, 'q, 'c, 'r, 'x, 'n) Device \<Rightarrow> QueueTerminalAction list option \<times> ('d, 'q, 'c, 'r, 'x, 'n) Device" where
  "terminalActions P records actions [] w = (Some actions, w)"
| "terminalActions P records actions (result # results) w =
     (let record = records ! br_index result in
      case decodeTelemetry (Some (q_rawPayload record)) (unat (q_payloadLength record)) TelemetryPacket_init of (decoded, telemetry) \<Rightarrow>
      if decoded \<noteq> DecodeStatus_kOk then (None, w)
      else let action = terminalAction record telemetry result;
               w = (if ta_permanentlyRejected action
                    then backend_log P (LogPermanentRejection (t_nodeId telemetry) (t_persistentSessionId telemetry) (t_sequence telemetry)
                           (if hd (br_reason result) = 0 then ascii ''unspecified'' else br_reason result)) w
                    else w)
           in terminalActions P records (actions @ [action]) results w)"

text \<open>The message of a request that may not dequeue.\<close>
definition requestFailureMessage :: "int \<Rightarrow> byte list \<Rightarrow> byte list" where
  "requestFailureMessage httpStatus error =
     (if hd error \<noteq> 0 then error
      else if httpStatus = 401 \<or> httpStatus = 403 then ascii ''backend authentication rejected; queue retained''
      else ascii ''backend request failed; queue retained'')"

text \<open>What follows the answer: \<open>(requestCompleted, completeSuccess)\<close>.\<close>
definition uploadSettle ::
  "('d, 'q, 'c, 'r, 'x, 'n, 'j) device_platform \<Rightarrow> QueueRecord list \<Rightarrow> int \<Rightarrow> byte list \<Rightarrow> byte list \<Rightarrow>
     ('d, 'q, 'c, 'r, 'x, 'n) Device \<Rightarrow> (bool \<times> bool) \<times> ('d, 'q, 'c, 'r, 'x, 'n) Device" where
  "uploadSettle P records httpStatus response error w =
     (if \<not> backendHttpResponseMayDequeue httpStatus
      then ((False, False), backend_log P (LogUploadFailed httpStatus)
              (noteUploadRetry P (setFailure P httpStatus (Some (requestFailureMessage httpStatus error)) True True w)))
      else case parseBackendBatchResponse (dp_json P) (Some response) (length records) of
        None \<Rightarrow> ((False, False), noteUploadRetry P
          (setFailure P httpStatus (Some (ascii ''incompatible/malformed batch response; queue retained'')) True True w))
      | Some results \<Rightarrow>
         (case terminalActions P records [] results w of
            (None, w) \<Rightarrow> ((False, False), setFailure P httpStatus (Some (ascii ''queued payload unexpectedly failed local decode'')) True False w)
          | (Some actions, w) \<Rightarrow>
             (case (if actions = [] then (True, device_queue w) else DurableQueue_finish (dp_queue P) actions (device_queue w)) of
                (finished, q, h) \<Rightarrow>
              let w = putQueue q h w in
              if \<not> finished then ((False, False), setFailure P httpStatus (Some (ascii ''terminal queue dequeue failed'')) True False w)
              else if \<not> backendBatchResponseComplete (length records) results
              then ((True, False), noteUploadRetry P
                     (setFailure P httpStatus (Some (ascii ''partial batch response; missing records retained'')) True True w))
              else let w = setSuccess P httpStatus w in
                ((True, True), backend_log P (LogBatchTerminal (length actions) (DurableQueue_size (gw_queue (dv_gateway w)))) w))))"

definition uploadOnce ::
  "('d, 'q, 'c, 'r, 'x, 'n, 'j) device_platform \<Rightarrow> ('d, 'q, 'c, 'r, 'x, 'n) Device \<Rightarrow> (bool \<times> bool) \<times> ('d, 'q, 'c, 'r, 'x, 'n) Device" where
  "uploadOnce P w =
     (case uploadRequest P w of
        (None, w) \<Rightarrow> ((False, False), w)
      | (Some (records, httpStatus, response, error), w) \<Rightarrow> uploadSettle P records httpStatus response error w)"


section \<open>Heartbeats\<close>

text \<open>A name of an enumerator that is stored as a byte.\<close>
definition stored_name :: "('e \<Rightarrow> u8) \<Rightarrow> ('e \<Rightarrow> string) \<Rightarrow> 'e list \<Rightarrow> u8 \<Rightarrow> string" where
  "stored_name code name es v = (case filter (\<lambda>e. code e = v) es of e # _ \<Rightarrow> name e | [] \<Rightarrow> ''UNKNOWN'')"

definition storedTypeName :: "u8 \<Rightarrow> string" where
  "storedTypeName = stored_name CommandType_u8 commandTypeName
     [CommandType_kNone, CommandType_kEnterMaintenanceNow, CommandType_kScheduleMaintenanceAt, CommandType_kSetPollIntervalMinutes]"

definition storedStateName :: "u8 \<Rightarrow> string" where
  "storedStateName = stored_name CommandState_u8 commandStateName
     [CommandState_kNone, CommandState_kPending, CommandState_kSent, CommandState_kConfirmed, CommandState_kFailed, CommandState_kCancelled]"

definition storedResultName :: "u8 \<Rightarrow> string" where
  "storedResultName = stored_name CommandResultCode_u8 commandResultName
     [CommandResultCode_kApplied, CommandResultCode_kAlreadyApplied, CommandResultCode_kInvalidArgument,
      CommandResultCode_kRtcUnavailable, CommandResultCode_kRtcTimeUntrusted, CommandResultCode_kScheduleUnrepresentable,
      CommandResultCode_kStorageError, CommandResultCode_kInternalError, CommandResultCode_kNone]"

definition zero_text :: "nat \<Rightarrow> byte list \<Rightarrow> byte list" where
  "zero_text n s = copyText n (replicate n 0) (Some s)"

definition snapshotGateway :: "byte list \<Rightarrow> RuntimeConfig \<Rightarrow> HeartbeatGateway" where
  "snapshotGateway buildFlavor config =
     \<lparr>hg_gatewayId = zero_text kGatewayIdCapacity (gi_gatewayId (rc_identity config)),
      hg_mac = zero_text 18 (gi_hardwareMac (rc_identity config)), hg_firmwareVersion = zero_text 17 firmware_kVersion,
      hg_protocolVersion = kVersion, hg_buildFlavor = zero_text 24 buildFlavor\<rparr>"

definition snapshotRuntime :: "'n http_platform \<Rightarrow> 'n \<Rightarrow> u64 \<Rightarrow> BackendWorker \<Rightarrow> HeartbeatRuntime" where
  "snapshotRuntime H n up b =
     \<lparr>hr_uptimeSeconds = up div 1000, hr_resetReason = zero_text 32 (bw_resetReason b), hr_bootCount = bw_bootCount b,
      hr_freeHeapBytes = hp_freeHeap H n, hr_minFreeHeapBytes = hp_minFreeHeap H n,
      hr_largestFreeHeapBlockBytes = hp_largestFreeBlock H n, hr_sketchSizeBytes = hp_sketchSize H n,
      hr_freeSketchSpaceBytes = hp_freeSketchSpace H n, hr_flashSizeBytes = hp_flashChipSize H n\<rparr>"

definition snapshotNetwork :: "WifiStatus \<Rightarrow> BackendStatus \<Rightarrow> HeartbeatNetwork" where
  "snapshotNetwork wifi backend =
     \<lparr>hn_wifiConnected = ws_connected wifi, hn_ssid = zero_text kWifiSsidCapacity (ws_ssid wifi),
      hn_wifiRssiDbm = ws_rssiDbm wifi, hn_localIp = zero_text 16 (ws_localIp wifi),
      hn_backendConnectivityState =
        classifyBackendConnectivity (bs_telemetryUploadSuccessCount backend) (bs_consecutiveFailures backend),
      hn_lastBackendSuccessUnixMs = bs_lastSuccessUnixMs backend, hn_lastBackendErrorUnixMs = bs_lastErrorUnixMs backend,
      hn_consecutiveBackendFailures = bs_consecutiveFailures backend\<rparr>"

definition snapshotTime :: "TimeStatus \<Rightarrow> HeartbeatTime" where
  "snapshotTime t = \<lparr>ht_valid = tst_trusted t, ht_currentUnixMs = (if tst_trusted t then tst_currentUnixMs t else -1),
     ht_lastNtpSyncUnixMs = (if tst_trusted t then tst_lastSyncUnixMs t else -1)\<rparr>"

definition snapshotLora :: "('d, 'q, 'c, 'r) Gateway \<Rightarrow> HeartbeatLora" where
  "snapshotLora g = (let radio = radio_diagnostics g; p = rd_processing radio in
     \<lparr>hl_paired = radio_paired g, hl_pairedNodeId = the (radio_pairedNodeId (Some (replicate kNodeIdCapacity 0)) g),
      hl_latestReceptionAvailable = (rd_lastRxUptimeUs radio \<noteq> 0), hl_lastRxUnixMs = rd_lastRxUnixMs radio,
      hl_latestRssiDbm = rd_lastRssiDbm radio, hl_latestSnrDb = rd_lastSnrDb radio,
      hl_latestFrequencyErrorHz = rd_lastFrequencyErrorHz radio, hl_receivedPacketCount = rd_receivedPackets radio,
      hl_validTelemetryCount = ps_validTelemetryPackets p,
      hl_invalidPacketCount = rd_crcErrors radio + rd_invalidLengthPackets radio + rd_readErrors radio + ps_decodeErrors p,
      hl_crcErrorCount = rd_crcErrors radio, hl_protocolRejectedPacketCount = ps_decodeErrors p,
      hl_unpairedRejectedPacketCount = ps_unknownNodePackets p\<rparr>)"

definition snapshotAck :: "'d PacketProcessingStats \<Rightarrow> 'd HeartbeatAck" where
  "snapshotAck p = (let count = ps_ackSent p + ps_ackFailures p in
     \<lparr>ha_count = count, ha_successCount = ps_ackSent p, ha_failureCount = ps_ackFailures p,
      ha_latestAvailable = (0 < count \<and> 0 < ps_lastRxToAckCompleteUs p \<and> ps_lastRxToAckStartUs p \<le> ps_lastRxToAckCompleteUs p),
      ha_latestRxToStartUs = ps_lastRxToAckStartUs p, ha_latestRxToCompleteUs = ps_lastRxToAckCompleteUs p,
      ha_rxToStart = al_rxToStart (ps_successfulAckLatency p), ha_rxToComplete = al_rxToComplete (ps_successfulAckLatency p),
      ha_txDuration = al_txDuration (ps_successfulAckLatency p)\<rparr>)"

text \<open>The age of a record in milliseconds; negative when it is unknown. The clocks differ by far less than \<open>2 ^ 63\<close>.\<close>
definition recordAgeMs ::
  "('d, 'q, 'c, 'r, 'x, 'n, 'j) device_platform \<Rightarrow> RuntimeConfig \<Rightarrow> TimeStatus \<Rightarrow> ReceptionMetadata \<Rightarrow>
     ('d, 'q, 'c, 'r, 'x, 'n) Device \<Rightarrow> i64 \<times> ('d, 'q, 'c, 'r, 'x, 'n) Device" where
  "recordAgeMs P config t m w =
     (if tst_trusted t \<and> rm_gatewayTimeTrusted m then (tst_currentUnixMs t - rm_gatewayReceivedUnixMs m, w)
      else if rm_gatewayBootSessionId m = gi_bootSessionId (rc_identity config)
      then (case uptimeMs P w of (up, w) \<Rightarrow> (up - rm_gatewayUptimeMs m, w))
      else (-1, w))"

definition snapshotQueue ::
  "('d, 'q, 'c, 'r, 'x, 'n, 'j) device_platform \<Rightarrow> RuntimeConfig \<Rightarrow> BackendStatus \<Rightarrow> TimeStatus \<Rightarrow>
     ('d, 'q, 'c, 'r, 'x, 'n) Device \<Rightarrow> HeartbeatQueue \<times> ('d, 'q, 'c, 'r, 'x, 'n) Device" where
  "snapshotQueue P config backend t w =
     (let depth = of_nat (DurableQueue_size (gw_queue (dv_gateway w)));
          v = \<lparr>hq_depth = depth, hq_capacity = of_nat (DurableQueue_capacity (gw_queue (dv_gateway w))),
               hq_oldestAgeAvailable = False, hq_oldestRecordAgeSeconds = 0,
               hq_telemetryUploadSuccessCount = bs_telemetryUploadSuccessCount backend,
               hq_telemetryUploadFailureCount = bs_telemetryUploadFailureCount backend\<rparr> in
      if depth = 0 then (v, w)
      else case DurableQueue_peek (dp_queue P) 1 (device_queue w) of ((okay, oldest), q, h) \<Rightarrow>
        let w = putQueue q h w in
        if \<not> okay \<or> oldest = [] then (v, w)
        else case recordAgeMs P config t (q_reception (hd oldest)) w of (ageMs, w) \<Rightarrow>
          (if 0 \<le> sint ageMs then v\<lparr>hq_oldestAgeAvailable := True, hq_oldestRecordAgeSeconds := ageMs div 1000\<rparr> else v, w))"

definition snapshotCommands :: "'d RadioDiagnostics \<Rightarrow> GatewayCommand \<Rightarrow> HeartbeatCommands" where
  "snapshotCommands radio command =
     \<lparr>hc_pending = in_flight (g_state command), hc_pendingCommandId = g_commandId command,
      hc_pendingCommandType = zero_text 40 (ascii (storedTypeName (g_type command))),
      hc_pendingCommandState = zero_text 16 (ascii (storedStateName (g_state command))),
      hc_lastAvailable = (g_commandId command \<noteq> 0), hc_lastCommandId = g_commandId command,
      hc_lastCommandResult = zero_text 32 (ascii (storedResultName (g_result command))),
      hc_commandsSentCount = rd_commandsSentCount radio,
      hc_commandResultsReceivedCount = ps_validCommandResultPackets (rd_processing radio)\<rparr>"

definition device_timeStatus ::
  "('d, 'q, 'c, 'r, 'x, 'n, 'j) device_platform \<Rightarrow> ('d, 'q, 'c, 'r, 'x, 'n) Device \<Rightarrow> TimeStatus \<times> ('d, 'q, 'c, 'r, 'x, 'n) Device" where
  "device_timeStatus P w = (let g = dv_gateway w in
     if \<not> tm_trusted (gw_time g) then (time_status None (gw_time g), w)
     else case rp_gettimeofday (dp_radio P) (gw_air g) of (clock, r) \<Rightarrow>
       (time_status clock (gw_time g), w\<lparr>dv_gateway := g\<lparr>gw_air := r\<rparr>\<rparr>))"

definition captureHeartbeatSnapshot ::
  "('d, 'q, 'c, 'r, 'x, 'n, 'j) device_platform \<Rightarrow> RuntimeConfig \<Rightarrow> ('d, 'q, 'c, 'r, 'x, 'n) Device \<Rightarrow>
     'd HeartbeatSnapshot option \<times> ('d, 'q, 'c, 'r, 'x, 'n) Device" where
  "captureHeartbeatSnapshot P config w =
     (if \<not> bw_bound (dv_backend w) then (None, w)
      else case uptimeMs P w of (up, w) \<Rightarrow>
        let runtime = snapshotRuntime (dp_http P) (dv_net w) up (dv_backend w) in
        case wifi_status (dp_wifi P) (dv_wifi w, dv_driver w) of (wifi, x) \<Rightarrow>
        let w = w\<lparr>dv_driver := x\<rparr>;
            backend = backend_status (dv_backend w) in
        case device_timeStatus P w of (t, w) \<Rightarrow>
        let g = dv_gateway w; radio = radio_diagnostics g in
        case snapshotQueue P config backend t w of (queue, w) \<Rightarrow>
          (Some \<lparr>hs_heartbeatIntervalSeconds = rc_heartbeatIntervalSeconds config,
             hs_gateway = snapshotGateway (hp_buildFlavor (dp_http P)) config, hs_runtime = runtime,
             hs_network = snapshotNetwork wifi backend, hs_time = snapshotTime t, hs_lora = snapshotLora g,
             hs_ack = snapshotAck (rd_processing radio), hs_queue = queue,
             hs_commands = snapshotCommands radio (store_current (gw_commands g) GatewayCommand_zero)\<rparr>, w))"

definition queueEmpty :: "('d, 'q, 'c, 'r, 'x, 'n) Device \<Rightarrow> bool" where
  "queueEmpty w = (DurableQueue_size (gw_queue (dv_gateway w)) = 0)"

text \<open>The attempt after it was marked: \<open>(httpStatus, deferredForTelemetry, error)\<close>.\<close>
definition heartbeatRequest ::
  "('d, 'q, 'c, 'r, 'x, 'n, 'j) device_platform \<Rightarrow> ('d, 'q, 'c, 'r, 'x, 'n) Device \<Rightarrow>
     (int \<times> bool \<times> byte list) \<times> ('d, 'q, 'c, 'r, 'x, 'n) Device" where
  "heartbeatRequest P w =
     (let config = configSnapshot (dv_backend w); error = replicate 128 0 in
      if bw_bound (dv_backend w) \<and> \<not> queueEmpty w then ((0, True, error), w)
      else case networkAvailable P config w of (available, w) \<Rightarrow>
        if \<not> available then ((0, False, snprintf_text error (ascii ''Wi-Fi unavailable'')), w)
        else if hd (rc_token config) = 0 then ((0, False, snprintf_text error (ascii ''backend credential is not configured'')), w)
        else case captureHeartbeatSnapshot P config w of (snapshot, w) \<Rightarrow>
          (case map_option (serializeHeartbeat (dp_json P) (dp_double P)) snapshot of
             Some (True, payload) \<Rightarrow>
               if bw_bound (dv_backend w) \<and> \<not> queueEmpty w then ((0, True, error), w)
               else (case performRequest P (config\<lparr>rc_timeoutMs := (if 5000 < rc_timeoutMs config then 5000 else rc_timeoutMs config)\<rparr>)
                          (Method_POST payload) (ascii kHeartbeatEndpoint) error False w of
                       ((httpStatus, _, error), w) \<Rightarrow> ((httpStatus, False, error), w))
           | _ \<Rightarrow> ((0, False, snprintf_text error (ascii ''heartbeat serialization failed'')), w)))"

definition heartbeatFailureText :: "int \<Rightarrow> byte list \<Rightarrow> byte list \<Rightarrow> byte list" where
  "heartbeatFailureText httpStatus error old =
     (if hd error \<noteq> 0 then copyText 128 old (Some error)
      else if 0 < httpStatus then snprintf_text old (ascii ''HTTP '' @ dec_digits (nat httpStatus))
      else copyText 128 old (Some (ascii ''heartbeat request failed'')))"

definition on_heartbeat :: "(HeartbeatStatus \<Rightarrow> HeartbeatStatus) \<Rightarrow> ('d, 'q, 'c, 'r, 'x, 'n) Device \<Rightarrow> ('d, 'q, 'c, 'r, 'x, 'n) Device" where
  "on_heartbeat f = on_worker (\<lambda>b. b\<lparr>bw_heartbeatStatus := f (bw_heartbeatStatus b)\<rparr>)"

definition attemptHeartbeat ::
  "('d, 'q, 'c, 'r, 'x, 'n, 'j) device_platform \<Rightarrow> ('d, 'q, 'c, 'r, 'x, 'n) Device \<Rightarrow> ('d, 'q, 'c, 'r, 'x, 'n) Device" where
  "attemptHeartbeat P w =
     (if bw_bound (dv_backend w) \<and> \<not> queueEmpty w then w
      else case uptimeMs P w of (attemptUptimeMs, w) \<Rightarrow>
        case device_now P w of (attemptTime, w) \<Rightarrow>
        if \<not> bw_mutex (dv_backend w) then w
        else case device_uptimeUs P w of (now, w) \<Rightarrow>
          let w = on_heartbeat (\<lambda>s. s\<lparr>hst_inProgress := True, hst_lastAttemptUptimeMs := attemptUptimeMs,
                    hst_lastAttemptUnixMs := (if ts_trusted attemptTime then ts_unixMs attemptTime else -1)\<rparr>)
                  (on_worker (\<lambda>b. b\<lparr>bw_heartbeatScheduler := markAttempt now (bw_heartbeatScheduler b)\<rparr>) w) in
          case heartbeatRequest P w of ((httpStatus, deferredForTelemetry, error), w) \<Rightarrow>
          let success = heartbeatHttpSucceeded httpStatus in
          case device_now P w of (completedAt, w) \<Rightarrow>
          if \<not> bw_mutex (dv_backend w) then w
          else let w = on_heartbeat (\<lambda>s. s\<lparr>hst_inProgress := False, hst_lastHttpStatus := httpStatus\<rparr>) w in
            if deferredForTelemetry
            then backend_log P LogHeartbeatDeferred
              (on_heartbeat (\<lambda>s. s\<lparr>hst_lastError := copyText 128 (hst_lastError s) (Some (ascii ''deferred for durable telemetry''))\<rparr>) w)
            else if success
            then (case uptimeMs P w of (up, w) \<Rightarrow>
              backend_log P (LogHeartbeatDelivered httpStatus)
              (on_heartbeat (\<lambda>s. s\<lparr>hst_successCount := hst_successCount s + 1, hst_lastSuccessUptimeMs := up,
                 hst_lastSuccessUnixMs := (if ts_trusted completedAt then ts_unixMs completedAt else -1),
                 hst_lastError := (hst_lastError s)[0 := 0]\<rparr>) w))
            else backend_log P (LogHeartbeatFailed httpStatus)
              (on_heartbeat (\<lambda>s. s\<lparr>hst_failureCount := hst_failureCount s + 1,
                 hst_lastError := heartbeatFailureText httpStatus error (hst_lastError s)\<rparr>) w))"


section \<open>The task\<close>

definition backend_sleep ::
  "('d, 'q, 'c, 'r, 'x, 'n, 'j) device_platform \<Rightarrow> u32 \<Rightarrow> ('d, 'q, 'c, 'r, 'x, 'n) Device \<Rightarrow> ('d, 'q, 'c, 'r, 'x, 'n) Device" where
  "backend_sleep P ms w = dp_others P (w\<lparr>dv_net := hp_sleep (dp_http P) ms (dv_net w)\<rparr>)"

text \<open>The pause after an upload that did not settle its batch: the backoff and a random part of up to a fifth of it.\<close>
definition backoffPause ::
  "('d, 'q, 'c, 'r, 'x, 'n, 'j) device_platform \<Rightarrow> ('d, 'q, 'c, 'r, 'x, 'n) Device \<Rightarrow> ('d, 'q, 'c, 'r, 'x, 'n) Device" where
  "backoffPause P w =
     (let current = bs_currentBackoffMs (backend_status (dv_backend w)) in
      if current = 0 then backend_sleep P 0 w
      else case hp_random (dp_http P) (dv_net w) of (r, n) \<Rightarrow>
        backend_sleep P (current + r mod (current div 5 + 1)) (w\<lparr>dv_net := n\<rparr>))"

definition idleRound ::
  "('d, 'q, 'c, 'r, 'x, 'n, 'j) device_platform \<Rightarrow> ('d, 'q, 'c, 'r, 'x, 'n) Device \<Rightarrow> ('d, 'q, 'c, 'r, 'x, 'n) Device" where
  "idleRound P w =
     (let w = (if bw_mutex (dv_backend w) then on_status (stateText ''IDLE'') w else w) in
      case (if bw_mutex (dv_backend w)
            then (case device_uptimeUs P w of (now, w) \<Rightarrow> (scheduler_due now (bw_heartbeatScheduler (dv_backend w)), w))
            else (False, w)) of (heartbeatDue, w) \<Rightarrow>
      if heartbeatDue \<and> bw_bound (dv_backend w) \<and> queueEmpty w then attemptHeartbeat P w
      else backend_sleep P 1000 w)"

definition worker_round ::
  "('d, 'q, 'c, 'r, 'x, 'n, 'j) device_platform \<Rightarrow> ('d, 'q, 'c, 'r, 'x, 'n) Device \<Rightarrow> ('d, 'q, 'c, 'r, 'x, 'n) Device" where
  "worker_round P w =
     (if \<not> bw_bound (dv_backend w) \<or> queueEmpty w then idleRound P w
      else let config = configSnapshot (dv_backend w) in
        case networkAvailable P config w of (available, w) \<Rightarrow>
        if \<not> available
        then backend_sleep P 5000 (setFailure P 0 (Some (ascii ''Wi-Fi unavailable; queue retained'')) False False w)
        else if hd (rc_token config) = 0
        then backend_sleep P 5000 (setFailure P 0 (Some (ascii ''backend credential is not configured; queue retained'')) False False w)
        else case (if isTls config then (case device_now P w of (now, w) \<Rightarrow> (\<not> ts_trusted now, w)) else (False, w)) of (waiting, w) \<Rightarrow>
        if waiting
        then backend_sleep P 5000 (setFailure P 0 (Some (ascii ''HTTPS waiting for trusted NTP time; queue retained'')) False False w)
        else case uploadOnce P w of ((requestCompleted, completeSuccess), w) \<Rightarrow>
          if requestCompleted \<and> completeSuccess then backend_sleep P 50 w else backoffPause P w)"

end
