(* ===== verification/Upload_Properties.thy ===== *)
theory Upload_Properties
  imports Backend_Worker
begin

text \<open>
  What the upload task promises: only records that the backend settled leave the queue, whatever other tasks do to the
  queue during the request, and the backoff between attempts doubles up to its limit.
\<close>

section \<open>What leaves the queue state alone\<close>

named_theorems queue_frame "operations that do not touch the queue or its flash"

lemma putQueue_queue [simp]: "device_queue (putQueue q h w) = (q, h)"
  by (simp add: device_queue_def putQueue_def)

lemma putQueue_backend [simp]: "dv_backend (putQueue q h w) = dv_backend w"
  by (simp add: putQueue_def)

lemma worker_frame [queue_frame]:
  "device_queue (on_worker f w) = device_queue w" "device_queue (on_status g w) = device_queue w"
  "device_queue (on_heartbeat k w) = device_queue w" "device_queue (backend_log P l w) = device_queue w"
  "device_queue (w\<lparr>dv_net := n\<rparr>) = device_queue w" "device_queue (w\<lparr>dv_driver := x\<rparr>) = device_queue w"
  by (simp_all add: on_worker_def on_status_def on_heartbeat_def backend_log_def device_queue_def)

lemma gateway_now_queue: "gateway_now R g = (t, g') \<Longrightarrow> gw_queue g' = gw_queue g \<and> gw_flash g' = gw_flash g"
  by (auto simp: gateway_now_def split: if_splits prod.splits)

lemma clock_frame [queue_frame]:
  "device_uptimeUs P w = (us, w') \<Longrightarrow> device_queue w' = device_queue w \<and> dv_backend w' = dv_backend w"
  "uptimeMs P w = (us, w') \<Longrightarrow> device_queue w' = device_queue w \<and> dv_backend w' = dv_backend w"
  "device_now P w = (t, w') \<Longrightarrow> device_queue w' = device_queue w \<and> dv_backend w' = dv_backend w"
  by (auto simp: device_uptimeUs_def uptimeMs_def device_now_def device_queue_def dest: gateway_now_queue split: prod.splits)

lemma networkAvailable_frame [queue_frame]:
  "networkAvailable P config w = (b, w') \<Longrightarrow> device_queue w' = device_queue w \<and> dv_backend w' = dv_backend w"
  by (auto simp: networkAvailable_def queue_frame Let_def split: prod.splits if_splits)

lemma setFailure_queue [queue_frame]: "device_queue (setFailure P st m adv tel w) = device_queue w"
  by (auto simp: setFailure_def Let_def queue_frame split: prod.splits dest!: clock_frame)

lemma setSuccess_queue [queue_frame]: "device_queue (setSuccess P st w) = device_queue w"
  by (auto simp: setSuccess_def Let_def queue_frame split: prod.splits dest!: clock_frame)

lemma terminalActions_queue [queue_frame]:
  "terminalActions P records acts results w = (x, w') \<Longrightarrow> device_queue w' = device_queue w"
proof (induction results arbitrary: acts w)
  case (Cons r rs)
  show ?case using Cons.prems by (auto simp: Let_def split: prod.splits if_splits dest!: Cons.IH simp: queue_frame)
qed simp

text \<open>The actions are one per result, in order, each on the record the result names.\<close>
lemma terminalActions_ids:
  "terminalActions P records acts results w = (Some acts', w') \<Longrightarrow>
     map ta_recordId acts' = map ta_recordId acts @ map (\<lambda>r. q_recordId (records ! br_index r)) results"
proof (induction results arbitrary: acts w)
  case (Cons r rs)
  then show ?case by (auto simp: Let_def terminalAction_def split: prod.splits if_splits dest!: Cons.IH)
qed simp


text \<open>The queue: the numbers of its records, oldest first, with the files that hold them.\<close>
definition stored_records ::
  "('q \<Rightarrow> string \<Rightarrow> byte list option) \<Rightarrow> DurableQueue \<times> 'q \<Rightarrow> (u64 \<times> byte list option) list" where
  "stored_records content s = (case usable (fst s) of None \<Rightarrow> [] | Some core \<Rightarrow> queue_view core (record_files content (snd s)))"


text \<open>The records that were queued no later than number \<open>i\<close>.\<close>
definition waiting ::
  "('q \<Rightarrow> string \<Rightarrow> byte list option) \<Rightarrow> u64 \<Rightarrow> ('d, 'q, 'c, 'r, 'x, 'n) Device \<Rightarrow> (u64 \<times> byte list option) list" where
  "waiting content i w = filter (\<lambda>(j, _). j \<le> i) (stored_records content (device_queue w))"

text \<open>A run of the upload task in which \<open>k\<close> uploads succeed completely with a batch size of at least \<open>n\<close>, any number of
  others fail, and other tasks change the queue between them as \<open>queue_after\<close> allows.\<close>
inductive uploads ::
  "('d, 'q, 'c, 'r, 'x, 'n, 'j) device_platform \<Rightarrow> ('q \<Rightarrow> string \<Rightarrow> byte list option) \<Rightarrow> nat \<Rightarrow> nat \<Rightarrow>
     ('d, 'q, 'c, 'r, 'x, 'n) Device \<Rightarrow> ('d, 'q, 'c, 'r, 'x, 'n) Device \<Rightarrow> bool"
  for P content n where
  uploads_none: "uploads P content n 0 w w"
| uploads_failed: "uploadOnce P w = ((completed, False), w1) \<Longrightarrow> queue_after content (device_queue w1) (device_queue w2) \<Longrightarrow>
    uploads P content n k w2 w3 \<Longrightarrow> uploads P content n k w w3"
| uploads_complete: "uploadOnce P w = ((completed, True), w1) \<Longrightarrow> n \<le> unat (rc_batchSize (configSnapshot (dv_backend w))) \<Longrightarrow>
    queue_after content (device_queue w1) (device_queue w2) \<Longrightarrow> uploads P content n k w2 w3 \<Longrightarrow> uploads P content n (Suc k) w w3"


text \<open>Every record of a batch has the number of an entry it was read from.\<close>
lemma batch_ids:
  assumes "list_all2 (\<lambda>(i, b) r. \<exists>t. file_record (the b) i = Some (r, t)) (take n v) records" "k < length records"
  shows "\<exists>x \<in> set v. fst x = q_recordId (records ! k)"
proof -
  have k: "k < length (take n v)" using assms by (simp add: list_all2_conv_all_nth)
  obtain i b where ib: "take n v ! k = (i, b)" by fastforce
  then obtain t where "file_record (the b) i = Some (records ! k, t)" using list_all2_nthD2[OF assms] by auto
  then have "q_recordId (records ! k) = i" by (auto simp: file_record_def split: prod.splits if_splits)
  moreover have "(i, b) \<in> set v" using nth_mem[OF k] ib by (metis in_set_takeD)
  ultimately show ?thesis by force
qed

lemma batch_numbers:
  "list_all2 (\<lambda>(i, b) r. \<exists>t. file_record (the b) i = Some (r, t)) v records \<Longrightarrow> q_recordId ` set records = fst ` set v"
  by (induction rule: list_all2_induct) (auto simp: file_record_def split: prod.splits if_splits)

text \<open>Taking the oldest entries away from those up to a number.\<close>
lemma older_batch:
  fixes v :: "('a::linorder \<times> 'b) list"
  assumes "sorted_wrt (<) (map fst v)"
  shows "filter (\<lambda>(j, _). j \<le> i \<and> j \<notin> fst ` set (take n v)) v = drop n (filter (\<lambda>(j, _). j \<le> i) v)"
  using assms
proof (induction v arbitrary: n)
  case (Cons x v)
  have later: "fst x < fst y" if "y \<in> set v" for y using Cons.prems that by auto
  show ?case
  proof (cases n)
    case (Suc m)
    have "filter (\<lambda>(j, _). j \<le> i \<and> j \<notin> fst ` set (take n (x # v))) v = filter (\<lambda>(j, _). j \<le> i \<and> j \<notin> fst ` set (take m v)) v"
      using Suc by (intro filter_cong) (auto dest: later)
    moreover have "filter (\<lambda>(j, _). j \<le> i) v = []" if "\<not> fst x \<le> i"
      using later that by (force simp: filter_empty_conv)
    ultimately show ?thesis using Cons Suc by (cases x) (auto simp: filter_empty_conv)
  qed (simp add: case_prod_beta)
qed simp



section \<open>Finishing a batch, also when it fails\<close>

context littlefs
begin

lemma persistRecent_keeps:
  assumes "persistRecent P m f = (ok, f')"
  shows "record_files content f' = record_files content f"
proof (cases ok)
  case True
  then show ?thesis using persistRecent_file(2) assms by simp
next
  case False
  have not: "fullPath (recordName i) \<noteq> kRecentTempPath" for i
    using arg_cong[of "fullPath (recordName i)" _ length]
    by (auto simp: fullPath_def recordName_def kQueueDirectory_def kRecentTempPath_def)
  obtain ok1 f1 where u: "silentlyUnlink P kRecentTempPath f = (ok1, f1)" by fastforce
  obtain w f2 where w: "lf_write P kRecentTempPath (recentBytes m) f1 = (w, f2)" by fastforce
  obtain ok3 f3 where u3: "silentlyUnlink P kRecentTempPath f2 = (ok3, f3)" by fastforce
  have same: "record_files content f1 = record_files content f" "record_files content f2 = record_files content f1"
      "record_files content f3 = record_files content f2"
    using silentlyUnlink_other[OF u not] write_other[OF w not] silentlyUnlink_other[OF u3 not]
    by (simp_all add: record_files_def fun_eq_iff)
  consider "f' = f1" | "f' = f2" | "f' = f3" | "lf_rename P kRecentTempPath kRecentPath f2 = (False, f')"
  proof (cases "ok1 \<and> w = Some (length (recentBytes m))")
    case True
    then show ?thesis using assms False u w that(4) by (simp add: persistRecent_def Let_def)
  next
    case c: False
    show ?thesis
    proof (cases ok1)
      case True
      then show ?thesis using assms u w u3 c that(2,3) by (cases w) (simp_all add: persistRecent_def Let_def)
    qed (use assms u that(1) in \<open>simp add: persistRecent_def\<close>)
  qed
  then show ?thesis
  proof cases
    case 4
    then have "content f' = content f2" by (rule rename_failed)
    then have "record_files content f' = record_files content f2" by (simp add: record_files_def fun_eq_iff)
    then show ?thesis using same(1,2) by (simp only:)
  qed (use same in \<open>simp_all only:\<close>)
qed

end

context queue_hardware
begin

lemma finish_loop_number:
  "fold (finish_action P) acts (f, q, core, h) = (f', q', core', h') \<Longrightarrow> qc_nextRecordId core' = qc_nextRecordId core"
proof (induction acts arbitrary: f q core h)
  case (Cons a acts)
  obtain f1 q1 core1 h1 where a: "finish_action P a (f, q, core, h) = (f1, q1, core1, h1)" by (metis prod_cases4)
  then have "qc_nextRecordId core1 = qc_nextRecordId core"
    by (auto simp: finish_action_def core_remove_def storageError_def Let_def split: prod.splits bool.splits list.splits)
  then show ?case using Cons.IH[of f1 q1 core1 h1] Cons.prems a by simp
qed simp

lemma finish_partial:
  assumes use: "usable q = Some core" and inv: "core_inv core (record_files content h)"
    and run: "DurableQueue_finish P acts (q, h) = (ok, q', h')"
  shows "\<exists>core' gone. usable q' = Some core' \<and> core_inv core' (record_files content h') \<and> qc_nextRecordId core' = qc_nextRecordId core \<and>
    gone \<subseteq> ta_recordId ` set acts \<and> (ok \<longrightarrow> gone = ta_recordId ` set acts) \<and>
    queue_view core' (record_files content h') = filter (\<lambda>(j, _). j \<notin> gone) (queue_view core (record_files content h))"
proof -
  obtain s1 c1 q1 core1 h1 where l: "fold (finish_action P) acts ((True, False), q, core, h) = ((s1, c1), q1, core1, h1)"
    by (metis prod.collapse)
  obtain pers h2 where p: "(if c1 then persistRecent (qp_fs P) (dq_recent q1) h1 else (True, h1)) = (pers, h2)" by fastforce
  define q2 where "q2 = (if pers then q1\<lparr>dq_core := Some core1\<rparr> else addErrors 1 (q1\<lparr>dq_core := Some core1\<rparr>))"
  have p': "(if c1 then persistRecent (qp_fs P) (dq_recent (q1\<lparr>dq_core := Some core1\<rparr>)) h1 else (True, h1)) = (pers, h2)"
    using p by (cases c1) simp_all
  have res: "ok = (s1 \<and> pers)" "checkpointCountersUnlocked P False (q2, h2) = (q', h')"
    using run use l p' by (auto simp: DurableQueue_finish_def Let_def q2_def split: prod.splits)
  note cp = checkpoint_keeps[OF res(2)]
  obtain gone where gone: "set gone \<subseteq> set acts" "s1 \<longrightarrow> gone = acts" "core_inv core1 (record_files content h1)"
    "queue_view core1 (record_files content h1) = filter (\<lambda>(j, _). j \<notin> ta_recordId ` set gone) (queue_view core (record_files content h))"
    "dq_mutex q1 = dq_mutex q" "dq_healthy q1 = dq_healthy q"
    using finish_loop[OF l inv] by metis
  have files: "record_files content h' = record_files content h1"
    using p persistRecent_keeps files_content[of h' h2] cp by (auto split: if_splits)
  have "dq_mutex q2 = dq_mutex q" "dq_healthy q2 = dq_healthy q" "dq_core q2 = Some core1" using gone by (simp_all add: q2_def addErrors_def)
  then have "usable q' = Some core1" using cp use by (auto simp: usable_def split: if_splits)
  then show ?thesis using gone files res(1) finish_loop_number[OF l] by (intro exI[of _ core1] exI[of _ "ta_recordId ` set gone"]) auto
qed

lemma recordUploadRetry_keeps:
  assumes "recordUploadRetry P (q, h) = (q', h')"
  shows "usable q' = usable q \<and> record_files content h' = record_files content h"
proof (cases "dq_mutex q")
  case True
  then have "checkpointCountersUnlocked P False
       (noteMutation (q\<lparr>dq_stats := (dq_stats q)\<lparr>os_uploadRetries := os_uploadRetries (dq_stats q) + 1\<rparr>\<rparr>), h) = (q', h')"
    using assms by (simp add: recordUploadRetry_def)
  note k = checkpoint_keeps[OF this]
  then have "dq_core q' = dq_core q" "dq_mutex q' = dq_mutex q" "dq_healthy q' = dq_healthy q" by (simp_all add: noteMutation_def)
  then have "usable q' = usable q" by (simp only: usable_def)
  then show ?thesis using files_content[of h' h] k by simp
qed (use assms in \<open>simp add: recordUploadRetry_def\<close>)

lemma peek_outcome:
  assumes use: "usable q = Some core" and inv: "core_inv core (record_files content h)"
    and run: "DurableQueue_peek P limit (q, h) = ((ok, records), q', h')"
  shows "\<exists>core'. usable q' = Some core' \<and> core_inv core' (record_files content h') \<and> qc_nextRecordId core' = qc_nextRecordId core \<and>
    queue_view core' (record_files content h') = queue_view core (record_files content h) \<and>
    (ok \<longrightarrow> list_all2 (\<lambda>(i, b) r. \<exists>t. file_record (the b) i = Some (r, t)) (take limit (queue_view core (record_files content h))) records)"
proof -
  let ?S = "littlefs_queue_storage (qp_fs P)" and ?n = "min limit (length (qc_entries core))"
  obtain x h1 where l: "peek_loop ?S (take ?n (qc_entries core)) [] h = (x, h1)" by fastforce
  have entries: "\<And>e. e \<in> set (take ?n (qc_entries core)) \<Longrightarrow> entry_ok (record_files content h) e"
    using inv by (auto simp: core_inv_def dest: in_set_takeD)
  have same: "peek_loop ?S es rs g = (y, g') \<Longrightarrow> g' = g" for es rs g y g'
    by (induction es arbitrary: rs) (auto split: prod.splits option.splits dest: readAndDecode_same)
  have h1: "h1 = h" using same[OF l] .
  have take: "take ?n (qc_entries core) = take limit (qc_entries core)" by (simp add: min_def)
  show ?thesis
  proof (cases x)
    case None
    then have "q' = q\<lparr>dq_core := Some (storageError core)\<rparr>" "h' = h" "\<not> ok"
      using run use l h1 by (auto simp: DurableQueue_peek_def core_peek_def)
    moreover have "core_inv (storageError core) fs = core_inv core fs" "queue_view (storageError core) fs = queue_view core fs"
        "qc_nextRecordId (storageError core) = qc_nextRecordId core" for fs
      by (simp_all add: storageError_def core_inv_def queue_view_def)
    ultimately show ?thesis using use inv by (auto simp: usable_def split: if_splits)
  next
    case (Some rs)
    then have eq: "q' = q\<lparr>dq_core := Some core\<rparr>" "h' = h" "ok" "records = rs"
      using run use l h1 by (auto simp: DurableQueue_peek_def core_peek_def)
    note out = queue_storage.peek_loop_outcome[OF storage_contract l[unfolded Some] entries]
    then have "list_all2 (\<lambda>(i, b) r. \<exists>t. file_record (the b) i = Some (r, t)) (take limit (queue_view core (record_files content h))) rs"
      using take by (auto simp: queue_view_def take_map list_all2_map1 elim!: list_all2_mono)
    then show ?thesis using eq use inv by (auto simp: usable_def split: if_splits)
  qed
qed

end


section \<open>The upload\<close>

text \<open>Other tasks keep the queue in step with its files and never give the number of a record to another one.\<close>
locale upload_path = queue_hardware "dp_queue P" content number flag
  for P :: "('d, 'q, 'c, 'r, 'x, 'n, 'j) device_platform" and content number flag +
  assumes others: "queue_ok content (fst (device_queue w)) (snd (device_queue w)) \<Longrightarrow>
    queue_after content (device_queue w) (device_queue (dp_others P w))"
begin

definition dq_ok :: "('d, 'q, 'c, 'r, 'x, 'n) Device \<Rightarrow> bool" where
  "dq_ok w = queue_ok content (fst (device_queue w)) (snd (device_queue w))"

lemma same_after: "dq_ok w \<Longrightarrow> device_queue w' = device_queue w \<Longrightarrow> queue_after content (device_queue w) (device_queue w')"
  using queue_after_same[of content "fst (device_queue w)" "snd (device_queue w)" "fst (device_queue w')" "snd (device_queue w')"]
  by (simp add: dq_ok_def)

lemma exchange_after:
  assumes "httpExchange P config method err w = (x, w')" "dq_ok w"
  shows "queue_after content (device_queue w) (device_queue w')"
proof -
  obtain n where "w' = dp_others P (w\<lparr>dv_net := n\<rparr>)"
    using assms(1) by (auto simp: httpExchange_def Let_def split: prod.splits)
  then show ?thesis using others[of "w\<lparr>dv_net := n\<rparr>"] assms(2) by (simp add: queue_frame dq_ok_def)
qed

lemma request_after:
  assumes run: "performRequest P config method path err trusted w = (x, w')" and ok: "dq_ok w"
  shows "queue_after content (device_queue w) (device_queue w')"
proof -
  obtain a w1 where n: "networkAvailable P config w = (a, w1)" by fastforce
  have w1: "device_queue w1 = device_queue w" using networkAvailable_frame[OF n] by simp
  obtain refused w2 where t: "(if isTls config \<and> trusted
              then (if \<not> bw_bound (dv_backend w1) then (True, w1)
                    else case device_now P w1 of (now, w) \<Rightarrow> (\<not> ts_trusted now, w))
              else (False, w1)) = (refused, w2)" by fastforce
  then have w2: "device_queue w2 = device_queue w"
    using w1 by (auto split: if_splits prod.splits dest: clock_frame(3))
  obtain begun n3 where b: "hp_begin (dp_http P) (if isTls config then Some kGtsRootR4Pem else None) (rc_timeoutMs config)
      (cstr (rc_baseUrl config) @ path) (dv_net w2) = (begun, n3)" by fastforce
  let ?w3 = "w2\<lparr>dv_net := n3\<rparr>"
  consider "w' = w1" | "w' = w2" | "w' = ?w3" | "httpExchange P config method (err[0 := 0]) ?w3 = (x, w')"
    using run n t b unfolding performRequest_def Let_def by (auto split: if_splits)
  then show ?thesis
  proof cases
    case 4
    have "dq_ok ?w3" using ok w2 by (simp add: dq_ok_def queue_frame)
    from exchange_after[OF 4 this] show ?thesis using w2 by (simp add: queue_frame)
  qed (use same_after[OF ok] w1 w2 in \<open>auto simp: queue_frame\<close>)
qed

definition view :: "('d, 'q, 'c, 'r, 'x, 'n) Device \<Rightarrow> (u64 \<times> byte list option) list" where
  "view w = stored_records content (device_queue w)"

lemma recordFilesystemError_usable: "usable (recordFilesystemError q) = usable q"
  by (simp add: recordFilesystemError_def noteMutation_def addErrors_def usable_def)

lemma uploadRequest_after:
  assumes "uploadRequest P w = (x, w1)" and use: "usable (fst (device_queue w)) = Some core" and ok: "dq_ok w"
  shows "queue_after content (device_queue w) (device_queue w1) \<and>
    (\<forall>records st response err. x = Some (records, st, response, err) \<longrightarrow>
       records \<noteq> [] \<and> length records \<le> kBackendMaximumBatchSize \<and>
       list_all2 (\<lambda>(i, b) r. \<exists>t. file_record (the b) i = Some (r, t))
         (take (unat (rc_batchSize (configSnapshot (dv_backend w)))) (view w)) records)"
proof -
  define config where "config = configSnapshot (dv_backend w)"
  obtain okay records q h where pk: "DurableQueue_peek (dp_queue P) (unat (rc_batchSize config)) (device_queue w) = ((okay, records), q, h)"
    by (metis surj_pair)
  have inv: "core_inv core (record_files content (snd (device_queue w)))" using ok use by (simp add: dq_ok_def queue_ok_def)
  obtain core' where p: "usable q = Some core'" "core_inv core' (record_files content h)" "qc_nextRecordId core' = qc_nextRecordId core"
      "queue_view core' (record_files content h) = queue_view core (record_files content (snd (device_queue w)))"
      "okay \<longrightarrow> list_all2 (\<lambda>(i, b) r. \<exists>t. file_record (the b) i = Some (r, t)) (take (unat (rc_batchSize config)) (view w)) records"
    using peek_outcome[OF use inv, of "unat (rc_batchSize config)" okay records q h] pk use by (auto simp: view_def stored_records_def)
  have after: "queue_after content (device_queue w) (q', h')" if "usable q' = usable q" "h' = h" for q' h'
    using queue_afterI[OF use, of q' core' content h' "snd (device_queue w)"] p that by (simp add: numbered_after_refl)
  have pok: "dq_ok (putQueue q h w)" using p by (simp add: dq_ok_def queue_ok_def)
  show ?thesis
  proof (cases "\<not> okay \<or> records = []")
    case True
    then have "x = None \<and> device_queue w1 = (recordFilesystemError q, h)"
      using assms(1) pk setFailure_queue[of P 0 "Some (ascii ''queue batch read failed'')" True False "putQueue q h w"]
      by (auto simp: uploadRequest_def Let_def config_def device_queue_def putQueue_def)
    then show ?thesis using after[OF recordFilesystemError_usable refl] by simp
  next
    case False
    obtain ser payload where s: "serializeBackendBatch (dp_json P) (rc_identity config) records = (ser, payload)" by fastforce
    define w2 where "w2 = (if bw_mutex (dv_backend w)
                   then (case uptimeMs P (on_status (stateText ''UPLOADING'') (putQueue q h w)) of (up, w) \<Rightarrow>
                           on_status (\<lambda>s. s\<lparr>bs_lastAttemptUptimeMs := up\<rparr>) w)
                   else putQueue q h w)"
    have w2: "device_queue w2 = (q, h)" by (auto simp: w2_def queue_frame split: prod.splits dest: clock_frame(2))
    show ?thesis
    proof (cases ser)
      case no: False
      have "x = None" "w1 = setFailure P 0 (Some (ascii ''backend batch serialization failed'')) True False (putQueue q h w)"
        using assms(1) pk False s no by (auto simp: uploadRequest_def Let_def config_def)
      then show ?thesis using after[OF refl refl] by (simp add: queue_frame)
    next
      case True
      obtain st response err where r: "performRequest P config (Method_POST payload) (ascii ''/api/v1/iot/telemetry/batch'') (replicate 128 0) True w2
          = ((st, response, err), w1)" and x: "x = Some (records, st, response, err)"
        using assms(1) pk False s True by (auto simp: uploadRequest_def Let_def config_def simp flip: w2_def split: prod.splits)
      have "dq_ok w2" using pok w2 by (simp add: dq_ok_def)
      then have "queue_after content (device_queue w) (device_queue w1)"
        using queue_after_trans[OF after[OF refl refl]] request_after[OF r] w2 by simp
      moreover have "length records \<le> kBackendMaximumBatchSize"
        using s True by (auto simp: serializeBackendBatch_def Let_def split: if_splits option.splits)
      ultimately show ?thesis using x p(5) False by (simp add: config_def)
    qed
  qed
qed

text \<open>After the answer: what is removed was settled by it.\<close>
lemma uploadSettle_outcome:
  assumes run: "uploadSettle P records st response err w1 = ((completed, allDone), w')"
    and use: "usable (fst (device_queue w1)) = Some core1" and ok: "dq_ok w1" and len: "length records \<le> kBackendMaximumBatchSize"
  shows "\<exists>gone. dq_ok w' \<and> queue_after content (device_queue w1) (device_queue w') \<and> view w' = filter (\<lambda>(i, _). i \<notin> gone) (view w1) \<and>
    (gone \<noteq> {} \<or> allDone \<longrightarrow> st = 200 \<and> (\<exists>results. parseBackendBatchResponse (dp_json P) (Some response) (length records) = Some results \<and>
       gone \<subseteq> (\<lambda>r. q_recordId (records ! br_index r)) ` set results \<and> (allDone \<longrightarrow> gone = q_recordId ` set records)))"
proof -
  have retry: "dq_ok (noteUploadRetry P w) \<and> usable (fst (device_queue (noteUploadRetry P w))) = usable (fst (device_queue w)) \<and>
      view (noteUploadRetry P w) = view w" if "dq_ok w" for w
  proof -
    obtain q h where r: "recordUploadRetry (dp_queue P) (fst (device_queue w), snd (device_queue w)) = (q, h)" by fastforce
    then have "device_queue (noteUploadRetry P w) = (q, h)" by (simp add: noteUploadRetry_def)
    moreover have "usable q = usable (fst (device_queue w))" "record_files content h = record_files content (snd (device_queue w))"
      using recordUploadRetry_keeps[OF r] by simp_all
    ultimately show ?thesis using that by (simp add: dq_ok_def queue_ok_def view_def stored_records_def split: option.split)
  qed
  have fails: "dq_ok (setFailure P a b c e w) = dq_ok w" "usable (fst (device_queue (setFailure P a b c e w))) = usable (fst (device_queue w))"
      "view (setFailure P a b c e w) = view w" for a b c e w
    by (simp_all add: dq_ok_def view_def queue_frame)
  have logs: "dq_ok (backend_log P l w) = dq_ok w" "usable (fst (device_queue (backend_log P l w))) = usable (fst (device_queue w))"
      "view (backend_log P l w) = view w" for l w
    by (simp_all add: dq_ok_def view_def queue_frame)
  have onward: "queue_after content (device_queue w1) (device_queue w')"
    if "dq_ok w'" "usable (fst (device_queue w')) = Some core'" "qc_nextRecordId core' = qc_nextRecordId core1" "set (view w') \<subseteq> set (view w1)" for core'
  proof -
    have "core_inv core' (record_files content (snd (device_queue w')))" using that(1,2) by (simp add: dq_ok_def queue_ok_def)
    then show ?thesis using queue_afterI[OF use that(2), of content "snd (device_queue w')" "snd (device_queue w1)"] that use
      by (simp add: numbered_after_refl view_def stored_records_def)
  qed
  have none: ?thesis if "dq_ok w'" "usable (fst (device_queue w')) = Some core1" "view w' = view w1" "\<not> allDone"
    using that onward by (intro exI[of _ "{}"]) simp
  show ?thesis
  proof (cases "backendHttpResponseMayDequeue st")
    case False
    then show ?thesis using run ok use none retry fails by (auto simp: uploadSettle_def logs)
  next
    case dequeue: True
    show ?thesis
    proof (cases "parseBackendBatchResponse (dp_json P) (Some response) (length records)")
      case None
      then show ?thesis using run ok use none retry fails dequeue by (auto simp: uploadSettle_def)
    next
      case (Some results)
      obtain acts w2 where a: "terminalActions P records [] results w1 = (acts, w2)" by fastforce
      have w2: "device_queue w2 = device_queue w1" using terminalActions_queue[OF a] .
      then have w2': "dq_ok w2" "view w2 = view w1" using ok by (simp_all add: dq_ok_def view_def stored_records_def)
      show ?thesis
      proof (cases acts)
        case None
        then show ?thesis using run ok use none fails dequeue Some a w2 w2' by (auto simp: uploadSettle_def)
      next
        case acts: (Some actions)
        have ids: "map ta_recordId actions = map (\<lambda>r. q_recordId (records ! br_index r)) results"
          using terminalActions_ids[OF a[unfolded acts]] by simp
        then have idset: "ta_recordId ` set actions = (\<lambda>r. q_recordId (records ! br_index r)) ` set results"
          by (metis list.set_map)
        obtain finished q h where f: "(if actions = [] then (True, device_queue w2) else DurableQueue_finish (dp_queue P) actions (device_queue w2))
            = (finished, q, h)" by (metis prod_cases3)
        have inv: "core_inv core1 (record_files content (snd (device_queue w1)))" using ok use by (simp add: dq_ok_def queue_ok_def)
        have "\<exists>core' gone. usable q = Some core' \<and> core_inv core' (record_files content h) \<and> qc_nextRecordId core' = qc_nextRecordId core1 \<and>
            gone \<subseteq> ta_recordId ` set actions \<and> (finished \<longrightarrow> gone = ta_recordId ` set actions) \<and> queue_view core' (record_files content h) = filter (\<lambda>(j, _). j \<notin> gone) (view w1)"
        proof (cases "actions = []")
          case True
          then show ?thesis using f use inv w2 by (intro exI[of _ core1] exI[of _ "{}"]) (auto simp: view_def stored_records_def)
        next
          case False
          then have "DurableQueue_finish (dp_queue P) actions (fst (device_queue w1), snd (device_queue w1)) = (finished, q, h)" using f w2 by simp
          from finish_partial[OF use inv this] show ?thesis using use by (simp add: view_def stored_records_def)
        qed
        then obtain core' gone where g: "usable q = Some core'" "core_inv core' (record_files content h)" "qc_nextRecordId core' = qc_nextRecordId core1" "gone \<subseteq> ta_recordId ` set actions"
            "finished \<longrightarrow> gone = ta_recordId ` set actions" "queue_view core' (record_files content h) = filter (\<lambda>(j, _). j \<notin> gone) (view w1)" by blast
        define w3 where "w3 = putQueue q h w2"
        have w3: "dq_ok w3" "usable (fst (device_queue w3)) = Some core'" "view w3 = filter (\<lambda>(j, _). j \<notin> gone) (view w1)"
          using g by (simp_all add: w3_def dq_ok_def queue_ok_def view_def stored_records_def)
        have st: "st = 200" using dequeue by (simp add: backendHttpResponseMayDequeue_def)
        have fin: "dq_ok w' \<and> usable (fst (device_queue w')) = Some core' \<and> view w' = view w3 \<and>
            (allDone \<longrightarrow> finished \<and> backendBatchResponseComplete (length records) results)"
        proof (cases "finished \<and> backendBatchResponseComplete (length records) results")
          case True
          then have "device_queue w' = device_queue w3" using run Some dequeue a acts f
            by (auto simp: uploadSettle_def Let_def queue_frame simp flip: w3_def)
          then show ?thesis using w3 True by (simp add: dq_ok_def view_def stored_records_def)
        next
          case False
          then show ?thesis using run Some dequeue a acts f w3 retry fails
            by (cases finished) (auto simp: uploadSettle_def Let_def simp flip: w3_def)
        qed
        have "gone = q_recordId ` set records" if allDone
        proof -
          have c: "finished" "backendBatchResponseComplete (length records) results" using fin that by auto
          note out = parse_outcome[OF Some len]
          have "br_index ` set results = {..<length records}"
          proof (rule card_subset_eq)
            show "br_index ` set results \<subseteq> {..<length records}" using out by auto
            have "card (br_index ` set results) = length results"
              using out distinct_card[of "map br_index results"] by simp
            then show "card (br_index ` set results) = card {..<length records}" using c(2) by (simp add: backendBatchResponseComplete_def)
          qed simp
          then have "(\<lambda>r. q_recordId (records ! br_index r)) ` set results = (\<lambda>i. q_recordId (records ! i)) ` {..<length records}"
            by (metis image_image)
          also have "\<dots> = q_recordId ` set records" by (auto simp: set_conv_nth image_def)
          finally show ?thesis using g(5) c(1) idset by simp
        qed
        moreover have "queue_after content (device_queue w1) (device_queue w')" using onward[of core'] fin w3 g(3) by auto
        ultimately show ?thesis using fin w3 st Some g(4) idset by (intro exI[of _ gone]) auto
      qed
    qed
  qed
qed

text \<open>The whole upload, with the state \<open>w1\<close> of the device when the answer had arrived.\<close>
lemma uploadOnce_outcome:
  assumes run: "uploadOnce P w = ((completed, allDone), w')" and use: "usable (fst (device_queue w)) = Some core" and ok: "dq_ok w"
  shows "\<exists>w1 gone. queue_after content (device_queue w) (device_queue w1) \<and> dq_ok w' \<and> queue_after content (device_queue w1) (device_queue w') \<and>
    view w' = filter (\<lambda>(i, _). i \<notin> gone) (view w1) \<and> (\<forall>x \<in> set (view w1). fst x \<in> gone \<longrightarrow> x \<in> set (view w)) \<and>
    (gone \<noteq> {} \<or> allDone \<longrightarrow> (\<exists>records response err results.
       uploadRequest P w = (Some (records, 200, response, err), w1) \<and>
       list_all2 (\<lambda>(i, b) r. \<exists>t. file_record (the b) i = Some (r, t))
         (take (unat (rc_batchSize (configSnapshot (dv_backend w)))) (view w)) records \<and>
       parseBackendBatchResponse (dp_json P) (Some response) (length records) = Some results \<and>
       gone \<subseteq> (\<lambda>r. q_recordId (records ! br_index r)) ` set results \<and> (allDone \<longrightarrow> gone = q_recordId ` set records)))"
proof -
  obtain x w1 where r: "uploadRequest P w = (x, w1)" by fastforce
  note req = uploadRequest_after[OF r use ok]
  then have ok1: "dq_ok w1" by (metis dq_ok_def prod.collapse queue_after_ok)
  obtain core1 where use1: "usable (fst (device_queue w1)) = Some core1"
      and num: "numbered_after (qc_nextRecordId core) (view w) (qc_nextRecordId core1) (view w1)"
    using req use by (auto simp: queue_after_def view_def stored_records_def split: prod.splits)
  show ?thesis
  proof (cases x)
    case None
    then show ?thesis using run r req ok1 same_after[OF ok1 refl] by (intro exI[of _ w1] exI[of _ "{}"]) (simp add: uploadOnce_def)
  next
    case (Some y)
    obtain records st response err where y: "y = (records, st, response, err)" by (metis prod_cases4)
    have b: "length records \<le> kBackendMaximumBatchSize"
        "list_all2 (\<lambda>(i, b) r. \<exists>t. file_record (the b) i = Some (r, t)) (take (unat (rc_batchSize (configSnapshot (dv_backend w)))) (view w)) records"
      using req Some y by auto
    have s: "uploadSettle P records st response err w1 = ((completed, allDone), w')" using run r Some y by (simp add: uploadOnce_def)
    obtain gone where g: "dq_ok w'" "queue_after content (device_queue w1) (device_queue w')" "view w' = filter (\<lambda>(i, _). i \<notin> gone) (view w1)"
      "gone \<noteq> {} \<or> allDone \<longrightarrow> st = 200 \<and> (\<exists>results. parseBackendBatchResponse (dp_json P) (Some response) (length records) = Some results \<and>
       gone \<subseteq> (\<lambda>r. q_recordId (records ! br_index r)) ` set results \<and> (allDone \<longrightarrow> gone = q_recordId ` set records))"
      using uploadSettle_outcome[OF s use1 ok1 b(1)] by blast
    have "e \<in> set (view w)" if e: "e \<in> set (view w1)" "fst e \<in> gone" for e
    proof -
      obtain results where res: "parseBackendBatchResponse (dp_json P) (Some response) (length records) = Some results"
          "gone \<subseteq> (\<lambda>r. q_recordId (records ! br_index r)) ` set results" using g(4) e(2) by auto
      then obtain r where "r \<in> set results" "fst e = q_recordId (records ! br_index r)" using e(2) by auto
      then have "br_index r < length records" "fst e = q_recordId (records ! br_index r)" using parse_outcome[OF res(1) b(1)] by auto
      then obtain v where v: "v \<in> set (view w)" "fst v = fst e"
        using batch_ids[OF b(2)] by metis
      have "qc_nextRecordId core \<noteq> 0 \<longrightarrow> fst v < qc_nextRecordId core"
        using v ok use by (auto simp: dq_ok_def queue_ok_def core_inv_def view_def stored_records_def queue_view_def)
      then show ?thesis using num e(1) v(2) by (auto simp: numbered_after_def)
    qed
    moreover have "\<exists>records response err results.
       uploadRequest P w = (Some (records, 200, response, err), w1) \<and>
       list_all2 (\<lambda>(i, b) r. \<exists>t. file_record (the b) i = Some (r, t))
         (take (unat (rc_batchSize (configSnapshot (dv_backend w)))) (view w)) records \<and>
       parseBackendBatchResponse (dp_json P) (Some response) (length records) = Some results \<and>
       gone \<subseteq> (\<lambda>r. q_recordId (records ! br_index r)) ` set results \<and> (allDone \<longrightarrow> gone = q_recordId ` set records)"
      if "gone \<noteq> {} \<or> allDone"
    proof -
      have "st = 200" using g(4) that by blast
      then have "uploadRequest P w = (Some (records, 200, response, err), w1)" using r Some y by simp
      then show ?thesis using g(4) b(2) that by blast
    qed
    ultimately show ?thesis using g(1-3) req by (intro exI[of _ w1] exI[of _ gone] conjI) blast+
  qed
qed

text \<open>How one upload shortens the queue up to a number.\<close>
lemma waiting_view: "waiting content i w = filter (\<lambda>(j, _). j \<le> i) (view w)" for w :: "('d, 'q, 'c, 'r, 'x, 'n) Device"
  by (simp add: waiting_def view_def)

lemma view_sorted: "dq_ok w \<Longrightarrow> sorted_wrt (<) (map fst (view w))"
  by (auto simp: dq_ok_def queue_ok_def view_def stored_records_def queue_view_def core_inv_def comp_def split: option.splits)

text \<open>Other tasks can only take records with old numbers away.\<close>
lemma after_waiting:
  fixes w w' :: "('d, 'q, 'c, 'r, 'x, 'n) Device"
  assumes "queue_after content (device_queue w) (device_queue w')" "usable (fst (device_queue w)) = Some core"
    and "qc_nextRecordId core \<noteq> 0 \<longrightarrow> i < qc_nextRecordId core"
  shows "set (waiting content i w') \<subseteq> set (waiting content i w)"
    "\<exists>core'. usable (fst (device_queue w')) = Some core' \<and> (qc_nextRecordId core' \<noteq> 0 \<longrightarrow> i < qc_nextRecordId core')"
proof -
  obtain core' where c: "usable (fst (device_queue w')) = Some core'"
      "numbered_after (qc_nextRecordId core) (view w) (qc_nextRecordId core') (view w')"
    using assms(1,2) by (auto simp: queue_after_def view_def stored_records_def split: prod.splits)
  then show "set (waiting content i w') \<subseteq> set (waiting content i w)" using assms(3) by (auto simp: numbered_after_def waiting_view)
  show "\<exists>core'. usable (fst (device_queue w')) = Some core' \<and> (qc_nextRecordId core' \<noteq> 0 \<longrightarrow> i < qc_nextRecordId core')"
    using c assms(3) by (auto simp: numbered_after_def)
qed

lemma length_waiting:
  assumes "set (waiting content i w') \<subseteq> set xs" "dq_ok w'"
  shows "length (waiting content i w') \<le> length xs"
proof -
  have "distinct (map fst (view w'))" using view_sorted[OF assms(2)] by (simp add: strict_sorted_iff)
  then have "distinct (waiting content i w')" by (simp add: waiting_view distinct_map)
  then have "length (waiting content i w') = card (set (waiting content i w'))" by (simp add: distinct_card)
  also have "\<dots> \<le> card (set xs)" using assms(1) by (simp add: card_mono)
  also have "\<dots> \<le> length xs" by (rule card_length)
  finally show ?thesis .
qed

lemma upload_progress:
  assumes run: "uploadOnce P w = ((completed, allDone), w')" and use: "usable (fst (device_queue w)) = Some core" and ok: "dq_ok w"
    and i: "qc_nextRecordId core \<noteq> 0 \<longrightarrow> i < qc_nextRecordId core"
  shows "dq_ok w' \<and> queue_after content (device_queue w) (device_queue w') \<and>
    length (waiting content i w') \<le> length (waiting content i w) - (if allDone then unat (rc_batchSize (configSnapshot (dv_backend w))) else 0)"
proof -
  let ?n = "unat (rc_batchSize (configSnapshot (dv_backend w)))"
  from uploadOnce_outcome[OF run use ok] obtain w1 gone where o: "queue_after content (device_queue w) (device_queue w1)" "dq_ok w'"
      "queue_after content (device_queue w1) (device_queue w')" "view w' = filter (\<lambda>(i, _). i \<notin> gone) (view w1)"
      and sent: "gone \<noteq> {} \<or> allDone \<longrightarrow> (\<exists>records response err results.
       uploadRequest P w = (Some (records, 200, response, err), w1) \<and>
       list_all2 (\<lambda>(i, b) r. \<exists>t. file_record (the b) i = Some (r, t)) (take ?n (view w)) records \<and>
       parseBackendBatchResponse (dp_json P) (Some response) (length records) = Some results \<and>
       gone \<subseteq> (\<lambda>r. q_recordId (records ! br_index r)) ` set results \<and> (allDone \<longrightarrow> gone = q_recordId ` set records))"
    by (elim exE conjE) (rule that; assumption)
  have sub: "set (waiting content i w1) \<subseteq> set (waiting content i w)" using after_waiting(1)[OF o(1) use i] .
  have w': "set (waiting content i w') \<subseteq> {x \<in> set (waiting content i w). fst x \<notin> gone}" using sub o(4) by (auto simp: waiting_view)
  have "length (waiting content i w') \<le> length (waiting content i w) - (if allDone then ?n else 0)"
  proof (cases allDone)
    case True
    then obtain records where rec: "list_all2 (\<lambda>(i, b) r. \<exists>t. file_record (the b) i = Some (r, t)) (take ?n (view w)) records"
        and ids: "gone = q_recordId ` set records"
      using mp[OF sent disjI2[OF True]] by (elim exE conjE) (rule that, assumption, erule mp)
    have gone: "gone = fst ` set (take ?n (view w))" unfolding ids by (rule batch_numbers[OF rec])
    have "drop ?n (waiting content i w) = filter (\<lambda>(j, _). j \<le> i \<and> j \<notin> gone) (view w)"
      unfolding gone waiting_view by (rule older_batch[OF view_sorted[OF ok], symmetric])
    then have "set (drop ?n (waiting content i w)) = {x \<in> set (waiting content i w). fst x \<notin> gone}" by (auto simp: waiting_view)
    then have "set (waiting content i w') \<subseteq> set (drop ?n (waiting content i w))" using w' by (simp only:)
    from length_waiting[OF this o(2)] show ?thesis using True by simp
  next
    case False
    then show ?thesis using length_waiting[of i w' "waiting content i w"] w' o(2) by auto
  qed
  then show ?thesis using o(1-3) queue_after_trans by blast
qed

end


context upload_path
begin

text \<open>An upload and what other tasks do until the next one.\<close>
lemma upload_step:
  assumes run: "uploadOnce P w = ((completed, allDone), w1)" and others: "queue_after content (device_queue w1) (device_queue w2)"
    and start: "usable (fst (device_queue w)) = Some core" "dq_ok w" "qc_nextRecordId core \<noteq> 0 \<longrightarrow> i < qc_nextRecordId core"
  obtains core2 where "usable (fst (device_queue w2)) = Some core2" "dq_ok w2" "qc_nextRecordId core2 \<noteq> 0 \<longrightarrow> i < qc_nextRecordId core2"
    "length (waiting content i w2) \<le> length (waiting content i w) -
       (if allDone then unat (rc_batchSize (configSnapshot (dv_backend w))) else 0)"
proof -
  note up = upload_progress[OF run start]
  obtain core1 where c1: "usable (fst (device_queue w1)) = Some core1" "qc_nextRecordId core1 \<noteq> 0 \<longrightarrow> i < qc_nextRecordId core1"
    using after_waiting(2)[OF conjunct1[OF conjunct2[OF up]] start(1,3)] by blast
  obtain core2 where c2: "usable (fst (device_queue w2)) = Some core2" "qc_nextRecordId core2 \<noteq> 0 \<longrightarrow> i < qc_nextRecordId core2"
    using after_waiting(2)[OF others c1] by blast
  have ok2: "dq_ok w2" using queue_after_ok[of content "device_queue w1" "fst (device_queue w2)"] others by (simp add: dq_ok_def)
  show ?thesis using length_waiting[OF after_waiting(1)[OF others c1] ok2] up by (intro that[OF c2(1) ok2 c2(2)]) linarith
qed

lemma uploads_progress:
  assumes "uploads P content n k w w'" "usable (fst (device_queue w)) = Some core" "dq_ok w"
    and "qc_nextRecordId core \<noteq> 0 \<longrightarrow> i < qc_nextRecordId core"
  shows "length (waiting content i w') \<le> length (waiting content i w) - n * k"
  using assms
proof (induction arbitrary: core rule: uploads.induct)
  case (uploads_failed w completed w1 w2 k w3)
  from upload_step[OF uploads_failed.hyps(1,2) uploads_failed.prems] obtain core2 where
      c2: "usable (fst (device_queue w2)) = Some core2" "dq_ok w2" "qc_nextRecordId core2 \<noteq> 0 \<longrightarrow> i < qc_nextRecordId core2"
      and le: "length (waiting content i w2) \<le> length (waiting content i w) - (if False then unat (rc_batchSize (configSnapshot (dv_backend w))) else 0)" .
  have "length (waiting content i w2) - n * k \<le> length (waiting content i w) - n * k" using le by (intro diff_le_mono) simp
  then show ?case by (rule order_trans[OF uploads_failed.IH[OF c2]])
next
  case (uploads_complete w completed w1 w2 k w3)
  from upload_step[OF uploads_complete.hyps(1,3) uploads_complete.prems] obtain core2 where
      c2: "usable (fst (device_queue w2)) = Some core2" "dq_ok w2" "qc_nextRecordId core2 \<noteq> 0 \<longrightarrow> i < qc_nextRecordId core2"
      and le: "length (waiting content i w2) \<le> length (waiting content i w) - (if True then unat (rc_batchSize (configSnapshot (dv_backend w))) else 0)" .
  have "length (waiting content i w2) - n * k \<le> length (waiting content i w) - n - n * k" using le uploads_complete.hyps(2) by (intro diff_le_mono) simp
  also have "\<dots> = length (waiting content i w) - n * Suc k" by simp
  finally show ?case by (rule order_trans[OF uploads_complete.IH[OF c2]])
qed simp

end


section \<open>Properties\<close>

text \<open>A device whose radio task receives while the upload waits: the memory hardware, and a backend that settles the
  first record of every batch.\<close>

definition one_inserted :: "unit json" where
  "one_inserted = Json_object [(''results'', Json_array
     [Json_object [(''index'', Json_int 0), (''status'', Json_string (ascii ''INSERTED''))]])]"

definition mem_http :: "byte list list http_platform" where
  "mem_http = \<lparr>hp_createMutex = Pair True, hp_createTask = Pair True, hp_notify = (\<lambda>n. n), hp_sleep = (\<lambda>_ n. n),
     hp_random = Pair 7, hp_begin = (\<lambda>_ _ _. Pair True), hp_addHeader = (\<lambda>_ _ n. n), hp_POST = (\<lambda>body n. (200, n @ [body])),
     hp_GET = Pair 200, hp_getString = Pair (ascii ''R''), hp_errorToString = (\<lambda>_. []), hp_end = (\<lambda>n. n), hp_freeHeap = (\<lambda>_. 0),
     hp_minFreeHeap = (\<lambda>_. 0), hp_largestFreeBlock = (\<lambda>_. 0), hp_sketchSize = (\<lambda>_. 0), hp_freeSketchSpace = (\<lambda>_. 0),
     hp_flashChipSize = (\<lambda>_. 0), hp_buildFlavor = [], hp_log = (\<lambda>_ n. n)\<rparr>"

definition example_platform :: "(unit, mem_hw, nvs_map, mem_air, mem_wifi, byte list list, unit json) device_platform" where
  "example_platform = \<lparr>dp_double = unit_ops, dp_queue = mem_platform, dp_radio = mem_radio, dp_wifi = mem_wifi_api,
     dp_json = table_json [(ascii ''R'', one_inserted)], dp_http = mem_http,
     dp_others = (\<lambda>w. w\<lparr>dv_gateway := radio_round unit_ops mem_platform (nvs_command_backend nvs_map_api) mem_radio 0 (dv_gateway w)\<rparr>)\<rparr>"

definition example_config :: RuntimeConfig where
  "example_config = RuntimeConfig_init\<lparr>rc_baseUrl := char_array kBackendUrlCapacity (ascii ''http://b''),
     rc_token := char_array kBearerTokenCapacity (ascii ''t'')\<rparr>"

definition example_device :: "(unit, mem_hw, nvs_map, mem_air, mem_wifi, byte list list) Device" where
  "example_device = \<lparr>dv_gateway = listening\<lparr>gw_queue := running_queue, gw_flash := one_hw, gw_radio := RadioService_init unit_ops 0\<rparr>, dv_wifi = WifiManager_init, dv_driver = \<lparr>mw_clock = 0, mw_up = True, mw_ap = False\<rparr>,
     dv_backend = BackendWorker_init\<lparr>bw_bound := True, bw_mutex := True, bw_config := example_config\<rparr>,
     dv_net = []\<rparr>"

interpretation example: upload_path example_platform "\<lambda>h. mf_content (fst h)" "\<lambda>h. mp_numbers (snd h)" "\<lambda>h. mp_flags (snd h)"
proof -
  have "queue_hardware (dp_queue example_platform) (\<lambda>h. mf_content (fst h)) (\<lambda>h. mp_numbers (snd h)) (\<lambda>h. mp_flags (snd h))"
    using hw.queue_hardware_axioms by (simp add: example_platform_def)
  then show "upload_path example_platform (\<lambda>h. mf_content (fst h)) (\<lambda>h. mp_numbers (snd h)) (\<lambda>h. mp_flags (snd h))"
    by (intro upload_path.intro upload_path_axioms.intro)
       (simp_all add: example_platform_def device_queue_def radio_round_after[OF hw.queue_hardware_axioms mem_radio.radio_hardware_axioms])
qed


text \<open>The upload of the example, step by step.\<close>
lemma example_peek:
  "DurableQueue_peek mem_platform 20 (running_queue, one_hw) = ((True, [queued_frame\<lparr>q_recordId := 1\<rparr>]), running_queue, one_hw)"
proof -
  have "LittleFs_readRecord (beside mem_fs_api) (recordName 1) one_hw = (Some example_file, one_hw)"
    by (simp add: LittleFs_readRecord_def beside_def mem_fs_api_def one_hw_def one_record_def mf_content_def example_file_length record_size_defs capacity_defs)
  then have "readAndDecode (littlefs_queue_storage (beside mem_fs_api)) 1 one_hw = (Some (queued_frame\<lparr>q_recordId := 1\<rparr>), one_hw)"
    by (simp add: readAndDecode_def littlefs_queue_storage_def example_file_decode)
  then have "core_peek (littlefs_queue_storage (beside mem_fs_api)) 20 (one_queued 0, one_hw)
      = ((True, [queued_frame\<lparr>q_recordId := 1\<rparr>]), one_queued 0, one_hw)"
    by (simp add: core_peek_def one_queued_def)
  then show ?thesis by (simp add: DurableQueue_peek_def running_usable mem_platform_def) (simp add: running_queue_def)
qed

lemma example_batch:
  "serializeBackendBatch (dp_json example_platform) GatewayIdentity_init [queued_frame\<lparr>q_recordId := 1\<rparr>] = (True, ascii ''{}'')"
proof -
  have "\<exists>x. readingJson (queued_frame\<lparr>q_recordId := 1\<rparr>) = Some (x :: unit json)"
    by (simp add: readingJson_def queued_frame_def Let_def capacity_defs ReceptionMetadata_init_def)
  then show ?thesis by (auto simp: serializeBackendBatch_def example_platform_def table_json_def capacity_defs ascii_def Let_def)
qed

lemma example_parts:
  "dp_queue example_platform = mem_platform" "dp_wifi example_platform = mem_wifi_api" "dp_http example_platform = mem_http"
  "wp_connected mem_wifi_api x = (mw_up x, x)" "hp_begin mem_http c ms url n = (True, n)" "hp_addHeader mem_http k v n = n"
  "hp_POST mem_http body n = (200, n @ [body])" "hp_getString mem_http n = (ascii ''R'', n)" "hp_end mem_http n = n" "hp_log mem_http l n = n"
  by (simp_all add: example_platform_def mem_wifi_api_def mem_http_def)

lemma example_idle:
  assumes "\<not> rv_radioMutex (gw_radio (dv_gateway w))"
  shows "device_queue (dp_others example_platform w) = device_queue w" "dv_backend (dp_others example_platform w) = dv_backend w"
  using assms by (simp_all add: example_platform_def radio_round_def device_queue_def)

lemma example_perform:
  assumes "mw_up (dv_driver w)" "\<not> isTls config" "\<not> rv_radioMutex (gw_radio (dv_gateway w))"
  shows "\<exists>n. performRequest example_platform config (Method_POST body) path err trusted w = ((200, ascii ''R'', err[0 := 0]), n) \<and>
    device_queue n = device_queue w \<and> dv_backend n = dv_backend w"
  using assms example_idle
  by (simp add: performRequest_def networkAvailable_def httpExchange_def example_parts Let_def queue_frame)

lemma example_start:
  "bw_mutex (dv_backend example_device)" "unat (rc_batchSize (configSnapshot (dv_backend example_device))) = 20"
  "rc_identity (configSnapshot (dv_backend example_device)) = GatewayIdentity_init" "device_queue example_device = (running_queue, one_hw)"
  "mw_up (dv_driver example_device)" "\<not> isTls (configSnapshot (dv_backend example_device))"
  "\<not> rv_radioMutex (gw_radio (dv_gateway example_device))"
proof -
  have "\<not> isTls example_config" by code_simp
  then show "\<not> isTls (configSnapshot (dv_backend example_device))" by (simp add: example_device_def configSnapshot_def)
qed (simp_all add: example_device_def example_config_def configSnapshot_def BackendWorker_init_def RuntimeConfig_init_def device_queue_def RadioService_init_def)

lemma example_request:
  "\<exists>n. uploadRequest example_platform example_device =
     (Some ([queued_frame\<lparr>q_recordId := 1\<rparr>], 200, ascii ''R'', replicate 128 0), n) \<and>
     device_queue n = (running_queue, one_hw) \<and> bw_mutex (dv_backend n)"
proof -
  define w1 where "w1 = on_status (stateText ''UPLOADING'') (putQueue running_queue one_hw example_device)"
  obtain up w2 where up: "uptimeMs example_platform w1 = (up, w2)" by fastforce
  define w3 where "w3 = on_status (\<lambda>s. s\<lparr>bs_lastAttemptUptimeMs := up\<rparr>) w2"
  have "dv_driver w3 = dv_driver example_device" "rv_radioMutex (gw_radio (dv_gateway w3)) = rv_radioMutex (gw_radio (dv_gateway example_device))"
      "bw_mutex (dv_backend w3) = bw_mutex (dv_backend example_device)" "device_queue w3 = (running_queue, one_hw)"
    using up clock_frame(2)[OF up]
    by (auto simp: w3_def w1_def putQueue_def on_status_def on_worker_def uptimeMs_def device_uptimeUs_def device_queue_def split: prod.splits)
  then have w3: "mw_up (dv_driver w3)" "\<not> rv_radioMutex (gw_radio (dv_gateway w3))" "bw_mutex (dv_backend w3)" "device_queue w3 = (running_queue, one_hw)"
    using example_start by simp_all
  obtain n where n: "performRequest example_platform (configSnapshot (dv_backend example_device)) (Method_POST (ascii ''{}''))
      (ascii ''/api/v1/iot/telemetry/batch'') (replicate 128 0) True w3 = ((200, ascii ''R'', (replicate 128 0)[0 := 0]), n)"
      "device_queue n = device_queue w3" "dv_backend n = dv_backend w3"
    using example_perform[OF w3(1) example_start(6) w3(2)] by blast
  have "uploadRequest example_platform example_device = (Some ([queued_frame\<lparr>q_recordId := 1\<rparr>], 200, ascii ''R'', replicate 128 0), n)"
    unfolding uploadRequest_def Let_def example_start(2-4) example_parts(1) example_peek prod.case example_batch putQueue_backend
    using n(1) up by (simp only: example_start(1) simp_thms if_True prod.case list.distinct(2) not_Cons_self2 replicate_update_same
      flip: w1_def w3_def) simp
  then show ?thesis using n w3 by simp
qed

lemma example_answer:
  "parseBackendBatchResponse (dp_json example_platform) (Some (ascii ''R'')) 1 = Some [recordResult 0 BackendRecordStatus_kInserted []]"
  by code_simp

lemma example_actions:
  "terminalActions example_platform [queued_frame\<lparr>q_recordId := 1\<rparr>] [] [recordResult 0 BackendRecordStatus_kInserted []] w = (Some [upload_example], w)"
proof -
  have "decodeTelemetry (Some (q_rawPayload queued_frame)) (unat (q_payloadLength queued_frame)) TelemetryPacket_init = (DecodeStatus_kOk, example_telemetry)"
    using queued_telemetry by (auto simp: recordTelemetry_def split: prod.splits if_splits)
  then show ?thesis by (simp add: terminalAction_def upload_example_def packetKey_def recordResult_def)
qed

lemma example_upload: "fst (uploadOnce example_platform example_device) = (True, True)"
proof -
  obtain n where n: "uploadRequest example_platform example_device =
     (Some ([queued_frame\<lparr>q_recordId := 1\<rparr>], 200, ascii ''R'', replicate 128 0), n)" "device_queue n = (running_queue, one_hw)"
    using example_request by blast
  obtain q h where f: "DurableQueue_finish mem_platform [upload_example] (running_queue, one_hw) = (True, q, h)"
    using upload_example_run by (cases "DurableQueue_finish mem_platform [upload_example] (running_queue, one_hw)") auto
  have len: "length [queued_frame\<lparr>q_recordId := 1\<rparr>] = 1" by simp
  show ?thesis
    using f n unfolding uploadOnce_def n(1) option.case prod.case uploadSettle_def len example_answer example_actions example_parts n(2)
    by (simp add: backendHttpResponseMayDequeue_def backendBatchResponseComplete_def Let_def)
qed



section \<open>Nothing is stuck in the queue\<close>

text \<open>C6: The queue drains. Take any run of the upload task in which \<open>k\<close> uploads are completely successful with batches of
  at least \<open>n\<close> records, however many uploads fail in between and whatever other tasks do to the queue meanwhile (new
  records included). Then for each record of the queue at the start, the number of records before and including it has
  gone down by \<open>n * k\<close>: uploads go from the oldest on, and a record is never overtaken. Once \<open>n * k\<close> reaches the number of records at the
  start, none of them is left.\<close>
theorem uploads_drain:
  assumes "upload_path P content number flag"
    and "usable (fst (device_queue w)) = Some core" "core_inv core (record_files content (snd (device_queue w)))"
    and "uploads P content n k w w'"
  shows "(\<forall>x \<in> set (stored_records content (device_queue w)).
      length (waiting content (fst x) w') \<le> length (waiting content (fst x) w) - n * k) \<and>
    (length (stored_records content (device_queue w)) \<le> n * k \<longrightarrow>
      set (stored_records content (device_queue w')) \<inter> set (stored_records content (device_queue w)) = {})"
proof -
  have ok: "upload_path.dq_ok content w" using assms(2,3) by (simp add: upload_path.dq_ok_def[OF assms(1)] queue_ok_def)
  have less: "qc_nextRecordId core \<noteq> 0 \<longrightarrow> fst x < qc_nextRecordId core" if "x \<in> set (stored_records content (device_queue w))" for x
    using that assms(2,3) by (auto simp: core_inv_def stored_records_def queue_view_def)
  have all: "length (waiting content (fst x) w') \<le> length (waiting content (fst x) w) - n * k"
    if "x \<in> set (stored_records content (device_queue w))" for x
    by (rule upload_path.uploads_progress[OF assms(1,4,2) ok less[OF that]])
  have "x \<notin> set (stored_records content (device_queue w'))"
    if "length (stored_records content (device_queue w)) \<le> n * k" "x \<in> set (stored_records content (device_queue w))" for x
  proof -
    have "length (waiting content (fst x) w) \<le> n * k" using that(1) le_trans[OF length_filter_le] by (simp add: waiting_def)
    then have "waiting content (fst x) w' = []" using all[OF that(2)] by simp
    then show ?thesis by (auto simp: waiting_def filter_empty_conv)
  qed
  then show ?thesis using all by blast
qed

theorem uploads_drain_witness:
  "uploads example_platform (\<lambda>h. mf_content (fst h)) 20 1 example_device (snd (uploadOnce example_platform example_device)) \<and>
   length (stored_records (\<lambda>h. mf_content (fst h)) (device_queue example_device)) = 1 \<and>
   set (stored_records (\<lambda>h. mf_content (fst h)) (device_queue (snd (uploadOnce example_platform example_device)))) \<inter>
     set (stored_records (\<lambda>h. mf_content (fst h)) (device_queue example_device)) = {}"
proof -
  let ?C = "\<lambda>h. mf_content (fst h)" and ?w' = "snd (uploadOnce example_platform example_device)"
  have core: "usable (fst (device_queue example_device)) = Some (one_queued 0)"
    by (simp add: example_device_def device_queue_def running_usable)
  have inv: "core_inv (one_queued 0) (record_files ?C (snd (device_queue example_device)))"
    by (simp add: example_device_def device_queue_def one_hw_files one_queued_inv)
  have len: "length (stored_records ?C (device_queue example_device)) = 1"
    using core by (simp add: stored_records_def queue_view_def one_queued_def)
  have run: "uploadOnce example_platform example_device = ((True, True), ?w')"
    using example_upload by (simp add: prod_eq_iff)
  have ok: "example.dq_ok example_device" using core inv by (simp add: example.dq_ok_def queue_ok_def)
  have "example.dq_ok ?w'" using example.uploadOnce_outcome[OF run core ok] by (elim exE conjE)
  then have up: "uploads example_platform ?C 20 1 example_device ?w'"
    using uploads_complete[OF run _ example.same_after[OF _ refl] uploads_none, of 20] example_start(2) by simp
  show ?thesis using uploads_drain[OF example.upload_path_axioms core inv up] up len by simp
qed



section \<open>Backoff\<close>

definition current_backoff :: "('d, 'q, 'c, 'r, 'x, 'n) Device \<Rightarrow> nat" where
  "current_backoff w = unat (bs_currentBackoffMs (bw_status (dv_backend w)))"

lemma double_u32: "unat (ucast (c :: u32) * 2 :: u64) = unat c * 2" "unat (ucast (c :: u32) :: u64) = unat c"
proof -
  have c: "unat c < 2 ^ LENGTH(32)" by (rule unsigned_less)
  then show u: "unat (ucast c :: u64) = unat c" by (simp add: unsigned_ucast_eq take_bit_nat_eq_self)
  show "unat (ucast c * 2 :: u64) = unat c * 2" using c by (simp add: unat_word_ariths u)
qed

lemma nextBackoff_nat:
  "unat (nextBackoff config c) = (if c = 0 then unat (rc_initialBackoffMs config) else min (unat c * 2) (unat (rc_maximumBackoffMs config)))"
proof (cases "c = 0")
  case False
  let ?m = "rc_maximumBackoffMs config" and ?d = "ucast c * 2 :: u64"
  have m: "unat ?m < 2 ^ LENGTH(32)" by (rule unsigned_less)
  have less: "(ucast ?m :: u64) < ?d \<longleftrightarrow> unat ?m < unat c * 2" by (simp add: word_less_nat_alt double_u32)
  have down: "unat (ucast x :: u32) = unat x" if "unat x < 2 ^ 32" for x :: u64
    using that by (simp add: unsigned_ucast_eq take_bit_nat_eq_self)
  show ?thesis
  proof (cases "unat ?m < unat c * 2")
    case True
    then show ?thesis using False less down[of "ucast ?m"] m by (simp add: nextBackoff_def Let_def double_u32)
  next
    case no: False
    then show ?thesis using False less down[of ?d] m by (simp add: nextBackoff_def Let_def double_u32)
  qed
qed (simp add: nextBackoff_def)

lemma setFailure_backoff:
  assumes "bw_mutex (dv_backend w)"
  shows "bw_config (dv_backend (setFailure P st m adv tel w)) = bw_config (dv_backend w)"
    "bw_mutex (dv_backend (setFailure P st m adv tel w))"
    "bs_currentBackoffMs (bw_status (dv_backend (setFailure P st m adv tel w))) =
       (if adv then nextBackoff (bw_config (dv_backend w)) (bs_currentBackoffMs (bw_status (dv_backend w)))
        else bs_currentBackoffMs (bw_status (dv_backend w)))"
  using assms
  by (auto simp: setFailure_def Let_def on_status_def on_worker_def stateText_def split: prod.splits dest!: clock_frame)

text \<open>C31: The backoff is exponential and bounded. For a worker with a configuration that passed validation and no backoff
  running, after any sequence of \<open>k + 1\<close> failures that advance it (whatever their status, message and kind) the pause is the
  initial backoff times \<open>2 ^ k\<close>, cut off at the maximum; it is never zero and never above the maximum, so a failing backend is
  neither hammered nor abandoned. The pause with its random part is at most a fifth longer and does not wrap.\<close>
theorem backoff_doubles:
  assumes "bw_mutex (dv_backend w)" "current_backoff w = 0" "config = bw_config (dv_backend w)"
    and "rc_initialBackoffMs config \<noteq> 0" "rc_initialBackoffMs config \<le> rc_maximumBackoffMs config" "rc_maximumBackoffMs config \<le> 300000"
    and "length failures = Suc k"
  shows "let w' = fold (\<lambda>(status, message, telemetry). setFailure P status message True telemetry) failures w;
             current = bs_currentBackoffMs (bw_status (dv_backend w')) in
    current_backoff w' = min (unat (rc_initialBackoffMs config) * 2 ^ k) (unat (rc_maximumBackoffMs config)) \<and> 0 < current \<and>
    (\<forall>random. unat current \<le> unat (current + random mod (current div 5 + 1)) \<and>
       unat (current + random mod (current div 5 + 1)) \<le> unat current + unat current div 5)"
proof -
  define fail where "fail = (\<lambda>(status, message, telemetry). setFailure P status message True telemetry)"
  let ?i = "unat (rc_initialBackoffMs config)" and ?m = "unat (rc_maximumBackoffMs config)"
  have im: "0 < ?i" "?i \<le> ?m" "?m \<le> 300000"
    using assms(4-6) by (simp_all add: word_le_nat_alt unat_gt_0)
  have step: "bw_mutex (dv_backend (fold fail fs w)) \<and> bw_config (dv_backend (fold fail fs w)) = config \<and>
      current_backoff (fold fail fs w) = (case length fs of 0 \<Rightarrow> 0 | Suc j \<Rightarrow> min (?i * 2 ^ j) ?m)" for fs
  proof (induction fs rule: rev_induct)
    case (snoc f fs)
    obtain a b c where f: "f = (a, b, c)" by (metis prod_cases3)
    note s = setFailure_backoff[of "fold fail fs w" P a b True c]
    have nz: "bs_currentBackoffMs (bw_status (dv_backend (fold fail fs w))) = 0 \<longleftrightarrow> current_backoff (fold fail fs w) = 0"
      by (simp add: current_backoff_def unat_eq_zero)
    show ?case
    proof (cases fs)
      case Nil
      then show ?thesis using snoc s nz by (simp add: f fail_def current_backoff_def nextBackoff_nat) (use im in simp)
    next
      case (Cons g gs)
      then obtain j where j: "length fs = Suc j" by simp
      have c: "current_backoff (fold fail fs w) = min (?i * 2 ^ j) ?m" "0 < min (?i * 2 ^ j) ?m" using snoc j im by simp_all
      have "current_backoff (fold fail (fs @ [f]) w) = min (current_backoff (fold fail fs w) * 2) ?m"
        using s(3) snoc c nz by (simp add: f fail_def current_backoff_def nextBackoff_nat)
      also have "\<dots> = min (?i * 2 ^ Suc j) ?m" unfolding c(1) by (simp add: min_def)
      finally show ?thesis using snoc s j by (simp add: f fail_def)
    qed
  qed (use assms in simp)
  define cur where "cur = bs_currentBackoffMs (bw_status (dv_backend (fold fail failures w)))"
  have cur: "unat cur = min (?i * 2 ^ k) ?m" using step[of failures] assms(7) by (simp add: cur_def current_backoff_def)
  then have bound: "unat cur \<le> 300000" "0 < cur" using im by (simp_all add: word_less_nat_alt)
  have "unat (cur + r mod (cur div 5 + 1)) = unat cur + unat (r mod (cur div 5 + 1)) \<and> unat (r mod (cur div 5 + 1)) \<le> unat cur div 5" for r
  proof -
    have d: "unat (cur div 5 + 1) = unat cur div 5 + 1" using bound(1) by (simp add: unat_word_ariths unat_div)
    then have "unat (r mod (cur div 5 + 1)) < unat cur div 5 + 1" by (simp add: unat_mod)
    then show ?thesis using bound(1) by (simp add: unat_word_ariths)
  qed
  then show ?thesis using cur bound(2) unfolding Let_def fail_def[symmetric] cur_def[symmetric] current_backoff_def by simp
qed

theorem backoff_doubles_witness:
  "current_backoff (fold (\<lambda>(status, message, telemetry). setFailure example_platform status message True telemetry)
     [(0, None, False), (503, None, True), (500, None, True)] example_device) = 8000"
proof -
  have start: "bw_mutex (dv_backend example_device)" "current_backoff example_device = 0" "bw_config (dv_backend example_device) = example_config"
    by (simp_all add: example_device_def current_backoff_def BackendWorker_init_def BackendStatus_init_def)
  have "rc_initialBackoffMs example_config = 2000" "rc_maximumBackoffMs example_config = 300000"
    by (simp_all add: example_config_def RuntimeConfig_init_def)
  then show ?thesis
    using backoff_doubles[OF start(1,2) start(3)[symmetric], of "[(0, None, False), (503, None, True), (500, None, True)]" 2 example_platform]
    by (simp add: Let_def)
qed

end
