(* ===== verification/Dashboard.thy ===== *)
theory Dashboard
  imports Backend_Worker Config_Store Ota_Manager Logger
begin

text \<open>
  The web dashboard (src/lib/dashboard/dashboard.cpp): the number parsers, one operation per request handler, the
  routing table and the reboot timer. The web server's argument map is the list of arguments of a request, and a
  response is its status with its text. The \<open>Update\<close> library, the reset and \<open>strtof\<close> are operations of
  \<open>web_platform\<close>; the remaining collaborators are the components of this development. Handlers run one after the other on
  the loop task.
\<close>

section \<open>Numbers in requests\<close>

definition is_space :: "byte \<Rightarrow> bool" where "is_space c \<longleftrightarrow> c = 0x20 \<or> 0x09 \<le> c \<and> c \<le> 0x0D"

text \<open>The common part of \<open>strtoul\<close> and \<open>strtol\<close> in base ten: the sign, the digits, and what follows them.\<close>
definition strto_scan :: "byte list \<Rightarrow> bool \<times> byte list \<times> byte list" where
  "strto_scan s = (let t = dropWhile is_space s;
      negative = (t \<noteq> [] \<and> hd t = 0x2D);
      u = (if t \<noteq> [] \<and> (hd t = 0x2D \<or> hd t = 0x2B) then tl t else t)
    in (negative, takeWhile is_digit u, dropWhile is_digit u))"

text \<open>\<open>unsigned long\<close> and \<open>long\<close> have 32 bits; a value out of range sets \<open>errno\<close>, and \<open>strtoul\<close> negates a number with a
  minus sign. Without digits \<open>end\<close> is the start of the text.\<close>
definition parseUnsigned :: "byte list \<Rightarrow> u32 option" where
  "parseUnsigned val =
     (if val = [] then None
      else case strto_scan (cstr val) of (negative, digits, rest) \<Rightarrow>
        if digits = [] \<or> 2 ^ 32 \<le> decimal digits \<or> rest \<noteq> [] then None
        else Some (if negative then - of_nat (decimal digits) else of_nat (decimal digits)))"

definition parseSigned :: "byte list \<Rightarrow> 32 word option" where
  "parseSigned val =
     (if val = [] then None
      else case strto_scan (cstr val) of (negative, digits, rest) \<Rightarrow>
        let parsed = (if negative then - int (decimal digits) else int (decimal digits)) in
        if digits = [] \<or> parsed < - (2 ^ 31) \<or> 2 ^ 31 \<le> parsed \<or> rest \<noteq> [] then None
        else Some (word_of_int parsed))"


section \<open>Platform and state\<close>

datatype response = Text int "byte list" | Html | Json_body "byte list"

definition sendText :: "int \<Rightarrow> string \<Rightarrow> response" where "sendText status body = Text status (ascii body)"

fun response_status :: "response \<Rightarrow> int" where
  "response_status (Text status _) = status"
| "response_status Html = 200"
| "response_status (Json_body _) = 200"

datatype WebLog =
    LogWebStarted | LogPairConfirmed "byte list" | LogPairManual "byte list" | LogUnpaired
  | LogCommandQueued u32 string u32 | LogCommandCancelled u32
  | LogSnapshotFailed | LogOtaStarted "byte list" | LogOtaAborted | LogOtaComplete

text \<open>\<open>wb_strtof\<close>: the value, how many bytes were read, and whether \<open>errno\<close> was set.\<close>
record ('d, 'q, 'c, 'r, 'x, 'n, 'j, 'p, 'o) web_platform =
  wb_device :: "('d, 'q, 'c, 'r, 'x, 'n, 'j) device_platform"
  wb_prefs :: "'p preferences_api"
  wb_commands :: "'c command_backend_ops"
  wb_ota :: "'o ota_platform"
  wb_fsub :: "f32 \<Rightarrow> f32 \<Rightarrow> f32"
  wb_strtof :: "byte list \<Rightarrow> f32 \<times> nat \<times> bool"
  wb_millis :: "'o \<Rightarrow> u32 \<times> 'o"
  wb_updateBegin :: "'o \<Rightarrow> bool \<times> 'o"
  wb_updateWrite :: "byte list \<Rightarrow> 'o \<Rightarrow> nat \<times> 'o"
  wb_updateHasError :: "'o \<Rightarrow> bool"
  wb_updateEnd :: "'o \<Rightarrow> bool \<times> 'o"
  wb_updateAbort :: "'o \<Rightarrow> 'o"
  wb_updatePrintError :: "'o \<Rightarrow> 'o"
  wb_restart :: "'o \<Rightarrow> 'o"
  wb_log :: "WebLog \<Rightarrow> 'o \<Rightarrow> 'o"

record Dashboard =
  db_identity :: GatewayIdentity
  db_resetReason :: "byte list"
  db_rebootAtMs :: u32
  db_otaUploadOkay :: bool

definition Dashboard_init :: Dashboard where
  "Dashboard_init = \<lparr>db_identity = GatewayIdentity_init, db_resetReason = replicate 32 0, db_rebootAtMs = 0, db_otaUploadOkay = False\<rparr>"

text \<open>Everything the dashboard reaches.\<close>
record ('d, 'q, 'c, 'r, 'x, 'n, 'p, 'o) System =
  sy_device :: "('d, 'q, 'c, 'r, 'x, 'n) Device"
  sy_config :: ConfigStore
  sy_prefs :: 'p
  sy_ota :: OtaManager
  sy_chip :: 'o
  sy_dashboard :: Dashboard

type_synonym request = "(string \<times> byte list) list"

text \<open>\<open>server_.arg(name)\<close> of a missing argument is the empty string.\<close>
definition arg :: "request \<Rightarrow> string \<Rightarrow> byte list" where
  "arg req name = (case map_of req name of None \<Rightarrow> [] | Some v \<Rightarrow> v)"

definition hasArg :: "request \<Rightarrow> string \<Rightarrow> bool" where "hasArg req name \<longleftrightarrow> map_of req name \<noteq> None"

definition parseFloat :: "('d, 'q, 'c, 'r, 'x, 'n, 'j, 'p, 'o) web_platform \<Rightarrow> byte list \<Rightarrow> f32 option" where
  "parseFloat W val =
     (if val = [] then None
      else case wb_strtof W (cstr val) of (parsed, n, err) \<Rightarrow>
        if err \<or> n = 0 \<or> n \<noteq> length (cstr val) \<or> \<not> isfinite parsed then None else Some parsed)"

definition web_log ::
  "('d, 'q, 'c, 'r, 'x, 'n, 'j, 'p, 'o) web_platform \<Rightarrow> WebLog \<Rightarrow> ('d, 'q, 'c, 'r, 'x, 'n, 'p, 'o) System \<Rightarrow> ('d, 'q, 'c, 'r, 'x, 'n, 'p, 'o) System" where
  "web_log W l s = s\<lparr>sy_chip := wb_log W l (sy_chip s)\<rparr>"

definition on_gateway ::
  "(('d, 'q, 'c, 'r) Gateway \<Rightarrow> ('d, 'q, 'c, 'r) Gateway) \<Rightarrow> ('d, 'q, 'c, 'r, 'x, 'n, 'p, 'o) System \<Rightarrow> ('d, 'q, 'c, 'r, 'x, 'n, 'p, 'o) System" where
  "on_gateway f s = s\<lparr>sy_device := (sy_device s)\<lparr>dv_gateway := f (dv_gateway (sy_device s))\<rparr>\<rparr>"

definition gateway_of :: "('d, 'q, 'c, 'r, 'x, 'n, 'p, 'o) System \<Rightarrow> ('d, 'q, 'c, 'r) Gateway" where
  "gateway_of s = dv_gateway (sy_device s)"

definition live_config :: "('d, 'q, 'c, 'r, 'x, 'n, 'p, 'o) System \<Rightarrow> GatewayConfig" where
  "live_config s = cs_config (sy_config s)"

definition saveConfig ::
  "('d, 'q, 'c, 'r, 'x, 'n, 'j, 'p, 'o) web_platform \<Rightarrow> GatewayConfig \<Rightarrow> ('d, 'q, 'c, 'r, 'x, 'n, 'p, 'o) System \<Rightarrow>
     bool \<times> ('d, 'q, 'c, 'r, 'x, 'n, 'p, 'o) System" where
  "saveConfig W c s = (case config_save (wb_fsub W) (wb_prefs W) c (sy_config s, sy_prefs s) of
     (okay, cs, p) \<Rightarrow> (okay, s\<lparr>sy_config := cs, sy_prefs := p\<rparr>))"

text \<open>The common end of the configuration handlers: validate, save, or the response that refuses.\<close>
definition acceptConfig ::
  "('d, 'q, 'c, 'r, 'x, 'n, 'j, 'p, 'o) web_platform \<Rightarrow> string \<Rightarrow> GatewayConfig \<Rightarrow> ('d, 'q, 'c, 'r, 'x, 'n, 'p, 'o) System \<Rightarrow>
     response option \<times> ('d, 'q, 'c, 'r, 'x, 'n, 'p, 'o) System" where
  "acceptConfig W message c s =
     (case validateConfig (wb_fsub W) c of (code, text) \<Rightarrow>
      if code \<noteq> ConfigValidationCode_kOk then (Some (sendText 422 text), s)
      else case saveConfig W c s of
        (False, s) \<Rightarrow> (Some (sendText 500 message), s)
      | (True, s) \<Rightarrow> (None, s))"

definition identityFor :: "GatewayIdentity \<Rightarrow> GatewayConfig \<Rightarrow> GatewayIdentity" where
  "identityFor identity config = identity\<lparr>gi_gatewayId := copy_array kGatewayIdCapacity (gi_gatewayId identity) (gc_gatewayId config)\<rparr>"

definition applyToBackend ::
  "('d, 'q, 'c, 'r, 'x, 'n, 'j, 'p, 'o) web_platform \<Rightarrow> GatewayConfig \<Rightarrow> GatewayIdentity \<Rightarrow>
     ('d, 'q, 'c, 'r, 'x, 'n, 'p, 'o) System \<Rightarrow> ('d, 'q, 'c, 'r, 'x, 'n, 'p, 'o) System" where
  "applyToBackend W c identity s = s\<lparr>sy_device := backend_applyConfig (wb_device W) c identity (sy_device s)\<rparr>"


section \<open>Configuration handlers\<close>

definition wifiCandidate :: "request \<Rightarrow> GatewayConfig \<Rightarrow> GatewayConfig" where
  "wifiCandidate req c = (let c = c\<lparr>gc_wifiSsid := copy_array kWifiSsidCapacity (gc_wifiSsid c) (arg req ''ssid'')\<rparr> in
     if arg req ''clearPassword'' = ascii ''true'' then c\<lparr>gc_wifiPassword := (gc_wifiPassword c)[0 := 0]\<rparr>
     else if hasArg req ''password'' \<and> arg req ''password'' \<noteq> []
     then c\<lparr>gc_wifiPassword := copy_array kWifiPasswordCapacity (gc_wifiPassword c) (arg req ''password'')\<rparr>
     else c)"

definition handleWifi ::
  "('d, 'q, 'c, 'r, 'x, 'n, 'j, 'p, 'o) web_platform \<Rightarrow> request \<Rightarrow> ('d, 'q, 'c, 'r, 'x, 'n, 'p, 'o) System \<Rightarrow>
     response \<times> ('d, 'q, 'c, 'r, 'x, 'n, 'p, 'o) System" where
  "handleWifi W req s =
     (let candidate = wifiCandidate req (live_config s) in
      case acceptConfig W ''NVS configuration write failed'' candidate s of
        (Some r, s) \<Rightarrow> (r, s)
      | (None, s) \<Rightarrow> (sendText 200 ''Wi-Fi configuration saved; reconnect requested'',
          s\<lparr>sy_device := (sy_device s)\<lparr>dv_wifi := wifi_applyConfig candidate (dv_wifi (sy_device s))\<rparr>\<rparr>))"

definition handleGateway ::
  "('d, 'q, 'c, 'r, 'x, 'n, 'j, 'p, 'o) web_platform \<Rightarrow> request \<Rightarrow> ('d, 'q, 'c, 'r, 'x, 'n, 'p, 'o) System \<Rightarrow>
     response \<times> ('d, 'q, 'c, 'r, 'x, 'n, 'p, 'o) System" where
  "handleGateway W req s =
     (let c = live_config s;
          candidate = c\<lparr>gc_gatewayId := copy_array kGatewayIdCapacity (gc_gatewayId c) (arg req ''gatewayId'')\<rparr> in
      case acceptConfig W ''NVS configuration write failed'' candidate s of
        (Some r, s) \<Rightarrow> (r, s)
      | (None, s) \<Rightarrow>
          let identity = identityFor (db_identity (sy_dashboard s)) candidate;
              s = s\<lparr>sy_dashboard := (sy_dashboard s)\<lparr>db_identity := identity\<rparr>\<rparr> in
          (sendText 200 ''logical Gateway ID saved'', applyToBackend W candidate identity s))"

definition backendCandidate :: "request \<Rightarrow> GatewayConfig \<Rightarrow> string + GatewayConfig" where
  "backendCandidate req c =
     (let c = c\<lparr>gc_backendBaseUrl := copy_array kBackendUrlCapacity (gc_backendBaseUrl c) (arg req ''baseUrl'')\<rparr>;
          c = (if arg req ''clearToken'' = ascii ''true'' then c\<lparr>gc_backendBearerToken := (gc_backendBearerToken c)[0 := 0]\<rparr>
               else if hasArg req ''token'' \<and> arg req ''token'' \<noteq> []
               then c\<lparr>gc_backendBearerToken := copy_array kBearerTokenCapacity (gc_backendBearerToken c) (arg req ''token'')\<rparr>
               else c) in
      case parseUnsigned (arg req ''batchSize'') of
        None \<Rightarrow> Inl ''invalid batch size''
      | Some batch \<Rightarrow> if 255 < batch then Inl ''invalid batch size''
         else (case parseUnsigned (arg req ''timeoutMs'') of
             None \<Rightarrow> Inl ''invalid HTTP timeout''
           | Some timeout \<Rightarrow> Inr (c\<lparr>gc_backendBatchSize := ucast batch, gc_backendHttpTimeoutMs := timeout\<rparr>)))"

definition handleBackend ::
  "('d, 'q, 'c, 'r, 'x, 'n, 'j, 'p, 'o) web_platform \<Rightarrow> request \<Rightarrow> ('d, 'q, 'c, 'r, 'x, 'n, 'p, 'o) System \<Rightarrow>
     response \<times> ('d, 'q, 'c, 'r, 'x, 'n, 'p, 'o) System" where
  "handleBackend W req s =
     (case backendCandidate req (live_config s) of
        Inl text \<Rightarrow> (sendText 422 text, s)
      | Inr candidate \<Rightarrow>
         (case acceptConfig W ''NVS configuration write failed'' candidate s of
            (Some r, s) \<Rightarrow> (r, s)
          | (None, s) \<Rightarrow>
              let s = applyToBackend W candidate (identityFor (db_identity (sy_dashboard s)) candidate) s in
              (sendText 200 ''backend configuration saved; token value remains masked'',
               s\<lparr>sy_device := flushNow (wb_device W) (sy_device s)\<rparr>)))"

definition handleHeartbeat ::
  "('d, 'q, 'c, 'r, 'x, 'n, 'j, 'p, 'o) web_platform \<Rightarrow> request \<Rightarrow> ('d, 'q, 'c, 'r, 'x, 'n, 'p, 'o) System \<Rightarrow>
     response \<times> ('d, 'q, 'c, 'r, 'x, 'n, 'p, 'o) System" where
  "handleHeartbeat W req s =
     (case parseUnsigned (arg req ''intervalSeconds'') of
        None \<Rightarrow> (sendText 422 ''invalid heartbeat interval'', s)
      | Some interval \<Rightarrow>
         let candidate = (live_config s)\<lparr>gc_heartbeatIntervalSeconds := interval\<rparr> in
         (case acceptConfig W ''NVS heartbeat configuration write failed'' candidate s of
            (Some r, s) \<Rightarrow> (r, s)
          | (None, s) \<Rightarrow> (sendText 200 ''heartbeat interval saved locally'',
              applyToBackend W candidate (identityFor (db_identity (sy_dashboard s)) candidate) s)))"

definition parseByte :: "byte list \<Rightarrow> u8 option" where
  "parseByte val = (case parseUnsigned val of None \<Rightarrow> None | Some v \<Rightarrow> if 255 < v then None else Some (ucast v))"

definition radioCandidate ::
  "('d, 'q, 'c, 'r, 'x, 'n, 'j, 'p, 'o) web_platform \<Rightarrow> request \<Rightarrow> RadioConfig \<Rightarrow> string + RadioConfig" where
  "radioCandidate W req r =
     (case (parseFloat W (arg req ''frequencyMhz''), parseFloat W (arg req ''bandwidthKhz''), parseByte (arg req ''spreadingFactor'')) of
        (Some frequency, Some bandwidth, Some spreading) \<Rightarrow>
          (case parseByte (arg req ''codingRateDenominator'') of
             None \<Rightarrow> Inl ''invalid coding rate''
           | Some coding \<Rightarrow>
              (case parseSigned (arg req ''txPowerDbm'') of
                 None \<Rightarrow> Inl ''invalid TX power''
               | Some txPower \<Rightarrow> if sint txPower < -128 \<or> 127 < sint txPower then Inl ''invalid TX power''
                  else (case parseByte (arg req ''syncWord'') of
                      None \<Rightarrow> Inl ''invalid sync word''
                    | Some sync \<Rightarrow> Inr (r\<lparr>r_frequencyMhz := frequency, r_bandwidthKhz := bandwidth, r_spreadingFactor := spreading,
                        r_codingRateDenominator := coding, r_txPowerDbm := ucast txPower, r_syncWord := sync\<rparr>))))
      | _ \<Rightarrow> Inl ''invalid radio numeric value'')"

definition applyRadio ::
  "('d, 'q, 'c, 'r, 'x, 'n, 'j, 'p, 'o) web_platform \<Rightarrow> RadioConfig \<Rightarrow> ('d, 'q, 'c, 'r, 'x, 'n, 'p, 'o) System \<Rightarrow>
     bool \<times> ('d, 'q, 'c, 'r, 'x, 'n, 'p, 'o) System" where
  "applyRadio W config s = (case applyConfig (dp_radio (wb_device W)) config (gw_radio (gateway_of s), gw_air (gateway_of s)) of
     (okay, rs, r) \<Rightarrow> (okay, on_gateway (\<lambda>g. g\<lparr>gw_radio := rs, gw_air := r\<rparr>) s))"

definition handleRadio ::
  "('d, 'q, 'c, 'r, 'x, 'n, 'j, 'p, 'o) web_platform \<Rightarrow> request \<Rightarrow> ('d, 'q, 'c, 'r, 'x, 'n, 'p, 'o) System \<Rightarrow>
     response \<times> ('d, 'q, 'c, 'r, 'x, 'n, 'p, 'o) System" where
  "handleRadio W req s =
     (let previous = live_config s in
      case radioCandidate W req (gc_radio previous) of
        Inl text \<Rightarrow> (sendText 422 text, s)
      | Inr radio \<Rightarrow>
         let candidate = previous\<lparr>gc_radio := radio\<rparr> in
         (case validateConfig (wb_fsub W) candidate of (code, text) \<Rightarrow>
          if code \<noteq> ConfigValidationCode_kOk then (sendText 422 text, s)
          else case applyRadio W radio s of
            (False, s) \<Rightarrow> (sendText 422 ''SX1278 rejected candidate; previous radio configuration restored'', s)
          | (True, s) \<Rightarrow>
             (case saveConfig W candidate s of
                (False, s) \<Rightarrow> (sendText 500 ''NVS save failed; previous radio configuration restored'', snd (applyRadio W (gc_radio previous) s))
              | (True, s) \<Rightarrow> (sendText 200 ''radio configuration applied and persisted'', s))))"


section \<open>Pairing handlers\<close>

definition savePairedNode ::
  "('d, 'q, 'c, 'r, 'x, 'n, 'j, 'p, 'o) web_platform \<Rightarrow> byte list \<Rightarrow> ('d, 'q, 'c, 'r, 'x, 'n, 'p, 'o) System \<Rightarrow>
     bool \<times> ('d, 'q, 'c, 'r, 'x, 'n, 'p, 'o) System" where
  "savePairedNode W nodeId s =
     (let c = live_config s in saveConfig W (c\<lparr>gc_pairedNodeId := copy_array kNodeIdCapacity (gc_pairedNodeId c) nodeId\<rparr>) s)"

definition handlePairStart ::
  "('d, 'q, 'c, 'r, 'x, 'n, 'p, 'o) System \<Rightarrow> response \<times> ('d, 'q, 'c, 'r, 'x, 'n, 'p, 'o) System" where
  "handlePairStart s = (case startPairing (gateway_of s) of (started, g) \<Rightarrow>
     (sendText (if started then 200 else 409) (if started then ''pairing discovery started; candidates are not queued or ACKed''
        else ''unpair the current Node before starting discovery''), on_gateway (\<lambda>_. g) s))"

definition handlePairConfirm ::
  "('d, 'q, 'c, 'r, 'x, 'n, 'j, 'p, 'o) web_platform \<Rightarrow> ('d, 'q, 'c, 'r, 'x, 'n, 'p, 'o) System \<Rightarrow>
     response \<times> ('d, 'q, 'c, 'r, 'x, 'n, 'p, 'o) System" where
  "handlePairConfirm W s =
     (case confirmPairing (Some (replicate kNodeIdCapacity 0)) (gateway_of s) of ((confirmed, nodeId), g) \<Rightarrow>
      let s = on_gateway (\<lambda>_. g) s in
      if \<not> confirmed then (sendText 409 ''no pairing candidate is available'', s)
      else case savePairedNode W (the nodeId) s of
        (False, s) \<Rightarrow> (sendText 500 ''NVS pairing save failed; Gateway remains unpaired'', on_gateway radio_unpair s)
      | (True, s) \<Rightarrow> (sendText 200 ''Node pairing confirmed; production capture begins with the next packet'',
          web_log W (LogPairConfirmed (the nodeId)) s))"

definition handlePairCancel ::
  "('d, 'q, 'c, 'r, 'x, 'n, 'p, 'o) System \<Rightarrow> response \<times> ('d, 'q, 'c, 'r, 'x, 'n, 'p, 'o) System" where
  "handlePairCancel s = (sendText 200 ''pairing discovery cancelled'', on_gateway (\<lambda>g. snd (cancelPairing g)) s)"

definition handlePairManual ::
  "('d, 'q, 'c, 'r, 'x, 'n, 'j, 'p, 'o) web_platform \<Rightarrow> request \<Rightarrow> ('d, 'q, 'c, 'r, 'x, 'n, 'p, 'o) System \<Rightarrow>
     response \<times> ('d, 'q, 'c, 'r, 'x, 'n, 'p, 'o) System" where
  "handlePairManual W req s =
     (let nodeId = arg req ''nodeId'' in
      if \<not> nodeIdValid (Some nodeId) then (sendText 422 ''invalid Node ID'', s)
      else let previous = live_config s;
               candidate = previous\<lparr>gc_pairedNodeId := copy_array kNodeIdCapacity (gc_pairedNodeId previous) nodeId\<rparr> in
        (case saveConfig W candidate s of
           (False, s) \<Rightarrow> (sendText 500 ''NVS pairing save failed'', s)
         | (True, s) \<Rightarrow>
            (case radio_pairManual (Some nodeId) (gateway_of s) of
               (False, g) \<Rightarrow> (sendText 500 ''pairing state update failed'', snd (saveConfig W previous (on_gateway (\<lambda>_. g) s)))
             | (True, g) \<Rightarrow> (sendText 200 ''Node ID paired manually'', web_log W (LogPairManual nodeId) (on_gateway (\<lambda>_. g) s)))))"

definition handleUnpair ::
  "('d, 'q, 'c, 'r, 'x, 'n, 'j, 'p, 'o) web_platform \<Rightarrow> request \<Rightarrow> ('d, 'q, 'c, 'r, 'x, 'n, 'p, 'o) System \<Rightarrow>
     response \<times> ('d, 'q, 'c, 'r, 'x, 'n, 'p, 'o) System" where
  "handleUnpair W req s =
     (if arg req ''confirm'' \<noteq> ascii ''UNPAIR'' then (sendText 422 ''confirmation must equal UNPAIR'', s)
      else let c = live_config s in
        (case saveConfig W (c\<lparr>gc_pairedNodeId := (gc_pairedNodeId c)[0 := 0]\<rparr>) s of
           (False, s) \<Rightarrow> (sendText 500 ''NVS unpair write failed'', s)
         | (True, s) \<Rightarrow> (sendText 200 ''Gateway is now UNPAIRED; telemetry will not be queued or ACKed'',
             web_log W LogUnpaired (on_gateway radio_unpair s))))"


section \<open>Backend test and commands\<close>

definition handleBackendTest ::
  "('d, 'q, 'c, 'r, 'x, 'n, 'j, 'p, 'o) web_platform \<Rightarrow> ('d, 'q, 'c, 'r, 'x, 'n, 'p, 'o) System \<Rightarrow>
     response \<times> ('d, 'q, 'c, 'r, 'x, 'n, 'p, 'o) System" where
  "handleBackendTest W s =
     (case testConnection (wb_device W) (replicate 128 0) (sy_device s) of ((okay, status, error), w) \<Rightarrow>
      let s = s\<lparr>sy_device := w\<rparr> in
      if okay then (sendText 200 ''backend connectivity, TLS/authentication, and schema compatibility passed'', s)
      else (Text 503 (cstr (snprintf_text (replicate 180 0)
        (ascii ''backend test failed HTTP='' @ (if status < 0 then ascii ''-'' else []) @ dec_digits (nat \<bar>status\<bar>) @ ascii '' error='' @
         (if hd error = 0 then ascii ''authentication or compatibility failure'' else cstr error)))), s))"

text \<open>\<open>commands_->create\<close> at the trusted time, and the responses the three command handlers share.\<close>
definition queueCommand ::
  "('d, 'q, 'c, 'r, 'x, 'n, 'j, 'p, 'o) web_platform \<Rightarrow> CommandType \<Rightarrow> u8 \<Rightarrow> u32 \<Rightarrow> TrustedTimeSnapshot \<Rightarrow> (u32 \<Rightarrow> WebLog) \<Rightarrow> string \<Rightarrow>
     ('d, 'q, 'c, 'r, 'x, 'n, 'p, 'o) System \<Rightarrow> response \<times> ('d, 'q, 'c, 'r, 'x, 'n, 'p, 'o) System" where
  "queueCommand W type minutes target now message text s =
     (let g = gateway_of s in
      case store_create (wb_commands W) GatewayCommand_zero type minutes target (if ts_trusted now then ts_unixMs now else -1)
             (gw_commands g, gw_nvs g) of ((created, commandId), cs, n) \<Rightarrow>
      let s = on_gateway (\<lambda>g. g\<lparr>gw_commands := cs, gw_nvs := n\<rparr>) s in
      if \<not> created then (sendText 409 (cst_lastError cs), s)
      else (sendText 202 text, web_log W (message commandId) s))"

definition web_now ::
  "('d, 'q, 'c, 'r, 'x, 'n, 'j, 'p, 'o) web_platform \<Rightarrow> ('d, 'q, 'c, 'r, 'x, 'n, 'p, 'o) System \<Rightarrow>
     TrustedTimeSnapshot \<times> ('d, 'q, 'c, 'r, 'x, 'n, 'p, 'o) System" where
  "web_now W s = (case device_now (wb_device W) (sy_device s) of (t, w) \<Rightarrow> (t, s\<lparr>sy_device := w\<rparr>))"

definition handleEnterMaintenance ::
  "('d, 'q, 'c, 'r, 'x, 'n, 'j, 'p, 'o) web_platform \<Rightarrow> request \<Rightarrow> ('d, 'q, 'c, 'r, 'x, 'n, 'p, 'o) System \<Rightarrow>
     response \<times> ('d, 'q, 'c, 'r, 'x, 'n, 'p, 'o) System" where
  "handleEnterMaintenance W req s =
     (if arg req ''confirm'' \<noteq> ascii ''ENTER'' then (sendText 422 ''confirmation must equal ENTER'', s)
      else if \<not> radio_paired (gateway_of s) then (sendText 409 ''no production Node is paired'', s)
      else case web_now W s of (now, s) \<Rightarrow>
        queueCommand W CommandType_kEnterMaintenanceNow 0 0 now (\<lambda>i. LogCommandQueued i ''ENTER_MAINTENANCE_NOW'' 0)
          ''ENTER_MAINTENANCE_NOW queued for the next telemetry ACK'' s)"

definition handlePollIntervalCommand ::
  "('d, 'q, 'c, 'r, 'x, 'n, 'j, 'p, 'o) web_platform \<Rightarrow> request \<Rightarrow> ('d, 'q, 'c, 'r, 'x, 'n, 'p, 'o) System \<Rightarrow>
     response \<times> ('d, 'q, 'c, 'r, 'x, 'n, 'p, 'o) System" where
  "handlePollIntervalCommand W req s =
     (if \<not> radio_paired (gateway_of s) then (sendText 409 ''no production Node is paired'', s)
      else case parseUnsigned (arg req ''minutes'') of
        None \<Rightarrow> (sendText 422 ''poll interval must be 1-255 minutes'', s)
      | Some minutes \<Rightarrow>
         if minutes < 1 \<or> 255 < minutes then (sendText 422 ''poll interval must be 1-255 minutes'', s)
         else (case web_now W s of (now, s) \<Rightarrow>
           queueCommand W CommandType_kSetPollIntervalMinutes (ucast minutes) 0 now (\<lambda>i. LogCommandQueued i ''SET_POLL_INTERVAL_MINUTES'' minutes)
             ''poll-interval command queued for the next telemetry ACK'' s))"

definition schedule_horizon :: u32 where "schedule_horizon = 27 * 24 * 60 * 60"

definition handleScheduleMaintenance ::
  "('d, 'q, 'c, 'r, 'x, 'n, 'j, 'p, 'o) web_platform \<Rightarrow> request \<Rightarrow> ('d, 'q, 'c, 'r, 'x, 'n, 'p, 'o) System \<Rightarrow>
     response \<times> ('d, 'q, 'c, 'r, 'x, 'n, 'p, 'o) System" where
  "handleScheduleMaintenance W req s =
     (if \<not> radio_paired (gateway_of s) then (sendText 409 ''no production Node is paired'', s)
      else case web_now W s of (now, s) \<Rightarrow>
        if \<not> ts_trusted now \<or> sint (ts_unixMs now) < 0
        then (sendText 409 ''Gateway NTP time is untrusted; scheduling is disabled'', s)
        else case parseUnsigned (arg req ''targetUnix'') of
          None \<Rightarrow> (sendText 422 ''targetUnix must be UTC Unix seconds'', s)
        | Some target \<Rightarrow>
           let nowSeconds = word_of_int (c_div (sint (ts_unixMs now)) 1000) :: u32 in
           if target mod 60 \<noteq> 0 \<or> target < nowSeconds + 60 \<or> schedule_horizon < target - nowSeconds
           then (sendText 422 ''target must be minute-aligned, at least 60 seconds ahead, and within 27 days'', s)
           else queueCommand W CommandType_kScheduleMaintenanceAt 0 target now (\<lambda>i. LogCommandQueued i ''SCHEDULE_MAINTENANCE_AT'' target)
             ''scheduled-maintenance command queued for the next telemetry ACK'' s)"

definition handleCancelCommand ::
  "('d, 'q, 'c, 'r, 'x, 'n, 'j, 'p, 'o) web_platform \<Rightarrow> request \<Rightarrow> ('d, 'q, 'c, 'r, 'x, 'n, 'p, 'o) System \<Rightarrow>
     response \<times> ('d, 'q, 'c, 'r, 'x, 'n, 'p, 'o) System" where
  "handleCancelCommand W req s =
     (if arg req ''confirm'' \<noteq> ascii ''CANCEL'' then (sendText 422 ''confirmation must equal CANCEL'', s)
      else case parseUnsigned (arg req ''commandId'') of
        None \<Rightarrow> (sendText 409 ''matching pending command was not found or could not be persisted'', s)
      | Some commandId \<Rightarrow>
         (case store_cancel (wb_commands W) commandId (gw_commands (gateway_of s), gw_nvs (gateway_of s)) of (okay, cs, n) \<Rightarrow>
          let s = on_gateway (\<lambda>g. g\<lparr>gw_commands := cs, gw_nvs := n\<rparr>) s in
          if \<not> okay then (sendText 409 ''matching pending command was not found or could not be persisted'', s)
          else (sendText 200 ''pending command cancelled'', web_log W (LogCommandCancelled commandId) s)))"


section \<open>Firmware upload, logs and reboot\<close>

datatype upload_chunk = Upload_start "byte list" | Upload_write "byte list" | Upload_end | Upload_aborted

definition on_dashboard :: "(Dashboard \<Rightarrow> Dashboard) \<Rightarrow> ('d, 'q, 'c, 'r, 'x, 'n, 'p, 'o) System \<Rightarrow> ('d, 'q, 'c, 'r, 'x, 'n, 'p, 'o) System" where
  "on_dashboard f s = s\<lparr>sy_dashboard := f (sy_dashboard s)\<rparr>"

definition uploadInProgress :: "bool \<Rightarrow> ('d, 'q, 'c, 'r, 'x, 'n, 'p, 'o) System \<Rightarrow> ('d, 'q, 'c, 'r, 'x, 'n, 'p, 'o) System" where
  "uploadInProgress b s = s\<lparr>sy_ota := setUploadInProgress b (sy_ota s)\<rparr>"

fun handleOtaUpload ::
  "('d, 'q, 'c, 'r, 'x, 'n, 'j, 'p, 'o) web_platform \<Rightarrow> upload_chunk \<Rightarrow> ('d, 'q, 'c, 'r, 'x, 'n, 'p, 'o) System \<Rightarrow>
     ('d, 'q, 'c, 'r, 'x, 'n, 'p, 'o) System" where
  "handleOtaUpload W (Upload_start filename) s =
     (let s = web_log W (LogOtaStarted filename) (uploadInProgress True (on_dashboard (\<lambda>d. d\<lparr>db_otaUploadOkay := False\<rparr>) s)) in
      case wb_updateBegin W (sy_chip s) of (okay, h) \<Rightarrow> s\<lparr>sy_chip := (if \<not> okay then wb_updatePrintError W h else h)\<rparr>)"
| "handleOtaUpload W (Upload_write buf) s =
     (if wb_updateHasError W (sy_chip s) then s
      else case wb_updateWrite W buf (sy_chip s) of (written, h) \<Rightarrow>
        s\<lparr>sy_chip := (if written \<noteq> length buf then wb_updatePrintError W h else h)\<rparr>)"
| "handleOtaUpload W Upload_end s =
     (case (if wb_updateHasError W (sy_chip s) then (False, sy_chip s) else wb_updateEnd W (sy_chip s)) of (okay, h) \<Rightarrow>
      uploadInProgress False (on_dashboard (\<lambda>d. d\<lparr>db_otaUploadOkay := okay\<rparr>)
        (s\<lparr>sy_chip := (if \<not> okay then wb_updatePrintError W h else h)\<rparr>)))"
| "handleOtaUpload W Upload_aborted s =
     web_log W LogOtaAborted (uploadInProgress False (s\<lparr>sy_chip := wb_updateAbort W (sy_chip s)\<rparr>))"

definition scheduleReboot ::
  "('d, 'q, 'c, 'r, 'x, 'n, 'j, 'p, 'o) web_platform \<Rightarrow> u32 \<Rightarrow> ('d, 'q, 'c, 'r, 'x, 'n, 'p, 'o) System \<Rightarrow> ('d, 'q, 'c, 'r, 'x, 'n, 'p, 'o) System" where
  "scheduleReboot W delay s = (case wb_millis W (sy_chip s) of (now, h) \<Rightarrow>
     on_dashboard (\<lambda>d. d\<lparr>db_rebootAtMs := now + delay\<rparr>) (s\<lparr>sy_chip := h\<rparr>))"

definition handleOtaComplete ::
  "('d, 'q, 'c, 'r, 'x, 'n, 'j, 'p, 'o) web_platform \<Rightarrow> ('d, 'q, 'c, 'r, 'x, 'n, 'p, 'o) System \<Rightarrow>
     response \<times> ('d, 'q, 'c, 'r, 'x, 'n, 'p, 'o) System" where
  "handleOtaComplete W s =
     (let s = uploadInProgress False s in
      if \<not> db_otaUploadOkay (sy_dashboard s) then (sendText 500 ''OTA upload/write verification failed'', s)
      else (sendText 202 ''OTA upload verified; rebooting into PENDING_VERIFY image'', scheduleReboot W 1000 (web_log W LogOtaComplete s)))"

definition handleReboot ::
  "('d, 'q, 'c, 'r, 'x, 'n, 'j, 'p, 'o) web_platform \<Rightarrow> request \<Rightarrow> ('d, 'q, 'c, 'r, 'x, 'n, 'p, 'o) System \<Rightarrow>
     response \<times> ('d, 'q, 'c, 'r, 'x, 'n, 'p, 'o) System" where
  "handleReboot W req s =
     (if arg req ''confirm'' \<noteq> ascii ''REBOOT'' then (sendText 422 ''confirmation must equal REBOOT'', s)
      else (sendText 202 ''reboot scheduled'', scheduleReboot W 750 s))"

text \<open>\<open>gLogger\<close> is the global logger when the request is served; \<open>allocated\<close> says whether the snapshot array could be
  allocated and \<open>taken\<close> whether the logger's mutex was obtained.\<close>
definition handleLogs ::
  "('d, 'q, 'c, 'r, 'x, 'n, 'j, 'p, 'o) web_platform \<Rightarrow> Logger \<Rightarrow> bool \<Rightarrow> bool \<Rightarrow> ('d, 'q, 'c, 'r, 'x, 'n, 'p, 'o) System \<Rightarrow>
     response \<times> ('d, 'q, 'c, 'r, 'x, 'n, 'p, 'o) System" where
  "handleLogs W gLogger allocated taken s =
     (if \<not> allocated then (sendText 503 ''log snapshot unavailable'', web_log W LogSnapshotFailed s)
      else let entries = logger_snapshot taken kLogCapacity gLogger in (Json_body (aj_serialize (dp_json (wb_device W)) (Json_object [(''entries'', Json_array (map (\<lambda>e. Json_object
          [(''uptimeMs'', num (le_uptimeMs e)), (''level'', Json_string (ascii (levelName (le_level e)))),
           (''subsystem'', str (le_subsystem e)), (''message'', str (le_message e))]) entries))])), s))"

text \<open>The part of \<open>loop\<close> after the client was served: a reboot that is due.\<close>
definition rebootIfDue ::
  "('d, 'q, 'c, 'r, 'x, 'n, 'j, 'p, 'o) web_platform \<Rightarrow> ('d, 'q, 'c, 'r, 'x, 'n, 'p, 'o) System \<Rightarrow> ('d, 'q, 'c, 'r, 'x, 'n, 'p, 'o) System" where
  "rebootIfDue W s =
     (if db_rebootAtMs (sy_dashboard s) = 0 then s
      else case wb_millis W (sy_chip s) of (now, h) \<Rightarrow>
        let s = s\<lparr>sy_chip := h\<rparr> in
        if sint (now - db_rebootAtMs (sy_dashboard s)) < 0 then s
        else case checkpointCounters (dp_queue (wb_device W)) True (device_queue (sy_device s)) of (q, f) \<Rightarrow>
          s\<lparr>sy_device := putQueue q f (sy_device s), sy_chip := wb_restart W (sy_chip s)\<rparr>)"

definition dashboard_begin ::
  "('d, 'q, 'c, 'r, 'x, 'n, 'j, 'p, 'o) web_platform \<Rightarrow> GatewayIdentity \<Rightarrow> byte list option \<Rightarrow> ('d, 'q, 'c, 'r, 'x, 'n, 'p, 'o) System \<Rightarrow>
     bool \<times> ('d, 'q, 'c, 'r, 'x, 'n, 'p, 'o) System" where
  "dashboard_begin W identity resetReason s =
     (True, web_log W LogWebStarted (on_dashboard (\<lambda>d. d\<lparr>db_identity := identity,
        db_resetReason := strncpy (db_resetReason d) (case resetReason of None \<Rightarrow> ascii ''unknown'' | Some r \<Rightarrow> r) 31\<rparr>) s))"


section \<open>Routing\<close>

text \<open>The POST routes; the upload route is served after its last chunk.\<close>
definition handlePost ::
  "('d, 'q, 'c, 'r, 'x, 'n, 'j, 'p, 'o) web_platform \<Rightarrow> string \<Rightarrow> request \<Rightarrow> ('d, 'q, 'c, 'r, 'x, 'n, 'p, 'o) System \<Rightarrow>
     response \<times> ('d, 'q, 'c, 'r, 'x, 'n, 'p, 'o) System" where
  "handlePost W path req s =
     (if path = ''/api/wifi'' then handleWifi W req s
      else if path = ''/api/wifi/reconnect''
      then (sendText 200 ''STA reconnect requested'',
            s\<lparr>sy_device := (sy_device s)\<lparr>dv_wifi := requestReconnect (dv_wifi (sy_device s))\<rparr>\<rparr>)
      else if path = ''/api/gateway'' then handleGateway W req s
      else if path = ''/api/backend'' then handleBackend W req s
      else if path = ''/api/heartbeat'' then handleHeartbeat W req s
      else if path = ''/api/radio'' then handleRadio W req s
      else if path = ''/api/radio/restart''
      then (case radio_restart (dp_radio (wb_device W)) (gw_radio (gateway_of s), gw_air (gateway_of s)) of (restarted, rs, r) \<Rightarrow>
            (sendText (if restarted then 200 else 503) (if restarted then ''radio restarted'' else ''radio restart failed''),
             on_gateway (\<lambda>g. g\<lparr>gw_radio := rs, gw_air := r\<rparr>) s))
      else if path = ''/api/pair/start'' then handlePairStart s
      else if path = ''/api/pair/confirm'' then handlePairConfirm W s
      else if path = ''/api/pair/cancel'' then handlePairCancel s
      else if path = ''/api/pair/manual'' then handlePairManual W req s
      else if path = ''/api/pair/unpair'' then handleUnpair W req s
      else if path = ''/api/queue/flush''
      then (sendText 200 ''backend worker awakened; queue records are retained until terminal results'',
            s\<lparr>sy_device := flushNow (wb_device W) (sy_device s)\<rparr>)
      else if path = ''/api/backend/test'' then handleBackendTest W s
      else if path = ''/api/command/maintenance-now'' then handleEnterMaintenance W req s
      else if path = ''/api/command/poll-interval'' then handlePollIntervalCommand W req s
      else if path = ''/api/command/schedule'' then handleScheduleMaintenance W req s
      else if path = ''/api/command/cancel'' then handleCancelCommand W req s
      else if path = ''/api/reboot'' then handleReboot W req s
      else if path = ''/api/ota'' then handleOtaComplete W s
      else (sendText 404 ''not found'', s))"

end
