(* ===== verification/Dashboard_Properties.thy ===== *)
theory Dashboard_Properties
  imports Dashboard Upload_Properties
begin

text \<open>
  What the dashboard guarantees: the configuration in use is always a valid one and the one a restart will load, the
  node the receive path accepts is the one that was saved, and a scheduled command is within its bounds.
\<close>

section \<open>The configuration in use is the saved one\<close>

lemma length_copy_array: "length dst = n \<Longrightarrow> length (copy_array n dst src) = n"
  by (simp add: copy_array_def)

text \<open>A restart would load exactly the configuration in use: it is valid, and the blob in NVS is its image.\<close>
definition config_synced ::
  "('n \<Rightarrow> string \<Rightarrow> string \<Rightarrow> byte list option) \<Rightarrow> ('n \<Rightarrow> string) \<Rightarrow> (f32 \<Rightarrow> f32 \<Rightarrow> f32) \<Rightarrow> ConfigStore \<times> 'n \<Rightarrow> bool" where
  "config_synced stored opened fsub = (\<lambda>(s, n). configOk fsub (cs_config s) \<and> config_wf (cs_config s) \<and> opened n = config_ns \<and>
     (\<exists>b. stored n config_ns ''config'' = Some b \<and> length b = sizeof_GatewayConfig \<and> image_config b = cs_config s))"

context preferences
begin

lemma save_synced:
  assumes "config_save fsub P c a = (okay, b)" "config_wf c" "config_synced stored opened fsub a"
  shows "config_synced stored opened fsub b"
proof -
  obtain s n s' n' where ab: "a = (s, n)" "b = (s', n')" by fastforce
  show ?thesis
    using ab save_outcome[OF assms(1)[unfolded ab] assms(2)] assms(2,3) config_image_length[OF assms(2)] config_image_roundtrip[OF assms(2)]
    by (cases okay) (auto simp: config_synced_def)
qed

lemma begin_makes_synced:
  assumes "config_begin fsub P d (s, n) = (True, s', n')"
  shows "config_synced stored opened fsub (s', n')"
proof -
  obtain n1 s1 n2 where run: "pf_begin P config_ns False n = (True, n1)" "config_load fsub P d (s, n1) = (True, s1, n2)"
    and cfg: "cs_config s' = cs_config s1" "stored n' = stored n2"
    by (rule begin_config[OF assms]) blast
  note load = load_outcome[OF run(2)]
  have n2: "opened n2 = config_ns" using load begin_opens[OF run(1)] by simp
  have put: "opened n3 = opened n2" if "pf_putUInt P k v n2 = (w, n3)" for k v w n3
    using putUInt_ok[of k v n2 n3] putUInt_failed[OF that] that by (cases "w = 4") auto
  have "opened n' = opened n2"
    using assms run put by (auto simp: config_begin_def Let_def split: if_splits prod.splits)
  moreover obtain b where "stored n2 config_ns ''config'' = Some b" "length b = sizeof_GatewayConfig" "image_config b = cs_config s1"
    using load begin_opens[OF run(1)] by auto
  ultimately show ?thesis using load n2 cfg image_config_wf[of b] by (simp add: config_synced_def)
qed

lemma begin_synced:
  assumes "config_synced stored opened fsub (s, n)" "config_begin fsub P d (s0, n) = (okay, s2, n2)"
  shows "okay = fst (pf_begin P config_ns False n) \<and> (okay \<longrightarrow> cs_config s2 = cs_config s)"
proof -
  obtain b n3 where o: "pf_begin P config_ns False n = (b, n3)" by fastforce
  show ?thesis
  proof (cases b)
    case True
    then have o: "pf_begin P config_ns False n = (True, n3)" using o by simp
    have wf: "config_wf (cs_config s)" "configOk fsub (cs_config s)" using assms(1) by (auto simp: config_synced_def)
    obtain b where b: "stored n config_ns ''config'' = Some b" "length b = sizeof_GatewayConfig" "image_config b = cs_config s"
      using assms(1) by (auto simp: config_synced_def)
    have "pf_getBytesLength P ''config'' n3 = sizeof_GatewayConfig" "pf_getBytes P ''config'' sizeof_GatewayConfig n3 = b"
      using begin_opens[OF o] begin_keeps[OF o] b by (auto simp: getBytesLength getBytes)
    then have "config_load fsub P d (s0, n3) = (True, s0\<lparr>cs_config := cs_config s\<rparr>, n3)"
      using b wf(2) by (simp add: config_load_def Let_def)
    then show ?thesis using assms(2) o by (auto simp: config_begin_def Let_def split: prod.splits if_splits)
  qed (use assms(2) o in \<open>auto simp: config_begin_def\<close>)
qed

end

text \<open>The part of the system the configuration lives in.\<close>
definition config_part :: "('d, 'q, 'c, 'r, 'x, 'n, 'p, 'o) System \<Rightarrow> ConfigStore \<times> 'p" where
  "config_part s = (sy_config s, sy_prefs s)"

named_theorems config_frame "operations that do not touch the configuration store"

lemma config_part_frame [config_frame]:
  "config_part (on_gateway f s) = config_part s" "config_part (web_log W l s) = config_part s"
  "config_part (s\<lparr>sy_device := w\<rparr>) = config_part s" "config_part (s\<lparr>sy_chip := h\<rparr>) = config_part s"
  "config_part (s\<lparr>sy_dashboard := d\<rparr>) = config_part s" "config_part (on_dashboard k s) = config_part s"
  "config_part (uploadInProgress b s) = config_part s" "config_part (applyToBackend W c i s) = config_part s"
  "config_part (scheduleReboot W ms s) = config_part s"
  by (simp_all add: config_part_def on_gateway_def web_log_def on_dashboard_def uploadInProgress_def applyToBackend_def
      scheduleReboot_def split: prod.splits)

lemma web_now_config [config_frame]: "web_now W s = (t, s') \<Longrightarrow> config_part s' = config_part s"
  by (auto simp: web_now_def config_frame split: prod.splits)

lemma applyRadio_config [config_frame]: "applyRadio W c s = (b, s') \<Longrightarrow> config_part s' = config_part s"
  by (auto simp: applyRadio_def config_frame split: prod.splits)

lemma queueCommand_config [config_frame]: "queueCommand W ty m t now l x s = (r, s') \<Longrightarrow> config_part s' = config_part s"
  by (auto simp: queueCommand_def Let_def config_frame split: prod.splits if_splits)

text \<open>Candidates built from a well-formed configuration are well formed.\<close>
lemma candidates_wf:
  assumes "config_wf c"
  shows "config_wf (wifiCandidate req c)" "config_wf (c\<lparr>gc_gatewayId := copy_array kGatewayIdCapacity (gc_gatewayId c) x\<rparr>)"
    "config_wf (c\<lparr>gc_pairedNodeId := copy_array kNodeIdCapacity (gc_pairedNodeId c) x\<rparr>)"
    "config_wf (c\<lparr>gc_pairedNodeId := (gc_pairedNodeId c)[0 := 0]\<rparr>)"
    "config_wf (c\<lparr>gc_heartbeatIntervalSeconds := v\<rparr>)" "config_wf (c\<lparr>gc_radio := ra\<rparr>)"
    "backendCandidate req c = Inr c' \<Longrightarrow> config_wf c'"
  using assms
  by (auto simp: config_wf_def wifiCandidate_def backendCandidate_def Let_def length_copy_array capacity_defs config_sizes
      split: if_splits option.splits)

text \<open>What a handler may do to the configuration: nothing, save a well-formed candidate, or save one and then the previous
  one again.\<close>
inductive config_saves :: "('d, 'q, 'c, 'r, 'x, 'n, 'j, 'p, 'o) web_platform \<Rightarrow> ConfigStore \<times> 'p \<Rightarrow> ConfigStore \<times> 'p \<Rightarrow> bool"
  for W :: "('d, 'q, 'c, 'r, 'x, 'n, 'j, 'p, 'o) web_platform" where
  saves_none: "config_saves W a a"
| saves_one: "config_saves W a b \<Longrightarrow> config_wf c \<Longrightarrow> config_save (wb_fsub W) (wb_prefs W) c b = (okay, b') \<Longrightarrow> config_saves W a b'"

lemma saveConfig_saves:
  assumes "saveConfig W c s = (okay, s')" "config_wf c" "config_saves W a (config_part s)"
  shows "config_saves W a (config_part s')"
proof -
  obtain b where "config_save (wb_fsub W) (wb_prefs W) c (config_part s) = (okay, b)" "config_part s' = b"
    using assms(1) by (auto simp: saveConfig_def config_part_def split: prod.splits)
  then show ?thesis using saves_one[OF assms(3,2)] by simp
qed

lemma acceptConfig_saves:
  assumes "acceptConfig W m c s = (x, s')" "config_wf c"
  shows "config_saves W (config_part s) (config_part s')"
  using assms(1) saveConfig_saves[OF _ assms(2) saves_none]
  by (auto simp: acceptConfig_def saves_none split: prod.splits bool.splits if_splits)

lemma live_config_part: "live_config s = cs_config (fst (config_part s))" by (simp add: live_config_def config_part_def)

lemma config_handlers_save:
  assumes "config_wf (live_config s)"
  shows "handleWifi W req s = (r, s') \<Longrightarrow> config_saves W (config_part s) (config_part s')"
    "handleGateway W req s = (r, s') \<Longrightarrow> config_saves W (config_part s) (config_part s')"
    "handleBackend W req s = (r, s') \<Longrightarrow> config_saves W (config_part s) (config_part s')"
    "handleHeartbeat W req s = (r, s') \<Longrightarrow> config_saves W (config_part s) (config_part s')"
proof -
  have via: "config_saves W (config_part s) (config_part s')"
    if "config_part s' = config_part (snd (acceptConfig W m c s))" "config_wf c" for m c
    using acceptConfig_saves[of W m c s "fst (acceptConfig W m c s)" "snd (acceptConfig W m c s)"] that by simp
  note wf = candidates_wf[OF assms]
  note defs = handleWifi_def handleGateway_def handleBackend_def handleHeartbeat_def Let_def
  show "config_saves W (config_part s) (config_part s')" if "handleWifi W req s = (r, s')"
    by (rule via[where m = "''NVS configuration write failed''", OF _ wf(1)[of req]]) (use that in \<open>auto simp: defs config_frame split: prod.splits option.splits\<close>)
  show "config_saves W (config_part s) (config_part s')" if "handleGateway W req s = (r, s')"
    by (rule via[where m = "''NVS configuration write failed''", OF _ wf(2)[of "arg req ''gatewayId''"]]) (use that in \<open>auto simp: defs config_frame split: prod.splits option.splits\<close>)
  show "config_saves W (config_part s) (config_part s')" if h: "handleBackend W req s = (r, s')"
  proof (cases "backendCandidate req (live_config s)")
    case (Inl t)
    then show ?thesis using h by (simp add: defs saves_none)
  next
    case (Inr c)
    then show ?thesis
      by (intro via[where m = "''NVS configuration write failed''", OF _ wf(7)[OF Inr]]) (use h in \<open>auto simp: defs config_frame split: prod.splits option.splits\<close>)
  qed
  show "config_saves W (config_part s) (config_part s')" if h: "handleHeartbeat W req s = (r, s')"
  proof (cases "parseUnsigned (arg req ''intervalSeconds'')")
    case None
    then show ?thesis using h by (simp add: defs saves_none)
  next
    case (Some v)
    then show ?thesis
      by (intro via[where m = "''NVS heartbeat configuration write failed''", OF _ wf(5)[of v]]) (use h in \<open>auto simp: defs config_frame split: prod.splits option.splits\<close>)
  qed
qed

lemma handleRadio_saves:
  assumes "config_wf (live_config s)" "handleRadio W req s = (r, s')"
  shows "config_saves W (config_part s) (config_part s')"
proof (cases "radioCandidate W req (gc_radio (live_config s))")
  case (Inl t)
  then show ?thesis using assms(2) by (simp add: handleRadio_def Let_def saves_none)
next
  case (Inr ra)
  let ?c = "(live_config s)\<lparr>gc_radio := ra\<rparr>"
  obtain ok1 s1 where s1: "applyRadio W ra s = (ok1, s1)" by fastforce
  obtain ok2 s2 where s2: "saveConfig W ?c s1 = (ok2, s2)" by fastforce
  obtain ok3 s3 where s3: "applyRadio W (gc_radio (live_config s)) s2 = (ok3, s3)" by fastforce
  have "s' \<in> {s, s1, s2, s3}"
    using assms(2) Inr s1 s2 s3 by (auto simp: handleRadio_def Let_def split: prod.splits if_splits bool.splits)
  moreover have "config_saves W (config_part s) (config_part s2)"
    using saveConfig_saves[OF s2 candidates_wf(6)[OF assms(1)], of "config_part s"] applyRadio_config[OF s1] by (simp add: saves_none)
  ultimately show ?thesis using applyRadio_config[OF s1] applyRadio_config[OF s3] by (auto simp: saves_none)
qed

lemma pairing_handlers_save:
  assumes "config_wf (live_config s)"
  shows "handlePairConfirm W s = (r, s') \<Longrightarrow> config_saves W (config_part s) (config_part s')"
    "handleUnpair W req s = (r, s') \<Longrightarrow> config_saves W (config_part s) (config_part s')"
    "handlePairManual W req s = (r, s') \<Longrightarrow> config_saves W (config_part s) (config_part s')"
proof -
  have live: "live_config (on_gateway f s) = live_config s" for f by (simp add: live_config_part config_frame)
  show "config_saves W (config_part s) (config_part s')" if h: "handlePairConfirm W s = (r, s')"
  proof -
    obtain okay nodeId g where c: "confirmPairing (Some (replicate kNodeIdCapacity 0)) (gateway_of s) = ((okay, nodeId), g)"
      by (metis prod.collapse)
    obtain ok1 s1 where s1: "saveConfig W ((live_config s)\<lparr>gc_pairedNodeId := copy_array kNodeIdCapacity (gc_pairedNodeId (live_config s)) (the nodeId)\<rparr>)
        (on_gateway (\<lambda>_. g) s) = (ok1, s1)" by fastforce
    have "config_saves W (config_part s) (config_part s1)"
      using saveConfig_saves[OF s1 candidates_wf(3)[OF assms], of "config_part s"] by (simp add: config_frame saves_none)
    moreover have "config_part s' = config_part s \<or> config_part s' = config_part s1"
      using h c s1 by (auto simp: handlePairConfirm_def savePairedNode_def Let_def config_frame live split: if_splits bool.splits)
    ultimately show ?thesis by (auto simp: saves_none)
  qed
  show "handleUnpair W req s = (r, s') \<Longrightarrow> config_saves W (config_part s) (config_part s')"
    using saveConfig_saves[OF _ candidates_wf(4)[OF assms] saves_none]
    by (auto simp: handleUnpair_def Let_def config_frame saves_none split: prod.splits if_splits bool.splits)
  assume m: "handlePairManual W req s = (r, s')"
  let ?c = "(live_config s)\<lparr>gc_pairedNodeId := copy_array kNodeIdCapacity (gc_pairedNodeId (live_config s)) (arg req ''nodeId'')\<rparr>"
  obtain okay s1 where s1: "saveConfig W ?c s = (okay, s1)" by fastforce
  have one: "config_saves W (config_part s) (config_part s1)" by (rule saveConfig_saves[OF s1 candidates_wf(3)[OF assms] saves_none])
  consider "s' = s" | "s' = s1" | l g where "s' = web_log W l (on_gateway (\<lambda>_. g) s1)"
    | g where "s' = snd (saveConfig W (live_config s) (on_gateway (\<lambda>_. g) s1))"
    using m s1 by (auto simp: handlePairManual_def Let_def split: prod.splits if_splits bool.splits)
  then show "config_saves W (config_part s) (config_part s')"
  proof cases
    case 4
    then obtain o2 where "saveConfig W (live_config s) (on_gateway (\<lambda>_. g) s1) = (o2, s')" by (metis prod.collapse)
    from saveConfig_saves[OF this assms] one show ?thesis by (simp add: config_frame)
  qed (use one in \<open>simp_all add: config_frame saves_none\<close>)
qed

lemma other_handlers_save:
  "handlePairStart s = (r, s') \<Longrightarrow> config_part s' = config_part s"
  "handlePairCancel s = (r, s') \<Longrightarrow> config_part s' = config_part s"
  "handleBackendTest W s = (r, s') \<Longrightarrow> config_part s' = config_part s"
  "handleEnterMaintenance W req s = (r, s') \<Longrightarrow> config_part s' = config_part s"
  "handlePollIntervalCommand W req s = (r, s') \<Longrightarrow> config_part s' = config_part s"
  "handleScheduleMaintenance W req s = (r, s') \<Longrightarrow> config_part s' = config_part s"
  "handleCancelCommand W req s = (r, s') \<Longrightarrow> config_part s' = config_part s"
  "handleReboot W req s = (r, s') \<Longrightarrow> config_part s' = config_part s"
  "handleOtaComplete W s = (r, s') \<Longrightarrow> config_part s' = config_part s"
proof -
  show "handlePairStart s = (r, s') \<Longrightarrow> config_part s' = config_part s"
    by (auto simp: handlePairStart_def config_frame split: prod.splits)
  show "handlePairCancel s = (r, s') \<Longrightarrow> config_part s' = config_part s"
    by (auto simp: handlePairCancel_def config_frame)
  show "handleBackendTest W s = (r, s') \<Longrightarrow> config_part s' = config_part s"
    by (auto simp: handleBackendTest_def Let_def config_frame split: prod.splits if_splits)
  show "handleEnterMaintenance W req s = (r, s') \<Longrightarrow> config_part s' = config_part s"
    by (auto simp: handleEnterMaintenance_def split: prod.splits if_splits dest!: web_now_config queueCommand_config)
  show "handlePollIntervalCommand W req s = (r, s') \<Longrightarrow> config_part s' = config_part s"
    by (auto simp: handlePollIntervalCommand_def split: prod.splits if_splits option.splits dest!: web_now_config queueCommand_config)
  show "handleScheduleMaintenance W req s = (r, s') \<Longrightarrow> config_part s' = config_part s"
    by (auto simp: handleScheduleMaintenance_def Let_def split: prod.splits if_splits option.splits dest!: web_now_config queueCommand_config)
  show "handleCancelCommand W req s = (r, s') \<Longrightarrow> config_part s' = config_part s"
    by (auto simp: handleCancelCommand_def Let_def config_frame split: prod.splits if_splits option.splits)
  show "handleReboot W req s = (r, s') \<Longrightarrow> config_part s' = config_part s"
    by (auto simp: handleReboot_def config_frame split: if_splits)
  show "handleOtaComplete W s = (r, s') \<Longrightarrow> config_part s' = config_part s"
    by (auto simp: handleOtaComplete_def Let_def config_frame split: if_splits)
qed

lemma if_result_cases: "(if b then x else y) = z \<Longrightarrow> (x = z \<Longrightarrow> P) \<Longrightarrow> (y = z \<Longrightarrow> P) \<Longrightarrow> P"
  by (simp split: if_splits)

lemma radio_restart_route_config:
  "(case x of (okay, rs, a) \<Rightarrow> (f okay, on_gateway (g rs a) s)) = (r, s') \<Longrightarrow> config_part s' = config_part s"
  by (auto simp: config_frame split: prod.splits)

lemma handlePost_saves:
  assumes "handlePost W path req s = (r, s')" "config_wf (live_config s)"
  shows "config_saves W (config_part s) (config_part s')"
proof -
  note saves = config_handlers_save[OF assms(2)] handleRadio_saves[OF assms(2)] pairing_handlers_save[OF assms(2)]
  have same: "config_saves W (config_part s) (config_part s')" if "config_part s' = config_part s" using that by (simp add: saves_none)
  have put: "config_saves W (config_part s) (config_part s')" if "(t, s\<lparr>sy_device := w\<rparr>) = (r, s')" for t w
    using that by (auto simp: saves_none config_frame)
  have none: "config_saves W (config_part s) (config_part s')" if "(t, s) = (r, s')" for t
    using that by (simp add: saves_none)
  show ?thesis
    using assms(1) unfolding handlePost_def
    by (elim if_result_cases)
       (erule saves | erule put | erule none | (rule same, erule other_handlers_save) | (rule same, erule radio_restart_route_config))+
qed

lemma saves_keep_synced:
  assumes "preferences (wb_prefs W) stored number opened" "config_saves W a b" "config_synced stored opened (wb_fsub W) a"
  shows "config_synced stored opened (wb_fsub W) b"
  using assms(2,3) by induction (auto intro: preferences.save_synced[OF assms(1)])

text \<open>Requests served one after the other.\<close>
fun servePosts ::
  "('d, 'q, 'c, 'r, 'x, 'n, 'j, 'p, 'o) web_platform \<Rightarrow> (string \<times> request) list \<Rightarrow> ('d, 'q, 'c, 'r, 'x, 'n, 'p, 'o) System \<Rightarrow>
     ('d, 'q, 'c, 'r, 'x, 'n, 'p, 'o) System" where
  "servePosts W [] s = s"
| "servePosts W ((path, req) # rest) s = servePosts W rest (snd (handlePost W path req s))"

lemma servePosts_synced:
  assumes "preferences (wb_prefs W) stored number opened" "config_synced stored opened (wb_fsub W) (config_part s)"
  shows "config_synced stored opened (wb_fsub W) (config_part (servePosts W reqs s))"
  using assms(2)
proof (induction reqs arbitrary: s)
  case (Cons q rest)
  obtain path req r s' where q: "q = (path, req)" "handlePost W path req s = (r, s')" by (metis prod.collapse)
  have "config_wf (live_config s)" using Cons.prems by (simp add: config_synced_def config_part_def live_config_def)
  from saves_keep_synced[OF assms(1) handlePost_saves[OF q(2) this] Cons.prems] Cons.IH show ?case by (simp add: q)
qed simp

text \<open>C3: The configuration in use is always the saved one. Whatever requests the dashboard serves, in any order, with
  accepted and refused candidates, failing writes to NVS and a radio that rejects its settings, the configuration in
  memory stays valid, its image is the blob in NVS, and a restart at that moment either cannot open NVS or loads exactly
  this configuration.\<close>
theorem served_config_survives_restart:
  assumes "preferences (wb_prefs W) stored number opened" "config_synced stored opened (wb_fsub W) (sy_config s, sy_prefs s)"
    and "servePosts W reqs s = s'"
  shows "config_synced stored opened (wb_fsub W) (sy_config s', sy_prefs s') \<and>
    (\<forall>d s0. case config_begin (wb_fsub W) (wb_prefs W) d (s0, sy_prefs s') of (okay, s2, _) \<Rightarrow>
       okay = fst (pf_begin (wb_prefs W) config_ns False (sy_prefs s')) \<and> (okay \<longrightarrow> cs_config s2 = live_config s'))"
proof -
  have "config_synced stored opened (wb_fsub W) (sy_config s', sy_prefs s')"
    using servePosts_synced[OF assms(1), of s reqs] assms(2,3) by (simp add: config_part_def)
  from this preferences.begin_synced[OF assms(1) this] show ?thesis by (auto simp: live_config_def split: prod.splits)
qed

definition mem_web :: "(unit, mem_hw, nvs_map, mem_air, mem_wifi, byte list list, unit json, nvs_map, mem_ota) web_platform" where
  "mem_web = \<lparr>wb_device = example_platform, wb_prefs = nvs_map_api, wb_commands = nvs_command_backend nvs_map_api, wb_ota = mem_ota_api,
     wb_fsub = exact_sub, wb_strtof = (\<lambda>b. (0, 0, True)), wb_millis = Pair 100, wb_updateBegin = Pair True,
     wb_updateWrite = (\<lambda>b h. (length b, h)), wb_updateHasError = (\<lambda>_. False), wb_updateEnd = Pair True, wb_updateAbort = (\<lambda>h. h),
     wb_updatePrintError = (\<lambda>h. h), wb_restart = (\<lambda>h. h), wb_log = (\<lambda>_ h. h)\<rparr>"

definition served_system :: "(unit, mem_hw, nvs_map, mem_air, mem_wifi, byte list list, nvs_map, mem_ota) System" where
  "served_system = \<lparr>sy_device = example_device, sy_config = ConfigStore_init\<lparr>cs_config := Config_Store.example_config\<rparr>,
     sy_prefs = open_nvs\<lparr>nv_blobs := (\<lambda>_ _. None)(config_ns := [''config'' \<mapsto> config_image Config_Store.example_config])\<rparr>,
     sy_ota = OtaManager_init, sy_chip = pending_boot, sy_dashboard = Dashboard_init\<rparr>"

definition hb_config :: GatewayConfig where "hb_config = Config_Store.example_config\<lparr>gc_heartbeatIntervalSeconds := 120\<rparr>"

lemmas parse_defs = parseUnsigned_def strto_scan_def is_space_def is_digit_def ascii_def cstr_def decimal_def Let_def

lemma parse_examples:
  "parseUnsigned (ascii ''120'') = Some 120" "parseUnsigned (ascii ''7x'') = None" "parseUnsigned (ascii ''-4294967291'') = Some 5"
  by (simp_all add: parse_defs)

lemma heartbeat_accepted:
  assumes "parseUnsigned (arg req ''intervalSeconds'') = Some v" "(live_config s)\<lparr>gc_heartbeatIntervalSeconds := v\<rparr> = c"
    and "configOk (wb_fsub W) c"
    and "config_save (wb_fsub W) (wb_prefs W) c (sy_config s, sy_prefs s) = (True, (sy_config s)\<lparr>cs_config := c\<rparr>, p)"
  shows "live_config (snd (handlePost W ''/api/heartbeat'' req s)) = c"
proof -
  obtain t where v: "validateConfig (wb_fsub W) c = (ConfigValidationCode_kOk, t)" using assms(3) by (metis configOk_def prod.collapse)
  have "acceptConfig W m c s = (None, s\<lparr>sy_config := (sy_config s)\<lparr>cs_config := c\<rparr>, sy_prefs := p\<rparr>)" for m
    using v assms(4) by (simp add: acceptConfig_def saveConfig_def)
  then show ?thesis using assms(1,2) by (simp add: handlePost_def handleHeartbeat_def Let_def applyToBackend_def live_config_def)
qed

lemma heartbeat_refused:
  assumes "parseUnsigned (arg req ''intervalSeconds'') = None"
  shows "snd (handlePost W ''/api/heartbeat'' req s) = s"
  using assms by (simp add: handlePost_def handleHeartbeat_def)

lemma heartbeat_example:
  "live_config (servePosts mem_web [(''/api/heartbeat'', [(''intervalSeconds'', ascii ''120'')]),
     (''/api/heartbeat'', [(''intervalSeconds'', ascii ''7x'')])] served_system) = hb_config"
proof -
  have v: "configOk exact_sub hb_config" by code_simp
  have w: "length (config_image hb_config) = sizeof_GatewayConfig" by code_simp
  have c: "(live_config served_system)\<lparr>gc_heartbeatIntervalSeconds := 120\<rparr> = hb_config"
    by (simp add: served_system_def live_config_def hb_config_def)
  have parse: "parseUnsigned (arg [(''intervalSeconds'', ascii ''120'')] ''intervalSeconds'') = Some 120"
    "parseUnsigned (arg [(''intervalSeconds'', ascii ''7x'')] ''intervalSeconds'') = None"
    using parse_examples by (simp_all add: arg_def)
  have ne: "config_image hb_config \<noteq> []" using w by (auto simp: sizeof_GatewayConfig_def)
  have ok: "nvs_write_ok (sy_prefs served_system)" by (simp add: served_system_def open_nvs_def nvs_empty_def nvs_write_ok_def)
  obtain p where save: "config_save exact_sub nvs_map_api hb_config (sy_config served_system, sy_prefs served_system)
      = (True, (sy_config served_system)\<lparr>cs_config := hb_config\<rparr>, p)"
    using v w ok ne by (auto simp: config_save_def nvs_map_api_def Let_def)
  have m: "wb_fsub mem_web = exact_sub" "wb_prefs mem_web = nvs_map_api" by (simp_all add: mem_web_def)
  from heartbeat_accepted[OF parse(1) c, of mem_web p, unfolded m, OF v save]
    heartbeat_refused[OF parse(2), of mem_web "snd (handlePost mem_web ''/api/heartbeat'' [(''intervalSeconds'', ascii ''120'')] served_system)"]
  show ?thesis by simp
qed

lemma served_synced: "config_synced nv_blobs nv_opened (wb_fsub mem_web) (sy_config served_system, sy_prefs served_system)"
proof -
  have "configOk exact_sub Config_Store.example_config" "config_wf Config_Store.example_config" by code_simp+
  then show ?thesis using config_image_length config_image_roundtrip by (simp add: config_synced_def served_system_def mem_web_def open_nvs_def)
qed

theorem served_config_survives_restart_witness:
  "let s = servePosts mem_web [(''/api/heartbeat'', [(''intervalSeconds'', ascii ''120'')]), (''/api/heartbeat'', [(''intervalSeconds'', ascii ''7x'')])] served_system;
       b = config_begin exact_sub nvs_map_api None (ConfigStore_init, sy_prefs s) in
   fst b \<and> cs_config (fst (snd b)) = hb_config \<and> gc_heartbeatIntervalSeconds hb_config = 120"
proof -
  let ?r = "[(''/api/heartbeat'', [(''intervalSeconds'', ascii ''120'')]), (''/api/heartbeat'', [(''intervalSeconds'', ascii ''7x'')])]"
  let ?s = "servePosts mem_web ?r served_system"
  obtain okay s2 n2 where b: "config_begin exact_sub nvs_map_api None (ConfigStore_init, sy_prefs ?s) = (okay, s2, n2)" by (metis prod_cases3)
  have m: "wb_fsub mem_web = exact_sub" "wb_prefs mem_web = nvs_map_api" by (simp_all add: mem_web_def)
  have p: "fst (pf_begin nvs_map_api config_ns False (sy_prefs ?s))" by (simp add: nvs_map_api_def)
  have pre: "preferences (wb_prefs mem_web) nv_blobs nv_numbers nv_opened" using nvs.preferences_axioms by (simp add: m)
  have "case config_begin exact_sub nvs_map_api None (ConfigStore_init, sy_prefs ?s) of (okay, s2, _) \<Rightarrow>
       okay = fst (pf_begin nvs_map_api config_ns False (sy_prefs ?s)) \<and> (okay \<longrightarrow> cs_config s2 = live_config ?s)"
    by (rule served_config_survives_restart[OF pre served_synced refl, of ?r, unfolded m, THEN conjunct2, THEN spec, THEN spec])
  then have "okay" "cs_config s2 = hb_config" using p unfolding b heartbeat_example by auto
  then show ?thesis unfolding Let_def b by (simp add: hb_config_def)
qed


section \<open>The node paired is the node saved\<close>

lemma copy_array_name:
  assumes "length dst = n" "length (cstr src) < n"
  shows "copy_array n dst src = char_array n (cstr src)"
proof -
  let ?p = "cstr src @ replicate (n - 1 - length (cstr src)) 0"
  have n: "n - length (cstr src) = Suc (n - 1 - length (cstr src))" using assms by simp
  have p: "length ?p = n - 1" using assms by simp
  have "drop (n - 1) dst = [dst ! (n - 1)]" using assms Cons_nth_drop_Suc[of "n - 1" dst] by simp
  then have "copy_array n dst src = (?p @ [dst ! (n - 1)])[length ?p := 0]"
    unfolding p using assms by (simp add: copy_array_def strncpy_def)
  also have "\<dots> = ?p @ [0]" by (rule list_update_length)
  also have "\<dots> = char_array n (cstr src)" unfolding char_array_def n by (simp add: replicate_append_same)
  finally show ?thesis .
qed

text \<open>The receive path is set up, and the node it accepts is the one in the configuration.\<close>
definition pairing_in_step :: "('d, 'q, 'c, 'r, 'x, 'n, 'p, 'o) System \<Rightarrow> bool" where
  "pairing_in_step s \<longleftrightarrow> (case lockedPairing (gateway_of s) of None \<Rightarrow> False
     | Some m \<Rightarrow> pairing_inv m \<and> paired_name m = cstr (gc_pairedNodeId (live_config s)))"

lemma pairing_frame:
  "gateway_of (web_log W l s) = gateway_of s" "live_config (web_log W l s) = live_config s"
  "gateway_of (on_gateway f s) = f (gateway_of s)" "live_config (on_gateway f s) = live_config s"
  by (simp_all add: gateway_of_def web_log_def live_config_def on_gateway_def)

lemma in_step_cong: "gateway_of s' = gateway_of s \<Longrightarrow> live_config s' = live_config s \<Longrightarrow> pairing_in_step s' = pairing_in_step s"
  by (simp add: pairing_in_step_def split: option.split)

lemma in_step_log: "pairing_in_step (web_log W l s) = pairing_in_step s"
  by (rule in_step_cong) (simp_all add: pairing_frame)

lemma lockedPairing_put: "lockedPairing (putPairing m' g) = (if lockedPairing g = None then None else Some m')"
  by (cases "gw_processor g") (auto simp: lockedPairing_def putPairing_def)

lemma saveConfig_live:
  assumes "saveConfig W c s = (okay, s')"
  shows "gateway_of s' = gateway_of s \<and> live_config s' = (if okay then c else live_config s)"
  using assms by (auto simp: saveConfig_def config_save_def gateway_of_def live_config_def split: prod.splits if_splits)

lemma pairing_step:
  assumes "pairing_in_step s" "lockedPairing (gateway_of s) = Some m"
  shows "pairing_inv m" "paired_name m = cstr (gc_pairedNodeId (live_config s))"
  using assms by (simp_all add: pairing_in_step_def)

lemma name_length: "node_name s \<Longrightarrow> length s < kNodeIdCapacity"
  by (simp add: node_name_def)

lemma pairing_manual_step:
  assumes "nodeIdValid (Some x)" "pairing_inv m"
  shows "\<exists>m'. pairManual (Some x) m = (True, m') \<and> pairing_inv m' \<and> paired_name m' = cstr x"
proof -
  note nm = node_prefix_name[OF assms(1), THEN conjunct2]
  have "copy_array kNodeIdCapacity (pm_pairedNodeId m) x = char_array kNodeIdCapacity (cstr x)"
    using assms(2) name_length[OF nm] by (intro copy_array_name) (simp_all add: pairing_inv_def)
  then have "pairManual (Some x) m = (True, m\<lparr>pm_pairedNodeId := char_array kNodeIdCapacity (cstr x), pm_pairingMode := False,
      pm_candidate := PairingCandidate_init\<rparr>)" (is "_ = (True, ?m)")
    using assms(1) by (simp add: pairManual_def copy_array_def)
  with pairManual_inv[OF assms(2), of "Some x"] show ?thesis using char_array_name(3)[OF nm] by (simp add: paired_name_def)
qed

lemma saved_name:
  assumes "config_wf c" "node_name (cstr x)"
  shows "cstr (gc_pairedNodeId (c\<lparr>gc_pairedNodeId := copy_array kNodeIdCapacity (gc_pairedNodeId c) x\<rparr>)) = cstr x"
  using assms(1) copy_array_name[of "gc_pairedNodeId c" kNodeIdCapacity x] char_array_name(3)[OF assms(2)] name_length[OF assms(2)]
  by (simp add: config_wf_def capacity_defs)

lemma pairStart_step: "pairing_in_step s \<Longrightarrow> handlePairStart s = (r, s') \<Longrightarrow> pairing_in_step s'"
  using pairing_start_inv
  by (force simp: handlePairStart_def startPairing_def pairing_in_step_def pairing_frame lockedPairing_put pairing_start_def paired_name_def
      split: prod.splits option.splits if_splits)

lemma pairCancel_step: "pairing_in_step s \<Longrightarrow> handlePairCancel s = (r, s') \<Longrightarrow> pairing_in_step s'"
  using pairing_cancel_inv
  by (auto simp: handlePairCancel_def cancelPairing_def pairing_in_step_def pairing_frame lockedPairing_put pairing_cancel_def paired_name_def
      split: option.splits)

lemma unpair_step:
  assumes "lockedPairing (gateway_of s) = Some m" "pairing_inv m" "cstr (gc_pairedNodeId (live_config s)) = []"
  shows "pairing_in_step (on_gateway radio_unpair s)"
  using assms unpair_inv[OF assms(2)] clear_paired(1)[of m]
  by (simp add: pairing_in_step_def pairing_frame radio_unpair_def lockedPairing_put paired_name_def unpair_def pairing_inv_def)

lemma pairManual_step:
  assumes "pairing_in_step s" "config_wf (live_config s)" "handlePairManual W req s = (r, s')"
  shows "pairing_in_step s'"
proof (cases "nodeIdValid (Some (arg req ''nodeId''))")
  case True
  let ?x = "arg req ''nodeId''"
  let ?c = "(live_config s)\<lparr>gc_pairedNodeId := copy_array kNodeIdCapacity (gc_pairedNodeId (live_config s)) ?x\<rparr>"
  obtain okay s1 where s1: "saveConfig W ?c s = (okay, s1)" by fastforce
  note s1' = saveConfig_live[OF s1]
  obtain m where m: "lockedPairing (gateway_of s) = Some m" using assms(1) by (auto simp: pairing_in_step_def split: option.splits)
  obtain m' where m': "pairManual (Some ?x) m = (True, m')" "pairing_inv m'" "paired_name m' = cstr ?x"
    using pairing_manual_step[OF True pairing_step(1)[OF assms(1) m]] by blast
  have run: "radio_pairManual (Some ?x) (gateway_of s1) = (True, putPairing m' (gateway_of s))"
    using m m' s1' by (simp add: radio_pairManual_def)
  show ?thesis
  proof (cases okay)
    case ok: True
    have s': "s' = web_log W (LogPairManual ?x) (on_gateway (\<lambda>_. putPairing m' (gateway_of s)) s1)"
      using assms(3) True s1 run ok by (simp add: handlePairManual_def Let_def)
    show ?thesis unfolding s'
      using m m' s1' ok saved_name[OF assms(2) node_prefix_name[OF True, THEN conjunct2]]
      by (simp add: pairing_in_step_def pairing_frame lockedPairing_put)
  next
    case False
    then have "s' = s1" using assms(3) True s1 by (simp add: handlePairManual_def Let_def)
    then show ?thesis using s1' False assms(1) in_step_cong[of s1 s] by simp
  qed
qed (use assms in \<open>simp add: handlePairManual_def Let_def\<close>)

lemma handleUnpair_step:
  assumes "pairing_in_step s" "config_wf (live_config s)" "handleUnpair W req s = (r, s')"
  shows "pairing_in_step s'"
proof (cases "arg req ''confirm'' = ascii ''UNPAIR''")
  case True
  let ?c = "(live_config s)\<lparr>gc_pairedNodeId := (gc_pairedNodeId (live_config s))[0 := 0]\<rparr>"
  obtain okay s1 where s1: "saveConfig W ?c s = (okay, s1)" by fastforce
  note s1' = saveConfig_live[OF s1]
  obtain m where m: "lockedPairing (gateway_of s) = Some m" using assms(1) by (auto simp: pairing_in_step_def split: option.splits)
  have "gc_pairedNodeId (live_config s) \<noteq> []" using assms(2) by (auto simp: config_wf_def capacity_defs)
  then have "okay \<Longrightarrow> pairing_in_step (on_gateway radio_unpair s1)"
    using m s1' pairing_step(1)[OF assms(1) m] by (intro unpair_step) (simp_all add: cstr_clear)
  then show ?thesis
    using assms(1,3) True s1 s1' in_step_cong[of s1 s] by (cases okay) (auto simp: handleUnpair_def Let_def in_step_log)
qed (use assms in \<open>simp add: handleUnpair_def\<close>)

text \<open>A confirmed candidate is copied out unchanged; discovery runs only while no node is paired.\<close>
lemma confirmPairing_result:
  assumes "lockedPairing g = Some m" "pairing_inv m" "confirmPairing (Some (replicate kNodeIdCapacity 0)) g = ((okay, out), g')"
  shows "if okay then \<exists>m'. g' = putPairing m' g \<and> pairing_inv m' \<and> node_name (paired_name m') \<and> cstr (the out) = paired_name m' \<and>
      paired_name m = [] \<and> paired_name m' = cstr (pc_nodeId (pm_candidate m)) else g' = putPairing m g"
proof (cases "pm_pairingMode m \<and> pc_available (pm_candidate m)")
  case True
  let ?c = "pc_nodeId (pm_candidate m)" and ?m = "m\<lparr>pm_pairedNodeId := pc_nodeId (pm_candidate m), pm_pairingMode := False\<rparr>"
  have c: "confirmCandidate m = (True, ?m)" using confirm_result[OF assms(2)] True by simp
  have nm: "node_name (cstr ?c)" "paired_name m = []" using assms(2) True by (auto simp: pairing_inv_def)
  have "copyNodeId (Some (replicate kNodeIdCapacity 0)) ?m = Some (char_array kNodeIdCapacity (cstr ?c))"
    using copy_array_name[of "replicate kNodeIdCapacity 0" kNodeIdCapacity ?c] name_length[OF nm(1)]
    by (simp add: copyNodeId_def copy_array_def capacity_defs)
  then have "okay" "out = Some (char_array kNodeIdCapacity (cstr ?c))" "g' = putPairing ?m g"
    using assms(1,3) c by (auto simp: confirmPairing_def)
  moreover have "pairing_inv ?m" "paired_name ?m = cstr ?c" using confirm_inv[OF assms(2)] c by (simp_all add: paired_name_def)
  ultimately show ?thesis using nm char_array_name(3)[OF nm(1)] by (auto intro!: exI[of _ ?m])
next
  case False
  then have "confirmCandidate m = (False, m)" by (auto simp: confirmCandidate_def)
  then show ?thesis using assms by (simp add: confirmPairing_def)
qed

lemma pairConfirm_step:
  assumes "pairing_in_step s" "config_wf (live_config s)" "handlePairConfirm W s = (r, s')"
  shows "pairing_in_step s'"
proof -
  obtain m where m: "lockedPairing (gateway_of s) = Some m" using assms(1) by (auto simp: pairing_in_step_def split: option.splits)
  obtain okay out g where c: "confirmPairing (Some (replicate kNodeIdCapacity 0)) (gateway_of s) = ((okay, out), g)" by (metis prod.collapse)
  note res = confirmPairing_result[OF m pairing_step(1)[OF assms(1) m] c]
  note step = pairing_step[OF assms(1) m]
  let ?s = "on_gateway (\<lambda>_. g) s"
  show ?thesis
  proof (cases okay)
    case True
    then obtain m' where m': "g = putPairing m' (gateway_of s)" "pairing_inv m'" "node_name (paired_name m')" "cstr (the out) = paired_name m'"
      "paired_name m = []" using res by auto
    obtain ok2 s2 where s2: "savePairedNode W (the out) ?s = (ok2, s2)" by fastforce
    have live: "live_config ?s = live_config s" by (simp add: pairing_frame)
    note s2' = saveConfig_live[OF s2[unfolded savePairedNode_def Let_def live]]
    have g2: "lockedPairing (gateway_of s2) = Some m'" using s2' m m' by (simp add: pairing_frame lockedPairing_put)
    have name: "cstr (gc_pairedNodeId (live_config s2)) = (if ok2 then paired_name m' else [])"
      using s2' saved_name[OF assms(2), of "the out"] m' step(2) live by simp
    show ?thesis
    proof (cases ok2)
      case ok2: True
      then have "s' = web_log W (LogPairConfirmed (the out)) s2" using assms(3) c True s2 by (simp add: handlePairConfirm_def Let_def)
      then show ?thesis using g2 name m'(2) ok2 by (simp add: in_step_log) (simp add: pairing_in_step_def)
    next
      case False
      then have "s' = on_gateway radio_unpair s2" using assms(3) c True s2 by (simp add: handlePairConfirm_def Let_def)
      then show ?thesis using unpair_step[OF g2 m'(2)] name False by simp
    qed
  next
    case False
    then have "s' = ?s" "g = putPairing m (gateway_of s)" using assms(3) c res by (auto simp: handlePairConfirm_def Let_def)
    then show ?thesis using m step by (simp add: pairing_in_step_def pairing_frame lockedPairing_put)
  qed
qed

definition pairing_routes :: "string list" where
  "pairing_routes = [''/api/pair/start'', ''/api/pair/confirm'', ''/api/pair/cancel'', ''/api/pair/manual'', ''/api/pair/unpair'']"

text \<open>C33: The node the receive path accepts is the node that was saved. If the paired name in the running receive path is
  the one in the configuration before a pairing request (start, confirm, cancel, manual, unpair), it is after it, whether
  the request is accepted, refused, or its NVS write fails; so a restart accepts the same node as the running Gateway.\<close>
theorem pairing_request_keeps_saved_node:
  assumes "config_wf (live_config s)" "pairing_in_step s" "path \<in> set pairing_routes" "handlePost W path req s = (r, s')"
  shows "pairing_in_step s'"
proof -
  have "handlePost W ''/api/pair/start'' req s = handlePairStart s" "handlePost W ''/api/pair/confirm'' req s = handlePairConfirm W s"
    "handlePost W ''/api/pair/cancel'' req s = handlePairCancel s" "handlePost W ''/api/pair/manual'' req s = handlePairManual W req s"
    "handlePost W ''/api/pair/unpair'' req s = handleUnpair W req s" by (simp_all add: handlePost_def)
  moreover have "path = ''/api/pair/start'' \<or> path = ''/api/pair/confirm'' \<or> path = ''/api/pair/cancel'' \<or> path = ''/api/pair/manual'' \<or> path = ''/api/pair/unpair''"
    using assms(3) unfolding pairing_routes_def by simp
  ultimately show ?thesis
    using assms(4) pairStart_step[OF assms(2)] pairConfirm_step[OF assms(2,1)] pairCancel_step[OF assms(2)] pairManual_step[OF assms(2,1)]
      handleUnpair_step[OF assms(2,1)] by metis
qed

definition pairing_system :: "(unit, mem_hw, nvs_map, mem_air, mem_wifi, byte list list, nvs_map, mem_ota) System" where
  "pairing_system = on_gateway (\<lambda>g. g\<lparr>gw_radio := (gw_radio g)\<lparr>rv_radioMutex := True\<rparr>,
     gw_processor := Some (PacketProcessor_init unit_ops PairingManager_init)\<rparr>) served_system"

theorem pairing_request_keeps_saved_node_witness:
  "pairing_in_step pairing_system \<and> pairing_in_step (snd (handlePost mem_web ''/api/pair/manual'' [(''nodeId'', ascii ''N1'')] pairing_system))"
proof -
  have live: "live_config pairing_system = Config_Store.example_config"
    by (simp add: pairing_system_def pairing_frame) (simp add: served_system_def live_config_def)
  have c: "config_wf Config_Store.example_config" "cstr (gc_pairedNodeId Config_Store.example_config) = []" by code_simp+
  have "lockedPairing (gateway_of pairing_system) = Some PairingManager_init"
    by (simp add: pairing_system_def pairing_frame lockedPairing_def PacketProcessor_init_def)
  moreover have "paired_name PairingManager_init = []" by code_simp
  ultimately have s: "pairing_in_step pairing_system" using pairing_inv_init c live by (simp add: pairing_in_step_def)
  have "''/api/pair/manual'' \<in> set pairing_routes" unfolding pairing_routes_def by simp
  from pairing_request_keeps_saved_node[OF _ s this, of mem_web "[(''nodeId'', ascii ''N1'')]"] c(1) live s show ?thesis
    by (metis prod.collapse)
qed


section \<open>Scheduled commands\<close>

lemma store_create_pending:
  assumes "store_create B raw type minutes target created (cs, st) = ((True, i), cs', st')"
  shows "let c = s_command (cst_record cs') in g_commandId c = i \<and> g_type c = CommandType_u8 type \<and>
    g_state c = CommandState_u8 CommandState_kPending \<and> g_pollIntervalMinutes c = minutes \<and> g_scheduledMaintenanceUnix c = target"
  using assms
  by (auto simp: store_create_def store_commit_def Let_def split: if_splits prod.splits bool.splits)

lemma queueCommand_created:
  assumes "queueCommand W type minutes target now l t s = (r, s')" "response_status r = 202"
  shows "let c = s_command (cst_record (gw_commands (gateway_of s'))) in g_type c = CommandType_u8 type \<and>
    g_state c = CommandState_u8 CommandState_kPending \<and> g_pollIntervalMinutes c = minutes \<and> g_scheduledMaintenanceUnix c = target"
  using assms store_create_pending[of "wb_commands W"]
  by (fastforce simp: queueCommand_def Let_def pairing_frame sendText_def split: prod.splits if_splits)

text \<open>C34: A maintenance window is scheduled only in its bounds. A request answered with 202 leaves a pending command whose
  target is a whole minute, at least one minute after the trusted time the Gateway had, and at most 27 days after it; this
  holds while the clock's seconds, with one minute added, fit 32 bits.\<close>
theorem scheduled_target_in_bounds:
  assumes "handleScheduleMaintenance W req s = (r, s')" "response_status r = 202" "fst (web_now W s) = now"
    and "sint (ts_unixMs now) div 1000 + 60 < 2 ^ 32"
  shows "let c = s_command (cst_record (gw_commands (gateway_of s'))); target = uint (g_scheduledMaintenanceUnix c);
      seconds = sint (ts_unixMs now) div 1000 in
    ts_trusted now \<and> g_type c = CommandType_u8 CommandType_kScheduleMaintenanceAt \<and> g_state c = CommandState_u8 CommandState_kPending \<and>
    target mod 60 = 0 \<and> seconds + 60 \<le> target \<and> target \<le> seconds + 27 * 24 * 60 * 60"
proof -
  let ?ms = "sint (ts_unixMs now)"
  let ?n = "word_of_int (c_div ?ms 1000) :: u32"
  obtain s1 where w: "web_now W s = (now, s1)" using assms(3) by (metis prod.collapse)
  have pr: "radio_paired (gateway_of s)" using assms(1,2) by (auto simp: handleScheduleMaintenance_def sendText_def split: if_splits)
  have tr: "ts_trusted now" "0 \<le> ?ms"
    using assms(1,2) w pr by (auto simp: handleScheduleMaintenance_def sendText_def split: if_splits)
  obtain target where t: "parseUnsigned (arg req ''targetUnix'') = Some target"
    using assms(1,2) w pr tr by (auto simp: handleScheduleMaintenance_def sendText_def split: option.splits)
  have ok: "target mod 60 = 0" "\<not> target < ?n + 60" "\<not> schedule_horizon < target - ?n"
    using assms(1,2) w pr tr t by (auto simp: handleScheduleMaintenance_def Let_def sendText_def split: if_splits)
  have q: "queueCommand W CommandType_kScheduleMaintenanceAt 0 target now (\<lambda>i. LogCommandQueued i ''SCHEDULE_MAINTENANCE_AT'' target)
      ''scheduled-maintenance command queued for the next telemetry ACK'' s1 = (r, s')"
    using assms(1) w pr tr t ok by (simp add: handleScheduleMaintenance_def Let_def)
  have d: "c_div ?ms 1000 = ?ms div 1000" using tr by (cases "?ms = 0") (auto simp: c_div_def sgn_if)
  have n: "uint ?n = ?ms div 1000" unfolding d using tr assms(4) by (simp add: uint_word_of_int_eq take_bit_int_eq_self)
  have n60: "uint (?n + 60) = ?ms div 1000 + 60" using n assms(4) tr by (simp add: uint_word_ariths)
  have le: "?ms div 1000 + 60 \<le> uint target" using ok(2) n60 by (simp add: word_less_alt)
  have "uint (target - ?n) = uint target - ?ms div 1000"
    using le n uint_lt2p[of target] tr by (simp add: uint_word_ariths)
  then have "uint target - ?ms div 1000 \<le> 27 * 24 * 60 * 60" using ok(3) by (simp add: word_less_alt schedule_horizon_def)
  moreover have "uint target mod 60 = 0" using arg_cong[OF ok(1), of uint] by (simp add: uint_mod)
  ultimately show ?thesis using queueCommand_created[OF q assms(2)] le tr by (simp add: Let_def)
qed

definition clocked_system :: "(unit, mem_hw, nvs_map, mem_air, mem_wifi, byte list list, nvs_map, mem_ota) System" where
  "clocked_system = on_gateway (\<lambda>g. listening\<lparr>gw_time := TimeManager_init\<lparr>tm_trusted := True\<rparr>,
     gw_commands := CommandStore_init\<lparr>cst_backend := True, cst_mutex := True\<rparr>\<rparr>) served_system"

lemma clocked_now: "web_now mem_web clocked_system = (\<lparr>ts_trusted = True, ts_unixMs = unixMs_of example_timeval\<rparr>, clocked_system)"
proof -
  have "time_now (Some example_timeval) (TimeManager_init\<lparr>tm_trusted := True\<rparr>) = \<lparr>ts_trusted = True, ts_unixMs = unixMs_of example_timeval\<rparr>"
    by code_simp
  then show ?thesis
    by (simp add: web_now_def device_now_def gateway_now_def clocked_system_def on_gateway_def mem_web_def example_platform_def mem_radio_def)
qed

lemma empty_nvs_saves: "\<exists>n. NvsCommandBackend_save nvs_map_api c (nvs_empty []) = (True, n)"
proof -
  have "record_image c \<noteq> []" using length_record_image[of c] by (auto simp del: length_record_image)
  then show ?thesis
    by (simp add: NvsCommandBackend_save_def nvs_map_api_def nvs_write_ok_def nvs_empty_def Let_def sizeof_CommandStoreRecord_def)
qed

lemma clocked_create:
  "\<exists>i cs n. store_create (nvs_command_backend nvs_map_api) GatewayCommand_zero CommandType_kScheduleMaintenanceAt 0 1770000120 ms
     (gw_commands (gateway_of clocked_system), gw_nvs (gateway_of clocked_system)) = ((True, i), cs, n)"
proof -
  have g: "gw_commands (gateway_of clocked_system) = CommandStore_init\<lparr>cst_backend := True, cst_mutex := True\<rparr>"
    "gw_nvs (gateway_of clocked_system) = nvs_empty []"
    by (simp_all add: clocked_system_def pairing_frame listening_def)
  have i: "\<not> in_flight (g_state (s_command CommandStoreRecord_init))" "s_nextCommandId CommandStoreRecord_init \<noteq> UINT32_MAX" by code_simp+
  have "\<exists>cs n. store_commit (nvs_command_backend nvs_map_api) c (CommandStore_init\<lparr>cst_backend := True, cst_mutex := True\<rparr>, nvs_empty []) = (True, cs, n)" for c
    using empty_nvs_saves[of "c\<lparr>s_checksum := store_checksum c\<rparr>"] by (auto simp: store_commit_def nvs_command_backend_def)
  from this[of "(CommandStoreRecord_init\<lparr>s_nextCommandId := s_nextCommandId CommandStoreRecord_init + 1, s_command := (GatewayCommand_init GatewayCommand_zero)
      \<lparr>g_commandId := s_nextCommandId CommandStoreRecord_init, g_type := CommandType_u8 CommandType_kScheduleMaintenanceAt,
       g_state := CommandState_u8 CommandState_kPending, g_pollIntervalMinutes := 0, g_scheduledMaintenanceUnix := 1770000120,
       g_createdUnixMs := ms, g_lastSentUnixMs := -1, g_result := CommandResultCode_u8 CommandResultCode_kNone\<rparr>\<rparr>)"]
  show ?thesis using i unfolding g by (auto simp: store_create_def Let_def CommandStore_init_def)
qed

theorem scheduled_target_in_bounds_witness:
  "let r = handleScheduleMaintenance mem_web [(''targetUnix'', ascii ''1770000120'')] clocked_system;
       t = uint (g_scheduledMaintenanceUnix (s_command (cst_record (gw_commands (gateway_of (snd r)))))) in
   response_status (fst r) = 202 \<and> 1770000060 \<le> t \<and> t \<le> 1770000000 + 27 * 24 * 60 * 60 \<and> t mod 60 = 0"
proof -
  let ?req = "[(''targetUnix'', ascii ''1770000120'')]"
  have pu: "parseUnsigned (arg ?req ''targetUnix'') = Some 1770000120" by (simp add: arg_def parse_defs)
  have ms: "sint (unixMs_of example_timeval) = 1770000000250" by code_simp
  have "lockedPairing (gateway_of clocked_system) = Some paired_example"
    by (simp add: clocked_system_def pairing_frame listening_def lockedPairing_def PacketProcessor_init_def)
  moreover have "paired paired_example" by code_simp
  ultimately have p: "radio_paired (gateway_of clocked_system)" by (simp add: radio_paired_def)
  have mw: "wb_commands mem_web = nvs_command_backend nvs_map_api" by (simp add: mem_web_def)
  obtain r s' where run: "handleScheduleMaintenance mem_web ?req clocked_system = (r, s')" by fastforce
  have r: "response_status r = 202"
    using run p clocked_create[of "unixMs_of example_timeval"]
    by (auto simp: handleScheduleMaintenance_def clocked_now pu ms Let_def c_div_def schedule_horizon_def queueCommand_def mw sendText_def split: if_splits)
  have fst: "fst (web_now mem_web clocked_system) = \<lparr>ts_trusted = True, ts_unixMs = unixMs_of example_timeval\<rparr>" by (simp add: clocked_now)
  from scheduled_target_in_bounds[OF run r fst] show ?thesis using run r by (simp add: ms Let_def)
qed

text \<open>A number with a minus sign is accepted and wraps.\<close>
lemma parseUnsigned_accepts_minus: "parseUnsigned (ascii ''-4294967291'') = Some 5"
  by (rule parse_examples)

end
