(* ===== verification/Gateway_App.thy ===== *)
theory Gateway_App
  imports Dashboard_Properties
begin

text \<open>
  The application (src/lib/app/gateway_app.cpp): the identity derived from the MAC address, the reset reason, and the
  start-up of every component in the order of \<open>GatewayApp::begin\<close>. The components' objects are those of \<open>System\<close>; the
  calls to the chip are operations of \<open>app_platform\<close>. The serial diagnostics of the hardware-in-the-loop build are not
  part of the firmware and are left out.
\<close>

section \<open>Data\<close>

datatype esp_reset_reason =
    ESP_RST_UNKNOWN | ESP_RST_POWERON | ESP_RST_EXT | ESP_RST_SW | ESP_RST_PANIC | ESP_RST_INT_WDT | ESP_RST_TASK_WDT
  | ESP_RST_WDT | ESP_RST_DEEPSLEEP | ESP_RST_BROWNOUT | ESP_RST_SDIO | ESP_RST_OTHER nat

fun resetReasonName :: "esp_reset_reason \<Rightarrow> string" where
  "resetReasonName ESP_RST_UNKNOWN = ''UNKNOWN''"
| "resetReasonName ESP_RST_POWERON = ''POWER_ON''"
| "resetReasonName ESP_RST_EXT = ''EXTERNAL''"
| "resetReasonName ESP_RST_SW = ''SOFTWARE''"
| "resetReasonName ESP_RST_PANIC = ''PANIC''"
| "resetReasonName ESP_RST_INT_WDT = ''INT_WDT''"
| "resetReasonName ESP_RST_TASK_WDT = ''TASK_WDT''"
| "resetReasonName ESP_RST_WDT = ''OTHER_WDT''"
| "resetReasonName ESP_RST_DEEPSLEEP = ''DEEP_SLEEP''"
| "resetReasonName ESP_RST_BROWNOUT = ''BROWNOUT''"
| "resetReasonName ESP_RST_SDIO = ''SDIO''"
| "resetReasonName (ESP_RST_OTHER _) = ''UNKNOWN''"

datatype AppLog =
    LogBanner | LogIdentity "byte list" u32 string | LogConfigFailed | LogConfigReady u32 bool u32 | LogBootCountUnsaved
  | LogQueueRecovered nat nat u64 u64 | LogQueueRecovery u64 u64 | LogQueueFailed
  | LogCommandFailed | LogCommandReady bool u32 string | LogRadioFailed | LogWifiFailed | LogBackendFailed | LogWebFailed
  | LogAppReady bool bool bool bool

text \<open>\<open>ap_commandMutex\<close> is \<open>xSemaphoreCreateMutex\<close> in \<open>CommandStore::begin\<close>.\<close>
record ('d, 'q, 'c, 'r, 'x, 'n, 'j, 'p, 'o) app_platform =
  ap_web :: "('d, 'q, 'c, 'r, 'x, 'n, 'j, 'p, 'o) web_platform"
  ap_readMac :: "'o \<Rightarrow> byte list"
  ap_random :: "'o \<Rightarrow> u32 \<times> 'o"
  ap_resetReason :: "'o \<Rightarrow> esp_reset_reason"
  ap_commandMutex :: "'o \<Rightarrow> bool \<times> 'o"
  ap_time :: "'o sntp_platform"
  ap_log :: "AppLog \<Rightarrow> 'o \<Rightarrow> 'o"

record GatewayApp =
  ga_hardwareMac :: "byte list"
  ga_hardwareMacCompact :: "byte list"
  ga_derivedGatewayId :: "byte list"
  ga_identity :: GatewayIdentity

definition GatewayApp_init :: GatewayApp where
  "GatewayApp_init = \<lparr>ga_hardwareMac = replicate 18 0, ga_hardwareMacCompact = replicate 13 0,
     ga_derivedGatewayId = replicate kGatewayIdCapacity 0, ga_identity = GatewayIdentity_init\<rparr>"


section \<open>Identity\<close>

definition hex_digit :: "byte \<Rightarrow> byte" where "hex_digit v = (if v < 10 then 0x30 + v else 0x37 + v)"

text \<open>\<open>%02X\<close>.\<close>
definition hex_byte :: "byte \<Rightarrow> byte list" where "hex_byte v = [hex_digit (v div 16), hex_digit (v mod 16)]"

fun colon_separated :: "byte list list \<Rightarrow> byte list" where
  "colon_separated [] = []"
| "colon_separated [x] = x"
| "colon_separated (x # xs) = x @ 0x3A # colon_separated xs"

definition deriveIdentity :: "byte list \<Rightarrow> GatewayApp \<Rightarrow> GatewayApp" where
  "deriveIdentity mac a =
     (let a = a\<lparr>ga_hardwareMac := snprintf_text (ga_hardwareMac a) (colon_separated (map hex_byte mac)),
                ga_hardwareMacCompact := snprintf_text (ga_hardwareMacCompact a) (concat (map hex_byte mac))\<rparr>
      in a\<lparr>ga_derivedGatewayId := snprintf_text (ga_derivedGatewayId a) (ascii ''GTH-GW-'' @ cstr (ga_hardwareMacCompact a))\<rparr>)"

definition bootIdentity :: "u32 \<Rightarrow> GatewayApp \<Rightarrow> GatewayApp" where
  "bootIdentity random a = (let i = ga_identity a in
     a\<lparr>ga_identity := i\<lparr>gi_bootSessionId := (if random = 0 then 1 else random),
        gi_hardwareMac := strncpy (gi_hardwareMac i) (ga_hardwareMac a) 17,
        gi_firmwareVersion := strncpy (gi_firmwareVersion i) firmware_kVersion 16\<rparr>\<rparr>)"


section \<open>Start-up\<close>

definition app_log ::
  "('d, 'q, 'c, 'r, 'x, 'n, 'j, 'p, 'o) app_platform \<Rightarrow> AppLog \<Rightarrow> ('d, 'q, 'c, 'r, 'x, 'n, 'p, 'o) System \<Rightarrow> ('d, 'q, 'c, 'r, 'x, 'n, 'p, 'o) System" where
  "app_log A l s = s\<lparr>sy_chip := ap_log A l (sy_chip s)\<rparr>"

definition startIdentity ::
  "('d, 'q, 'c, 'r, 'x, 'n, 'j, 'p, 'o) app_platform \<Rightarrow> GatewayApp \<times> ('d, 'q, 'c, 'r, 'x, 'n, 'p, 'o) System \<Rightarrow>
     GatewayApp \<times> ('d, 'q, 'c, 'r, 'x, 'n, 'p, 'o) System" where
  "startIdentity A = (\<lambda>(a, s).
     let a = deriveIdentity (ap_readMac A (sy_chip s)) a in
     case ap_random A (sy_chip s) of (random, h) \<Rightarrow>
     let a = bootIdentity random a; s = app_log A LogBanner (s\<lparr>sy_chip := h\<rparr>);
         s = app_log A (LogIdentity (ga_hardwareMac a) (gi_bootSessionId (ga_identity a)) (resetReasonName (ap_resetReason A (sy_chip s)))) s in
     case ota_begin (wb_ota (ap_web A)) (sy_ota s, sy_chip s) of (m, h) \<Rightarrow> (a, s\<lparr>sy_ota := m, sy_chip := h\<rparr>))"

definition startConfig ::
  "('d, 'q, 'c, 'r, 'x, 'n, 'j, 'p, 'o) app_platform \<Rightarrow> GatewayApp \<times> ('d, 'q, 'c, 'r, 'x, 'n, 'p, 'o) System \<Rightarrow>
     bool \<times> GatewayApp \<times> ('d, 'q, 'c, 'r, 'x, 'n, 'p, 'o) System" where
  "startConfig A = (\<lambda>(a, s).
     case config_begin (wb_fsub (ap_web A)) (wb_prefs (ap_web A)) (Some (ga_derivedGatewayId a)) (sy_config s, sy_prefs s) of (ready, c, p) \<Rightarrow>
     let s = s\<lparr>sy_config := c, sy_prefs := p\<rparr>;
         s = (if \<not> ready then app_log A LogConfigFailed s
              else let s = app_log A (LogConfigReady (cs_bootCount c) (cs_migratedLegacyConfig c) (gc_heartbeatIntervalSeconds (cs_config c))) s
                   in if \<not> cs_bootCountHealthy c then app_log A LogBootCountUnsaved s else s);
         i = ga_identity a
     in (ready, a\<lparr>ga_identity := i\<lparr>gi_gatewayId := strncpy (gi_gatewayId i) (gc_gatewayId (cs_config c)) (kGatewayIdCapacity - 1)\<rparr>\<rparr>, s))"

definition startQueue ::
  "('d, 'q, 'c, 'r, 'x, 'n, 'j, 'p, 'o) app_platform \<Rightarrow> ('d, 'q, 'c, 'r, 'x, 'n, 'p, 'o) System \<Rightarrow>
     bool \<times> ('d, 'q, 'c, 'r, 'x, 'n, 'p, 'o) System" where
  "startQueue A s =
     (let Q = dp_queue (wb_device (ap_web A)) in
      case DurableQueue_begin Q (device_queue (sy_device s)) of (ready, q, f) \<Rightarrow>
      let s = s\<lparr>sy_device := putQueue q f (sy_device s)\<rparr>; stats = operationalStats q in
      (ready,
       if \<not> ready then app_log A LogQueueFailed s
       else let s = app_log A (LogQueueRecovered (DurableQueue_size q) (DurableQueue_capacity q)
                     (filesystemUsedBytes Q (q, f)) (filesystemTotalBytes Q (q, f))) s in
         if 0 < os_filesystemErrors stats \<or> 0 < os_recordsDroppedOldest stats
         then app_log A (LogQueueRecovery (os_filesystemErrors stats) (os_recordsDroppedOldest stats)) s else s))"

definition startCommands ::
  "('d, 'q, 'c, 'r, 'x, 'n, 'j, 'p, 'o) app_platform \<Rightarrow> ('d, 'q, 'c, 'r, 'x, 'n, 'p, 'o) System \<Rightarrow>
     bool \<times> ('d, 'q, 'c, 'r, 'x, 'n, 'p, 'o) System" where
  "startCommands A s =
     (case ap_commandMutex A (sy_chip s) of (created, h) \<Rightarrow>
      case store_begin (wb_commands (ap_web A)) created False (gw_commands (gateway_of s), gw_nvs (gateway_of s)) of ((ready, fresh), cs, n) \<Rightarrow>
      let s = on_gateway (\<lambda>g. g\<lparr>gw_commands := cs, gw_nvs := n\<rparr>) (s\<lparr>sy_chip := h\<rparr>) in
      (ready, app_log A (if \<not> ready then LogCommandFailed
         else LogCommandReady fresh (store_nextCommandId cs) (storedStateName (g_state (store_current cs GatewayCommand_zero)))) s))"

text \<open>\<open>pairing_\<close> and the radio service on it.\<close>
definition startRadio ::
  "('d, 'q, 'c, 'r, 'x, 'n, 'j, 'p, 'o) app_platform \<Rightarrow> u32 \<Rightarrow> ('d, 'q, 'c, 'r, 'x, 'n, 'p, 'o) System \<Rightarrow>
     bool \<times> ('d, 'q, 'c, 'r, 'x, 'n, 'p, 'o) System" where
  "startRadio A bootSessionId s =
     (let D = wb_device (ap_web A); c = live_config s; pairing = pairing_begin (Some (gc_pairedNodeId c)) PairingManager_init in
      case radio_begin (dp_double D) (dp_radio D) (gc_radio c) pairing bootSessionId (gateway_of s) of (ready, g) \<Rightarrow>
      let s = on_gateway (\<lambda>_. g) s in (ready, if \<not> ready then app_log A LogRadioFailed s else s))"

definition startServices ::
  "('d, 'q, 'c, 'r, 'x, 'n, 'j, 'p, 'o) app_platform \<Rightarrow> GatewayApp \<Rightarrow> ('d, 'q, 'c, 'r, 'x, 'n, 'p, 'o) System \<Rightarrow>
     (bool \<times> bool \<times> bool) \<times> ('d, 'q, 'c, 'r, 'x, 'n, 'p, 'o) System" where
  "startServices A a s =
     (let D = wb_device (ap_web A); c = live_config s; reason = Some (ascii (resetReasonName (ap_resetReason A (sy_chip s)))) in
      case wifi_begin (dp_wifi D) c (Some (ga_hardwareMacCompact a)) (dv_wifi (sy_device s), dv_driver (sy_device s)) of (wifiReady, m, x) \<Rightarrow>
      let s = s\<lparr>sy_device := (sy_device s)\<lparr>dv_wifi := m, dv_driver := x\<rparr>\<rparr>;
          s = (if \<not> wifiReady then app_log A LogWifiFailed s else s) in
      case backend_begin D c (ga_identity a) (cs_bootCount (sy_config s)) reason (sy_device s) of (backendReady, w) \<Rightarrow>
      let s = s\<lparr>sy_device := w\<rparr>; s = (if \<not> backendReady then app_log A LogBackendFailed s else s) in
      case dashboard_begin (ap_web A) (ga_identity a) reason s of (dashboardReady, s) \<Rightarrow>
      ((wifiReady, backendReady, dashboardReady), if \<not> dashboardReady then app_log A LogWebFailed s else s))"

definition app_begin ::
  "('d, 'q, 'c, 'r, 'x, 'n, 'j, 'p, 'o) app_platform \<Rightarrow> GatewayApp \<times> ('d, 'q, 'c, 'r, 'x, 'n, 'p, 'o) System \<Rightarrow>
     GatewayApp \<times> ('d, 'q, 'c, 'r, 'x, 'n, 'p, 'o) System" where
  "app_begin A as =
     (case startIdentity A as of as \<Rightarrow>
      case startConfig A as of (configReady, a, s) \<Rightarrow>
      case startQueue A s of (queueReady, s) \<Rightarrow>
      case startCommands A s of (commandReady, s) \<Rightarrow>
      case time_begin (ap_time A) (sy_chip s) of (timeReady, h) \<Rightarrow>
      case startRadio A (gi_bootSessionId (ga_identity a)) (s\<lparr>sy_chip := h\<rparr>) of (radioReady, s) \<Rightarrow>
      case startServices A a s of ((wifiReady, backendReady, dashboardReady), s) \<Rightarrow>
      let internalStateSane = (configReady \<and> queueReady \<and> timeReady \<and> commandReady \<and> cs_healthy (sy_config s)) in
      case completeBootValidation (wb_ota (ap_web A)) configReady queueReady internalStateSane (sy_ota s, sy_chip s) of (_, m, h) \<Rightarrow>
        (a, app_log A (LogAppReady radioReady wifiReady backendReady dashboardReady) (s\<lparr>sy_ota := m, sy_chip := h\<rparr>)))"

text \<open>One pass of the Arduino loop: the request at hand, if any, and the reboot timer.\<close>
definition app_loop ::
  "('d, 'q, 'c, 'r, 'x, 'n, 'j, 'p, 'o) app_platform \<Rightarrow> (string \<times> request) option \<Rightarrow> ('d, 'q, 'c, 'r, 'x, 'n, 'p, 'o) System \<Rightarrow>
     ('d, 'q, 'c, 'r, 'x, 'n, 'p, 'o) System" where
  "app_loop A pending s = rebootIfDue (ap_web A)
     (case pending of None \<Rightarrow> s | Some (path, req) \<Rightarrow> snd (handlePost (ap_web A) path req s))"


section \<open>What the start-up establishes\<close>

text \<open>The parts later steps leave alone: the configuration, and the pairing behind its mutex.\<close>
lemma app_log_frame:
  "config_part (app_log A l s) = config_part s" "gateway_of (app_log A l s) = gateway_of s" "sy_device (app_log A l s) = sy_device s"
  by (simp_all add: app_log_def config_part_def gateway_of_def)

lemma startQueue_config: "startQueue A s = (ready, s') \<Longrightarrow> config_part s' = config_part s"
  by (auto simp: startQueue_def Let_def app_log_frame config_frame split: prod.splits if_splits)

lemma startCommands_config: "startCommands A s = (ready, s') \<Longrightarrow> config_part s' = config_part s"
  by (auto simp: startCommands_def Let_def app_log_frame config_frame split: prod.splits)

lemma startRadio_config: "startRadio A i s = (ready, s') \<Longrightarrow> config_part s' = config_part s"
  by (auto simp: startRadio_def Let_def app_log_frame config_frame split: prod.splits)

lemma backend_begin_pairing:
  assumes "backend_begin P c i n reason w = (ready, w')"
  shows "lockedPairing (dv_gateway w') = lockedPairing (dv_gateway w) \<and> gw_radio (dv_gateway w') = gw_radio (dv_gateway w)"
  using assms
  by (auto simp: backend_begin_def backend_applyConfig_def device_uptimeUs_def notifyTask_def on_status_def on_worker_def Let_def
      lockedPairing_def split: prod.splits if_splits)

lemma startServices_frame:
  assumes "startServices A a s = (r, s')"
  shows "config_part s' = config_part s \<and> lockedPairing (gateway_of s') = lockedPairing (gateway_of s) \<and>
    gw_radio (gateway_of s') = gw_radio (gateway_of s)"
proof -
  let ?reason = "Some (ascii (resetReasonName (ap_resetReason A (sy_chip s))))"
  obtain wifiReady m x where wifi: "wifi_begin (dp_wifi (wb_device (ap_web A))) (live_config s) (Some (ga_hardwareMacCompact a))
      (dv_wifi (sy_device s), dv_driver (sy_device s)) = (wifiReady, m, x)" by (metis prod_cases3)
  define s1 where "s1 = (let s1 = s\<lparr>sy_device := (sy_device s)\<lparr>dv_wifi := m, dv_driver := x\<rparr>\<rparr> in
      if \<not> wifiReady then app_log A LogWifiFailed s1 else s1)"
  have s1: "config_part s1 = config_part s" "gateway_of s1 = gateway_of s"
    by (simp_all add: s1_def Let_def app_log_def config_part_def gateway_of_def)
  obtain b w where w: "backend_begin (wb_device (ap_web A)) (live_config s) (ga_identity a) (cs_bootCount (sy_config s1)) ?reason (sy_device s1) = (b, w)"
    by fastforce
  have "config_part s' = config_part s1 \<and> gateway_of s' = dv_gateway w"
    using assms wifi w unfolding startServices_def Let_def
    by (auto simp: s1_def Let_def dashboard_begin_def app_log_def web_log_def on_dashboard_def config_part_def gateway_of_def split: if_splits)
  with backend_begin_pairing[OF w] s1 show ?thesis by (simp add: gateway_of_def)
qed

lemma configureAndReceive_mutex:
  assumes "configureAndReceive R c (s, r) = (ready, s', r')"
  shows "rv_radioMutex s' = rv_radioMutex s"
  using assms
  by (cases "rv_dio0Action s")
     (auto simp: configureAndReceive_def configureUnlocked_def startReceiveUnlocked_def with_diag_def Let_def split: prod.splits if_splits bool.splits)

lemma radio_begin_pairing:
  assumes "radio_begin D R c pairing i g = (ready, g')" "rv_radioMutex (gw_radio g')"
  shows "lockedPairing g' = Some pairing"
  using assms configureAndReceive_mutex
  by (auto simp: radio_begin_def lockedPairing_def Let_def with_diag_def PacketProcessor_init_def split: prod.splits if_splits bool.splits)

lemma configOk_pairedNodeId: "configOk fsub c \<Longrightarrow> gc_pairedNodeId c ! 0 = 0 \<or> nodeIdValid (Some (gc_pairedNodeId c))"
  by (simp add: configOk_def validateConfig_def Let_def split: if_splits)

lemma pairing_begin_name:
  assumes "config_wf c" "configOk fsub c"
  shows "paired_name (pairing_begin (Some (gc_pairedNodeId c)) PairingManager_init) = cstr (gc_pairedNodeId c)"
proof (cases "nodeIdValid (Some (gc_pairedNodeId c))")
  case True
  note nm = node_prefix_name[OF True, THEN conjunct2]
  have "strncpy (replicate kNodeIdCapacity 0) (gc_pairedNodeId c) (kNodeIdCapacity - 1) = char_array kNodeIdCapacity (cstr (gc_pairedNodeId c))"
    using name_length[OF nm] by (rule strncpy_zeros)
  then show ?thesis using True char_array_name(3)[OF nm] by (simp add: pairing_begin_def PairingManager_init_def Let_def paired_name_def)
next
  case False
  then have "gc_pairedNodeId c ! 0 = 0" using configOk_pairedNodeId[OF assms(2)] by blast
  then have "cstr (gc_pairedNodeId c) = []" using assms(1) by (cases "gc_pairedNodeId c") (auto simp: cstr_def config_wf_def)
  moreover have "cstr (replicate kNodeIdCapacity (0::byte)) = []" by (simp add: cstr_def capacity_defs)
  ultimately show ?thesis using False by (simp add: pairing_begin_def PairingManager_init_def Let_def paired_name_def)
qed

lemma bootIdentity_session: "gi_bootSessionId (ga_identity (bootIdentity random a)) \<noteq> 0"
  by (simp add: bootIdentity_def Let_def)

lemma startIdentity_frame:
  assumes "startIdentity A (a, s) = (a', s')"
  shows "config_part s' = config_part s" "gi_bootSessionId (ga_identity a') \<noteq> 0"
  using assms bootIdentity_session by (auto simp: startIdentity_def app_log_def config_part_def Let_def split: prod.splits)

lemma startConfig_part:
  assumes "startConfig A (a, s) = (ready, a', s')"
  shows "config_begin (wb_fsub (ap_web A)) (wb_prefs (ap_web A)) (Some (ga_derivedGatewayId a)) (config_part s) = (ready, config_part s')"
  using assms by (auto simp: startConfig_def Let_def app_log_def config_part_def split: prod.splits if_splits)

lemma config_begin_healthy: "config_begin fsub P d (c, n) = (True, c', n') \<Longrightarrow> cs_healthy c'"
  by (auto simp: config_begin_def Let_def split: prod.splits if_splits bool.splits)

text \<open>The configuration after the start-up is the one \<open>ConfigStore::begin\<close> leaves.\<close>
lemma boot_config:
  assumes "app_begin A (a, s) = (a', s')"
  obtains a1 :: GatewayApp and ready where "config_begin (wb_fsub (ap_web A)) (wb_prefs (ap_web A)) (Some (ga_derivedGatewayId a1)) (config_part s) = (ready, config_part s')"
proof -
  obtain a1 s1 where 1: "startIdentity A (a, s) = (a1, s1)" by fastforce
  obtain configReady a2 s2 where 2: "startConfig A (a1, s1) = (configReady, a2, s2)" by (metis prod_cases3)
  obtain queueReady s3 where 3: "startQueue A s2 = (queueReady, s3)" by fastforce
  obtain commandReady s4 where 4: "startCommands A s3 = (commandReady, s4)" by fastforce
  obtain timeReady h where t: "time_begin (ap_time A) (sy_chip s4) = (timeReady, h)" by fastforce
  obtain radioReady s5 where 5: "startRadio A (gi_bootSessionId (ga_identity a2)) (s4\<lparr>sy_chip := h\<rparr>) = (radioReady, s5)" by fastforce
  obtain r s6 where 6: "startServices A a2 s5 = (r, s6)" by fastforce
  have "config_part s' = config_part s6"
    using assms 1 2 3 4 t 5 6 by (auto simp: app_begin_def Let_def app_log_def config_part_def split: prod.splits)
  then have "config_part s' = config_part s2"
    using startServices_frame[OF 6] startRadio_config[OF 5] startCommands_config[OF 4] startQueue_config[OF 3] by (simp add: config_frame)
  with startConfig_part[OF 2] startIdentity_frame(1)[OF 1] show thesis by (intro that[of a1 configReady]) simp
qed

lemma config_begin_unhealthy: "config_begin f P d (c0, n0) = (r, c, n) \<Longrightarrow> cs_healthy c \<longrightarrow> r \<or> cs_healthy c0"
  by (auto simp: config_begin_def config_load_def config_save_def Let_def split: prod.splits if_splits bool.splits option.splits)

lemma startConfig_ready:
  assumes "startConfig A (a, s) = (ready, a', s')" "preferences (wb_prefs (ap_web A)) stored number opened"
  shows "cs_healthy (sy_config s') \<longrightarrow> ready \<or> cs_healthy (sy_config s)"
    "ready \<longrightarrow> config_synced stored opened (wb_fsub (ap_web A)) (config_part s')"
    "gi_bootSessionId (ga_identity a') = gi_bootSessionId (ga_identity a)"
proof -
  note b = startConfig_part[OF assms(1)]
  show "cs_healthy (sy_config s') \<longrightarrow> ready \<or> cs_healthy (sy_config s)"
    by (rule config_begin_unhealthy[OF b[unfolded config_part_def]])
  show "ready \<longrightarrow> config_synced stored opened (wb_fsub (ap_web A)) (config_part s')"
    using preferences.begin_makes_synced[OF assms(2)] b by (auto simp: config_part_def)
  show "gi_bootSessionId (ga_identity a') = gi_bootSessionId (ga_identity a)"
    using assms(1) by (auto simp: startConfig_def Let_def split: prod.splits)
qed

text \<open>C39: The start-up puts the Gateway in the state its other guarantees rely on. If the configuration store reports itself
  healthy after \<open>begin\<close>, the configuration in memory is valid and the one a restart loads, and stays so whatever requests
  are served afterwards; and if the receive path could be set up, the node it accepts is the saved one. The boot session
  is never 0.\<close>
theorem boot_establishes:
  assumes "preferences (wb_prefs (ap_web A)) stored number opened" "\<not> cs_healthy (sy_config s)" "app_begin A (a, s) = (a', s')"
  shows "gi_bootSessionId (ga_identity a') \<noteq> 0 \<and>
    (cs_healthy (sy_config s') \<longrightarrow>
      (\<forall>reqs. config_synced stored opened (wb_fsub (ap_web A)) (config_part (servePosts (ap_web A) reqs s'))) \<and>
      (rv_radioMutex (gw_radio (gateway_of s')) \<longrightarrow> pairing_in_step s'))"
proof -
  obtain a1 s1 where 1: "startIdentity A (a, s) = (a1, s1)" by fastforce
  obtain configReady a2 s2 where 2: "startConfig A (a1, s1) = (configReady, a2, s2)" by (metis prod_cases3)
  obtain queueReady s3 where 3: "startQueue A s2 = (queueReady, s3)" by fastforce
  obtain commandReady s4 where 4: "startCommands A s3 = (commandReady, s4)" by fastforce
  obtain timeReady h where t: "time_begin (ap_time A) (sy_chip s4) = (timeReady, h)" by fastforce
  obtain radioReady s5 where 5: "startRadio A (gi_bootSessionId (ga_identity a2)) (s4\<lparr>sy_chip := h\<rparr>) = (radioReady, s5)" by fastforce
  obtain r s6 where 6: "startServices A a2 s5 = (r, s6)" by fastforce
  have fin: "a' = a2" "config_part s' = config_part s6" "gateway_of s' = gateway_of s6"
    using assms(3) 1 2 3 4 t 5 6
    by (auto simp: app_begin_def Let_def app_log_def config_part_def gateway_of_def split: prod.splits)
  have s1: "sy_config s1 = sy_config s" "gi_bootSessionId (ga_identity a1) \<noteq> 0"
    using startIdentity_frame[OF 1] by (simp_all add: config_part_def)
  have cfg: "config_part s' = config_part s2" "config_part s5 = config_part s2" "config_part (s4\<lparr>sy_chip := h\<rparr>) = config_part s2"
    using fin startServices_frame[OF 6] startRadio_config[OF 5] startCommands_config[OF 4] startQueue_config[OF 3] by (simp_all add: config_frame)
  have boot: "gi_bootSessionId (ga_identity a') \<noteq> 0" using fin(1) s1(2) startConfig_ready(3)[OF 2 assms(1)] by simp
  have "config_synced stored opened (wb_fsub (ap_web A)) (config_part s') \<and> (rv_radioMutex (gw_radio (gateway_of s')) \<longrightarrow> pairing_in_step s')"
    if healthy: "cs_healthy (sy_config s')"
  proof -
    have "sy_config s' = sy_config s2" using cfg(1) by (simp add: config_part_def)
    then have configReady using startConfig_ready(1)[OF 2 assms(1)] healthy s1(1) assms(2) by simp
    then have sync: "config_synced stored opened (wb_fsub (ap_web A)) (config_part s2)" using startConfig_ready(2)[OF 2 assms(1)] by simp
    let ?c = "live_config s2"
    have live: "live_config s' = ?c" "live_config (s4\<lparr>sy_chip := h\<rparr>) = ?c" using cfg by (simp_all add: live_config_part)
    have ok: "config_wf ?c" "configOk (wb_fsub (ap_web A)) ?c" using sync by (simp_all add: config_synced_def config_part_def live_config_def)
    have "pairing_in_step s'" if m: "rv_radioMutex (gw_radio (gateway_of s'))"
    proof -
      let ?p = "pairing_begin (Some (gc_pairedNodeId ?c)) PairingManager_init" and ?D = "wb_device (ap_web A)"
      obtain g where g: "radio_begin (dp_double ?D) (dp_radio ?D) (gc_radio ?c) ?p (gi_bootSessionId (ga_identity a2)) (gateway_of (s4\<lparr>sy_chip := h\<rparr>))
          = (radioReady, g)" "gateway_of s5 = g"
        using 5 live(2) by (auto simp: startRadio_def Let_def pairing_frame app_log_frame split: prod.splits if_splits)
      have "rv_radioMutex (gw_radio g)" using m fin(3) startServices_frame[OF 6] g(2) by simp
      then have "lockedPairing (gateway_of s') = Some ?p" using radio_begin_pairing[OF g(1)] startServices_frame[OF 6] fin(3) g(2) by simp
      then show ?thesis
        using pairing_begin_name[OF ok] pairing_begin_inv[OF pairing_inv_init] live(1) by (simp add: pairing_in_step_def)
    qed
    then show ?thesis using sync cfg(1) by simp
  qed
  then show ?thesis using boot servePosts_synced[OF assms(1)] by blast
qed

definition mem_app :: "(unit, mem_hw, nvs_map, mem_air, mem_wifi, byte list list, unit json, nvs_map, mem_ota) app_platform" where
  "mem_app = \<lparr>ap_web = mem_web, ap_readMac = (\<lambda>_. [0xA4, 0xCF, 0x12, 0, 7, 0xFF]), ap_random = Pair 0, ap_resetReason = (\<lambda>_. ESP_RST_POWERON),
     ap_commandMutex = Pair True, ap_time = \<lparr>sn_setNotificationCb = (\<lambda>h. h), sn_configTzTime = (\<lambda>_ _ h. h), sn_createTask = Pair True\<rparr>, ap_log = (\<lambda>_ h. h)\<rparr>"

theorem boot_establishes_witness:
  "let boot = app_begin mem_app (GatewayApp_init, served_system) in
   cs_healthy (sy_config (snd boot)) \<and> live_config (snd boot) = Config_Store.example_config \<and> gi_bootSessionId (ga_identity (fst boot)) \<noteq> 0 \<and>
   config_synced nv_blobs nv_opened exact_sub (config_part (servePosts mem_web [(''/api/heartbeat'', [(''intervalSeconds'', ascii ''120'')])] (snd boot)))"
proof -
  obtain a s where run: "app_begin mem_app (GatewayApp_init, served_system) = (a, s)" by fastforce
  have m: "ap_web mem_app = mem_web" "wb_prefs mem_web = nvs_map_api" "wb_fsub mem_web = exact_sub" by (simp_all add: mem_app_def mem_web_def)
  have pre: "preferences (wb_prefs (ap_web mem_app)) nv_blobs nv_numbers nv_opened" using nvs.preferences_axioms by (simp add: m)
  have init: "\<not> cs_healthy (sy_config served_system)" by (simp add: served_system_def ConfigStore_init_def)
  obtain a1 :: GatewayApp and ready where b: "config_begin exact_sub nvs_map_api (Some (ga_derivedGatewayId a1)) (sy_config served_system, sy_prefs served_system)
      = (ready, sy_config s, sy_prefs s)" by (rule boot_config[OF run, unfolded m config_part_def])
  have "ready" "live_config s = live_config served_system"
    using preferences.begin_synced[OF nvs.preferences_axioms _ b] served_synced m by (auto simp: live_config_def nvs_map_api_def)
  then have h: "cs_healthy (sy_config s)" "live_config s = Config_Store.example_config"
    using config_begin_healthy b by (auto simp: served_system_def live_config_def)
  note est = boot_establishes[OF pre init run, unfolded m]
  show ?thesis unfolding Let_def run fst_conv snd_conv using est h by blast
qed

end
