(* ===== verification/Dashboard_Status.thy ===== *)
theory Dashboard_Status
  imports Dashboard_Properties
begin

text \<open>
  The status document of the dashboard (\<open>Dashboard::handleStatus\<close> in src/lib/dashboard/dashboard.cpp): what is read from the
  components, and the document member by member. Single-precision arithmetic and the texts the build generates are
  fields of \<open>status_env\<close>. The document does not depend on the Wi-Fi password, and of the backend token only on whether there is one.
\<close>

section \<open>What is read\<close>

record status_env =
  se_buildDate :: "byte list"
  se_gitCommit :: "byte list"
  se_of_int :: "int \<Rightarrow> f32"
  se_mul :: "f32 \<Rightarrow> f32 \<Rightarrow> f32"
  se_div :: "f32 \<Rightarrow> f32 \<Rightarrow> f32"

text \<open>\<open>sr_oldestAgeMs\<close> is \<open>None\<close> when there is no oldest record to look at; \<open>sr_currentUtc\<close> is the buffer, empty when it was not
  filled.\<close>
record 'd StatusReads =
  sr_wifi :: WifiStatus
  sr_radio :: "'d RadioDiagnostics"
  sr_latest :: LatestTelemetry
  sr_candidate :: PairingCandidate
  sr_paired :: bool
  sr_pairedNodeId :: "byte list"
  sr_pairingMode :: bool
  sr_backend :: BackendStatus
  sr_heartbeat :: HeartbeatStatus
  sr_time :: TimeStatus
  sr_currentUtc :: "byte list"
  sr_queueStats :: QueueOperationalStats
  sr_queueSize :: nat
  sr_queueCapacity :: nat
  sr_filesystemUsed :: u64
  sr_filesystemTotal :: u64
  sr_oldestAgeMs :: "i64 option"
  sr_uptimeUs :: u64
  sr_command :: GatewayCommand
  sr_heartbeatUptimeUs :: u64

text \<open>The age of the oldest record, with the bytes read through the queue.\<close>
definition oldestAge ::
  "('d, 'q, 'c, 'r, 'x, 'n, 'j) device_platform \<Rightarrow> u32 \<Rightarrow> ('d, 'q, 'c, 'r, 'x, 'n) Device \<Rightarrow>
     i64 option \<times> ('d, 'q, 'c, 'r, 'x, 'n) Device" where
  "oldestAge P bootSessionId w =
     (if DurableQueue_size (gw_queue (dv_gateway w)) = 0 then (None, w)
      else case DurableQueue_peek (dp_queue P) 1 (device_queue w) of ((okay, oldest), q, h) \<Rightarrow>
        let w = putQueue q h w in
        if \<not> okay \<or> oldest = [] then (None, w)
        else case device_now P w of (current, w) \<Rightarrow>
          let m = q_reception (hd oldest) in
          if ts_trusted current \<and> rm_gatewayTimeTrusted m then (Some (ts_unixMs current - rm_gatewayReceivedUnixMs m), w)
          else if rm_gatewayBootSessionId m = bootSessionId
          then (case device_uptimeUs P w of (us, w) \<Rightarrow> (Some (us div 1000 - rm_gatewayUptimeMs m), w))
          else (Some (-1), w))"

definition readStatus ::
  "('d, 'q, 'c, 'r, 'x, 'n, 'j) device_platform \<Rightarrow> u32 \<Rightarrow> ('d, 'q, 'c, 'r, 'x, 'n) Device \<Rightarrow>
     'd StatusReads \<times> ('d, 'q, 'c, 'r, 'x, 'n) Device" where
  "readStatus P bootSessionId w =
     (case wifi_status (dp_wifi P) (dv_wifi w, dv_driver w) of (wifi, x) \<Rightarrow>
      let w = w\<lparr>dv_driver := x\<rparr>; g = dv_gateway w in
      case device_timeStatus P w of (t, w) \<Rightarrow>
      case device_uptimeUs P w of (us, w) \<Rightarrow>
      case oldestAge P bootSessionId w of (age, w) \<Rightarrow>
      case device_uptimeUs P w of (us2, w) \<Rightarrow>
      (\<lparr>sr_wifi = wifi, sr_radio = radio_diagnostics g, sr_latest = latestTelemetry g, sr_candidate = pairingCandidate g,
        sr_paired = radio_paired g, sr_pairedNodeId = the (radio_pairedNodeId (Some (replicate kNodeIdCapacity 0)) g),
        sr_pairingMode = radio_pairingMode g, sr_backend = backend_status (dv_backend w), sr_heartbeat = heartbeatStatus (dv_backend w),
        sr_time = t,
        sr_currentUtc = (if tst_trusted t then (case formatUtc (tst_currentUnixMs t) 32 of Some u \<Rightarrow> u | None \<Rightarrow> []) else []),
        sr_queueStats = operationalStats (gw_queue g), sr_queueSize = DurableQueue_size (gw_queue g),
        sr_queueCapacity = DurableQueue_capacity (gw_queue g),
        sr_filesystemUsed = filesystemUsedBytes (dp_queue P) (gw_queue g, gw_flash g),
        sr_filesystemTotal = filesystemTotalBytes (dp_queue P) (gw_queue g, gw_flash g),
        sr_oldestAgeMs = age, sr_uptimeUs = us, sr_command = store_current (gw_commands g) GatewayCommand_zero,
        sr_heartbeatUptimeUs = us2\<rparr>, w))"


section \<open>The document\<close>

definition lit :: "string \<Rightarrow> 'd json" where "lit s = Json_string (ascii s)"

text \<open>A value that is present under a condition and null otherwise.\<close>
definition opt :: "bool \<Rightarrow> 'd json \<Rightarrow> 'd json" where "opt b v = (if b then v else Json_null)"

definition nonzero :: "'a::len word \<Rightarrow> 'd json" where "nonzero v = opt (v \<noteq> 0) (num v)"

definition setNullable :: "u32 \<Rightarrow> u32 \<Rightarrow> 'd json" where "setNullable v sentinel = opt (v \<noteq> sentinel) (num v)"

definition signed_json :: "'a::len word \<Rightarrow> 'd json" where "signed_json v = Json_int (sint v)"

definition statusGatewayJson ::
  "status_env \<Rightarrow> 'n http_platform \<Rightarrow> 'n \<Rightarrow> Dashboard \<Rightarrow> ConfigStore \<Rightarrow> 'd StatusReads \<Rightarrow> 'd json" where
  "statusGatewayJson F H n d c r = Json_object
     [(''firmwareVersion'', Json_string firmware_kVersion), (''protocolVersion'', num kVersion), (''buildFlavor'', str (hp_buildFlavor H)),
      (''buildDate'', str (se_buildDate F)), (''gitCommit'', str (se_gitCommit F)),
      (''hardwareMac'', str (gi_hardwareMac (db_identity d))), (''gatewayId'', str (gc_gatewayId (cs_config c))),
      (''gatewayBootSessionId'', num (gi_bootSessionId (db_identity d))), (''uptimeMs'', num (sr_uptimeUs r div 1000)),
      (''resetReason'', str (db_resetReason d)), (''bootCount'', num (cs_bootCount c)), (''freeHeapBytes'', num (hp_freeHeap H n)),
      (''minFreeHeapBytes'', num (hp_minFreeHeap H n)), (''largestFreeHeapBlockBytes'', num (hp_largestFreeBlock H n)),
      (''flashBytes'', num (hp_flashChipSize H n)), (''firmwareBytes'', num (hp_sketchSize H n)),
      (''freeOtaSlotBytes'', num (hp_freeSketchSpace H n)), (''filesystemUsedBytes'', num (sr_filesystemUsed r)),
      (''filesystemTotalBytes'', num (sr_filesystemTotal r)), (''radioState'', str (rd_state (sr_radio r))),
      (''wifiState'', lit (if ws_connected (sr_wifi r) then ''CONNECTED'' else ''DISCONNECTED'')),
      (''backendState'', str (bs_state (sr_backend r))),
      (''timeState'', lit (if tst_trusted (sr_time r) then ''SYNCED'' else ''UNSYNCED'')),
      (''pairedNodeState'', lit (if sr_paired r then ''PAIRED'' else ''UNPAIRED''))]"

definition statusWifiJson :: "GatewayConfig \<Rightarrow> WifiStatus \<Rightarrow> 'd json" where
  "statusWifiJson config wifi = Json_object
     [(''configuredSsid'', str (gc_wifiSsid config)), (''configured'', Json_bool (ws_configured wifi)),
      (''connected'', Json_bool (ws_connected wifi)),
      (''localIp'', if ws_connected wifi then str (ws_localIp wifi) else lit ''unavailable''),
      (''rssiDbm'', opt (ws_connected wifi) (signed_json (ws_rssiDbm wifi))), (''reconnecting'', Json_bool (ws_reconnecting wifi)),
      (''fallbackApActive'', Json_bool (ws_fallbackApActive wifi)), (''fallbackApSsid'', str (ws_fallbackApSsid wifi)),
      (''fallbackApAddress'', lit (if ws_fallbackApActive wifi then ''192.168.4.1'' else ''unavailable''))]"

definition statusPairingJson :: "'d StatusReads \<Rightarrow> 'd json" where
  "statusPairingJson r = (let candidate = sr_candidate r; latest = sr_latest r; there = pc_available candidate in Json_object
     [(''state'', lit (if sr_paired r then ''PAIRED'' else ''UNPAIRED'')),
      (''pairedNodeId'', if hd (sr_pairedNodeId r) = 0 then lit ''unavailable'' else str (sr_pairedNodeId r)),
      (''pairingMode'', Json_bool (sr_pairingMode r)),
      (''candidateNodeId'', if there then str (pc_nodeId candidate) else lit ''unavailable''),
      (''candidatePersistentSessionId'', opt there (num (pc_persistentSessionId candidate))),
      (''candidateSequence'', opt there (num (pc_sequence candidate))),
      (''candidateRssiDbm'', opt there (Json_float (pc_rssiDbm candidate))), (''candidateSnrDb'', opt there (Json_float (pc_snrDb candidate))),
      (''lastNodeSeenUptimeMs'', opt (lt_available latest) (num (rm_gatewayUptimeMs (lt_reception latest)))),
      (''lastNodeSeenAt'', opt (lt_available latest \<and> rm_gatewayTimeTrusted (lt_reception latest))
         (timestampJson (rm_gatewayReceivedUnixMs (lt_reception latest))))])"

definition statusTelemetryJson :: "status_env \<Rightarrow> LatestTelemetry \<Rightarrow> 'd json" where
  "statusTelemetryJson F latest = (let p = lt_packet latest in
     if \<not> lt_available latest then Json_object [(''state'', lit ''unavailable'')]
     else Json_object
      [(''nodeId'', str (t_nodeId p)), (''persistentSessionId'', num (t_persistentSessionId p)), (''sequence'', num (t_sequence p)),
       (''medianEchoUs'', num (t_medianEchoUs p)), (''rawDistanceMm'', setNullable (t_rawDistanceMm p) kDistanceUnavailable),
       (''acceptedDistanceMm'', setNullable (t_acceptedDistanceMm p) kDistanceUnavailable), (''madMm'', num (t_madMm p)),
       (''temperatureC'', opt (t_temperatureCentiC p \<noteq> kTemperatureUnavailable)
          (Json_float (se_div F (se_of_int F (sint (t_temperatureCentiC p))) 0x42C80000))),
       (''humidityPercent'', opt (t_humidityCentiPercent p \<noteq> kHumidityUnavailable)
          (Json_float (se_div F (se_of_int F (uint (t_humidityCentiPercent p))) 0x42C80000))),
       (''batteryMv'', num (t_batteryMv p)),
       (''samples'', Json_string (dec_digits (unat (t_validSamples p)) @ ascii ''/'' @ dec_digits (unat (t_totalSamples p)))),
       (''filterState'', lit (filterStateName (t_filterState p))), (''filterStateCode'', num (FilterState_u8 (t_filterState p))),
       (''qualityFlags'', num (t_qualityFlags p)), (''healthFlags'', num (t_healthFlags p)),
       (''bootReason'', lit (bootReasonName (t_bootReason p))), (''rtcState'', lit (rtcStateName (t_rtcState p))),
       (''rtcUnixTime'', num (if t_rtcState p = RtcState_kValid then t_rtcUnixTime p else 0)),
       (''pollIntervalMinutes'', num (t_pollIntervalMinutes p)), (''scheduleState'', lit (scheduleStateName (t_scheduleState p))),
       (''scheduledMaintenanceUnix'', num (t_scheduledMaintenanceUnix p)), (''lastCommandId'', num (t_lastCommandId p)),
       (''lastCommandType'', lit (commandTypeName (t_lastCommandType p))),
       (''lastCommandResult'', lit (commandResultName (t_lastCommandResult p))),
       (''referenceDistanceMm'', nonzero (t_referenceDistanceMm p)),
       (''calibration'', lit (if t_referenceDistanceMm p = 0 then ''missing'' else ''configured''))])"

definition statusRadioConfigJson :: "RadioConfig \<Rightarrow> 'd json" where
  "statusRadioConfigJson c = Json_object
     [(''frequencyMhz'', Json_float (r_frequencyMhz c)), (''bandwidthKhz'', Json_float (r_bandwidthKhz c)),
      (''spreadingFactor'', num (r_spreadingFactor c)), (''codingRateDenominator'', num (r_codingRateDenominator c)),
      (''txPowerDbm'', signed_json (r_txPowerDbm c)), (''syncWord'', num (r_syncWord c))]"

definition statusRadioJson :: "'d RadioDiagnostics \<Rightarrow> 'd json" where
  "statusRadioJson radio = (let p = rd_processing radio in Json_object
     [(''state'', str (rd_state radio)), (''ready'', Json_bool (rd_ready radio)), (''lastCode'', signed_json (rd_lastCode radio)),
      (''configuration'', statusRadioConfigJson (rd_config radio)), (''receivedPackets'', num (rd_receivedPackets radio)),
      (''validProtocolV3Packets'', num (ps_validProtocolPackets p)), (''validTelemetryPackets'', num (ps_validTelemetryPackets p)),
      (''crcErrors'', num (rd_crcErrors radio)), (''decodeErrors'', num (ps_decodeErrors p)),
      (''unknownNodePackets'', num (ps_unknownNodePackets p)), (''duplicates'', num (ps_duplicates p)), (''ackSent'', num (ps_ackSent p)),
      (''ackFailures'', num (ps_ackFailures p)), (''commandResultsConfirmed'', num (ps_commandResultsConfirmed p)),
      (''commandResultsIgnored'', num (ps_commandResultsIgnored p)), (''lastRssiDbm'', Json_float (rd_lastRssiDbm radio)),
      (''lastSnrDb'', Json_float (rd_lastSnrDb radio)), (''lastFrequencyErrorHz'', signed_json (rd_lastFrequencyErrorHz radio)),
      (''lastPacketLength'', num (rd_lastPacketLength radio)), (''lastQueueWriteLatencyUs'', num (ps_lastQueueWriteUs p)),
      (''lastDurableEnqueueLatencyUs'', num (ps_lastRxToDurableEnqueueUs p)), (''lastRxToAckStartLatencyUs'', num (ps_lastRxToAckStartUs p)),
      (''lastRxToAckCompleteLatencyUs'', num (ps_lastRxToAckCompleteUs p)), (''lastAckTxDurationUs'', num (ps_lastAckTxDurationUs p))])"

definition statusQueueJson :: "status_env \<Rightarrow> 'd StatusReads \<Rightarrow> 'd json" where
  "statusQueueJson F r = (let q = sr_queueStats r; depth = sr_queueSize r; capacity = sr_queueCapacity r in Json_object
     [(''queuedRecords'', Json_int (int depth)), (''capacityRecords'', Json_int (int capacity)),
      (''utilizationPercent'', Json_float (if capacity = 0 then 0
         else se_div F (se_mul F 0x42C80000 (se_of_int F (int depth))) (se_of_int F (int capacity)))),
      (''recordsUploaded'', num (os_recordsUploaded q)), (''uploadRetries'', num (os_uploadRetries q)),
      (''recordsDeduplicated'', num (os_recordsDeduplicated q)), (''recordsPermanentlyRejected'', num (os_recordsPermanentlyRejected q)),
      (''recordsDroppedOldest'', num (os_recordsDroppedOldest q)), (''filesystemErrors'', num (os_filesystemErrors q)),
      (''oldestRecordAgeMs'', case sr_oldestAgeMs r of None \<Rightarrow> Json_null | Some age \<Rightarrow> opt (0 \<le> sint age) (signed_json age))])"

definition statusBackendJson :: "GatewayConfig \<Rightarrow> BackendStatus \<Rightarrow> 'd json" where
  "statusBackendJson config b = Json_object
     [(''state'', str (bs_state b)), (''baseUrl'', str (gc_backendBaseUrl config)),
      (''credentialConfigured'', Json_bool (bs_credentialConfigured b)),
      (''transport'', lit (if bs_tlsEndpoint b then ''HTTPS_VALIDATED'' else ''LOCAL_HTTP'')),
      (''batchSize'', num (gc_backendBatchSize config)), (''timeoutMs'', num (gc_backendHttpTimeoutMs config)),
      (''lastAttemptUptimeMs'', num (bs_lastAttemptUptimeMs b)), (''lastHttpStatus'', Json_int (bs_lastHttpStatus b)),
      (''lastSuccessUptimeMs'', nonzero (bs_lastSuccessUptimeMs b)),
      (''lastSuccessUnixMs'', opt (0 \<le> sint (bs_lastSuccessUnixMs b)) (signed_json (bs_lastSuccessUnixMs b))),
      (''lastError'', if hd (bs_lastError b) = 0 then lit ''none'' else str (bs_lastError b)),
      (''currentBackoffMs'', num (bs_currentBackoffMs b)),
      (''connectivityState'', lit (backendConnectivityStateName
         (classifyBackendConnectivity (bs_telemetryUploadSuccessCount b) (bs_consecutiveFailures b)))),
      (''consecutiveFailures'', num (bs_consecutiveFailures b)),
      (''telemetryUploadSuccessCount'', num (bs_telemetryUploadSuccessCount b)),
      (''telemetryUploadFailureCount'', num (bs_telemetryUploadFailureCount b))]"

text \<open>The members on the last synchronisation are assigned after the command's.\<close>
definition statusSyncJson :: "TimeStatus \<Rightarrow> (string \<times> 'd json) list" where
  "statusSyncJson t = (let synced = (0 \<le> sint (tst_lastSyncUnixMs t) \<and> formatUtc (tst_lastSyncUnixMs t) 32 \<noteq> None) in
     [(''lastSyncAt'', opt synced (timestampJson (tst_lastSyncUnixMs t))),
      (''lastSyncUnixMs'', opt synced (signed_json (tst_lastSyncUnixMs t)))])"

definition statusTimeJson :: "TimeStatus \<Rightarrow> byte list \<Rightarrow> 'd json" where
  "statusTimeJson t currentUtc = Json_object
     ([(''state'', lit (if tst_trusted t then ''SYNCED'' else ''UNSYNCED'')),
      (''currentUtc'', opt (currentUtc \<noteq> []) (Json_string currentUtc)),
      (''currentUtcUnixMs'', opt (currentUtc \<noteq> []) (signed_json (tst_currentUnixMs t)))] @ statusSyncJson t)"

definition knownPollMinutes :: "GatewayCommand \<Rightarrow> LatestTelemetry \<Rightarrow> u8" where
  "knownPollMinutes command latest =
     (if g_state command = CommandState_u8 CommandState_kConfirmed \<and> g_type command = CommandType_u8 CommandType_kSetPollIntervalMinutes \<and>
         g_effectivePollIntervalMinutes command \<noteq> 0 \<and>
         (g_result command = CommandResultCode_u8 CommandResultCode_kApplied \<or> g_result command = CommandResultCode_u8 CommandResultCode_kAlreadyApplied)
      then g_effectivePollIntervalMinutes command
      else if lt_available latest then t_pollIntervalMinutes (lt_packet latest) else 0)"

definition statusCommandJson :: "'d StatusReads \<Rightarrow> 'd json" where
  "statusCommandJson r = (let c = sr_command r in Json_object
     [(''commandId'', nonzero (g_commandId c)), (''type'', lit (storedTypeName (g_type c))), (''state'', lit (storedStateName (g_state c))),
      (''pollIntervalMinutes'', nonzero (g_pollIntervalMinutes c)), (''scheduledMaintenanceUnix'', nonzero (g_scheduledMaintenanceUnix c)),
      (''createdUnixMs'', opt (0 \<le> sint (g_createdUnixMs c)) (signed_json (g_createdUnixMs c))),
      (''lastSentUnixMs'', opt (0 \<le> sint (g_lastSentUnixMs c)) (signed_json (g_lastSentUnixMs c))), (''sendCount'', num (g_sendCount c)),
      (''result'', lit (storedResultName (g_result c))), (''effectivePollIntervalMinutes'', nonzero (g_effectivePollIntervalMinutes c)),
      (''effectiveMaintenanceUnix'', nonzero (g_effectiveMaintenanceUnix c)), (''gatewayTimeTrusted'', Json_bool (tst_trusted (sr_time r))),
      (''currentKnownPollIntervalMinutes'', num (knownPollMinutes c (sr_latest r)))])"

definition statusHeartbeatJson ::
  "'d double_ops \<Rightarrow> 'n http_platform \<Rightarrow> 'n \<Rightarrow> Dashboard \<Rightarrow> ConfigStore \<Rightarrow> 'd StatusReads \<Rightarrow> 'd json" where
  "statusHeartbeatJson D H n d c r =
     (let h = sr_heartbeat r; wifi = sr_wifi r; radio = sr_radio r; p = rd_processing radio; latency = ps_successfulAckLatency p;
          heard = (0 < rd_lastRxUptimeUs radio); acked = (0 < ps_lastRxToAckCompleteUs p); measured = (0 < rs_count (al_rxToStart latency)) in Json_object
     [(''intervalSeconds'', num (gc_heartbeatIntervalSeconds (cs_config c))), (''inProgress'', Json_bool (hst_inProgress h)),
      (''lastAttemptUptimeSeconds'', opt (0 < hst_lastAttemptUptimeMs h) (num (hst_lastAttemptUptimeMs h div 1000))),
      (''lastAttemptAt'', timestampJson (hst_lastAttemptUnixMs h)),
      (''lastSuccessUptimeSeconds'', opt (0 < hst_lastSuccessUptimeMs h) (num (hst_lastSuccessUptimeMs h div 1000))),
      (''lastSuccessAt'', timestampJson (hst_lastSuccessUnixMs h)), (''lastHttpStatus'', Json_int (hst_lastHttpStatus h)),
      (''lastError'', if hd (hst_lastError h) = 0 then lit ''none'' else str (hst_lastError h)),
      (''successCountSinceBoot'', num (hst_successCount h)), (''failureCountSinceBoot'', num (hst_failureCount h)),
      (''uptimeSeconds'', num (sr_heartbeatUptimeUs r div 1000000)), (''resetReason'', str (db_resetReason d)),
      (''bootCount'', num (cs_bootCount c)), (''freeHeapBytes'', num (hp_freeHeap H n)), (''minFreeHeapBytes'', num (hp_minFreeHeap H n)),
      (''largestFreeHeapBlockBytes'', num (hp_largestFreeBlock H n)), (''ssid'', str (ws_ssid wifi)),
      (''wifiRssiDbm'', opt (ws_connected wifi) (signed_json (ws_rssiDbm wifi))), (''localIp'', opt (ws_connected wifi) (str (ws_localIp wifi))),
      (''timeState'', lit (if tst_trusted (sr_time r) then ''SYNCED'' else ''UNSYNCED'')),
      (''currentUtc'', opt (tst_trusted (sr_time r) \<and> sr_currentUtc r \<noteq> []) (Json_string (sr_currentUtc r))),
      (''latestLoRaRssiDbm'', opt heard (Json_float (rd_lastRssiDbm radio))), (''latestLoRaSnrDb'', opt heard (Json_float (rd_lastSnrDb radio))),
      (''latestFrequencyErrorHz'', opt heard (signed_json (rd_lastFrequencyErrorHz radio))),
      (''latestRxToAckStartMs'', millisecondsJson D acked (ps_lastRxToAckStartUs p)),
      (''latestRxToAckCompleteMs'', millisecondsJson D acked (ps_lastRxToAckCompleteUs p)),
      (''latestAckTxDurationMs'', millisecondsJson D acked (ps_lastAckTxDurationUs p)),
      (''avgRxToAckStartMs'', opt measured (Json_double (to_ms D (rs_average (al_rxToStart latency))))),
      (''avgRxToAckCompleteMs'', opt measured (Json_double (to_ms D (rs_average (al_rxToComplete latency))))),
      (''avgAckTxDurationMs'', opt measured (Json_double (to_ms D (rs_average (al_txDuration latency))))),
      (''queueDepth'', Json_int (int (sr_queueSize r))), (''queueCapacity'', Json_int (int (sr_queueCapacity r)))])"

definition statusOtaJson :: "'o ota_platform \<Rightarrow> OtaManager \<Rightarrow> 'o \<Rightarrow> 'd json" where
  "statusOtaJson P m h = Json_object
     [(''uploadInProgress'', Json_bool (om_uploadInProgress m)), (''runningPartition'', str (om_runningPartition m)),
      (''imageState'', lit (om_imageStateName m)), (''pendingVerification'', Json_bool (om_pendingVerification m)),
      (''partitionLayoutSane'', Json_bool (partitionLayoutSane P h)), (''lastStatus'', lit (om_lastStatus m))]"

definition statusJson ::
  "status_env \<Rightarrow> ('d, 'q, 'c, 'r, 'x, 'n, 'j, 'p, 'o) web_platform \<Rightarrow> ('d, 'q, 'c, 'r, 'x, 'n, 'p, 'o) System \<Rightarrow> 'd StatusReads \<Rightarrow> 'd json" where
  "statusJson F W s r =
     (let P = wb_device W; H = dp_http P; n = dv_net (sy_device s); c = sy_config s; d = sy_dashboard s in Json_object
     [(''gateway'', statusGatewayJson F H n d c r), (''wifi'', statusWifiJson (cs_config c) (sr_wifi r)), (''pairing'', statusPairingJson r),
      (''latestTelemetry'', statusTelemetryJson F (sr_latest r)), (''radio'', statusRadioJson (sr_radio r)), (''queue'', statusQueueJson F r),
      (''backend'', statusBackendJson (cs_config c) (sr_backend r)), (''time'', statusTimeJson (sr_time r) (sr_currentUtc r)),
      (''command'', statusCommandJson r), (''heartbeat'', statusHeartbeatJson (dp_double P) H n d c r),
      (''ota'', statusOtaJson (wb_ota W) (sy_ota s) (sy_chip s))])"

definition handleStatus ::
  "status_env \<Rightarrow> ('d, 'q, 'c, 'r, 'x, 'n, 'j, 'p, 'o) web_platform \<Rightarrow> ('d, 'q, 'c, 'r, 'x, 'n, 'p, 'o) System \<Rightarrow>
     response \<times> ('d, 'q, 'c, 'r, 'x, 'n, 'p, 'o) System" where
  "handleStatus F W s =
     (case readStatus (wb_device W) (gi_bootSessionId (db_identity (sy_dashboard s))) (sy_device s) of (r, w) \<Rightarrow>
      let s = s\<lparr>sy_device := w\<rparr> in (Json_body (aj_serialize (dp_json (wb_device W)) (statusJson F W s r)), s))"

text \<open>The GET routes; the logger and the outcome of its calls are the arguments of \<open>handleLogs\<close>.\<close>
definition handleGet ::
  "status_env \<Rightarrow> ('d, 'q, 'c, 'r, 'x, 'n, 'j, 'p, 'o) web_platform \<Rightarrow> Logger \<Rightarrow> bool \<Rightarrow> bool \<Rightarrow> string \<Rightarrow>
     ('d, 'q, 'c, 'r, 'x, 'n, 'p, 'o) System \<Rightarrow> response \<times> ('d, 'q, 'c, 'r, 'x, 'n, 'p, 'o) System" where
  "handleGet F W gLogger allocated taken path s =
     (if path = ''/'' then (Html, s)
      else if path = ''/api/status'' then handleStatus F W s
      else if path = ''/api/logs'' then handleLogs W gLogger allocated taken s
      else (sendText 404 ''not found'', s))"


section \<open>Secrets\<close>

text \<open>Other values for everything secret: the Wi-Fi password and the backend token of the configuration, and their copies
  in the Wi-Fi manager and the backend worker, which also keeps whether it has a token.\<close>
definition device_secrets :: "byte list \<Rightarrow> byte list \<Rightarrow> ('d, 'q, 'c, 'r, 'x, 'n) Device \<Rightarrow> ('d, 'q, 'c, 'r, 'x, 'n) Device" where
  "device_secrets pw tok w = w\<lparr>dv_wifi := (dv_wifi w)\<lparr>wm_password := pw\<rparr>,
     dv_backend := (dv_backend w)\<lparr>bw_config := (bw_config (dv_backend w))\<lparr>rc_token := tok\<rparr>\<rparr>\<rparr>"

definition shown_credential :: "bool \<Rightarrow> ('d, 'q, 'c, 'r, 'x, 'n) Device \<Rightarrow> ('d, 'q, 'c, 'r, 'x, 'n) Device" where
  "shown_credential c w = w\<lparr>dv_backend := (dv_backend w)\<lparr>bw_status := (bw_status (dv_backend w))\<lparr>bs_credentialConfigured := c\<rparr>\<rparr>\<rparr>"

definition with_secrets ::
  "byte list \<Rightarrow> byte list \<Rightarrow> byte list \<Rightarrow> byte list \<Rightarrow> ('d, 'q, 'c, 'r, 'x, 'n, 'p, 'o) System \<Rightarrow> ('d, 'q, 'c, 'r, 'x, 'n, 'p, 'o) System" where
  "with_secrets cpw ctok pw tok s = s\<lparr>sy_config := (sy_config s)\<lparr>cs_config := (cs_config (sy_config s))\<lparr>gc_wifiPassword := cpw, gc_backendBearerToken := ctok\<rparr>\<rparr>,
     sy_device := device_secrets pw tok (shown_credential (hd tok \<noteq> 0) (sy_device s))\<rparr>"

lemma device_secrets_parts [simp]:
  "dv_gateway (device_secrets pw tok w) = dv_gateway w" "dv_driver (device_secrets pw tok w) = dv_driver w"
  "dv_net (device_secrets pw tok w) = dv_net w" "device_queue (device_secrets pw tok w) = device_queue w"
  "dv_wifi (device_secrets pw tok w) = (dv_wifi w)\<lparr>wm_password := pw\<rparr>"
  "backend_status (dv_backend (device_secrets pw tok w)) = backend_status (dv_backend w)"
  "heartbeatStatus (dv_backend (device_secrets pw tok w)) = heartbeatStatus (dv_backend w)"
  by (simp_all add: device_secrets_def device_queue_def backend_status_def heartbeatStatus_def)

lemma device_secrets_commute:
  "(device_secrets pw tok w)\<lparr>dv_driver := x\<rparr> = device_secrets pw tok (w\<lparr>dv_driver := x\<rparr>)"
  "(device_secrets pw tok w)\<lparr>dv_gateway := g\<rparr> = device_secrets pw tok (w\<lparr>dv_gateway := g\<rparr>)"
  "putQueue q h (device_secrets pw tok w) = device_secrets pw tok (putQueue q h w)"
  by (simp_all add: device_secrets_def putQueue_def)

lemma wifi_status_password: "wifi_status W (m\<lparr>wm_password := pw\<rparr>, x) = wifi_status W (m, x)"
  by (simp add: wifi_status_def)

lemma reads_secrets:
  "device_uptimeUs P (device_secrets pw tok w) = apsnd (device_secrets pw tok) (device_uptimeUs P w)"
  "device_now P (device_secrets pw tok w) = apsnd (device_secrets pw tok) (device_now P w)"
  "device_timeStatus P (device_secrets pw tok w) = apsnd (device_secrets pw tok) (device_timeStatus P w)"
  by (auto simp: device_uptimeUs_def device_now_def device_timeStatus_def device_secrets_commute Let_def split: prod.splits)

lemma oldestAge_secrets: "oldestAge P i (device_secrets pw tok w) = apsnd (device_secrets pw tok) (oldestAge P i w)"
  by (auto simp: oldestAge_def reads_secrets device_secrets_commute Let_def split: prod.splits)

lemma readStatus_secrets: "readStatus P i (device_secrets pw tok w) = apsnd (device_secrets pw tok) (readStatus P i w)"
  by (auto simp: readStatus_def wifi_status_password reads_secrets oldestAge_secrets device_secrets_commute Let_def split: prod.splits)

lemma status_document_secrets:
  "fst (handleStatus F W (s\<lparr>sy_config := (sy_config s)\<lparr>cs_config := (cs_config (sy_config s))\<lparr>gc_wifiPassword := cpw, gc_backendBearerToken := ctok\<rparr>\<rparr>,
     sy_device := device_secrets pw tok w\<rparr>)) = fst (handleStatus F W (s\<lparr>sy_device := w\<rparr>))"
  by (simp add: handleStatus_def readStatus_secrets statusJson_def statusGatewayJson_def statusWifiJson_def
      statusBackendJson_def statusHeartbeatJson_def Let_def split: prod.splits)

lemma handleStatus_secrets:
  "(hd tok = 0) = (hd tok' = 0) \<Longrightarrow>
     fst (handleStatus F W (with_secrets cpw ctok pw tok s)) = fst (handleStatus F W (with_secrets cpw' ctok' pw' tok' s))"
  unfolding with_secrets_def status_document_secrets by simp

text \<open>C40: No page gives a secret away. Take a system with any Wi-Fi password and backend token, in the configuration and in
  the components that hold a copy, and the same system with other ones, the backend worker having a token in both or in
  none: the response to a GET request is the same, so the status document shows of the secrets only whether there is a
  token. The log page shows the entries of the logger, taken to be the same in both; what components write to the log is
  not part of this claim. No GET request changes the configuration or what is stored of it.\<close>
theorem pages_hide_secrets:
  assumes "(hd tok = 0) = (hd tok' = 0)"
  shows "fst (handleGet F W gLogger allocated taken path (with_secrets cpw ctok pw tok s)) =
       fst (handleGet F W gLogger allocated taken path (with_secrets cpw' ctok' pw' tok' s)) \<and>
     sy_config (snd (handleGet F W gLogger allocated taken path s)) = sy_config s \<and>
     sy_prefs (snd (handleGet F W gLogger allocated taken path s)) = sy_prefs s"
proof -
  have "fst (handleLogs W gLogger allocated taken u) = fst (handleLogs W gLogger allocated taken v)" for u v
    by (simp add: handleLogs_def Let_def)
  moreover have "sy_config (snd (handleLogs W gLogger allocated taken s)) = sy_config s" "sy_prefs (snd (handleLogs W gLogger allocated taken s)) = sy_prefs s"
    by (simp_all add: handleLogs_def web_log_def Let_def)
  moreover have "sy_config (snd (handleStatus F W s)) = sy_config s" "sy_prefs (snd (handleStatus F W s)) = sy_prefs s"
    by (simp_all add: handleStatus_def Let_def split: prod.splits)
  ultimately show ?thesis using handleStatus_secrets[OF assms, of F W] by (simp add: handleGet_def)
qed

definition example_env :: status_env where
  "example_env = \<lparr>se_buildDate = ascii ''2026-01-01'', se_gitCommit = ascii ''0'', se_of_int = word_of_int, se_mul = (*), se_div = (div)\<rparr>"

definition secretive :: "string \<Rightarrow> string \<Rightarrow> (unit, mem_hw, nvs_map, mem_air, mem_wifi, byte list list, nvs_map, mem_ota) System" where
  "secretive password token = with_secrets (char_array kWifiPasswordCapacity (ascii password)) (char_array kBearerTokenCapacity (ascii token))
     (char_array kWifiPasswordCapacity (ascii password)) (char_array kBearerTokenCapacity (ascii token)) served_system"

theorem pages_hide_secrets_witness:
  "fst (handleGet example_env mem_web Logger_init True True ''/api/status'' (secretive ''correct horse'' ''t0ken'')) =
   fst (handleGet example_env mem_web Logger_init True True ''/api/status'' (secretive ''battery staple'' ''secret''))"
proof -
  have "(hd (char_array kBearerTokenCapacity (ascii ''t0ken'')) = 0) = (hd (char_array kBearerTokenCapacity (ascii ''secret'')) = 0)"
    by code_simp
  from pages_hide_secrets[OF this] show ?thesis unfolding secretive_def by (rule conjunct1)
qed

end
