(* ===== verification/System_Run.thy ===== *)
theory System_Run
  imports Gateway_App Dashboard_Status
begin

text \<open>
  The gateway as a whole. A step of the running system is one round of one of its tasks (radio, backend worker, Wi-Fi,
  time, the loop with its web requests), in any order. In every run each indexed record keeps its valid file, a number names
  one record for good, and the configuration in memory stays equal to the stored one.
\<close>

section \<open>The worker's rounds and the queue\<close>

context upload_path
begin

lemma after_ok: "queue_after content (device_queue w) (device_queue w') \<Longrightarrow> dq_ok w'"
  using queue_after_ok[of content "device_queue w" "fst (device_queue w')" "snd (device_queue w')"] by (simp add: dq_ok_def)

lemma sleep_after: "dq_ok w \<Longrightarrow> queue_after content (device_queue w) (device_queue (backend_sleep P ms w))"
  using others[of "w\<lparr>dv_net := hp_sleep (dp_http P) ms (dv_net w)\<rparr>"] by (simp add: backend_sleep_def dq_ok_def queue_frame)

lemma peek_after:
  assumes "DurableQueue_peek (dp_queue P) n (device_queue w) = (x, q, h)" "dq_ok w"
  shows "queue_after content (device_queue w) (q, h)"
proof (cases "usable (fst (device_queue w))")
  case None
  then have "(q, h) = device_queue w" using assms(1) by (cases "device_queue w") (simp add: DurableQueue_peek_def)
  then show ?thesis using same_after[OF assms(2) refl] by simp
next
  case (Some core)
  obtain okay records where x: "x = (okay, records)" by fastforce
  have inv: "core_inv core (record_files content (snd (device_queue w)))" using assms(2) Some by (simp add: dq_ok_def queue_ok_def)
  obtain core' where c: "usable q = Some core'" "core_inv core' (record_files content h)" "qc_nextRecordId core' = qc_nextRecordId core"
      "queue_view core' (record_files content h) = queue_view core (record_files content (snd (device_queue w)))"
    using peek_outcome[OF Some inv, of n okay records q h] assms(1) x by auto
  then show ?thesis using queue_afterI[OF Some c(1,2), of "snd (device_queue w)"] by (simp add: numbered_after_refl)
qed

lemma snapshotQueue_after:
  assumes "snapshotQueue P config b t w = (v, w')" "dq_ok w"
  shows "queue_after content (device_queue w) (device_queue w')"
proof -
  obtain okay oldest q h where p: "DurableQueue_peek (dp_queue P) 1 (device_queue w) = ((okay, oldest), q, h)" by (metis surj_pair)
  have "device_queue w' = device_queue w \<or> device_queue w' = (q, h)"
    using assms(1) p by (auto simp: snapshotQueue_def recordAgeMs_def Let_def dest: clock_frame split: if_splits prod.splits)
  then show ?thesis using same_after[OF assms(2)] peek_after[OF p assms(2)] by auto
qed

lemma capture_after:
  assumes "captureHeartbeatSnapshot P config w = (x, w')" "dq_ok w"
  shows "queue_after content (device_queue w) (device_queue w')"
proof (cases "bw_bound (dv_backend w)")
  case True
  obtain up w1 where 1: "uptimeMs P w = (up, w1)" by fastforce
  obtain wifi d where 2: "wifi_status (dp_wifi P) (dv_wifi w1, dv_driver w1) = (wifi, d)" by fastforce
  obtain t w2 where 3: "device_timeStatus P (w1\<lparr>dv_driver := d\<rparr>) = (t, w2)" by fastforce
  have same: "device_queue w2 = device_queue w"
    using clock_frame(2)[OF 1] 3 by (auto simp: device_timeStatus_def device_queue_def Let_def split: if_splits prod.splits)
  obtain v w3 where 4: "snapshotQueue P config (backend_status (dv_backend w1)) t w2 = (v, w3)" by fastforce
  have "w' = w3" using assms(1) True 1 2 3 4 by (simp add: captureHeartbeatSnapshot_def Let_def)
  moreover have "dq_ok w2" using assms(2) same by (simp add: dq_ok_def)
  ultimately show ?thesis using snapshotQueue_after[OF 4] same by simp
next
  case False
  then have "w' = w" using assms(1) by (simp add: captureHeartbeatSnapshot_def)
  then show ?thesis using same_after[OF assms(2) refl] by simp
qed

lemma heartbeatRequest_after:
  assumes "heartbeatRequest P w = (x, w')" "dq_ok w"
  shows "queue_after content (device_queue w) (device_queue w')"
proof -
  define config where "config = configSnapshot (dv_backend w)"
  obtain a w1 where 1: "networkAvailable P config w = (a, w1)" by fastforce
  obtain snapshot w2 where 2: "captureHeartbeatSnapshot P config w1 = (snapshot, w2)" by fastforce
  have q1: "device_queue w1 = device_queue w" using networkAvailable_frame[OF 1] by simp
  then have ok1: "dq_ok w1" using assms(2) by (simp add: dq_ok_def)
  note c = capture_after[OF 2 ok1]
  consider "w' = w" | "w' = w1" | "w' = w2"
    | payload y where "performRequest P (config\<lparr>rc_timeoutMs := (if 5000 < rc_timeoutMs config then 5000 else rc_timeoutMs config)\<rparr>)
        (Method_POST payload) (ascii kHeartbeatEndpoint) (replicate 128 0) False w2 = (y, w')"
    using assms(1) 1 2 unfolding heartbeatRequest_def Let_def config_def[symmetric]
    by (auto split: if_splits prod.splits option.splits bool.splits)
  then show ?thesis
  proof cases
    case 4
    show ?thesis using queue_after_trans[OF c request_after[OF 4 after_ok[OF c]]] q1 by simp
  qed (use same_after[OF assms(2)] q1 c in auto)
qed

lemma attemptHeartbeat_after:
  assumes "dq_ok w"
  shows "queue_after content (device_queue w) (device_queue (attemptHeartbeat P w))"
proof -
  obtain up w1 where 1: "uptimeMs P w = (up, w1)" by fastforce
  obtain t w2 where 2: "device_now P w1 = (t, w2)" by fastforce
  obtain us w3 where 3: "device_uptimeUs P w2 = (us, w3)" by fastforce
  define w4 where "w4 = on_heartbeat (\<lambda>s. s\<lparr>hst_inProgress := True, hst_lastAttemptUptimeMs := up,
       hst_lastAttemptUnixMs := (if ts_trusted t then ts_unixMs t else -1)\<rparr>)
     (on_worker (\<lambda>b. b\<lparr>bw_heartbeatScheduler := markAttempt us (bw_heartbeatScheduler b)\<rparr>) w3)"
  obtain st deferred err w5 where 5: "heartbeatRequest P w4 = ((st, deferred, err), w5)" by (metis surj_pair)
  obtain t' w6 where 6: "device_now P w5 = (t', w6)" by fastforce
  have q: "device_queue w1 = device_queue w" "device_queue w2 = device_queue w" "device_queue w4 = device_queue w" "device_queue w6 = device_queue w5"
    using clock_frame(2)[OF 1] clock_frame(3)[OF 2] clock_frame(1)[OF 3] clock_frame(3)[OF 6] by (simp_all add: w4_def queue_frame)
  have "dq_ok w4" using assms q(3) by (simp add: dq_ok_def)
  from heartbeatRequest_after[OF 5 this] have after: "queue_after content (device_queue w) (device_queue w6)" using q by simp
  have delivered: "device_queue (case uptimeMs P v of (up', v) \<Rightarrow> backend_log P l (on_heartbeat (f up') v)) = device_queue v" for v l f
    by (auto simp: queue_frame dest!: clock_frame split: prod.split)
  have "device_queue (attemptHeartbeat P w) = device_queue w \<or> device_queue (attemptHeartbeat P w) = device_queue w6"
    unfolding attemptHeartbeat_def 1 2 3 Let_def prod.case w4_def[symmetric] 5 6 by (simp add: q(1,2) delivered queue_frame)
  then show ?thesis using after same_after[OF assms] by auto
qed

lemma uploadOnce_after:
  assumes "uploadOnce P w = (x, w')" "dq_ok w"
  shows "queue_after content (device_queue w) (device_queue w')"
proof (cases "usable (fst (device_queue w))")
  case None
  let ?n = "unat (rc_batchSize (configSnapshot (dv_backend w)))" and ?w = "putQueue (fst (device_queue w)) (snd (device_queue w)) w"
  have "DurableQueue_peek (dp_queue P) ?n (device_queue w) = ((False, []), fst (device_queue w), snd (device_queue w))"
    using None by (cases "device_queue w") (simp add: DurableQueue_peek_def)
  then have "device_queue w' = (recordFilesystemError (fst (device_queue w)), snd (device_queue w))"
    using assms(1) setFailure_queue[of P 0 "Some (ascii ''queue batch read failed'')" True False ?w]
    by (auto simp: uploadOnce_def uploadRequest_def Let_def putQueue_def device_queue_def)
  then show ?thesis
    using queue_after_same[of content "fst (device_queue w)" "snd (device_queue w)"] assms(2) recordFilesystemError_usable by (simp add: dq_ok_def)
next
  case (Some core)
  obtain c d where x: "x = (c, d)" by fastforce
  show ?thesis using uploadOnce_outcome[OF assms(1)[unfolded x] Some assms(2)] by (elim exE conjE) (rule queue_after_trans)
qed

lemma pause_after: "dq_ok w \<Longrightarrow> queue_after content (device_queue w) (device_queue (backoffPause P w))"
proof -
  assume ok: "dq_ok w"
  then have "dq_ok (w\<lparr>dv_net := n\<rparr>)" for n by (simp add: dq_ok_def queue_frame)
  then show ?thesis using sleep_after[of "w\<lparr>dv_net := _\<rparr>"] sleep_after[OF ok]
    by (auto simp: backoffPause_def Let_def queue_frame split: prod.splits)
qed

lemma idleRound_after:
  assumes "dq_ok w"
  shows "queue_after content (device_queue w) (device_queue (idleRound P w))"
proof -
  define w1 where "w1 = (if bw_mutex (dv_backend w) then on_status (stateText ''IDLE'') w else w)"
  obtain due w2 where 2: "(if bw_mutex (dv_backend w1)
            then (case device_uptimeUs P w1 of (now, w) \<Rightarrow> (scheduler_due now (bw_heartbeatScheduler (dv_backend w)), w))
            else (False, w1)) = (due, w2)" by fastforce
  have q: "device_queue w2 = device_queue w" using 2
    by (auto simp: w1_def queue_frame dest!: clock_frame split: if_splits prod.splits)
  then have ok: "dq_ok w2" using assms by (simp add: dq_ok_def)
  have "idleRound P w = attemptHeartbeat P w2 \<or> idleRound P w = backend_sleep P 1000 w2"
    using 2 unfolding idleRound_def Let_def w1_def[symmetric] by simp
  then show ?thesis using attemptHeartbeat_after[OF ok] sleep_after[OF ok] q by auto
qed

lemma worker_round_after:
  assumes "dq_ok w"
  shows "queue_after content (device_queue w) (device_queue (worker_round P w))"
proof -
  define config where "config = configSnapshot (dv_backend w)"
  obtain a w1 where 1: "networkAvailable P config w = (a, w1)" by fastforce
  obtain waiting w2 where 2: "(if isTls config then (case device_now P w1 of (now, w) \<Rightarrow> (\<not> ts_trusted now, w)) else (False, w1)) = (waiting, w2)"
    by fastforce
  obtain c d w3 where 3: "uploadOnce P w2 = ((c, d), w3)" by (metis surj_pair)
  have q: "device_queue w1 = device_queue w" "device_queue w2 = device_queue w"
    using networkAvailable_frame[OF 1] 2 by (auto dest!: clock_frame split: if_splits prod.splits)
  have ok: "dq_ok v" if "device_queue v = device_queue w" for v using assms that by (simp add: dq_ok_def)
  note u = uploadOnce_after[OF 3 ok[OF q(2)]]
  have fail: "queue_after content (device_queue w) (device_queue (backend_sleep P 5000 (setFailure P st m b e v)))"
    if "device_queue v = device_queue w" for st m b e v
    using sleep_after[OF ok[of "setFailure P st m b e v"]] that by (simp add: queue_frame)
  have settled: "queue_after content (device_queue w) (device_queue (backend_sleep P 50 w3))" "queue_after content (device_queue w) (device_queue (backoffPause P w3))"
    using queue_after_trans[OF u sleep_after[OF after_ok[OF u]]] queue_after_trans[OF u pause_after[OF after_ok[OF u]]] q by simp_all
  have "worker_round P w = (if \<not> bw_bound (dv_backend w) \<or> queueEmpty w then idleRound P w
      else if \<not> a then backend_sleep P 5000 (setFailure P 0 (Some (ascii ''Wi-Fi unavailable; queue retained'')) False False w1)
      else if hd (rc_token config) = 0
      then backend_sleep P 5000 (setFailure P 0 (Some (ascii ''backend credential is not configured; queue retained'')) False False w1)
      else if waiting then backend_sleep P 5000 (setFailure P 0 (Some (ascii ''HTTPS waiting for trusted NTP time; queue retained'')) False False w2)
      else if c \<and> d then backend_sleep P 50 w3 else backoffPause P w3)"
    unfolding worker_round_def Let_def config_def[symmetric] 1 prod.case 2 3 by (rule refl)
  then show ?thesis using fail[OF q(1)] fail[OF q(2)] settled idleRound_after[OF assms] by (simp split: if_split)
qed

end



section \<open>Requests and the queue\<close>

definition queue_of :: "('d, 'q, 'c, 'r, 'x, 'n, 'p, 'o) System \<Rightarrow> DurableQueue \<times> 'q" where
  "queue_of s = device_queue (sy_device s)"

named_theorems web_queue "operations of the dashboard that do not touch the queue or its flash"

lemma pairing_calls_queue:
  "startPairing g = (b, g') \<Longrightarrow> gw_queue g' = gw_queue g \<and> gw_flash g' = gw_flash g"
  "confirmPairing n g = (x, g') \<Longrightarrow> gw_queue g' = gw_queue g \<and> gw_flash g' = gw_flash g"
  "cancelPairing g = (b, g') \<Longrightarrow> gw_queue g' = gw_queue g \<and> gw_flash g' = gw_flash g"
  "radio_pairManual n g = (b, g') \<Longrightarrow> gw_queue g' = gw_queue g \<and> gw_flash g' = gw_flash g"
  "gw_queue (radio_unpair g) = gw_queue g \<and> gw_flash (radio_unpair g) = gw_flash g"
  by (auto simp: startPairing_def confirmPairing_def cancelPairing_def radio_pairManual_def radio_unpair_def putPairing_def Let_def
      split: prod.splits option.splits if_splits bool.splits)

lemma queue_of_simps [web_queue]:
  "queue_of (web_log W l s) = queue_of s" "queue_of (on_dashboard f s) = queue_of s" "queue_of (uploadInProgress b s) = queue_of s"
  "queue_of (s\<lparr>sy_chip := h\<rparr>) = queue_of s" "queue_of (s\<lparr>sy_config := c\<rparr>) = queue_of s" "queue_of (s\<lparr>sy_prefs := p\<rparr>) = queue_of s"
  "queue_of (s\<lparr>sy_ota := m\<rparr>) = queue_of s" "queue_of (s\<lparr>sy_dashboard := d\<rparr>) = queue_of s"
  "queue_of (s\<lparr>sy_device := w\<rparr>) = device_queue w" "queue_of (app_log A k s) = queue_of s"
  by (simp_all add: queue_of_def web_log_def on_dashboard_def uploadInProgress_def app_log_def)

lemma on_gateway_queue: "gw_queue (f (gateway_of s)) = gw_queue (gateway_of s) \<Longrightarrow> gw_flash (f (gateway_of s)) = gw_flash (gateway_of s) \<Longrightarrow> queue_of (on_gateway f s) = queue_of s"
  by (simp add: queue_of_def on_gateway_def device_queue_def gateway_of_def)

lemma saveConfig_queue [web_queue]: "saveConfig W c s = (b, s') \<Longrightarrow> queue_of s' = queue_of s \<and> gateway_of s' = gateway_of s"
  by (auto simp: saveConfig_def queue_of_def gateway_of_def split: prod.splits)

lemma acceptConfig_queue [web_queue]: "acceptConfig W m c s = (r, s') \<Longrightarrow> queue_of s' = queue_of s \<and> gateway_of s' = gateway_of s"
  by (auto simp: acceptConfig_def dest!: saveConfig_queue split: prod.splits bool.splits if_splits)

lemma backend_calls_queue [web_queue]:
  "device_queue (backend_applyConfig P c i w) = device_queue w" "device_queue (flushNow P w) = device_queue w"
  "queue_of (applyToBackend W c i s) = queue_of s"
proof -
  have n: "device_queue (notifyTask P w) = device_queue w" for P w by (simp add: notifyTask_def queue_frame)
  show a: "device_queue (backend_applyConfig P c i w) = device_queue w" for P w
    by (auto simp: backend_applyConfig_def Let_def n queue_frame dest!: clock_frame split: prod.splits)
  show "device_queue (flushNow P w) = device_queue w" by (simp add: flushNow_def n)
  show "queue_of (applyToBackend W c i s) = queue_of s" by (simp add: applyToBackend_def web_queue a) (simp add: queue_of_def)
qed

lemma applyRadio_queue [web_queue]: "applyRadio W c s = (b, s') \<Longrightarrow> queue_of s' = queue_of s"
  by (auto simp: applyRadio_def split: prod.splits intro: on_gateway_queue)

lemma web_now_queue [web_queue]: "web_now W s = (t, s') \<Longrightarrow> queue_of s' = queue_of s"
  by (auto simp: web_now_def queue_of_def dest!: clock_frame split: prod.splits)

lemma queueCommand_queue [web_queue]: "queueCommand W ty m t now l x s = (r, s') \<Longrightarrow> queue_of s' = queue_of s"
  by (auto simp: queueCommand_def Let_def web_queue intro!: on_gateway_queue split: prod.splits if_splits)

lemma config_handlers_queue [web_queue]:
  "handleWifi W req s = (r, s') \<Longrightarrow> queue_of s' = queue_of s" "handleGateway W req s = (r, s') \<Longrightarrow> queue_of s' = queue_of s"
  "handleBackend W req s = (r, s') \<Longrightarrow> queue_of s' = queue_of s" "handleHeartbeat W req s = (r, s') \<Longrightarrow> queue_of s' = queue_of s"
proof -
  have wifi: "device_queue (w\<lparr>dv_wifi := m\<rparr>) = device_queue w" for w m by (simp add: device_queue_def)
  have dev: "device_queue (sy_device s) = queue_of s" for s by (simp add: queue_of_def)
  show "handleWifi W req s = (r, s') \<Longrightarrow> queue_of s' = queue_of s"
    by (auto simp: handleWifi_def Let_def web_queue wifi dev dest!: acceptConfig_queue split: prod.splits option.splits)
  show "handleGateway W req s = (r, s') \<Longrightarrow> queue_of s' = queue_of s"
    by (auto simp: handleGateway_def Let_def web_queue dest!: acceptConfig_queue split: prod.splits option.splits)
  show "handleBackend W req s = (r, s') \<Longrightarrow> queue_of s' = queue_of s"
    by (auto simp: handleBackend_def Let_def web_queue dev dest!: acceptConfig_queue split: prod.splits option.splits sum.splits)
  show "handleHeartbeat W req s = (r, s') \<Longrightarrow> queue_of s' = queue_of s"
    by (auto simp: handleHeartbeat_def Let_def web_queue dest!: acceptConfig_queue split: prod.splits option.splits)
qed

lemma handleRadio_queue [web_queue]: "handleRadio W req s = (r, s') \<Longrightarrow> queue_of s' = queue_of s"
proof -
  have snd: "queue_of (snd (applyRadio W c s)) = queue_of s" for c s by (metis applyRadio_queue prod.collapse)
  show "handleRadio W req s = (r, s') \<Longrightarrow> queue_of s' = queue_of s"
    by (auto simp: handleRadio_def Let_def snd dest!: saveConfig_queue applyRadio_queue split: prod.splits sum.splits bool.splits if_splits)
qed

lemma pairing_handlers_queue [web_queue]:
  "handlePairStart s = (r, s') \<Longrightarrow> queue_of s' = queue_of s" "handlePairCancel s = (r, s') \<Longrightarrow> queue_of s' = queue_of s"
  "handlePairConfirm W s = (r, s') \<Longrightarrow> queue_of s' = queue_of s" "handlePairManual W req s = (r, s') \<Longrightarrow> queue_of s' = queue_of s"
  "handleUnpair W req s = (r, s') \<Longrightarrow> queue_of s' = queue_of s"
proof -
  have unpair: "queue_of (on_gateway radio_unpair s) = queue_of s" for s :: "('a, 'b, 'c, 'd, 'e, 'f, 'g, 'h) System"
    by (rule on_gateway_queue) (simp_all add: pairing_calls_queue)
  have put: "queue_of (on_gateway (\<lambda>_. g) s) = queue_of s" if "gw_queue g = gw_queue (gateway_of s) \<and> gw_flash g = gw_flash (gateway_of s)"
    for g and s :: "('a, 'b, 'c, 'd, 'e, 'f, 'g, 'h) System" using that by (intro on_gateway_queue) simp_all
  have save: "queue_of (snd (saveConfig W c s)) = queue_of s" for W c and s :: "('a, 'b, 'c, 'd, 'e, 'f, 'g, 'h) System"
    by (metis saveConfig_queue prod.collapse)
  show "handlePairStart s = (r, s') \<Longrightarrow> queue_of s' = queue_of s"
    by (auto simp: handlePairStart_def put dest!: pairing_calls_queue(1) split: prod.splits)
  show "handlePairCancel s = (r, s') \<Longrightarrow> queue_of s' = queue_of s"
    using pairing_calls_queue(3)[of "gateway_of s"] by (auto simp: handlePairCancel_def intro!: on_gateway_queue) (metis prod.collapse)+
  show "handlePairConfirm W s = (r, s') \<Longrightarrow> queue_of s' = queue_of s"
    by (auto simp: handlePairConfirm_def savePairedNode_def Let_def web_queue put unpair dest!: pairing_calls_queue(2) saveConfig_queue
        split: prod.splits bool.splits if_splits)
  show "handlePairManual W req s = (r, s') \<Longrightarrow> queue_of s' = queue_of s"
    by (auto simp: handlePairManual_def Let_def web_queue put save dest!: pairing_calls_queue(4) saveConfig_queue split: prod.splits bool.splits if_splits)
  show "handleUnpair W req s = (r, s') \<Longrightarrow> queue_of s' = queue_of s"
    by (auto simp: handleUnpair_def Let_def web_queue unpair dest!: saveConfig_queue split: prod.splits bool.splits if_splits)
qed

lemma command_handlers_queue [web_queue]:
  "handleEnterMaintenance W req s = (r, s') \<Longrightarrow> queue_of s' = queue_of s"
  "handlePollIntervalCommand W req s = (r, s') \<Longrightarrow> queue_of s' = queue_of s"
  "handleScheduleMaintenance W req s = (r, s') \<Longrightarrow> queue_of s' = queue_of s"
  "handleCancelCommand W req s = (r, s') \<Longrightarrow> queue_of s' = queue_of s"
  by (auto simp: handleEnterMaintenance_def handlePollIntervalCommand_def handleScheduleMaintenance_def handleCancelCommand_def Let_def
      web_queue intro!: on_gateway_queue dest!: web_now_queue queueCommand_queue split: prod.splits option.splits if_splits)

lemma reboot_handlers_queue [web_queue]:
  "queue_of (scheduleReboot W d s) = queue_of s" "queue_of (handleOtaUpload W chunk s) = queue_of s"
  "handleReboot W req s = (r, s') \<Longrightarrow> queue_of s' = queue_of s" "handleOtaComplete W s = (r, s') \<Longrightarrow> queue_of s' = queue_of s"
proof -
  have reboot: "queue_of (scheduleReboot W d s) = queue_of s" for d s by (simp add: scheduleReboot_def web_queue split: prod.split)
  show "queue_of (scheduleReboot W d s) = queue_of s" by (rule reboot)
  show "queue_of (handleOtaUpload W chunk s) = queue_of s" by (cases chunk) (simp_all add: Let_def web_queue split: prod.split)
  show "handleReboot W req s = (r, s') \<Longrightarrow> queue_of s' = queue_of s" by (auto simp: handleReboot_def reboot split: if_splits)
  show "handleOtaComplete W s = (r, s') \<Longrightarrow> queue_of s' = queue_of s" by (auto simp: handleOtaComplete_def Let_def reboot web_queue split: if_splits)
qed

lemma radio_restart_queue:
  "(case radio_restart R (gw_radio (gateway_of s), gw_air (gateway_of s)) of (restarted, rs, a) \<Rightarrow>
     (f restarted, on_gateway (\<lambda>g. g\<lparr>gw_radio := rs, gw_air := a\<rparr>) s)) = (r, s') \<Longrightarrow> queue_of s' = queue_of s"
  by (auto intro: on_gateway_queue split: prod.splits)


section \<open>Steps of the system\<close>

lemma handlePost_after:
  assumes path: "upload_path (wb_device W) content number flag" and ok: "queue_ok content (fst (queue_of s)) (snd (queue_of s))"
    and run: "handlePost W route req s = (r, s')"
  shows "queue_after content (queue_of s) (queue_of s')"
proof -
  have same: "queue_after content (queue_of s) (queue_of s')" if "queue_of s' = queue_of s"
    using queue_after_same[OF ok refl refl] that by simp
  have wifi: "queue_of s' = queue_of s" if "(t, s\<lparr>sy_device := (sy_device s)\<lparr>dv_wifi := m\<rparr>\<rparr>) = (r, s')" for t m
    using that by (auto simp: queue_of_def device_queue_def)
  have flush: "queue_of s' = queue_of s" if "(t, s\<lparr>sy_device := flushNow (wb_device W) (sy_device s)\<rparr>) = (r, s')" for t
    using that by (auto simp: web_queue queue_of_def)
  have none: "queue_of s' = queue_of s" if "(t, s) = (r, s')" for t using that by simp
  have test: "queue_after content (queue_of s) (queue_of s')" if "handleBackendTest W s = (r, s')"
  proof -
    obtain x w where 1: "performRequest (wb_device W) (configSnapshot (dv_backend (sy_device s))) Method_GET (ascii ''/api/v1/iot/gateway/ping'')
        (replicate 128 0) True (sy_device s) = (x, w)" by fastforce
    then have "sy_device s' = w" using that by (auto simp: handleBackendTest_def testConnection_def Let_def split: prod.splits if_splits)
    with upload_path.request_after[OF path 1] show ?thesis using ok by (simp add: queue_of_def upload_path.dq_ok_def[OF path])
  qed
  show ?thesis
    using run unfolding handlePost_def
    by (elim if_result_cases)
       (erule test | (rule same, erule config_handlers_queue) | (rule same, erule handleRadio_queue) | (rule same, erule pairing_handlers_queue)
        | (rule same, erule command_handlers_queue) | (rule same, erule reboot_handlers_queue(3,4)) | (rule same, erule wifi)
        | (rule same, erule flush) | (rule same, erule none) | (rule same, erule radio_restart_queue))+
qed

lemma rebootIfDue_after:
  assumes hw: "queue_hardware (dp_queue (wb_device W)) content number flag" and ok: "queue_ok content (fst (queue_of s)) (snd (queue_of s))"
  shows "queue_after content (queue_of s) (queue_of (rebootIfDue W s))"
proof -
  obtain q h where c: "checkpointCounters (dp_queue (wb_device W)) True (fst (queue_of s), snd (queue_of s)) = (q, h)" by fastforce
  have "usable q = usable (fst (queue_of s)) \<and> record_files content h = record_files content (snd (queue_of s))"
  proof (cases "dq_mutex (fst (queue_of s))")
    case True
    then have "checkpointCountersUnlocked (dp_queue (wb_device W)) True (fst (queue_of s), snd (queue_of s)) = (q, h)"
      using c by (simp add: checkpointCounters_def case_prod_beta)
    note k = queue_hardware.checkpoint_keeps[OF hw this]
    then show ?thesis using queue_hardware.files_content[OF hw, of h "snd (queue_of s)"] by (auto simp: usable_def)
  qed (use c in \<open>auto simp: checkpointCounters_def case_prod_beta\<close>)
  then have after: "queue_after content (queue_of s) (q, h)" using queue_after_same[OF ok] by simp
  have "queue_of (rebootIfDue W s) = queue_of s \<or> queue_of (rebootIfDue W s) = (q, h)"
    using c by (auto simp: rebootIfDue_def Let_def web_queue queue_of_def split: prod.splits)
  then show ?thesis using after queue_after_same[OF ok refl refl] by auto
qed

lemma handleGet_after:
  assumes path: "upload_path (wb_device W) content number flag" and ok: "queue_ok content (fst (queue_of s)) (snd (queue_of s))"
  shows "queue_after content (queue_of s) (queue_of (snd (handleGet F W gLogger allocated taken route s)))"
proof -
  let ?P = "wb_device W"
  have age: "queue_after content (device_queue w) (device_queue w')"
    if "oldestAge ?P i w = (x, w')" "queue_ok content (fst (device_queue w)) (snd (device_queue w))" for i w x w'
  proof -
    obtain okay oldest q h where p: "DurableQueue_peek (dp_queue ?P) 1 (device_queue w) = ((okay, oldest), q, h)" by (metis surj_pair)
    have dq: "upload_path.dq_ok content w" using that(2) by (simp add: upload_path.dq_ok_def[OF path])
    have "device_queue w' = device_queue w \<or> device_queue w' = (q, h)"
      using that(1) p by (auto simp: oldestAge_def Let_def dest!: clock_frame split: if_splits prod.splits)
    then show ?thesis using upload_path.peek_after[OF path p dq] queue_after_same[OF that(2) refl refl] by auto
  qed
  have status: "queue_after content (queue_of s) (queue_of (snd (handleStatus F W s)))"
  proof -
    define i where "i = gi_bootSessionId (db_identity (sy_dashboard s))"
    obtain wifi x where 1: "wifi_status (dp_wifi ?P) (dv_wifi (sy_device s), dv_driver (sy_device s)) = (wifi, x)" by fastforce
    obtain t w2 where 2: "device_timeStatus ?P ((sy_device s)\<lparr>dv_driver := x\<rparr>) = (t, w2)" by fastforce
    obtain us w3 where 3: "device_uptimeUs ?P w2 = (us, w3)" by fastforce
    obtain a w4 where 4: "oldestAge ?P i w3 = (a, w4)" by fastforce
    obtain us2 w5 where 5: "device_uptimeUs ?P w4 = (us2, w5)" by fastforce
    have "sy_device (snd (handleStatus F W s)) = w5"
      using 1 2 3 4 5 by (simp add: handleStatus_def readStatus_def Let_def i_def)
    moreover have "device_queue w3 = queue_of s"
      using clock_frame(1)[OF 3] 2 by (auto simp: device_timeStatus_def queue_of_def device_queue_def Let_def split: if_splits prod.splits)
    moreover have "device_queue w5 = device_queue w4" using clock_frame(1)[OF 5] by simp
    ultimately show ?thesis using age[OF 4] ok by (simp add: queue_of_def)
  qed
  have logs: "queue_of (snd (handleLogs W gLogger allocated taken s)) = queue_of s" by (simp add: handleLogs_def web_queue Let_def)
  show ?thesis using status queue_after_same[OF ok refl refl] by (simp add: handleGet_def logs)
qed

text \<open>One step: a round of a task, or one pass of the Arduino loop with the request it serves.\<close>
inductive system_step ::
  "('d, 'q, 'c, 'r, 'x, 'n, 'j, 'p, 'o) app_platform \<Rightarrow> status_env \<Rightarrow> ('d, 'q, 'c, 'r, 'x, 'n, 'p, 'o) System \<Rightarrow>
     ('d, 'q, 'c, 'r, 'x, 'n, 'p, 'o) System \<Rightarrow> bool"
  for A F where
  step_loop: "system_step A F s (app_loop A pending s)"
| step_get: "system_step A F s (rebootIfDue (ap_web A) (snd (handleGet F (ap_web A) gLogger allocated taken route s)))"
| step_chunk: "system_step A F s (handleOtaUpload (ap_web A) chunk s)"
| step_radio: "system_step A F s (on_gateway (radio_round (dp_double (wb_device (ap_web A))) (dp_queue (wb_device (ap_web A)))
    (wb_commands (ap_web A)) (dp_radio (wb_device (ap_web A))) portMAX_DELAY) s)"
| step_worker: "system_step A F s (s\<lparr>sy_device := worker_round (wb_device (ap_web A)) (sy_device s)\<rparr>)"
| step_wifi: "wifi_round (dp_wifi (wb_device (ap_web A))) (dv_wifi (sy_device s), dv_driver (sy_device s)) = (m, x) \<Longrightarrow>
    system_step A F s (s\<lparr>sy_device := (sy_device s)\<lparr>dv_wifi := m, dv_driver := x\<rparr>\<rparr>)"
| step_time: "system_step A F s (on_gateway (\<lambda>g. g\<lparr>gw_time := time_exec change (gw_time g)\<rparr>) s)"

text \<open>What every state reachable from \<open>s\<close> keeps.\<close>
lemma step_after:
  assumes "upload_path (wb_device (ap_web A)) content number flag" "radio_hardware (dp_radio (wb_device (ap_web A))) on_air"
    and ok: "queue_ok content (fst (queue_of s)) (snd (queue_of s))" and "system_step A F s s'"
  shows "queue_after content (queue_of s) (queue_of s')"
proof -
  let ?W = "ap_web A" and ?D = "wb_device (ap_web A)"
  have hw: "queue_hardware (dp_queue ?D) content number flag" using assms(1) by (rule upload_path.axioms(1))
  have same: "queue_after content (queue_of s) (queue_of s)" by (rule queue_after_same[OF ok refl refl, unfolded prod.collapse])
  have reboot: "queue_after content (queue_of s) (queue_of (rebootIfDue ?W v))" if "queue_after content (queue_of s) (queue_of v)"
    for v
    using queue_after_trans[OF that rebootIfDue_after[OF hw]] queue_after_ok[of content "queue_of s" "fst (queue_of v)"] that by simp
  from assms(4) show ?thesis
  proof cases
    case (step_loop pending)
    have "queue_after content (queue_of s) (queue_of (case pending of None \<Rightarrow> s | Some (route, req) \<Rightarrow> snd (handlePost ?W route req s)))"
      using same handlePost_after[OF assms(1) ok surjective_pairing] by (auto split: option.split prod.split)
    then show ?thesis unfolding step_loop app_loop_def by (rule reboot)
  next
    case (step_get gLogger allocated taken route)
    show ?thesis unfolding step_get by (rule reboot, rule handleGet_after[OF assms(1) ok])
  next
    case (step_chunk chunk)
    then show ?thesis using same by (simp add: web_queue)
  next
    case (step_radio portMAX_DELAY)
    have "queue_ok content (gw_queue (gateway_of s)) (gw_flash (gateway_of s))" using ok by (simp add: queue_of_def device_queue_def gateway_of_def)
    from radio_round_after[OF hw assms(2) this refl] show ?thesis
      unfolding step_radio by (simp add: queue_of_def device_queue_def gateway_of_def on_gateway_def)
  next
    case step_worker
    have "upload_path.dq_ok content (sy_device s)" using ok by (simp add: upload_path.dq_ok_def[OF assms(1)] queue_of_def)
    from upload_path.worker_round_after[OF assms(1) this] show ?thesis unfolding step_worker by (simp add: queue_of_def)
  next
    case (step_wifi m x)
    then show ?thesis using same by (simp add: queue_of_def device_queue_def)
  next
    case (step_time change)
    have "queue_of s' = queue_of s" unfolding step_time by (rule on_gateway_queue) simp_all
    then show ?thesis using same by simp
  qed
qed

lemma step_config:
  assumes "preferences (wb_prefs (ap_web A)) stored number opened" "system_step A F s s'"
    and sync: "config_synced stored opened (wb_fsub (ap_web A)) (config_part s)"
  shows "config_synced stored opened (wb_fsub (ap_web A)) (config_part s')"
proof -
  let ?W = "ap_web A"
  have reboot: "config_part (rebootIfDue ?W v) = config_part v" for v
    by (simp add: rebootIfDue_def Let_def config_part_def split: prod.split)
  have post: "config_synced stored opened (wb_fsub ?W) (config_part (snd (handlePost ?W route req s)))" for route req
    using servePosts_synced[OF assms(1) sync, of "[(route, req)]"] by simp
  have get: "config_part (snd (handleGet F ?W gLogger allocated taken route s)) = config_part s" for gLogger allocated taken route
    by (simp add: handleGet_def handleStatus_def handleLogs_def Let_def config_frame split: prod.split option.split)
  have chunk: "config_part (handleOtaUpload ?W chunk s) = config_part s" for chunk
    by (cases chunk) (simp_all add: Let_def config_frame split: prod.split)
  from assms(2) show ?thesis
    by cases (use sync post in \<open>auto simp: app_loop_def reboot get chunk config_frame split: option.split\<close>)
qed

text \<open>The configuration after the start-up.\<close>
lemma boot_synced:
  assumes "preferences (wb_prefs (ap_web A)) stored number opened" "\<not> cs_healthy (sy_config s0)" "app_begin A (a0, s0) = (a, s)"
    and "cs_healthy (sy_config s)"
  shows "config_synced stored opened (wb_fsub (ap_web A)) (config_part s)"
proof -
  obtain a1 :: GatewayApp and ready where b: "config_begin (wb_fsub (ap_web A)) (wb_prefs (ap_web A)) (Some (ga_derivedGatewayId a1)) (config_part s0)
      = (ready, config_part s)" by (rule boot_config[OF assms(3)])
  then have ready using config_begin_unhealthy assms(2,4) by (fastforce simp: config_part_def)
  with preferences.begin_makes_synced[OF assms(1)] b show ?thesis by (auto simp: config_part_def)
qed

text \<open>The queue after the start-up.\<close>
lemma begin_queue_ok:
  assumes "queue_hardware P content number flag" "flag h ''fs-ready'' = Some True" "record_files content h (-1) = None"
    and run: "DurableQueue_begin P (DurableQueue_init, h) = (ready, q, h')"
  shows "queue_ok content q h'"
proof (cases ready)
  case True
  then show ?thesis using queue_hardware.begin_outcome[OF assms(1-3)] run by (auto simp: queue_ok_def)
next
  case False
  then have "\<not> dq_healthy q" using run
    by (auto simp: DurableQueue_begin_def DurableQueue_init_def Let_def split: prod.splits bool.splits if_splits)
  then show ?thesis by (simp add: queue_ok_def usable_def)
qed

lemma boot_queue:
  assumes "app_begin A (a0, s0) = (a, s)" "queue_of s0 = (DurableQueue_init, h)"
  obtains ready where "DurableQueue_begin (dp_queue (wb_device (ap_web A))) (DurableQueue_init, h) = (ready, queue_of s)"
proof -
  obtain a1 s1 where 1: "startIdentity A (a0, s0) = (a1, s1)" by fastforce
  obtain configReady a2 s2 where 2: "startConfig A (a1, s1) = (configReady, a2, s2)" by (metis prod_cases3)
  obtain queueReady s3 where 3: "startQueue A s2 = (queueReady, s3)" by fastforce
  obtain commandReady s4 where 4: "startCommands A s3 = (commandReady, s4)" by fastforce
  obtain timeReady c where t: "time_begin (ap_time A) (sy_chip s4) = (timeReady, c)" by fastforce
  obtain radioReady s5 where 5: "startRadio A (gi_bootSessionId (ga_identity a2)) (s4\<lparr>sy_chip := c\<rparr>) = (radioReady, s5)" by fastforce
  obtain r s6 where 6: "startServices A a2 s5 = (r, s6)" by fastforce
  have q1: "queue_of s2 = (DurableQueue_init, h)"
    using 1 2 assms(2) by (auto simp: startIdentity_def startConfig_def Let_def web_queue split: prod.splits if_splits)
  have q3: "DurableQueue_begin (dp_queue (wb_device (ap_web A))) (DurableQueue_init, h) = (queueReady, queue_of s3)"
    using 3 q1 by (auto simp: startQueue_def queue_of_def Let_def app_log_def split: prod.splits if_splits)
  have q4: "queue_of s4 = queue_of s3"
    using 4 by (auto simp: startCommands_def Let_def web_queue intro!: on_gateway_queue[THEN trans] split: prod.splits)
  have radio: "gw_queue g' = gw_queue g \<and> gw_flash g' = gw_flash g" if "radio_begin D R k p i g = (b, g')" for D R k p i g b g'
    using that by (auto simp: radio_begin_def Let_def split: prod.splits if_splits bool.splits)
  have q5: "queue_of s5 = queue_of s4"
    using 5 by (auto simp: startRadio_def Let_def web_queue queue_of_def device_queue_def on_gateway_def gateway_of_def app_log_def
        dest!: radio split: prod.splits if_splits)
  have backend: "device_queue w' = device_queue w" if "backend_begin D k i n reason w = (b, w')" for D k i n reason w b w'
    using that by (auto simp: backend_begin_def Let_def queue_frame web_queue split: prod.splits if_splits)
  have wifi: "device_queue (w\<lparr>dv_wifi := m, dv_driver := x\<rparr>) = device_queue w" for w m x by (simp add: device_queue_def)
  have dev: "device_queue (sy_device v) = queue_of v" for v by (simp add: queue_of_def)
  have q6: "queue_of s6 = queue_of s5"
    using 6 by (auto simp: startServices_def dashboard_begin_def Let_def web_queue wifi dev dest!: backend split: prod.splits if_splits)
  have "queue_of s = queue_of s6"
    using assms(1) 1 2 3 4 t 5 6 by (auto simp: app_begin_def Let_def web_queue split: prod.splits)
  then show thesis using that q3 q4 q5 q6 by simp
qed


section \<open>Every run\<close>

text \<open>A number names one record: two states of a queue related by \<open>queue_after\<close> never hold different records under it.\<close>
lemma queue_after_same_record:
  assumes after: "queue_after content s s'" and ok: "queue_ok content (fst s) (snd s)"
    and x: "x \<in> set (stored_records content s)" and y: "y \<in> set (stored_records content s')" and same: "fst x = fst y"
  shows "x = y"
proof -
  obtain core where u: "usable (fst s) = Some core" and x': "x \<in> set (queue_view core (record_files content (snd s)))"
    using x by (cases "usable (fst s)") (auto simp: stored_records_def)
  obtain core' where u': "usable (fst s') = Some core'"
      and n: "numbered_after (qc_nextRecordId core) (queue_view core (record_files content (snd s)))
        (qc_nextRecordId core') (queue_view core' (record_files content (snd s')))"
    using after u by (auto simp: queue_after_def split: prod.splits)
  have inv: "core_inv core (record_files content (snd s))" using ok u by (simp add: queue_ok_def)
  have "fst x < qc_nextRecordId core \<or> qc_nextRecordId core = 0" using x' inv by (auto simp: queue_view_def core_inv_def)
  moreover have "y \<in> set (queue_view core' (record_files content (snd s')))" using y u' by (simp add: stored_records_def)
  ultimately have "y \<in> set (queue_view core (record_files content (snd s)))" using n same by (auto simp: numbered_after_def)
  then show ?thesis using x' same by (auto simp: queue_view_def)
qed

text \<open>What holds of every two states of a run, the second later than the first.\<close>
lemma steps_after:
  assumes "upload_path (wb_device (ap_web A)) content number flag" "radio_hardware (dp_radio (wb_device (ap_web A))) on_air"
    and "queue_ok content (fst (queue_of s)) (snd (queue_of s))" and "(system_step A F)\<^sup>*\<^sup>* s s'"
  shows "queue_after content (queue_of s) (queue_of s')"
  using assms(4)
proof induction
  case base
  show ?case by (rule queue_after_same[OF assms(3) refl refl, unfolded prod.collapse])
next
  case (step v v')
  have "queue_ok content (fst (queue_of v)) (snd (queue_of v))" using queue_after_ok[of content "queue_of s" "fst (queue_of v)"] step.IH by simp
  from queue_after_trans[OF step.IH step_after[OF assms(1,2) this step.hyps(2)]] show ?case .
qed

text \<open>C5: From power-on, over every run. The Gateway starts on flash with a formatted file system (no record has the largest
  number); then its tasks run in any order: rounds of the radio, backend, Wi-Fi and time tasks and of the loop with any
  web requests and firmware chunks, with any errors of the hardware. While the backend task is inside an HTTP request, the
  other tasks may change the queue in the ways the receive path does (the relation \<open>queue_after\<close>, a law of
  \<open>upload_path\<close> on \<open>dp_others\<close>). Take any two states of the run, the second reached from the first. In the
  second, every indexed record has its valid record file. Every record of the second queue was in the first queue, with the
  same number and file, or has a number the first queue had not given out; so two records with the same number, one in
  each state, are the same record, and no number is ever given to a second record. If the configuration store came up
  healthy, the configuration in memory is valid and the one stored.\<close>
theorem gateway_runs_safely:
  assumes "preferences (wb_prefs (ap_web A)) stored pnumber opened"
    and "upload_path (wb_device (ap_web A)) content number flag" "radio_hardware (dp_radio (wb_device (ap_web A))) on_air"
    and "queue_of s0 = (DurableQueue_init, h)" "flag h ''fs-ready'' = Some True" "record_files content h (-1) = None"
    and "\<not> cs_healthy (sy_config s0)" "app_begin A (a0, s0) = (a, s)" "(system_step A F)\<^sup>*\<^sup>* s v" "(system_step A F)\<^sup>*\<^sup>* v v'"
  shows "queue_ok content (fst (queue_of v')) (snd (queue_of v')) \<and> queue_after content (queue_of v) (queue_of v') \<and>
    (\<forall>x\<in>set (stored_records content (queue_of v)). \<forall>y\<in>set (stored_records content (queue_of v')). fst x = fst y \<longrightarrow> x = y) \<and>
    (cs_healthy (sy_config s) \<longrightarrow> config_synced stored opened (wb_fsub (ap_web A)) (config_part v'))"
proof -
  have hw: "queue_hardware (dp_queue (wb_device (ap_web A))) content number flag" using assms(2) by (rule upload_path.axioms(1))
  obtain ready where "DurableQueue_begin (dp_queue (wb_device (ap_web A))) (DurableQueue_init, h) = (ready, queue_of s)"
    using boot_queue[OF assms(8,4)] .
  then have start: "queue_ok content (fst (queue_of s)) (snd (queue_of s))" using begin_queue_ok[OF hw assms(5,6)] by (metis prod.collapse)
  have ok: "queue_ok content (fst (queue_of u)) (snd (queue_of u))" if "(system_step A F)\<^sup>*\<^sup>* s u" for u
    using steps_after[OF assms(2,3) start that] queue_after_ok[of content "queue_of s" "fst (queue_of u)"] by simp
  have run: "(system_step A F)\<^sup>*\<^sup>* s v'" using assms(9,10) by (rule rtranclp_trans)
  note queue = steps_after[OF assms(2,3) ok[OF assms(9)] assms(10)]
  have "config_synced stored opened (wb_fsub (ap_web A)) (config_part v')" if "cs_healthy (sy_config s)"
    using run
  proof induction
    case base
    show ?case using boot_synced[OF assms(1,7,8) that] .
  next
    case (step u u')
    show ?case by (rule step_config[OF assms(1) step.hyps(2) step.IH])
  qed
  then show ?thesis using queue ok[OF run] queue_after_same_record[OF queue ok[OF assms(9)]] by simp
qed

definition power_on :: "(unit, mem_hw, nvs_map, mem_air, mem_wifi, byte list list, nvs_map, mem_ota) System" where
  "power_on = on_gateway (\<lambda>g. g\<lparr>gw_queue := DurableQueue_init, gw_flash := empty_hw\<rparr>) served_system"

theorem gateway_runs_safely_witness:
  "let s = snd (app_begin mem_app (GatewayApp_init, power_on));
       s' = app_loop mem_app (Some (''/api/heartbeat'', [(''intervalSeconds'', ascii ''120'')]))
              (s\<lparr>sy_device := worker_round example_platform (sy_device s)\<rparr>) in
   cs_healthy (sy_config s) \<and> queue_ok (\<lambda>h. mf_content (fst h)) (fst (queue_of s')) (snd (queue_of s')) \<and>
   queue_after (\<lambda>h. mf_content (fst h)) (queue_of s) (queue_of s') \<and>
   config_synced nv_blobs nv_opened exact_sub (config_part s')"
proof -
  let ?F = "example_env"
  obtain a s where run: "app_begin mem_app (GatewayApp_init, power_on) = (a, s)" by fastforce
  define s1 where "s1 = s\<lparr>sy_device := worker_round example_platform (sy_device s)\<rparr>"
  define s2 where "s2 = app_loop mem_app (Some (''/api/heartbeat'', [(''intervalSeconds'', ascii ''120'')])) s1"
  have m: "ap_web mem_app = mem_web" "wb_prefs mem_web = nvs_map_api" "wb_fsub mem_web = exact_sub" "wb_device mem_web = example_platform"
      "dp_radio example_platform = mem_radio" "dp_queue example_platform = mem_platform"
    by (simp_all add: mem_app_def mem_web_def example_platform_def)
  have config: "config_part power_on = config_part served_system" by (simp add: power_on_def config_frame)
  then have init: "\<not> cs_healthy (sy_config power_on)" by (simp add: config_part_def served_system_def ConfigStore_init_def)
  have queue: "queue_of power_on = (DurableQueue_init, empty_hw)"
    by (simp add: power_on_def queue_of_def device_queue_def on_gateway_def)
  have ready: "mp_flags (snd empty_hw) ''fs-ready'' = Some True" "record_files (\<lambda>h. mf_content (fst h)) empty_hw (-1) = None"
    by (simp_all add: empty_hw_def record_files_def empty_fs_def mf_content_def)
  have steps: "(system_step mem_app ?F)\<^sup>*\<^sup>* s s2"
    using step_worker[of mem_app ?F s] step_loop[of mem_app ?F s1 "Some (''/api/heartbeat'', [(''intervalSeconds'', ascii ''120'')])"]
    unfolding m s1_def[symmetric] s2_def[symmetric] by (rule converse_rtranclp_into_rtranclp[OF _ r_into_rtranclp])
  obtain a1 :: GatewayApp and r where b: "config_begin exact_sub nvs_map_api (Some (ga_derivedGatewayId a1)) (sy_config served_system, sy_prefs served_system)
      = (r, sy_config s, sy_prefs s)" by (rule boot_config[OF run, unfolded m config, unfolded config_part_def])
  have "r" using preferences.begin_synced[OF nvs.preferences_axioms _ b] served_synced m by (auto simp: nvs_map_api_def)
  then have h: "cs_healthy (sy_config s)" using config_begin_healthy[of exact_sub nvs_map_api] b by auto
  note safe = gateway_runs_safely[of mem_app nv_blobs nv_numbers nv_opened, unfolded m, OF nvs.preferences_axioms example.upload_path_axioms
      mem_radio.radio_hardware_axioms queue ready init run rtranclp.rtrancl_refl steps]
  show ?thesis unfolding Let_def run snd_conv s1_def[symmetric] s2_def[symmetric] using safe h by blast
qed

end
